(* ===== verification/HC_Prelude.thy ===== *)
theory HC_Prelude
  imports Main "HOL-Library.Word" "HOL-Library.List_Lexorder" "HOL-Library.Product_Lexorder"
    "HOL-Library.Code_Target_Numeral"
begin

section \<open>Prelude: strings, machine integers, results and ordered maps\<close>

text \<open>
  The parts of the Rust language and standard library that the HeteroCloud crates use, and the
  generic lemmas on them that every component shares.

  \<^item> A Rust string is the list of its Unicode scalar values (\<open>chars\<close>); \<open>as_bytes\<close> is its UTF-8
    encoding and \<open>str_len\<close> (Rust's \<open>str::len\<close>) counts bytes. A literal is written
    \<open>lit ''...''\<close>.
  \<^item> \<open>u16\<close>, \<open>u32\<close> and \<open>u64\<close> are words of their width; \<open>i64\<close> is \<^typ>\<open>int\<close> with the range
    written out where the code checks it.
  \<^item> A \<open>Result<T, E>\<close> is \<open>'e + 'a\<close> with \<open>Inl\<close> the error. \<open>bindE\<close> is the question mark operator,
    \<open>fail_if\<close> an early return, \<open>first_error\<close> a sequence of them.
  \<^item> A \<open>BTreeMap\<close> is an association list in key order, as its iterator yields it.
\<close>

named_theorems res_simps \<open>rewriting of results: binds, early returns, sequences of checks\<close>
named_theorems str_simps \<open>unfolding of the string and byte predicates\<close>
named_theorems u_simps \<open>machine integers read as natural numbers\<close>

subsection \<open>Machine integers\<close>

type_synonym u16 = "16 word"
type_synonym u32 = "32 word"
type_synonym u64 = "64 word"
type_synonym i64 = int
type_synonym uuid = nat

definition u64_of :: "u32 \<Rightarrow> u64" where
  "u64_of w = ucast w"

definition saturating_add :: "u64 \<Rightarrow> u64 \<Rightarrow> u64" where
  "saturating_add a b =
     (if unat a + unat b < 2 ^ 64 then a + b else 18446744073709551615)"

definition saturating_mul :: "u64 \<Rightarrow> u64 \<Rightarrow> u64" where
  "saturating_mul a b =
     (if unat a * unat b < 2 ^ 64 then a * b else 18446744073709551615)"

definition checked_add_i64 :: "i64 \<Rightarrow> i64 \<Rightarrow> i64 option" where
  "checked_add_i64 a b =
     (if - (2 ^ 63) \<le> a + b \<and> a + b < 2 ^ 63 then Some (a + b) else None)"

definition saturating_add_i64 :: "i64 \<Rightarrow> i64 \<Rightarrow> i64" where
  "saturating_add_i64 a b = max (- (2 ^ 63)) (min (2 ^ 63 - 1) (a + b))"

lemma unat_u32_bound: "unat (w :: u32) < 2 ^ 32"
  using unsigned_less [of w] by simp

lemma unat_u64_bound: "unat (w :: u64) < 2 ^ 64"
  using unsigned_less [of w] by simp

lemma unat_u64_of [u_simps]: "unat (u64_of w) = unat w"
proof -
  have "unat w < 2 ^ 64" using unat_u32_bound [of w] by simp
  then show ?thesis
    by (simp add: u64_of_def unsigned_ucast_eq take_bit_nat_eq_self_iff)
qed

lemma unat_add_u64:
  "unat a + unat b < 2 ^ 64 \<Longrightarrow> unat ((a :: u64) + b) = unat a + unat b"
  by (simp add: unat_word_ariths)

lemma unat_mult_u64:
  "unat a * unat b < 2 ^ 64 \<Longrightarrow> unat ((a :: u64) * b) = unat a * unat b"
  by (simp add: unat_word_ariths)

lemma unat_u64_of_add [u_simps]: "unat (u64_of a + u64_of b) = unat a + unat b"
  using unat_u32_bound [of a] unat_u32_bound [of b]
  by (simp add: unat_add_u64 unat_u64_of)

lemma unat_u64_of_mult [u_simps]: "unat (u64_of a * u64_of b) = unat a * unat b"
proof -
  have "unat a * unat b < 2 ^ 32 * 2 ^ 32"
    using unat_u32_bound [of a] unat_u32_bound [of b] by (intro mult_strict_mono) auto
  then have "unat a * unat b < 2 ^ 64" by simp
  then show ?thesis by (simp add: unat_mult_u64 unat_u64_of)
qed

lemma unat_saturating_add [u_simps]:
  "unat (saturating_add a b) = min (unat a + unat b) (2 ^ 64 - 1)"
  by (auto simp: saturating_add_def unat_add_u64)

lemma unat_saturating_mul [u_simps]:
  "unat (saturating_mul a b) = min (unat a * unat b) (2 ^ 64 - 1)"
  by (auto simp: saturating_mul_def unat_mult_u64)

lemma saturating_mul_u32 [u_simps]:
  "saturating_mul (u64_of a) (u64_of b) = u64_of a * u64_of b"
proof -
  have "unat a * unat b < 2 ^ 32 * 2 ^ 32"
    using unat_u32_bound [of a] unat_u32_bound [of b] by (intro mult_strict_mono) auto
  then show ?thesis by (simp add: saturating_mul_def unat_u64_of)
qed

lemma checked_add_i64_Some:
  "checked_add_i64 a b = Some c \<longleftrightarrow> c = a + b \<and> - (2 ^ 63) \<le> a + b \<and> a + b < 2 ^ 63"
  by (auto simp: checked_add_i64_def)

subsection \<open>Results\<close>

definition bindE :: "'e + 'a \<Rightarrow> ('a \<Rightarrow> 'e + 'b) \<Rightarrow> 'e + 'b" where
  "bindE r f = (case r of Inl e \<Rightarrow> Inl e | Inr x \<Rightarrow> f x)"

definition fail_if :: "bool \<Rightarrow> 'e \<Rightarrow> 'e + unit" where
  "fail_if b e = (if b then Inl e else Inr ())"

definition ok_or :: "'a option \<Rightarrow> 'e \<Rightarrow> 'e + 'a" where
  "ok_or x e = (case x of None \<Rightarrow> Inl e | Some y \<Rightarrow> Inr y)"

definition map_err :: "('e \<Rightarrow> 'f) \<Rightarrow> 'e + 'a \<Rightarrow> 'f + 'a" where
  "map_err f r = (case r of Inl e \<Rightarrow> Inl (f e) | Inr x \<Rightarrow> Inr x)"

primrec first_error :: "('e + unit) list \<Rightarrow> 'e + unit" where
  "first_error [] = Inr ()"
| "first_error (r # rs) = (case r of Inl e \<Rightarrow> Inl e | Inr _ \<Rightarrow> first_error rs)"

primrec for_each :: "('a \<Rightarrow> 'e + unit) \<Rightarrow> 'a list \<Rightarrow> 'e + unit" where
  "for_each f [] = Inr ()"
| "for_each f (x # xs) = bindE (f x) (\<lambda>_. for_each f xs)"

primrec collectE :: "('a \<Rightarrow> 'e + 'b) \<Rightarrow> 'a list \<Rightarrow> 'e + 'b list" where
  "collectE f [] = Inr []"
| "collectE f (x # xs) = bindE (f x) (\<lambda>y. bindE (collectE f xs) (\<lambda>ys. Inr (y # ys)))"

lemma bindE_simps [simp, res_simps]:
  "bindE (Inl e) f = Inl e" "bindE (Inr x) f = f x"
  by (simp_all add: bindE_def)

lemma bindE_Inr_iff [res_simps]:
  "bindE r f = Inr y \<longleftrightarrow> (\<exists>x. r = Inr x \<and> f x = Inr y)"
  by (cases r) auto

lemma bindE_Inl_iff:
  "bindE r f = Inl e \<longleftrightarrow> r = Inl e \<or> (\<exists>x. r = Inr x \<and> f x = Inl e)"
  by (cases r) auto

lemma bindE_cong [fundef_cong]:
  "r = s \<Longrightarrow> (\<And>x. s = Inr x \<Longrightarrow> f x = g x) \<Longrightarrow> bindE r f = bindE s g"
  by (cases s) auto

lemma fail_if_Inr_iff [simp, res_simps]: "fail_if b e = Inr u \<longleftrightarrow> \<not> b"
  by (simp add: fail_if_def)

lemma fail_if_Inl_iff [simp, res_simps]: "fail_if b e = Inl e' \<longleftrightarrow> b \<and> e = e'"
  by (simp add: fail_if_def)

lemma fail_if_simps [simp]: "fail_if True e = Inl e" "fail_if False e = Inr ()"
  by (simp_all add: fail_if_def)

lemma ok_or_Inr_iff [simp, res_simps]: "ok_or x e = Inr y \<longleftrightarrow> x = Some y"
  by (auto simp: ok_or_def split: option.splits)

lemma ok_or_simps [simp]: "ok_or None e = Inl e" "ok_or (Some x) e = Inr x"
  by (simp_all add: ok_or_def)

lemma map_err_Inr_iff [simp, res_simps]: "map_err f r = Inr y \<longleftrightarrow> r = Inr y"
  by (cases r) (auto simp: map_err_def)

lemma map_err_Inl_iff: "map_err f r = Inl e \<longleftrightarrow> (\<exists>x. r = Inl x \<and> e = f x)"
  by (cases r) (auto simp: map_err_def)

lemma map_err_simps [simp]: "map_err f (Inl e) = Inl (f e)" "map_err f (Inr x) = Inr x"
  by (simp_all add: map_err_def)

lemma first_error_Inr_iff [simp, res_simps]:
  "first_error (r # rs) = Inr u \<longleftrightarrow> r = Inr () \<and> first_error rs = Inr ()"
  by (cases r) auto

lemma first_error_Cons [simp]:
  "first_error (Inl e # rs) = Inl e" "first_error (Inr u # rs) = first_error rs"
  by simp_all

lemma first_error_append:
  "first_error (rs @ ss) = bindE (first_error rs) (\<lambda>_. first_error ss)"
  by (induction rs) (auto simp: first_error.simps(2) split: sum.splits)

declare first_error.simps(2) [simp del]

lemma for_each_Inr_iff [simp, res_simps]:
  "for_each f xs = Inr u \<longleftrightarrow> (\<forall>x \<in> set xs. f x = Inr ())"
  by (induction xs) (auto simp: bindE_Inr_iff)

lemma collectE_Inr_iff:
  "collectE f xs = Inr ys \<longleftrightarrow> list_all2 (\<lambda>x y. f x = Inr y) xs ys"
  by (induction xs arbitrary: ys) (auto simp: bindE_Inr_iff list_all2_Cons1)

lemma unit_result_cases:
  obtains (ok) "r = Inr ()" | (err) e where "r = Inl e"
  by (cases r) auto

subsection \<open>Characters and bytes\<close>

type_synonym rchar = nat
type_synonym str = "rchar list"

definition lit :: "string \<Rightarrow> str" where
  "lit s = map of_char s"

definition utf8 :: "rchar \<Rightarrow> nat list" where
  "utf8 c =
     (if c < 128 then [c]
      else if c < 2048 then [192 + c div 64, 128 + c mod 64]
      else if c < 65536 then [224 + c div 4096, 128 + c div 64 mod 64, 128 + c mod 64]
      else [240 + c div 262144, 128 + c div 4096 mod 64, 128 + c div 64 mod 64, 128 + c mod 64])"

definition as_bytes :: "str \<Rightarrow> nat list" where
  "as_bytes s = concat (map utf8 s)"

definition str_len :: "str \<Rightarrow> nat" where
  "str_len s = length (as_bytes s)"

definition is_ascii_lowercase :: "nat \<Rightarrow> bool" where
  "is_ascii_lowercase b \<longleftrightarrow> 97 \<le> b \<and> b \<le> 122"

definition is_ascii_uppercase :: "nat \<Rightarrow> bool" where
  "is_ascii_uppercase b \<longleftrightarrow> 65 \<le> b \<and> b \<le> 90"

definition is_ascii_digit :: "nat \<Rightarrow> bool" where
  "is_ascii_digit b \<longleftrightarrow> 48 \<le> b \<and> b \<le> 57"

definition is_ascii_alphabetic :: "nat \<Rightarrow> bool" where
  "is_ascii_alphabetic b \<longleftrightarrow> is_ascii_lowercase b \<or> is_ascii_uppercase b"

definition is_ascii_alphanumeric :: "nat \<Rightarrow> bool" where
  "is_ascii_alphanumeric b \<longleftrightarrow> is_ascii_alphabetic b \<or> is_ascii_digit b"

text \<open>\<open>char::is_whitespace\<close>: the Unicode property White\_Space.\<close>

definition is_whitespace :: "rchar \<Rightarrow> bool" where
  "is_whitespace c \<longleftrightarrow>
     9 \<le> c \<and> c \<le> 13 \<or> c = 32 \<or> c = 133 \<or> c = 160 \<or> c = 5760 \<or> 8192 \<le> c \<and> c \<le> 8202
     \<or> c = 8232 \<or> c = 8233 \<or> c = 8239 \<or> c = 8287 \<or> c = 12288"

text \<open>\<open>char::is_control\<close>: the general category Cc.\<close>

definition is_control :: "rchar \<Rightarrow> bool" where
  "is_control c \<longleftrightarrow> c < 32 \<or> 127 \<le> c \<and> c \<le> 159"

definition to_ascii_lowercase :: "str \<Rightarrow> str" where
  "to_ascii_lowercase s = map (\<lambda>c. if is_ascii_uppercase c then c + 32 else c) s"

definition to_ascii_uppercase :: "str \<Rightarrow> str" where
  "to_ascii_uppercase s = map (\<lambda>c. if is_ascii_lowercase c then c - 32 else c) s"

definition eq_ignore_ascii_case :: "str \<Rightarrow> str \<Rightarrow> bool" where
  "eq_ignore_ascii_case s t \<longleftrightarrow> to_ascii_lowercase s = to_ascii_lowercase t"

lemmas ascii_defs [str_simps] =
  is_ascii_lowercase_def is_ascii_uppercase_def is_ascii_digit_def is_ascii_alphabetic_def
  is_ascii_alphanumeric_def

definition first_is :: "(nat \<Rightarrow> bool) \<Rightarrow> nat list \<Rightarrow> bool" where
  "first_is P bs = (case bs of [] \<Rightarrow> False | b # _ \<Rightarrow> P b)"

definition last_is :: "(nat \<Rightarrow> bool) \<Rightarrow> nat list \<Rightarrow> bool" where
  "last_is P bs \<longleftrightarrow> bs \<noteq> [] \<and> P (last bs)"

fun strip_prefix :: "str \<Rightarrow> str \<Rightarrow> str option" where
  "strip_prefix [] s = Some s"
| "strip_prefix (p # ps) [] = None"
| "strip_prefix (p # ps) (c # s) = (if p = c then strip_prefix ps s else None)"

fun split_once :: "rchar \<Rightarrow> str \<Rightarrow> (str \<times> str) option" where
  "split_once d [] = None"
| "split_once d (c # s) =
     (if c = d then Some ([], s)
      else (case split_once d s of None \<Rightarrow> None | Some (a, b) \<Rightarrow> Some (c # a, b)))"

definition trim :: "str \<Rightarrow> str" where
  "trim s = rev (dropWhile is_whitespace (rev (dropWhile is_whitespace s)))"

lemma utf8_not_Nil [simp]: "utf8 c \<noteq> []"
  by (simp add: utf8_def)

lemma utf8_ascii [simp]: "c < 128 \<Longrightarrow> utf8 c = [c]"
  by (simp add: utf8_def)

lemma utf8_non_ascii: "128 \<le> c \<Longrightarrow> b \<in> set (utf8 c) \<Longrightarrow> 128 \<le> b"
  by (auto simp: utf8_def split: if_splits)

lemma as_bytes_Nil_iff [simp]: "as_bytes s = [] \<longleftrightarrow> s = []"
  by (cases s) (auto simp: as_bytes_def)

lemma as_bytes_simps [simp]:
  "as_bytes [] = []" "as_bytes (c # s) = utf8 c @ as_bytes s"
  by (simp_all add: as_bytes_def)

lemma str_len_simps [simp]:
  "str_len [] = 0" "str_len (c # s) = length (utf8 c) + str_len s"
  by (simp_all add: str_len_def)

lemma str_len_append: "str_len (s @ t) = str_len s + str_len t"
  by (simp add: str_len_def as_bytes_def)

lemma length_le_str_len: "length s \<le> str_len s"
  by (induction s) (auto simp: str_len_def as_bytes_def utf8_def)

text \<open>
  A test that only ASCII bytes pass holds of all bytes of a string exactly when it holds of all
  its characters, and then bytes and characters are the same list.
\<close>

lemma utf8_all_ascii:
  assumes "\<And>b. P b \<Longrightarrow> b < 128"
  shows "list_all P (utf8 c) \<longleftrightarrow> P c"
proof (cases "c < 128")
  case False
  have mem: "hd (utf8 c) \<in> set (utf8 c)" by simp
  with False have "128 \<le> hd (utf8 c)" using utf8_non_ascii [of c "hd (utf8 c)"] by simp
  then have "\<not> P (hd (utf8 c))" using assms [of "hd (utf8 c)"] by auto
  with mem have "\<not> list_all P (utf8 c)" by (auto simp only: list_all_iff)
  with False assms [of c] show ?thesis by auto
qed simp

lemma as_bytes_all_ascii:
  assumes "\<And>b. P b \<Longrightarrow> b < 128"
  shows "list_all P (as_bytes s) \<longleftrightarrow> list_all P s"
  by (induction s) (auto simp: utf8_all_ascii [OF assms])

lemma as_bytes_ascii: "list_all (\<lambda>c. c < 128) s \<Longrightarrow> as_bytes s = s"
  by (induction s) auto

lemma strip_prefix_Some_iff: "strip_prefix p s = Some t \<longleftrightarrow> s = p @ t"
  by (induction p s rule: strip_prefix.induct) auto

lemma strip_prefix_append [simp]: "strip_prefix p (p @ t) = Some t"
  by (simp add: strip_prefix_Some_iff)

lemma split_once_Some_iff:
  "split_once d s = Some (a, b) \<longleftrightarrow> s = a @ d # b \<and> d \<notin> set a"
proof (induction s arbitrary: a)
  case (Cons c s)
  show ?case
  proof (cases a)
    case Nil
    then show ?thesis by (simp split: option.split)
  next
    case (Cons x xs)
    then show ?thesis using Cons.IH [of xs] by (simp split: option.split) auto
  qed
qed simp

subsection \<open>Decimal integers\<close>

text \<open>
  \<open>str::parse::<i64>\<close>: an optional sign and at least one ASCII digit, in range; and the decimal
  rendering \<open>to_string\<close> of an integer.
\<close>

definition digits_val :: "str \<Rightarrow> nat" where
  "digits_val = foldl (\<lambda>n d. 10 * n + (d - 48)) 0"

definition parse_digits :: "str \<Rightarrow> nat option" where
  "parse_digits s = (if s \<noteq> [] \<and> list_all is_ascii_digit s then Some (digits_val s) else None)"

definition in_i64 :: "int \<Rightarrow> bool" where
  "in_i64 n \<longleftrightarrow> - (2 ^ 63) \<le> n \<and> n < 2 ^ 63"

definition parse_i64 :: "str \<Rightarrow> i64 option" where
  "parse_i64 s =
     (case (case s of [] \<Rightarrow> None
            | c # t \<Rightarrow>
                if c = 45 then map_option (\<lambda>n. - int n) (parse_digits t)
                else if c = 43 then map_option int (parse_digits t)
                else map_option int (parse_digits s)) of
        None \<Rightarrow> None
      | Some n \<Rightarrow> if in_i64 n then Some n else None)"

fun nat_to_string :: "nat \<Rightarrow> str" where
  "nat_to_string n = (if n < 10 then [48 + n] else nat_to_string (n div 10) @ [48 + n mod 10])"

declare nat_to_string.simps [simp del]

definition int_to_string :: "int \<Rightarrow> str" where
  "int_to_string n =
     (if n < 0 then 45 # nat_to_string (nat (- n)) else nat_to_string (nat n))"

lemma nat_to_string_digits: "list_all is_ascii_digit (nat_to_string n)"
proof (induction n rule: nat_to_string.induct)
  case (1 n)
  moreover have "n mod 10 < 10" by simp
  ultimately show ?case
    by (subst nat_to_string.simps) (auto simp: is_ascii_digit_def [of "48 + _"] less_Suc_eq_le)
qed

lemma nat_to_string_not_Nil [simp]: "nat_to_string n \<noteq> []"
  by (subst nat_to_string.simps) simp

lemma digits_val_snoc: "digits_val (s @ [d]) = 10 * digits_val s + (d - 48)"
  by (simp add: digits_val_def)

lemma digits_val_single: "digits_val [d] = d - 48"
  by (simp add: digits_val_def)

lemma digits_val_nat_to_string: "digits_val (nat_to_string n) = n"
proof (induction n rule: nat_to_string.induct)
  case (1 n)
  then show ?case
    by (subst nat_to_string.simps) (simp add: digits_val_snoc digits_val_single)
qed

lemma parse_digits_nat_to_string: "parse_digits (nat_to_string n) = Some n"
  by (simp add: parse_digits_def nat_to_string_digits digits_val_nat_to_string)

lemma nat_to_string_head:
  obtains c t where "nat_to_string n = c # t" "48 \<le> c" "c \<le> 57"
proof -
  obtain c t where ct: "nat_to_string n = c # t"
    by (cases "nat_to_string n") auto
  with nat_to_string_digits [of n] have "48 \<le> c" "c \<le> 57"
    by (auto simp: is_ascii_digit_def)
  with ct show thesis by (rule that)
qed

lemma parse_i64_int_to_string: "in_i64 n \<Longrightarrow> parse_i64 (int_to_string n) = Some n"
proof (cases "n < 0")
  case True
  moreover assume "in_i64 n"
  ultimately show ?thesis
    by (simp add: parse_i64_def int_to_string_def parse_digits_nat_to_string)
next
  case False
  moreover assume "in_i64 n"
  moreover obtain c t where "nat_to_string (nat n) = c # t" "48 \<le> c" "c \<le> 57"
    by (rule nat_to_string_head)
  ultimately show ?thesis
    using parse_digits_nat_to_string [of "nat n"]
    by (simp add: parse_i64_def int_to_string_def)
qed

subsection \<open>Ordered maps\<close>

type_synonym ('k, 'v) btree = "('k \<times> 'v) list"

definition btree_wf :: "('k::linorder, 'v) btree \<Rightarrow> bool" where
  "btree_wf m \<longleftrightarrow> sorted_wrt (<) (map fst m)"

text \<open>\<open>BTreeMap::insert\<close> keeps key order and replaces the value of an existing key.\<close>

fun btree_insert :: "'k::linorder \<Rightarrow> 'v \<Rightarrow> ('k, 'v) btree \<Rightarrow> ('k, 'v) btree" where
  "btree_insert k v [] = [(k, v)]"
| "btree_insert k v ((k', v') # m) =
     (if k < k' then (k, v) # (k', v') # m
      else if k = k' then (k, v) # m
      else (k', v') # btree_insert k v m)"

lemma map_of_btree_insert: "map_of (btree_insert k v m) = (map_of m)(k \<mapsto> v)"
  by (induction k v m rule: btree_insert.induct) auto

lemma keys_btree_insert: "fst ` set (btree_insert k v m) = insert k (fst ` set m)"
  by (induction k v m rule: btree_insert.induct) auto

lemma btree_wf_insert: "btree_wf m \<Longrightarrow> btree_wf (btree_insert k v m)"
proof (induction k v m rule: btree_insert.induct)
  case (2 k v k' v' m)
  then have wf: "btree_wf m" and lt: "\<forall>x \<in> fst ` set m. k' < x"
    by (auto simp: btree_wf_def)
  show ?case
  proof (cases "k < k' \<or> k = k'")
    case True
    with lt wf show ?thesis by (auto simp: btree_wf_def)
  next
    case False
    then have "btree_wf (btree_insert k v m)" using 2 wf by auto
    moreover have "\<forall>x \<in> fst ` set (btree_insert k v m). k' < x"
      using False lt by (auto simp: keys_btree_insert)
    ultimately show ?thesis using False by (auto simp: btree_wf_def)
  qed
qed (simp add: btree_wf_def)

lemma btree_wf_distinct: "btree_wf m \<Longrightarrow> distinct (map fst m)"
  by (auto simp: btree_wf_def strict_sorted_iff)

subsection \<open>Lists\<close>

lemma length_filter_strict:
  assumes "x \<in> set xs" "P x" "\<not> Q x" "\<And>y. Q y \<Longrightarrow> P y"
  shows "length (filter Q xs) < length (filter P xs)"
proof -
  have "filter Q (filter P xs) = filter Q xs"
    using assms(4) by (induction xs) auto
  moreover have "length (filter Q (filter P xs)) < length (filter P xs)"
    using assms by (intro length_filter_less) auto
  ultimately show ?thesis by simp
qed

subsection \<open>JSON values\<close>

text \<open>
  \<open>serde_json::Value\<close>. A number that is an integer of the \<open>i64\<close> or \<open>u64\<close> range is kept as the
  integer; any other number is \<open>JFloat\<close> with its rendering.
\<close>

datatype json =
    JNull
  | JBool bool
  | JInt int
  | JFloat str
  | JString str
  | JArray "json list"
  | JObject "(str \<times> json) list"

fun json_get :: "str \<Rightarrow> json \<Rightarrow> json option" where
  "json_get k (JObject m) = map_of m k"
| "json_get k _ = None"

fun json_as_u64 :: "json \<Rightarrow> nat option" where
  "json_as_u64 (JInt n) = (if 0 \<le> n \<and> n < 2 ^ 64 then Some (nat n) else None)"
| "json_as_u64 _ = None"

fun json_as_str :: "json \<Rightarrow> str option" where
  "json_as_str (JString s) = Some s"
| "json_as_str _ = None"

subsection \<open>Keys of rows\<close>

lemma list_ex_key: "list_ex (\<lambda>y. k y = a) xs \<longleftrightarrow> a \<in> k ` set xs"
  by (induction xs) auto

lemma distinct_rekey:
  assumes "distinct (map i xs)" "distinct (map p xs)" "\<forall>x \<in> set xs. i x = k \<or> p x \<noteq> q"
  shows "distinct (map (\<lambda>x. if i x = k then q else p x) xs)"
  using assms by (induction xs) (auto split: if_splits, metis imageI, metis imageI)

lemma find_eq_Some: "find P xs = Some x \<Longrightarrow> x \<in> set xs \<and> P x"
  by (auto simp: find_Some_iff)

lemma find_unique:
  assumes "distinct (map k xs)" "x \<in> set xs" "P x" "\<And>y. y \<in> set xs \<Longrightarrow> P y \<Longrightarrow> k y = k x"
  shows "find P xs = Some x"
proof (cases "find P xs")
  case None
  with assms(2,3) show ?thesis by (auto simp: find_None_iff)
next
  case (Some y)
  from find_eq_Some [OF this] assms have "y = x" by (metis distinct_map inj_onD)
  with Some show ?thesis by simp
qed

lemma find_appended: "find P xs = None \<Longrightarrow> find P (xs @ [x]) = (if P x then Some x else None)"
  by (induction xs) auto

lemma min_list_in: "xs \<noteq> [] \<Longrightarrow> min_list xs \<in> set (xs :: 'a :: linorder list)"
  by (metis Min_in List.finite_set min_list_Min set_empty)

end
