(* ===== verification/Wildcard.thy ===== *)
theory Wildcard
  imports HC_Prelude
begin

section \<open>Wildcard matching of actions and resources\<close>

text \<open>
  The matcher of \<open>src/crates/heterocloud-iam/src/lib.rs\<close> (\<open>pattern_matches\<close> and
  \<open>action_pattern_matches\<close>): a greedy two-index loop that remembers the last star and where to
  retry. It is compared with the declarative meaning of a wildcard pattern, \<open>wildcard\<close>: a star
  (42) stands for any string, a question mark (63) for any one character, every other character
  for itself.
\<close>

subsection \<open>The loop of the code\<close>

function pattern_loop :: "str \<Rightarrow> str \<Rightarrow> nat \<Rightarrow> nat \<Rightarrow> nat option \<Rightarrow> nat \<Rightarrow> nat option" where
  "pattern_loop P V p v star retry =
     (if v < length V then
        (if p < length P \<and> (P ! p = 63 \<or> P ! p = V ! v) then
           pattern_loop P V (p + 1) (v + 1) star retry
         else if p < length P \<and> P ! p = 42 then
           pattern_loop P V (p + 1) v (Some p) v
         else (case star of
             Some index \<Rightarrow> pattern_loop P V (index + 1) (retry + 1) star (retry + 1)
           | None \<Rightarrow> None))
      else Some p)"
  by pat_completeness auto

text \<open>
  From the second iteration on the loop keeps \<open>retry \<le> v\<close> and the remembered star before \<open>p\<close>.
  Under that invariant a new star lies after the old one, and a backtrack moves \<open>retry\<close>; a state
  without the invariant is left for good after at most one star or backtrack.
\<close>

definition loop_ranked :: "nat \<Rightarrow> nat \<Rightarrow> nat option \<Rightarrow> nat \<Rightarrow> bool" where
  "loop_ranked p v star retry \<longleftrightarrow>
     retry \<le> v \<and> (case star of None \<Rightarrow> True | Some i \<Rightarrow> i < p)"

termination pattern_loop
  by (relation "measures
        [\<lambda>(P, V, p, v, star, retry). if loop_ranked p v star retry then 0 else 1,
         \<lambda>(P, V, p, v, star, retry). length P - (case star of None \<Rightarrow> 0 | Some i \<Rightarrow> Suc i),
         \<lambda>(P, V, p, v, star, retry). length V - retry,
         \<lambda>(P, V, p, v, star, retry). length V - v]")
     (auto simp: loop_ranked_def split: option.splits)

function skip_stars :: "str \<Rightarrow> nat \<Rightarrow> nat" where
  "skip_stars P p = (if p < length P \<and> P ! p = 42 then skip_stars P (p + 1) else p)"
  by pat_completeness auto
termination
  by (relation "measure (\<lambda>(P, p). length P - p)") auto

declare pattern_loop.simps [simp del] skip_stars.simps [simp del]

definition loop_accepts :: "str \<Rightarrow> str \<Rightarrow> nat \<Rightarrow> nat \<Rightarrow> nat option \<Rightarrow> nat \<Rightarrow> bool" where
  "loop_accepts P V p v star retry =
     (case pattern_loop P V p v star retry of
        None \<Rightarrow> False
      | Some q \<Rightarrow> skip_stars P q = length P)"

definition pattern_matches :: "str \<Rightarrow> str \<Rightarrow> bool" where
  "pattern_matches pattern val = loop_accepts pattern val 0 0 None 0"

definition action_pattern_matches :: "str \<Rightarrow> str \<Rightarrow> bool" where
  "action_pattern_matches pattern val =
     pattern_matches (to_ascii_lowercase pattern) (to_ascii_lowercase val)"

subsection \<open>The meaning of a pattern\<close>

inductive wildcard :: "str \<Rightarrow> str \<Rightarrow> bool" where
  wild_nil: "wildcard [] []"
| wild_star: "wildcard p v \<Longrightarrow> wildcard (42 # p) (u @ v)"
| wild_any: "wildcard p v \<Longrightarrow> wildcard (63 # p) (x # v)"
| wild_char: "wildcard p v \<Longrightarrow> c \<noteq> 42 \<Longrightarrow> wildcard (c # p) (c # v)"

inductive_simps wildcard_Nil [simp]: "wildcard [] v"
inductive_cases wildcard_starE: "wildcard (42 # p) v"
inductive_cases wildcard_ConsE: "wildcard (c # p) v"

lemma wildcard_star: "wildcard (42 # p) v \<longleftrightarrow> (\<exists>k. wildcard p (drop k v))"
proof
  assume "wildcard (42 # p) v"
  then obtain u w where "v = u @ w" "wildcard p w" by (auto elim: wildcard_starE)
  then have "wildcard p (drop (length u) v)" by simp
  then show "\<exists>k. wildcard p (drop k v)" ..
next
  assume "\<exists>k. wildcard p (drop k v)"
  then obtain k where "wildcard p (drop k v)" ..
  then have "wildcard (42 # p) (take k v @ drop k v)" by (rule wild_star)
  then show "wildcard (42 # p) v" by simp
qed

lemma wildcard_plain:
  "c \<noteq> 42 \<Longrightarrow>
   wildcard (c # p) v \<longleftrightarrow> (\<exists>x w. v = x # w \<and> (c = 63 \<or> c = x) \<and> wildcard p w)"
  by (auto elim: wildcard_ConsE intro: wildcard.intros)

lemma wildcard_Cons_empty [simp]: "wildcard (c # p) [] \<longleftrightarrow> c = 42 \<and> wildcard p []"
  by (cases "c = 42") (auto simp: wildcard_star wildcard_plain)

lemma wildcard_empty: "wildcard p [] \<longleftrightarrow> set p \<subseteq> {42}"
  by (induction p) auto

lemma skip_stars_end: "skip_stars P p = length P \<longleftrightarrow> p \<le> length P \<and> wildcard (drop p P) []"
proof (induction P p rule: skip_stars.induct)
  case (1 P p)
  show ?case
  proof (cases "p < length P")
    case True
    then have "drop p P = P ! p # drop (p + 1) P" by (simp add: Cons_nth_drop_Suc)
    with 1 True show ?thesis by (subst skip_stars.simps) auto
  next
    case False
    then show ?thesis by (subst skip_stars.simps) auto
  qed
qed

subsection \<open>The loop never accepts too much\<close>

abbreviation suffix_match :: "str \<Rightarrow> str \<Rightarrow> nat \<Rightarrow> nat \<Rightarrow> bool" where
  "suffix_match P V p v \<equiv> wildcard (drop p P) (drop v V)"

text \<open>What the loop still has to find: a match from here, or from the last star after a retry.\<close>

definition loop_goal :: "str \<Rightarrow> str \<Rightarrow> nat \<Rightarrow> nat \<Rightarrow> nat option \<Rightarrow> nat \<Rightarrow> bool" where
  "loop_goal P V p v star retry \<longleftrightarrow>
     suffix_match P V p v
     \<or> (case star of None \<Rightarrow> False | Some i \<Rightarrow> \<exists>k > retry. suffix_match P V (i + 1) k)"

lemma suffix_match_star:
  assumes "p < length P" "P ! p = 42"
  shows "suffix_match P V p v \<longleftrightarrow> (\<exists>k \<ge> v. suffix_match P V (p + 1) k)"
proof -
  have "drop p P = 42 # drop (p + 1) P"
    using assms by (metis Cons_nth_drop_Suc Suc_eq_plus1)
  then have "suffix_match P V p v \<longleftrightarrow> (\<exists>k. wildcard (drop (p + 1) P) (drop (k + v) V))"
    by (simp add: wildcard_star)
  also have "\<dots> \<longleftrightarrow> (\<exists>k \<ge> v. suffix_match P V (p + 1) k)"
    by (metis le_add2 le_add_diff_inverse2)
  finally show ?thesis .
qed

lemma suffix_match_plain:
  assumes "p < length P" "P ! p \<noteq> 42" "v < length V"
  shows "suffix_match P V p v \<longleftrightarrow>
    (P ! p = 63 \<or> P ! p = V ! v) \<and> suffix_match P V (p + 1) (v + 1)"
proof -
  have "drop p P = P ! p # drop (p + 1) P" "drop v V = V ! v # drop (v + 1) V"
    using assms by (simp_all add: Cons_nth_drop_Suc)
  with assms show ?thesis by (simp add: wildcard_plain)
qed

lemma suffix_match_step:
  assumes "p < length P" "v < length V" "P ! p = 63 \<or> P ! p = V ! v"
    and "suffix_match P V (p + 1) (v + 1)"
  shows "suffix_match P V p v"
proof (cases "P ! p = 42")
  case True
  with assms show ?thesis by (auto simp: suffix_match_star intro!: exI [of _ "v + 1"])
next
  case False
  with assms show ?thesis by (simp add: suffix_match_plain)
qed

lemma loop_accepts_sound:
  "loop_accepts P V p v star retry \<Longrightarrow> loop_goal P V p v star retry"
proof (induction P V p v star retry rule: pattern_loop.induct)
  case (1 P V p v star retry)
  note acc = "1.prems" [unfolded loop_accepts_def, simplified pattern_loop.simps [of P V p]]
  consider (fin) "\<not> v < length V"
    | (step) "v < length V" "p < length P \<and> (P ! p = 63 \<or> P ! p = V ! v)"
    | (star) "v < length V" "\<not> (p < length P \<and> (P ! p = 63 \<or> P ! p = V ! v))"
        "p < length P \<and> P ! p = 42"
    | (again) "v < length V" "\<not> (p < length P \<and> (P ! p = 63 \<or> P ! p = V ! v))"
        "\<not> (p < length P \<and> P ! p = 42)"
    by blast
  then show ?case
  proof cases
    case fin
    with acc show ?thesis by (simp add: loop_goal_def skip_stars_end)
  next
    case step
    with acc have "loop_goal P V (p + 1) (v + 1) star retry"
      by (intro "1.IH"(1)) (simp_all add: loop_accepts_def)
    with step show ?thesis by (auto simp: loop_goal_def intro: suffix_match_step)
  next
    case star
    with acc have "loop_goal P V (p + 1) v (Some p) v"
      by (intro "1.IH"(2)) (simp_all add: loop_accepts_def)
    with star show ?thesis
      by (auto simp: loop_goal_def suffix_match_star intro: less_imp_le)
  next
    case again
    with acc obtain i where i: "star = Some i"
      and acc': "loop_accepts P V (i + 1) (retry + 1) star (retry + 1)"
      by (auto simp: loop_accepts_def split: option.splits)
    have "loop_goal P V (i + 1) (retry + 1) star (retry + 1)"
      using "1.IH"(3) [OF again i] acc' i by simp
    with i show ?thesis by (auto simp: loop_goal_def intro: exI [of _ "Suc retry"])
  qed
qed

subsection \<open>The loop accepts every match\<close>

text \<open>
  The code compares a pattern character with the value character before it looks for a star, so
  a star of the pattern that meets a star of the value is consumed as a plain character. Values
  whose only star is their last character are still matched exactly, unless the pattern has a
  question mark for that character to meet.
\<close>

definition star_clean :: "str \<Rightarrow> str \<Rightarrow> bool" where
  "star_clean P V \<longleftrightarrow> 42 \<notin> set (butlast V) \<and> (63 \<in> set P \<longrightarrow> 42 \<notin> set V)"

text \<open>
  Between the remembered star and \<open>p\<close> the pattern has no star, and as many characters as the
  value between \<open>retry\<close> and \<open>v\<close>.
\<close>

definition loop_inv :: "str \<Rightarrow> str \<Rightarrow> nat \<Rightarrow> nat \<Rightarrow> nat option \<Rightarrow> nat \<Rightarrow> bool" where
  "loop_inv P V p v star retry \<longleftrightarrow>
     p \<le> length P \<and> v \<le> length V
     \<and> (case star of
          None \<Rightarrow> True
        | Some i \<Rightarrow> i < p \<and> retry \<le> v \<and> v - retry = p - (i + 1) \<and> (\<forall>j. i < j \<and> j < p \<longrightarrow> P ! j \<noteq> 42))"

lemma plain_segment:
  assumes "a \<le> b" "b \<le> length P" "\<forall>j. a \<le> j \<and> j < b \<longrightarrow> P ! j \<noteq> 42" "wildcard (drop a P) w"
  shows "b - a \<le> length w \<and> wildcard (drop b P) (drop (b - a) w)"
  using assms
proof (induction b rule: dec_induct)
  case (step b)
  then have ih: "b - a \<le> length w" "wildcard (drop b P) (drop (b - a) w)" by auto
  have "drop b P = P ! b # drop (Suc b) P" using step by (simp add: Cons_nth_drop_Suc)
  with ih(2) step obtain x w' where w': "drop (b - a) w = x # w'" "wildcard (drop (Suc b) P) w'"
    by (auto simp: wildcard_plain)
  have "length (drop (b - a) w) = Suc (length w')" using w' by simp
  moreover have "drop (Suc b - a) w = w'"
    using w'(1) step(1) by (metis Suc_diff_le drop_Suc list.sel(3) tl_drop)
  ultimately show ?case using w'(2) step(1) by auto
qed simp

lemma retry_advances:
  assumes inv: "loop_inv P V p v (Some i) retry" and k: "retry < k"
    and m: "suffix_match P V (i + 1) k"
  shows "suffix_match P V p (k + (v - retry)) \<and> v - retry \<le> length V - k"
proof -
  have "p - (i + 1) \<le> length (drop k V) \<and> wildcard (drop p P) (drop (p - (i + 1)) (drop k V))"
    using inv m by (intro plain_segment) (auto simp: loop_inv_def)
  then show ?thesis using inv by (auto simp: loop_inv_def add.commute)
qed

lemma loop_goal_here:
  assumes inv: "loop_inv P V p v star retry" and goal: "loop_goal P V p v star retry"
  shows "\<exists>k \<ge> v. suffix_match P V p k"
proof (cases "suffix_match P V p v")
  case False
  with goal obtain i k where i: "star = Some i" "retry < k" "suffix_match P V (i + 1) k"
    by (auto simp: loop_goal_def split: option.splits)
  with inv have "suffix_match P V p (k + (v - retry))" "v \<le> k + (v - retry)"
    using retry_advances [of P V p v i retry k] by auto
  then show ?thesis by blast
qed auto

lemma stars_match_stars:
  "wildcard p v \<Longrightarrow> set v \<subseteq> {42} \<Longrightarrow> 63 \<notin> set p \<Longrightarrow> set p \<subseteq> {42}"
  by (induction rule: wildcard.induct) auto

text \<open>The end of the value: only stars may be left, and no retry can do better.\<close>

lemma loop_goal_at_end:
  assumes "loop_inv P V p v star retry" "\<not> v < length V" "loop_goal P V p v star retry"
  shows "wildcard (drop p P) []"
proof -
  have v: "drop v V = []" "v = length V" using assms(1,2) by (auto simp: loop_inv_def)
  from assms(3) consider "suffix_match P V p v"
    | i k where "star = Some i" "retry < k" "suffix_match P V (i + 1) k"
    by (auto simp: loop_goal_def split: option.splits)
  then show ?thesis
  proof cases
    case 2
    with retry_advances [of P V p v i retry k] assms(1) v show ?thesis
      by (cases "k \<le> length V") auto
  qed (use v in simp)
qed

text \<open>A star of the pattern met by the last star of the value, consumed as a plain character.\<close>

lemma loop_goal_last_star:
  assumes inv: "loop_inv P V p v star retry" and clean: "star_clean P V"
    and v: "v < length V" "V ! v = 42" and p: "p < length P" "P ! p = 42"
    and goal: "loop_goal P V p v star retry"
  shows "v + 1 = length V \<and> wildcard (drop (p + 1) P) []"
proof -
  have last: "v + 1 = length V"
  proof (rule ccontr)
    assume "v + 1 \<noteq> length V"
    with v have "v < length (butlast V)" by simp
    with v have "42 \<in> set (butlast V)" by (metis nth_butlast nth_mem)
    with clean show False by (simp add: star_clean_def)
  qed
  have "42 \<in> set V" using v by (metis nth_mem)
  with clean have q: "63 \<notin> set P" by (auto simp: star_clean_def)
  obtain k where k: "k \<ge> v" "suffix_match P V (p + 1) k"
    using loop_goal_here [OF inv goal] suffix_match_star [OF p] by (meson le_trans)
  have "set (drop k V) \<subseteq> {42}"
  proof (cases "k = v")
    case True
    then have "drop k V = [42]" using v last by (simp add: Cons_nth_drop_Suc [symmetric])
    then show ?thesis by simp
  next
    case False
    with k(1) last show ?thesis by simp
  qed
  moreover have "63 \<notin> set (drop (p + 1) P)" using q by (meson in_set_dropD)
  ultimately have "set (drop (p + 1) P) \<subseteq> {42}" using k(2) stars_match_stars by blast
  with last show ?thesis by (simp add: wildcard_empty)
qed

lemma loop_accepts_complete:
  "loop_inv P V p v star retry \<Longrightarrow> star_clean P V \<Longrightarrow> loop_goal P V p v star retry \<Longrightarrow>
   loop_accepts P V p v star retry"
proof (induction P V p v star retry rule: pattern_loop.induct)
  case (1 P V p v star retry)
  note unfold = loop_accepts_def pattern_loop.simps [of P V p]
  consider (fin) "\<not> v < length V"
    | (last) "v < length V" "p < length P" "P ! p = 42" "V ! v = 42"
    | (step) "v < length V" "p < length P \<and> (P ! p = 63 \<or> P ! p = V ! v)" "P ! p \<noteq> 42"
    | (star) "v < length V" "\<not> (p < length P \<and> (P ! p = 63 \<or> P ! p = V ! v))"
        "p < length P \<and> P ! p = 42"
    | (again) "v < length V" "\<not> (p < length P \<and> (P ! p = 63 \<or> P ! p = V ! v))"
        "\<not> (p < length P \<and> P ! p = 42)"
    by (cases "P ! p = 42") auto
  then show ?case
  proof cases
    case fin
    then have "wildcard (drop p P) []" using loop_goal_at_end 1 by blast
    with fin 1 show ?thesis by (simp add: unfold skip_stars_end loop_inv_def)
  next
    case last
    then have "v + 1 = length V \<and> wildcard (drop (p + 1) P) []"
      using loop_goal_last_star 1 by blast
    with last show ?thesis
      by (simp add: unfold pattern_loop.simps [of P V "Suc p"] skip_stars_end)
  next
    case step
    then have "loop_inv P V (p + 1) (v + 1) star retry"
      using "1.prems"(1) by (auto simp: loop_inv_def less_Suc_eq split: option.splits)
    moreover have "loop_goal P V (p + 1) (v + 1) star retry"
      using "1.prems"(3) step by (auto simp: loop_goal_def suffix_match_plain)
    ultimately have "loop_accepts P V (p + 1) (v + 1) star retry"
      using "1.IH"(1) step "1.prems"(2) by blast
    with step show ?thesis by (simp add: unfold)
  next
    case star
    then have "loop_inv P V (p + 1) v (Some p) v"
      using "1.prems"(1) by (auto simp: loop_inv_def)
    moreover obtain k where "k \<ge> v" "suffix_match P V (p + 1) k"
      using loop_goal_here [OF "1.prems"(1,3)] suffix_match_star [of p P] star
      by (meson le_trans)
    then have "loop_goal P V (p + 1) v (Some p) v"
      by (cases "k = v") (auto simp: loop_goal_def)
    ultimately have "loop_accepts P V (p + 1) v (Some p) v"
      using "1.IH"(2) star "1.prems"(2) by blast
    with star show ?thesis by (simp add: unfold)
  next
    case again
    have "\<not> suffix_match P V p v"
      using again "1.prems"(1)
      by (cases "p < length P") (auto simp: suffix_match_plain loop_inv_def)
    with "1.prems"(3) obtain i k where i: "star = Some i" "retry < k" "suffix_match P V (i + 1) k"
      by (auto simp: loop_goal_def split: option.splits)
    then have "loop_inv P V (i + 1) (retry + 1) star (retry + 1)"
      using "1.prems"(1) again(1) by (auto simp: loop_inv_def)
    moreover have "loop_goal P V (i + 1) (retry + 1) star (retry + 1)"
      using i by (auto simp: loop_goal_def) (metis Suc_leI le_neq_implies_less)
    ultimately have "loop_accepts P V (i + 1) (retry + 1) star (retry + 1)"
      using "1.IH"(3) [OF again i(1)] "1.prems"(2) i(1) by blast
    with again i(1) show ?thesis by (auto simp: unfold)
  qed
qed

lemma pattern_matches_sound: "pattern_matches P V \<Longrightarrow> wildcard P V"
  using loop_accepts_sound [of P V 0 0 None 0] by (simp add: pattern_matches_def loop_goal_def)

text \<open>Values without a star are matched exactly.\<close>

lemma pattern_matches_starless: "42 \<notin> set V \<Longrightarrow> pattern_matches P V \<longleftrightarrow> wildcard P V"
  using loop_accepts_complete [of P V 0 0 None 0] pattern_matches_sound [of P V]
  by (auto simp: pattern_matches_def loop_goal_def loop_inv_def star_clean_def dest: in_set_butlastD)




subsection \<open>How long the loop runs\<close>

text \<open>
  The loop with a budget: \<open>None\<close> when the budget is spent before the loop leaves. \<open>loop_budget\<close> bounds
  the iterations that are left: a backtrack moves \<open>retry\<close>, every other iteration moves \<open>p\<close>.
\<close>

fun pattern_loop_within :: "nat \<Rightarrow> str \<Rightarrow> str \<Rightarrow> nat \<Rightarrow> nat \<Rightarrow> nat option \<Rightarrow> nat \<Rightarrow> nat option option" where
  "pattern_loop_within 0 P V p v star retry = None"
| "pattern_loop_within (Suc n) P V p v star retry =
     (if v < length V then
        (if p < length P \<and> (P ! p = 63 \<or> P ! p = V ! v) then
           pattern_loop_within n P V (p + 1) (v + 1) star retry
         else if p < length P \<and> P ! p = 42 then
           pattern_loop_within n P V (p + 1) v (Some p) v
         else (case star of
             Some index \<Rightarrow> pattern_loop_within n P V (index + 1) (retry + 1) star (retry + 1)
           | None \<Rightarrow> Some None))
      else Some (Some p))"

definition loop_budget :: "str \<Rightarrow> str \<Rightarrow> nat \<Rightarrow> nat \<Rightarrow> nat" where
  "loop_budget P V p retry = (length V - retry) * (length P + 1) + (length P - p)"

lemma loop_budget_later:
  assumes "p < length P" "retry \<le> retry'"
  shows "loop_budget P V (p + 1) retry' < loop_budget P V p retry"
proof -
  have "(length V - retry') * (length P + 1) \<le> (length V - retry) * (length P + 1)"
    using assms by (intro mult_le_mono1) simp
  moreover have "length P - (p + 1) < length P - p" using assms by simp
  ultimately show ?thesis unfolding loop_budget_def by (rule add_le_less_mono)
qed

lemma loop_budget_retry:
  assumes "retry < length V" "q \<le> length P"
  shows "loop_budget P V (i + 1) (retry + 1) < loop_budget P V q retry"
proof -
  have "length V - retry = Suc (length V - (retry + 1))" using assms by simp
  then show ?thesis by (simp add: loop_budget_def algebra_simps)
qed

lemma within_budget:
  assumes "loop_ranked p v star retry" "p \<le> length P" "loop_budget P V p retry < n"
  shows "pattern_loop_within n P V p v star retry = Some (pattern_loop P V p v star retry)"
  using assms
proof (induction n P V p v star retry rule: pattern_loop_within.induct)
  case (2 n P V p v star retry)
  consider (fin) "\<not> v < length V"
    | (step) "v < length V" "p < length P \<and> (P ! p = 63 \<or> P ! p = V ! v)"
    | (star) "v < length V" "\<not> (p < length P \<and> (P ! p = 63 \<or> P ! p = V ! v))"
        "p < length P \<and> P ! p = 42"
    | (again) "v < length V" "\<not> (p < length P \<and> (P ! p = 63 \<or> P ! p = V ! v))"
        "\<not> (p < length P \<and> P ! p = 42)"
    by blast
  then show ?case
  proof cases
    case fin
    then show ?thesis by (simp add: pattern_loop.simps [of P V p])
  next
    case step
    have "loop_ranked (p + 1) (v + 1) star retry" "p + 1 \<le> length P" "loop_budget P V (p + 1) retry < n"
      using "2.prems" step loop_budget_later [of p P retry retry V]
      by (auto simp: loop_ranked_def split: option.splits)
    with "2.IH"(1) step show ?thesis by (simp add: pattern_loop.simps [of P V p])
  next
    case star
    have "loop_ranked (p + 1) v (Some p) v" "p + 1 \<le> length P" "loop_budget P V (p + 1) v < n"
      using "2.prems" star loop_budget_later [of p P retry v V] by (auto simp: loop_ranked_def)
    with "2.IH"(2) [OF star] star show ?thesis by (simp add: pattern_loop.simps [of P V p] del: One_nat_def)
  next
    case again
    show ?thesis
    proof (cases star)
      case None
      with again show ?thesis by (auto simp: pattern_loop.simps [of P V p])
    next
      case (Some i)
      have "loop_ranked (i + 1) (retry + 1) star (retry + 1)" "i + 1 \<le> length P"
        "loop_budget P V (i + 1) (retry + 1) < n"
        using "2.prems" again Some loop_budget_retry [of retry V p P i] by (auto simp: loop_ranked_def)
      with "2.IH"(3) [OF again Some] again Some show ?thesis by (auto simp: pattern_loop.simps [of P V p])
    qed
  qed
qed simp

text \<open>
  C15: The matcher always answers, after at most one iteration for each pair of a position in the
  pattern and a position in the value, ends included: a hostile pattern costs at most the product of
  the two lengths, never exponential time.
\<close>

theorem matcher_terminates:
  "pattern_loop_within ((length V + 1) * (length P + 1)) P V 0 0 None 0 = Some (pattern_loop P V 0 0 None 0)"
  by (rule within_budget) (simp_all add: loop_ranked_def loop_budget_def)

end
