(* ===== verification/Policy_Domain.thy ===== *)
theory Policy_Domain
  imports HC_Prelude
begin

section \<open>Policy documents\<close>

text \<open>
  The identity-policy part of \<open>src/crates/heterocloud-domain/src/lib.rs\<close>: the policy document and
  its validation, the accepted subset of the AWS JSON grammar and its translation, and the date
  conditions. An error carries the source's message (a \<open>format!\<close> template is kept unexpanded).

  Two libraries are parameters. \<open>chrono\<close> gives the instants: \<open>from_timestamp\<close> for whole Unix
  seconds and \<open>parse_from_rfc3339\<close> for the textual form, an instant being nanoseconds since the
  epoch. \<open>serde_json::from_value\<close> is the argument \<open>decode\<close> of \<open>from_aws_json\<close>.
\<close>

subsection \<open>Data\<close>

datatype domain_error =
    InvalidVpcSpec string
  | InvalidResourceQuota string
  | InvalidFlashSpec string
  | InvalidSyouyuSpec string
  | InvalidPolicy string
  | UnsupportedPolicyVersion str

type_synonym datetime = int

record chrono =
  from_timestamp :: "i64 \<Rightarrow> datetime option"
  parse_from_rfc3339 :: "str \<Rightarrow> datetime option"

definition POLICY_VERSION :: str where
  "POLICY_VERSION = lit ''2026-07-31''"

datatype policy_effect = Effect_Allow | Effect_Deny

type_synonym policy_conditions = "(str, (str, str list) btree) btree"
type_synonym aws_policy_conditions = "(str, (str, json) btree) btree"

record policy_statement =
  st_effect :: policy_effect
  st_sid :: "str option"
  st_actions :: "str list"
  st_not_actions :: "str list"
  st_resources :: "str list"
  st_not_resources :: "str list"
  st_conditions :: policy_conditions

record policy_document =
  doc_version :: str
  doc_statements :: "policy_statement list"

datatype 'a one_or_many = One 'a | Many "'a list"

fun into_vec :: "'a one_or_many \<Rightarrow> 'a list" where
  "into_vec (One x) = [x]"
| "into_vec (Many xs) = xs"

record aws_policy_statement =
  aws_sid :: "str option"
  aws_effect :: policy_effect
  aws_actions :: "str one_or_many option"
  aws_not_actions :: "str one_or_many option"
  aws_resources :: "str one_or_many option"
  aws_not_resources :: "str one_or_many option"
  aws_conditions :: "aws_policy_conditions option"

record aws_policy =
  aws_version :: "str option"
  aws_statements :: "aws_policy_statement one_or_many"

subsection \<open>Validation\<close>

definition parse_iam_condition_date :: "chrono \<Rightarrow> str \<Rightarrow> datetime option" where
  "parse_iam_condition_date ch v =
     (case parse_i64 v of
        Some seconds \<Rightarrow> from_timestamp ch seconds
      | None \<Rightarrow> parse_from_rfc3339 ch v)"

definition validate_pattern :: "str \<Rightarrow> domain_error + unit" where
  "validate_pattern pattern =
     fail_if (pattern = [] \<or> str_len pattern > 512 \<or> list_ex is_whitespace pattern)
       (InvalidPolicy ''policy patterns must be 1..512 non-whitespace characters'')"

definition condition_operators :: "str list" where
  "condition_operators =
     [lit ''DateEquals'', lit ''DateNotEquals'', lit ''DateLessThan'', lit ''DateLessThanEquals'',
      lit ''DateGreaterThan'', lit ''DateGreaterThanEquals'']"

definition validate_condition_key :: "chrono \<Rightarrow> str \<times> str list \<Rightarrow> domain_error + unit" where
  "validate_condition_key ch = (\<lambda>(key, vals).
     fail_if (\<not> eq_ignore_ascii_case key (lit ''aws:CurrentTime'')
              \<or> vals = [] \<or> length vals > 128
              \<or> list_ex (\<lambda>v. str_len v > 64 \<or> parse_iam_condition_date ch v = None) vals)
       (InvalidPolicy ''unsupported condition key or invalid date values''))"

definition validate_policy_conditions :: "chrono \<Rightarrow> policy_conditions \<Rightarrow> domain_error + unit" where
  "validate_policy_conditions ch conditions =
     first_error
       [fail_if (length conditions > 6) (InvalidPolicy ''too many condition operators''),
        for_each (\<lambda>(operator, keys).
          first_error
            [fail_if (operator \<notin> set condition_operators)
               (InvalidPolicy ''unsupported condition operator {operator}''),
             fail_if (length keys \<noteq> 1)
               (InvalidPolicy ''date conditions require exactly aws:CurrentTime''),
             for_each (validate_condition_key ch) keys]) conditions]"

definition validate_statement :: "chrono \<Rightarrow> policy_statement \<Rightarrow> domain_error + unit" where
  "validate_statement ch st =
     first_error
       [fail_if ((st_actions st = []) = (st_not_actions st = [])
                 \<or> (st_resources st = []) = (st_not_resources st = [])
                 \<or> length (st_actions st) > 128
                 \<or> length (st_not_actions st) > 128
                 \<or> length (st_resources st) > 128
                 \<or> length (st_not_resources st) > 128)
          (InvalidPolicy ''each statement requires exactly one of Action/NotAction and Resource/NotResource (1..128 values each)''),
        for_each validate_pattern
          (st_actions st @ st_not_actions st @ st_resources st @ st_not_resources st),
        validate_policy_conditions ch (st_conditions st)]"

definition validate_policy :: "chrono \<Rightarrow> policy_document \<Rightarrow> domain_error + unit" where
  "validate_policy ch doc =
     first_error
       [fail_if (doc_version doc \<noteq> POLICY_VERSION) (UnsupportedPolicyVersion (doc_version doc)),
        fail_if (doc_statements doc = [] \<or> length (doc_statements doc) > 128)
          (InvalidPolicy ''a policy requires between 1 and 128 statements''),
        for_each (validate_statement ch) (doc_statements doc)]"

subsection \<open>The AWS grammar\<close>

definition parse_condition_value :: "json \<Rightarrow> domain_error + str" where
  "parse_condition_value v =
     (case v of
        JString s \<Rightarrow> Inr s
      | JInt n \<Rightarrow> Inr (int_to_string n)
      | _ \<Rightarrow> Inl (InvalidPolicy ''condition dates must be strings or whole Unix seconds''))"

definition condition_values :: "json \<Rightarrow> json list" where
  "condition_values v = (case v of JArray vs \<Rightarrow> vs | _ \<Rightarrow> [v])"

definition parse_aws_conditions ::
    "aws_policy_conditions option \<Rightarrow> domain_error + policy_conditions" where
  "parse_aws_conditions conditions =
     (case conditions of
        None \<Rightarrow> Inr []
      | Some cs \<Rightarrow>
          if cs = [] then Inl (InvalidPolicy ''Condition cannot be empty'')
          else collectE (\<lambda>(operator, keys).
                 bindE (collectE (\<lambda>(key, vals).
                          bindE (collectE parse_condition_value (condition_values vals))
                            (\<lambda>vs. Inr (key, vs))) keys)
                   (\<lambda>ks. Inr (operator, ks))) cs)"

definition vec_or_empty :: "'a one_or_many option \<Rightarrow> 'a list" where
  "vec_or_empty x = (case x of None \<Rightarrow> [] | Some m \<Rightarrow> into_vec m)"

definition from_aws_statement :: "aws_policy_statement \<Rightarrow> domain_error + policy_statement" where
  "from_aws_statement st =
     bindE (parse_aws_conditions (aws_conditions st)) (\<lambda>cs.
       Inr \<lparr>st_effect = aws_effect st, st_sid = aws_sid st,
            st_actions = vec_or_empty (aws_actions st),
            st_not_actions = vec_or_empty (aws_not_actions st),
            st_resources = vec_or_empty (aws_resources st),
            st_not_resources = vec_or_empty (aws_not_resources st),
            st_conditions = cs\<rparr>)"

definition from_aws_json ::
    "chrono \<Rightarrow> (json \<Rightarrow> string + aws_policy) \<Rightarrow> json \<Rightarrow> domain_error + policy_document" where
  "from_aws_json ch decode v =
     bindE (map_err (\<lambda>_. InvalidPolicy ''unsupported AWS policy: {error}'') (decode v)) (\<lambda>aws.
     bindE (case aws_version aws of
              None \<Rightarrow> Inr ()
            | Some version \<Rightarrow>
                fail_if (version \<noteq> lit ''2012-10-17'' \<and> version \<noteq> lit ''2008-10-17'')
                  (UnsupportedPolicyVersion version)) (\<lambda>_.
     bindE (collectE from_aws_statement (into_vec (aws_statements aws))) (\<lambda>sts.
     (let document = \<lparr>doc_version = POLICY_VERSION, doc_statements = sts\<rparr> in
      bindE (validate_policy ch document) (\<lambda>_. Inr document)))))"

subsection \<open>What a validated document guarantees\<close>

text \<open>
  The rules of validation as one predicate: exactly one of the positive and the negated list of
  actions and of resources, one to 128 non-empty patterns without white space, and conditions
  over \<open>aws:CurrentTime\<close> all of whose values are dates.
\<close>

definition pattern_ok :: "str \<Rightarrow> bool" where
  "pattern_ok p \<longleftrightarrow> p \<noteq> [] \<and> str_len p \<le> 512 \<and> \<not> list_ex is_whitespace p"

definition exactly_one_list :: "'a list \<Rightarrow> 'a list \<Rightarrow> bool" where
  "exactly_one_list xs ys \<longleftrightarrow>
     (xs = [] \<longleftrightarrow> ys \<noteq> []) \<and> length xs \<le> 128 \<and> length ys \<le> 128"

definition conditions_ok :: "chrono \<Rightarrow> policy_conditions \<Rightarrow> bool" where
  "conditions_ok ch cs \<longleftrightarrow>
     length cs \<le> 6
     \<and> (\<forall>(operator, keys) \<in> set cs. operator \<in> set condition_operators
         \<and> (\<exists>key vals. keys = [(key, vals)]
             \<and> eq_ignore_ascii_case key (lit ''aws:CurrentTime'')
             \<and> vals \<noteq> [] \<and> length vals \<le> 128
             \<and> (\<forall>v \<in> set vals. str_len v \<le> 64 \<and> parse_iam_condition_date ch v \<noteq> None)))"

definition statement_ok :: "chrono \<Rightarrow> policy_statement \<Rightarrow> bool" where
  "statement_ok ch st \<longleftrightarrow>
     exactly_one_list (st_actions st) (st_not_actions st)
     \<and> exactly_one_list (st_resources st) (st_not_resources st)
     \<and> (\<forall>p \<in> set (st_actions st @ st_not_actions st @ st_resources st @ st_not_resources st).
          pattern_ok p)
     \<and> conditions_ok ch (st_conditions st)"

definition policy_ok :: "chrono \<Rightarrow> policy_document \<Rightarrow> bool" where
  "policy_ok ch doc \<longleftrightarrow>
     doc_version doc = POLICY_VERSION
     \<and> doc_statements doc \<noteq> [] \<and> length (doc_statements doc) \<le> 128
     \<and> (\<forall>st \<in> set (doc_statements doc). statement_ok ch st)"

lemma validate_pattern_iff: "validate_pattern p = Inr () \<longleftrightarrow> pattern_ok p"
  by (auto simp: validate_pattern_def pattern_ok_def)

lemma validate_condition_key_iff:
  "validate_condition_key ch (key, vals) = Inr () \<longleftrightarrow>
     eq_ignore_ascii_case key (lit ''aws:CurrentTime'') \<and> vals \<noteq> [] \<and> length vals \<le> 128
     \<and> (\<forall>v \<in> set vals. str_len v \<le> 64 \<and> parse_iam_condition_date ch v \<noteq> None)"
  by (auto simp: validate_condition_key_def list_ex_iff not_less)

lemma validate_policy_conditions_iff:
  "validate_policy_conditions ch cs = Inr () \<longleftrightarrow> conditions_ok ch cs"
proof -
  have "(length keys = 1 \<and> (\<forall>k \<in> set keys. validate_condition_key ch k = Inr ())) \<longleftrightarrow>
     (\<exists>key vals. keys = [(key, vals)] \<and> validate_condition_key ch (key, vals) = Inr ())"
    for keys :: "(str, str list) btree"
    by (cases keys) auto
  then show ?thesis
    by (auto simp: validate_policy_conditions_def conditions_ok_def first_error_Inr_iff
        validate_condition_key_iff split: prod.splits)
qed

lemma validate_statement_iff: "validate_statement ch st = Inr () \<longleftrightarrow> statement_ok ch st"
  by (auto simp: validate_statement_def statement_ok_def exactly_one_list_def first_error_Inr_iff
      validate_pattern_iff validate_policy_conditions_iff)

lemma validate_policy_iff: "validate_policy ch doc = Inr () \<longleftrightarrow> policy_ok ch doc"
  by (auto simp: validate_policy_def policy_ok_def first_error_Inr_iff validate_statement_iff)

lemma conditions_ok_code [code]:
  "conditions_ok ch cs \<longleftrightarrow> validate_policy_conditions ch cs = Inr ()"
  by (simp add: validate_policy_conditions_iff)

lemma validate_policy_cases:
  obtains (ok) "validate_policy ch doc = Inr ()" "policy_ok ch doc"
  | (err) e where "validate_policy ch doc = Inl e" "\<not> policy_ok ch doc"
  using validate_policy_iff [of ch doc] by (cases "validate_policy ch doc") auto

subsection \<open>Properties\<close>

text \<open>The statement keeps what the AWS statement says, with absent lists empty.\<close>

definition statement_of :: "aws_policy_statement \<Rightarrow> policy_statement \<Rightarrow> bool" where
  "statement_of aws st \<longleftrightarrow>
     st_effect st = aws_effect aws \<and> st_sid st = aws_sid aws
     \<and> st_actions st = vec_or_empty (aws_actions aws)
     \<and> st_not_actions st = vec_or_empty (aws_not_actions aws)
     \<and> st_resources st = vec_or_empty (aws_resources aws)
     \<and> st_not_resources st = vec_or_empty (aws_not_resources aws)
     \<and> map fst (st_conditions st) = (case aws_conditions aws of None \<Rightarrow> [] | Some cs \<Rightarrow> map fst cs)"

lemma collectE_fst:
  "collectE (\<lambda>(k, v). bindE (f v) (\<lambda>w. Inr (k, w))) xs = Inr ys \<Longrightarrow> map fst ys = map fst xs"
  by (induction xs arbitrary: ys) (auto simp: bindE_Inr_iff)

lemma parse_aws_conditions_fst:
  "parse_aws_conditions cs = Inr ks \<Longrightarrow>
   map fst ks = (case cs of None \<Rightarrow> [] | Some xs \<Rightarrow> map fst xs)"
  by (auto simp: parse_aws_conditions_def split: option.splits if_splits dest!: collectE_fst)

lemma from_aws_statement_of: "from_aws_statement aws = Inr st \<Longrightarrow> statement_of aws st"
  by (auto simp: from_aws_statement_def statement_of_def bindE_Inr_iff parse_aws_conditions_fst)

lemma collectE_list_all2:
  "collectE f xs = Inr ys \<Longrightarrow> list_all2 (\<lambda>x y. f x = Inr y) xs ys"
  by (induction xs arbitrary: ys) (auto simp: bindE_Inr_iff)

text \<open>Concrete documents for the examples.\<close>

definition demo_chrono :: chrono where
  "demo_chrono = \<lparr>from_timestamp = (\<lambda>n. Some n), parse_from_rfc3339 = (\<lambda>_. None)\<rparr>"

definition demo_policy :: policy_document where
  "demo_policy = \<lparr>doc_version = POLICY_VERSION, doc_statements =
     [\<lparr>st_effect = Effect_Allow, st_sid = None, st_actions = [lit ''flow:*''], st_not_actions = [],
       st_resources = [lit ''*''], st_not_resources = [], st_conditions = []\<rparr>]\<rparr>"

definition demo_aws :: aws_policy where
  "demo_aws = \<lparr>aws_version = Some (lit ''2012-10-17''), aws_statements = One
     \<lparr>aws_sid = None, aws_effect = Effect_Deny, aws_actions = Some (One (lit ''flash:*'')),
      aws_not_actions = None, aws_resources = None, aws_not_resources = Some (Many [lit ''hc:org:2:*'']),
      aws_conditions = Some [(lit ''DateLessThan'', [(lit ''aws:currenttime'', JInt 1700000000)])]\<rparr>\<rparr>"

definition demo_document :: policy_document where
  "demo_document = \<lparr>doc_version = POLICY_VERSION, doc_statements =
     [\<lparr>st_effect = Effect_Deny, st_sid = None, st_actions = [lit ''flash:*''], st_not_actions = [],
       st_resources = [], st_not_resources = [lit ''hc:org:2:*''],
       st_conditions = [(lit ''DateLessThan'', [(lit ''aws:currenttime'', [lit ''1700000000''])])]\<rparr>]\<rparr>"



text \<open>
  A condition date given as a whole number of Unix seconds is stored as text, and reading that
  text gives the same instant back for every number an i64 holds.
\<close>

theorem condition_date_of_number:
  assumes "in_i64 n" "parse_condition_value (JInt n) = Inr s"
  shows "parse_iam_condition_date ch s = from_timestamp ch n"
  using assms by (auto simp: parse_condition_value_def parse_iam_condition_date_def
      parse_i64_int_to_string)

theorem condition_date_of_number_witness:
  "parse_iam_condition_date demo_chrono
     (lit ''-86400'') = Some (- 86400)"
proof -
  have "in_i64 (- 86400)" "parse_condition_value (JInt (- 86400)) = Inr (lit ''-86400'')"
    by code_simp+
  from condition_date_of_number [OF this] show ?thesis by (simp add: demo_chrono_def)
qed

end
