(* ===== verification/IAM.thy ===== *)
theory IAM
  imports Wildcard Policy_Domain
begin

section \<open>The authorization evaluator\<close>

text \<open>
  \<open>src/crates/heterocloud-iam/src/lib.rs\<close>: evaluation of one set of policies (\<open>authorize\<close>) and
  the layers that restrict its result (administrator default, permissions boundary, service
  control policies, session policy), and the decision kernel of \<open>src/lean/HeteroCloud/IAM.lean\<close>.

  The lemmas characterise \<open>authorize\<close> by the statements that apply (\<open>has_statement\<close>) and state the
  contract every layer keeps as the locale \<open>restricting_layer\<close>: a denial passes unchanged, and an
  allowed result was already allowed before the layer.
\<close>

subsection \<open>Requests and decisions\<close>

datatype decision = Decision_Allow | Decision_Deny

record authorization_request =
  principal_organization_id :: uuid
  resource_organization_id :: uuid
  req_action :: str
  req_resource :: str
  evaluated_at :: datetime

record evaluation =
  ev_decision :: decision
  applicable_allow :: bool
  applicable_deny :: bool
  ev_reason :: string

datatype iam_error = IamInvalidPolicy domain_error

definition decide :: "bool \<Rightarrow> bool \<Rightarrow> bool \<Rightarrow> decision" where
  "decide same_organization allow deny =
     (if \<not> same_organization \<or> deny then Decision_Deny
      else if allow then Decision_Allow
      else Decision_Deny)"

text \<open>The kernel as the Lean source states it.\<close>

definition lean_authorize :: "bool \<Rightarrow> bool \<Rightarrow> bool \<Rightarrow> decision" where
  "lean_authorize sameOrganization applicableAllow applicableDeny =
     (if \<not> sameOrganization then Decision_Deny
      else if applicableDeny then Decision_Deny
      else if applicableAllow then Decision_Allow
      else Decision_Deny)"

subsection \<open>Which statements apply\<close>

definition date_matches :: "chrono \<Rightarrow> datetime \<Rightarrow> str \<Rightarrow> str \<Rightarrow> bool" where
  "date_matches ch now operator v =
     (case parse_iam_condition_date ch v of
        None \<Rightarrow> False
      | Some date \<Rightarrow>
          if operator = lit ''DateEquals'' \<or> operator = lit ''DateNotEquals'' then now = date
          else if operator = lit ''DateLessThan'' then now < date
          else if operator = lit ''DateLessThanEquals'' then now \<le> date
          else if operator = lit ''DateGreaterThan'' then now > date
          else if operator = lit ''DateGreaterThanEquals'' then now \<ge> date
          else False)"

definition conditions_match ::
    "chrono \<Rightarrow> policy_statement \<Rightarrow> authorization_request \<Rightarrow> bool" where
  "conditions_match ch st request =
     list_all (\<lambda>(operator, keys).
       list_all (\<lambda>(_, vals).
         if operator = lit ''DateNotEquals''
         then list_all (\<lambda>v. \<not> date_matches ch (evaluated_at request) operator v) vals
         else list_ex (date_matches ch (evaluated_at request) operator) vals) keys)
       (st_conditions st)"

definition action_matches :: "policy_statement \<Rightarrow> authorization_request \<Rightarrow> bool" where
  "action_matches st request =
     (if st_not_actions st = []
      then list_ex (\<lambda>pattern. action_pattern_matches pattern (req_action request)) (st_actions st)
      else \<not> list_ex (\<lambda>pattern. action_pattern_matches pattern (req_action request))
                (st_not_actions st))"

definition resource_matches :: "policy_statement \<Rightarrow> authorization_request \<Rightarrow> bool" where
  "resource_matches st request =
     (if st_not_resources st = []
      then list_ex (\<lambda>pattern. pattern_matches pattern (req_resource request)) (st_resources st)
      else \<not> list_ex (\<lambda>pattern. pattern_matches pattern (req_resource request))
                (st_not_resources st))"

definition statement_applies ::
    "chrono \<Rightarrow> authorization_request \<Rightarrow> policy_statement \<Rightarrow> bool" where
  "statement_applies ch request st \<longleftrightarrow>
     action_matches st request \<and> resource_matches st request \<and> conditions_match ch st request"

subsection \<open>Evaluation of a set of policies\<close>

primrec scan_statements ::
    "chrono \<Rightarrow> authorization_request \<Rightarrow> policy_statement list \<Rightarrow> bool \<times> bool \<Rightarrow> bool \<times> bool" where
  "scan_statements ch request [] flags = flags"
| "scan_statements ch request (st # sts) flags =
     scan_statements ch request sts
       (if \<not> statement_applies ch request st then flags
        else (case st_effect st of
                Effect_Allow \<Rightarrow> (True, snd flags)
              | Effect_Deny \<Rightarrow> (fst flags, True)))"

primrec scan_policies ::
    "chrono \<Rightarrow> authorization_request \<Rightarrow> policy_document list \<Rightarrow> bool \<times> bool \<Rightarrow>
     domain_error + bool \<times> bool" where
  "scan_policies ch request [] flags = Inr flags"
| "scan_policies ch request (policy # ps) flags =
     bindE (validate_policy ch policy) (\<lambda>_.
       scan_policies ch request ps (scan_statements ch request (doc_statements policy) flags))"

definition authorize ::
    "chrono \<Rightarrow> authorization_request \<Rightarrow> policy_document list \<Rightarrow> iam_error + evaluation" where
  "authorize ch request policies =
     (let same_organization =
            (principal_organization_id request = resource_organization_id request) in
      if \<not> same_organization then
        Inr \<lparr>ev_decision = Decision_Deny, applicable_allow = False, applicable_deny = False,
             ev_reason = ''cross_organization''\<rparr>
      else
        bindE (map_err IamInvalidPolicy (scan_policies ch request policies (False, False)))
          (\<lambda>(allow, deny).
            (let decision = decide same_organization allow deny in
             if deny then
               Inr \<lparr>ev_decision = decision, applicable_allow = allow, applicable_deny = deny,
                    ev_reason = ''explicit_deny''\<rparr>
             else if allow then
               Inr \<lparr>ev_decision = decision, applicable_allow = allow, applicable_deny = deny,
                    ev_reason = ''explicit_allow''\<rparr>
             else
               Inr \<lparr>ev_decision = decision, applicable_allow = allow, applicable_deny = deny,
                    ev_reason = ''default_deny''\<rparr>)))"

subsection \<open>The restricting layers\<close>

definition authorize_with_administrator ::
    "chrono \<Rightarrow> authorization_request \<Rightarrow> policy_document list \<Rightarrow> bool \<Rightarrow> iam_error + evaluation" where
  "authorize_with_administrator ch request policies administrator =
     bindE (authorize ch request policies) (\<lambda>evaluation.
       if administrator \<and> ev_reason evaluation = ''default_deny'' then
         Inr (evaluation\<lparr>ev_decision := Decision_Allow, applicable_allow := True,
                         ev_reason := ''administrator_allow''\<rparr>)
       else Inr evaluation)"

text \<open>\<open>Inl\<close> in the accumulator of the level loop is its early return.\<close>

primrec scp_levels ::
    "chrono \<Rightarrow> authorization_request \<Rightarrow> evaluation \<Rightarrow> policy_document list list \<Rightarrow> bool \<Rightarrow>
     iam_error + evaluation" where
  "scp_levels ch request identity [] no_allow =
     (if no_allow then
        Inr \<lparr>ev_decision = Decision_Deny, applicable_allow = applicable_allow identity,
             applicable_deny = False, ev_reason = ''scp_no_allow''\<rparr>
      else Inr identity)"
| "scp_levels ch request identity (policies # levels) no_allow =
     bindE (authorize ch request policies) (\<lambda>evaluation.
       if applicable_deny evaluation then
         Inr \<lparr>ev_decision = Decision_Deny, applicable_allow = applicable_allow identity,
              applicable_deny = True, ev_reason = ''scp_explicit_deny''\<rparr>
       else scp_levels ch request identity levels
              (no_allow \<or> ev_decision evaluation = Decision_Deny))"

definition enforce_service_control_policies ::
    "chrono \<Rightarrow> authorization_request \<Rightarrow> policy_document list list \<Rightarrow> evaluation \<Rightarrow>
     iam_error + evaluation" where
  "enforce_service_control_policies ch request levels identity =
     (if ev_decision identity = Decision_Deny then Inr identity
      else scp_levels ch request identity levels False)"

definition enforce_permissions_boundary ::
    "chrono \<Rightarrow> authorization_request \<Rightarrow> policy_document option \<Rightarrow> evaluation \<Rightarrow>
     iam_error + evaluation" where
  "enforce_permissions_boundary ch request boundary identity =
     (case boundary of
        None \<Rightarrow> Inr identity
      | Some b \<Rightarrow>
          if ev_decision identity = Decision_Deny then Inr identity
          else bindE (authorize ch request [b]) (\<lambda>evaluation.
            if ev_decision evaluation = Decision_Deny then
              Inr \<lparr>ev_decision = Decision_Deny, applicable_allow = applicable_allow identity,
                   applicable_deny = applicable_deny evaluation,
                   ev_reason = (if applicable_deny evaluation
                                then ''permissions_boundary_explicit_deny''
                                else ''permissions_boundary_no_allow'')\<rparr>
            else Inr identity))"

definition session_reason :: "string \<Rightarrow> string" where
  "session_reason reason =
     (if reason = ''permissions_boundary_explicit_deny'' then ''session_policy_explicit_deny''
      else if reason = ''permissions_boundary_no_allow'' then ''session_policy_no_allow''
      else reason)"

definition enforce_session_policy ::
    "chrono \<Rightarrow> authorization_request \<Rightarrow> policy_document option \<Rightarrow> evaluation \<Rightarrow>
     iam_error + evaluation" where
  "enforce_session_policy ch request session_policy identity =
     (if ev_decision identity = Decision_Deny then Inr identity
      else bindE (enforce_permissions_boundary ch request session_policy identity) (\<lambda>evaluation.
        Inr (evaluation\<lparr>ev_reason := session_reason (ev_reason evaluation)\<rparr>)))"

subsection \<open>What an evaluation decides\<close>

text \<open>Some statement of some policy with this effect applies to the request.\<close>

definition has_statement ::
    "chrono \<Rightarrow> authorization_request \<Rightarrow> policy_effect \<Rightarrow> policy_document list \<Rightarrow> bool" where
  "has_statement ch request effect policies \<longleftrightarrow>
     (\<exists>policy \<in> set policies. \<exists>st \<in> set (doc_statements policy).
        st_effect st = effect \<and> statement_applies ch request st)"

text \<open>The set of policies permits the request: an allow applies and no deny does.\<close>

definition permits_request ::
    "chrono \<Rightarrow> authorization_request \<Rightarrow> policy_document list \<Rightarrow> bool" where
  "permits_request ch request policies \<longleftrightarrow>
     has_statement ch request Effect_Allow policies
     \<and> \<not> has_statement ch request Effect_Deny policies"

definition same_org :: "authorization_request \<Rightarrow> bool" where
  "same_org request \<longleftrightarrow> principal_organization_id request = resource_organization_id request"

lemma has_statement_Nil [simp]: "\<not> has_statement ch request effect []"
  by (simp add: has_statement_def)

lemma has_statement_Cons:
  "has_statement ch request effect (policy # ps) \<longleftrightarrow>
     (\<exists>st \<in> set (doc_statements policy). st_effect st = effect \<and> statement_applies ch request st)
     \<or> has_statement ch request effect ps"
  by (auto simp: has_statement_def)

lemma scan_statements_flags:
  "scan_statements ch request sts (a, d) =
     (a \<or> (\<exists>st \<in> set sts. st_effect st = Effect_Allow \<and> statement_applies ch request st),
      d \<or> (\<exists>st \<in> set sts. st_effect st = Effect_Deny \<and> statement_applies ch request st))"
proof (induction sts arbitrary: a d)
  case (Cons st sts)
  then show ?case by (cases "st_effect st") auto
qed simp

lemma scan_policies_ok:
  "\<forall>p \<in> set ps. policy_ok ch p \<Longrightarrow>
   scan_policies ch request ps (a, d) =
     Inr (a \<or> has_statement ch request Effect_Allow ps, d \<or> has_statement ch request Effect_Deny ps)"
proof (induction ps arbitrary: a d)
  case (Cons p ps)
  then have "validate_policy ch p = Inr ()" by (simp add: validate_policy_iff)
  with Cons show ?case by (simp add: scan_statements_flags has_statement_Cons disj_assoc)
qed simp

lemma scan_policies_Inr_ok:
  "scan_policies ch request ps flags = Inr flags' \<Longrightarrow> \<forall>p \<in> set ps. policy_ok ch p"
proof (induction ps arbitrary: flags)
  case (Cons p ps)
  then show ?case by (simp add: bindE_Inr_iff validate_policy_iff) blast
qed simp

lemma authorize_same_org:
  assumes "same_org request" "\<forall>p \<in> set ps. policy_ok ch p"
  shows "authorize ch request ps =
    (let a = has_statement ch request Effect_Allow ps; d = has_statement ch request Effect_Deny ps in
     Inr \<lparr>ev_decision = (if a \<and> \<not> d then Decision_Allow else Decision_Deny),
          applicable_allow = a, applicable_deny = d,
          ev_reason = (if d then ''explicit_deny'' else if a then ''explicit_allow''
                       else ''default_deny'')\<rparr>)"
  using assms by (simp add: authorize_def same_org_def scan_policies_ok decide_def Let_def)

lemma authorize_cross_org:
  "\<not> same_org request \<Longrightarrow>
   authorize ch request ps =
     Inr \<lparr>ev_decision = Decision_Deny, applicable_allow = False, applicable_deny = False,
          ev_reason = ''cross_organization''\<rparr>"
  by (simp add: authorize_def same_org_def)

lemma authorize_Inr_ok:
  "authorize ch request ps = Inr e \<Longrightarrow> same_org request \<Longrightarrow> \<forall>p \<in> set ps. policy_ok ch p"
  by (auto simp: authorize_def same_org_def res_simps Let_def dest: scan_policies_Inr_ok)

text \<open>The result of \<open>authorize\<close> in one equivalence, whatever the policies are.\<close>

lemma authorize_Inr_iff:
  "authorize ch request ps = Inr e \<and> ev_decision e = Decision_Allow \<longleftrightarrow>
     same_org request \<and> (\<forall>p \<in> set ps. policy_ok ch p) \<and> permits_request ch request ps
     \<and> e = \<lparr>ev_decision = Decision_Allow, applicable_allow = True, applicable_deny = False,
            ev_reason = ''explicit_allow''\<rparr>"
proof (cases "same_org request")
  case True
  show ?thesis
  proof (cases "\<forall>p \<in> set ps. policy_ok ch p")
    case ok: True
    show ?thesis
      by (auto simp: authorize_same_org [OF True ok] permits_request_def True ok Let_def)
  next
    case False
    with True show ?thesis using authorize_Inr_ok by blast
  qed
next
  case False
  then show ?thesis by (auto simp: authorize_cross_org)
qed

lemma authorize_allows_iff:
  "(\<exists>e. authorize ch request ps = Inr e \<and> ev_decision e = Decision_Allow) \<longleftrightarrow>
     same_org request \<and> (\<forall>p \<in> set ps. policy_ok ch p) \<and> permits_request ch request ps"
  using authorize_Inr_iff by blast

lemma authorize_deny_iff:
  assumes "same_org request" "authorize ch request ps = Inr e"
  shows "applicable_deny e \<longleftrightarrow> has_statement ch request Effect_Deny ps"
    and "ev_decision e = Decision_Allow \<longleftrightarrow> permits_request ch request ps"
  using assms authorize_same_org [OF assms(1) authorize_Inr_ok [OF assms(2,1)]]
  by (auto simp: Let_def permits_request_def split: if_splits)

subsection \<open>The contract of a layer\<close>

locale restricting_layer =
  fixes enforce :: "evaluation \<Rightarrow> iam_error + evaluation"
  assumes keeps_deny: "ev_decision e = Decision_Deny \<Longrightarrow> enforce e = Inr e"
    and only_restricts:
      "enforce e = Inr e' \<Longrightarrow> ev_decision e' = Decision_Allow \<Longrightarrow>
       ev_decision e = Decision_Allow \<and> applicable_allow e' = applicable_allow e
       \<and> applicable_deny e' = applicable_deny e"
begin

lemma deny_stays_denied:
  "ev_decision e = Decision_Deny \<Longrightarrow> enforce e = Inr e' \<Longrightarrow> ev_decision e' = Decision_Deny"
  by (simp add: keeps_deny)

lemma total_on_deny: "ev_decision e = Decision_Deny \<Longrightarrow> \<exists>e'. enforce e = Inr e'"
  by (simp add: keeps_deny)

end

text \<open>Two layers in sequence are a layer again.\<close>

locale layer_pair = first: restricting_layer f + second: restricting_layer g
  for f :: "evaluation \<Rightarrow> iam_error + evaluation" and g :: "evaluation \<Rightarrow> iam_error + evaluation"
begin

lemma pair_restricts: "restricting_layer (\<lambda>e. bindE (f e) g)"
proof
  fix e :: evaluation assume "ev_decision e = Decision_Deny"
  then show "bindE (f e) g = Inr e" by (simp add: first.keeps_deny second.keeps_deny)
next
  fix e e' :: evaluation assume "bindE (f e) g = Inr e'" and allow: "ev_decision e' = Decision_Allow"
  then obtain e1 where e1: "f e = Inr e1" "g e1 = Inr e'" by (auto simp: bindE_Inr_iff)
  from second.only_restricts [OF e1(2) allow] first.only_restricts [OF e1(1)]
  show "ev_decision e = Decision_Allow \<and> applicable_allow e' = applicable_allow e
    \<and> applicable_deny e' = applicable_deny e" by simp
qed

end

lemma scp_levels_allow:
  "scp_levels ch request identity levels no_allow = Inr e \<and> ev_decision e = Decision_Allow \<longleftrightarrow>
     e = identity \<and> ev_decision identity = Decision_Allow \<and> \<not> no_allow
     \<and> (\<forall>ps \<in> set levels. \<exists>e'. authorize ch request ps = Inr e' \<and> ev_decision e' = Decision_Allow)"
proof (induction levels arbitrary: no_allow)
  case Nil
  then show ?case by auto
next
  case (Cons ps levels)
  show ?case
  proof (cases "authorize ch request ps")
    case (Inr e1)
    show ?thesis
    proof (cases "ev_decision e1")
      case Decision_Allow
      then have "\<not> applicable_deny e1" using authorize_Inr_iff [of ch request ps e1] Inr by auto
      with Decision_Allow Inr Cons.IH show ?thesis by auto
    next
      case Decision_Deny
      with Inr Cons.IH [of True] show ?thesis by auto
    qed
  qed simp
qed

lemma boundary_allow:
  "enforce_permissions_boundary ch request boundary identity = Inr e \<and> ev_decision e = Decision_Allow
   \<longleftrightarrow> e = identity \<and> ev_decision identity = Decision_Allow
     \<and> (\<forall>b. boundary = Some b \<longrightarrow>
          (\<exists>e'. authorize ch request [b] = Inr e' \<and> ev_decision e' = Decision_Allow))"
proof (cases boundary)
  case (Some b)
  show ?thesis
  proof (cases "authorize ch request [b]")
    case (Inr e1)
    with Some show ?thesis
      by (cases "ev_decision e1"; cases "ev_decision identity")
         (auto simp: enforce_permissions_boundary_def)
  qed (use Some in \<open>auto simp: enforce_permissions_boundary_def\<close>)
qed (auto simp: enforce_permissions_boundary_def)

interpretation boundary: restricting_layer "enforce_permissions_boundary ch request b"
  for ch request b
proof
  fix e :: evaluation assume "ev_decision e = Decision_Deny"
  then show "enforce_permissions_boundary ch request b e = Inr e"
    by (simp add: enforce_permissions_boundary_def split: option.split)
next
  fix e e' :: evaluation assume "enforce_permissions_boundary ch request b e = Inr e'"
    and "ev_decision e' = Decision_Allow"
  then show "ev_decision e = Decision_Allow \<and> applicable_allow e' = applicable_allow e
    \<and> applicable_deny e' = applicable_deny e"
    using boundary_allow [of ch request b e e'] by simp
qed

interpretation scp: restricting_layer "enforce_service_control_policies ch request levels"
  for ch request levels
proof
  fix e e' :: evaluation assume "enforce_service_control_policies ch request levels e = Inr e'"
    and "ev_decision e' = Decision_Allow"
  then show "ev_decision e = Decision_Allow \<and> applicable_allow e' = applicable_allow e
    \<and> applicable_deny e' = applicable_deny e"
    using scp_levels_allow [of ch request e levels False e']
    by (auto simp: enforce_service_control_policies_def split: if_splits)
qed (simp add: enforce_service_control_policies_def)

interpretation session_layer: restricting_layer "enforce_session_policy ch request s"
  for ch request s
proof
  fix e e' :: evaluation assume "enforce_session_policy ch request s e = Inr e'"
    and "ev_decision e' = Decision_Allow"
  then show "ev_decision e = Decision_Allow \<and> applicable_allow e' = applicable_allow e
    \<and> applicable_deny e' = applicable_deny e"
    using boundary.only_restricts [of ch request s e]
    by (auto simp: enforce_session_policy_def res_simps split: if_splits)
qed (simp add: enforce_session_policy_def)

interpretation scp_session: layer_pair
  "enforce_service_control_policies ch request levels" "enforce_session_policy ch request s"
  for ch request levels s
  by unfold_locales

interpretation scp_then_session: restricting_layer
  "\<lambda>e. bindE (enforce_service_control_policies ch request levels e) (enforce_session_policy ch request s)"
  for ch request levels s
  by (rule scp_session.pair_restricts)

interpretation all_layers: layer_pair
  "enforce_permissions_boundary ch request b"
  "\<lambda>e. bindE (enforce_service_control_policies ch request levels e) (enforce_session_policy ch request s)"
  for ch request b levels s
  by unfold_locales

text \<open>The three layers in the order of the API, as one layer.\<close>

interpretation layers: restricting_layer
  "\<lambda>e. bindE (enforce_permissions_boundary ch request b e) (\<lambda>e1.
     bindE (enforce_service_control_policies ch request levels e1) (enforce_session_policy ch request s))"
  for ch request b levels s
  by (rule all_layers.pair_restricts)

lemma scp_allow:
  "enforce_service_control_policies ch request levels identity = Inr e \<and> ev_decision e = Decision_Allow
   \<longleftrightarrow> e = identity \<and> ev_decision identity = Decision_Allow
     \<and> (\<forall>ps \<in> set levels.
          \<exists>e'. authorize ch request ps = Inr e' \<and> ev_decision e' = Decision_Allow)"
  using scp_levels_allow [of ch request identity levels False e]
  by (cases "ev_decision identity") (auto simp: enforce_service_control_policies_def)

lemma session_allow:
  "(\<exists>e. enforce_session_policy ch request s identity = Inr e \<and> ev_decision e = Decision_Allow)
   \<longleftrightarrow> ev_decision identity = Decision_Allow
     \<and> (\<forall>b. s = Some b \<longrightarrow>
          (\<exists>e'. authorize ch request [b] = Inr e' \<and> ev_decision e' = Decision_Allow))"
proof -
  have "(\<exists>e. enforce_session_policy ch request s identity = Inr e \<and> ev_decision e = Decision_Allow)
    \<longleftrightarrow> ev_decision identity = Decision_Allow
      \<and> (\<exists>e. enforce_permissions_boundary ch request s identity = Inr e \<and> ev_decision e = Decision_Allow)"
    by (cases "ev_decision identity") (auto simp: enforce_session_policy_def res_simps)
  also have "\<dots> \<longleftrightarrow> ev_decision identity = Decision_Allow
     \<and> (\<forall>b. s = Some b \<longrightarrow>
          (\<exists>e'. authorize ch request [b] = Inr e' \<and> ev_decision e' = Decision_Allow))"
    by (simp add: boundary_allow)
  finally show ?thesis .
qed

lemma administrator_allow:
  "(\<exists>e. authorize_with_administrator ch request ps admin = Inr e \<and> ev_decision e = Decision_Allow)
   \<longleftrightarrow> same_org request \<and> (\<forall>p \<in> set ps. policy_ok ch p)
     \<and> \<not> has_statement ch request Effect_Deny ps
     \<and> (admin \<or> has_statement ch request Effect_Allow ps)"
proof (cases "same_org request \<and> (\<forall>p \<in> set ps. policy_ok ch p)")
  case True
  then show ?thesis
    by (auto simp: authorize_with_administrator_def authorize_same_org Let_def)
next
  case False
  then have "same_org request \<Longrightarrow> \<nexists>e. authorize ch request ps = Inr e"
    using authorize_Inr_ok by blast
  with False show ?thesis
    by (cases "same_org request")
       (auto simp: authorize_with_administrator_def authorize_cross_org res_simps)
qed

subsection \<open>Properties\<close>

definition demo_request :: authorization_request where
  "demo_request = \<lparr>principal_organization_id = 2, resource_organization_id = 2,
     req_action = lit ''flow:CreateRoom'', req_resource = lit ''hc:org:2:flow/*'', evaluated_at = 5\<rparr>"

definition demo_evaluation :: evaluation where
  "demo_evaluation = \<lparr>ev_decision = Decision_Allow, applicable_allow = True,
     applicable_deny = False, ev_reason = ''administrator_allow''\<rparr>"

text \<open>The comparison an operator stands for.\<close>

definition compare_dates :: "str \<Rightarrow> datetime \<Rightarrow> datetime \<Rightarrow> bool" where
  "compare_dates operator now date =
     (if operator = lit ''DateEquals'' then now = date
      else if operator = lit ''DateNotEquals'' then now \<noteq> date
      else if operator = lit ''DateLessThan'' then now < date
      else if operator = lit ''DateLessThanEquals'' then now \<le> date
      else if operator = lit ''DateGreaterThan'' then now > date
      else now \<ge> date)"

lemma operator_cases:
  assumes "operator \<in> set condition_operators"
  obtains "operator = lit ''DateEquals''" | "operator = lit ''DateNotEquals''"
  | "operator = lit ''DateLessThan''" | "operator = lit ''DateLessThanEquals''"
  | "operator = lit ''DateGreaterThan''" | "operator = lit ''DateGreaterThanEquals''"
  using assms by (auto simp: condition_operators_def)

lemma date_matches_compare:
  assumes "operator \<in> set condition_operators" "parse_iam_condition_date ch v = Some date"
  shows "date_matches ch now operator v \<longleftrightarrow>
    (if operator = lit ''DateNotEquals'' then \<not> compare_dates operator now date
     else compare_dates operator now date)"
  using assms(1)
  by (cases rule: operator_cases) (simp_all add: date_matches_def compare_dates_def assms(2) lit_def)

text \<open>
  C6: The evaluation of the policies, read as the Lean kernel: whenever an evaluation is returned
  its decision is the kernel's on the three facts (one account on both sides, some allow applies,
  some deny applies); it is refused with an error only inside one account and only when a policy
  is malformed.
\<close>

theorem authorize_refines_kernel:
  "case authorize ch request ps of
     Inr e \<Rightarrow> ev_decision e = lean_authorize (same_org request)
       (has_statement ch request Effect_Allow ps) (has_statement ch request Effect_Deny ps)
   | Inl _ \<Rightarrow> same_org request \<and> (\<exists>p \<in> set ps. \<not> policy_ok ch p)"
proof (cases "same_org request")
  case True
  show ?thesis
  proof (cases "\<forall>p \<in> set ps. policy_ok ch p")
    case ok: True
    show ?thesis
      by (simp add: authorize_same_org [OF True ok] lean_authorize_def Let_def True)
  next
    case False
    with True authorize_Inr_ok [of ch request ps] show ?thesis by (auto split: sum.splits)
  qed
qed (simp add: authorize_cross_org lean_authorize_def)

text \<open>
  C27: The order of the policies, and how often each is listed, does not change the evaluation:
  two lists with the same documents give the same evaluation, or an error both.
\<close>

theorem authorize_order_irrelevant:
  assumes "set ps = set qs"
  shows "(\<exists>d d'. authorize ch request ps = Inl d \<and> authorize ch request qs = Inl d')
    \<or> authorize ch request ps = authorize ch request qs"
proof -
  have st: "has_statement ch request f ps = has_statement ch request f qs" for f
    by (simp add: has_statement_def assms)
  show ?thesis
  proof (cases "same_org request \<and> (\<forall>p \<in> set ps. policy_ok ch p)")
    case True
    with assms show ?thesis by (simp add: authorize_same_org st)
  next
    case False
    with assms authorize_Inr_ok [of ch request ps] authorize_Inr_ok [of ch request qs] show ?thesis
      by (cases "same_org request"; cases "authorize ch request ps"; cases "authorize ch request qs")
         (auto simp: authorize_cross_org)
  qed
qed

theorem authorize_order_irrelevant_witness:
  "(\<exists>d d'. authorize demo_chrono demo_request [demo_policy, demo_document, demo_policy] = Inl d
        \<and> authorize demo_chrono demo_request [demo_document, demo_policy] = Inl d')
    \<or> authorize demo_chrono demo_request [demo_policy, demo_document, demo_policy]
      = authorize demo_chrono demo_request [demo_document, demo_policy]"
  by (rule authorize_order_irrelevant) auto

text \<open>
  A statement that passed validation has its date conditions evaluated on real dates: each
  operator compares the time of the request with every listed date, any of them sufficing, except
  that DateNotEquals wants all of them to differ.
\<close>

theorem conditions_compare_dates:
  assumes "statement_ok ch st"
  shows "conditions_match ch st request \<longleftrightarrow>
    (\<forall>(operator, keys) \<in> set (st_conditions st). \<exists>key vals. keys = [(key, vals)]
       \<and> (let dates = map (\<lambda>v. the (parse_iam_condition_date ch v)) vals in
          if operator = lit ''DateNotEquals''
          then \<forall>date \<in> set dates. compare_dates operator (evaluated_at request) date
          else \<exists>date \<in> set dates. compare_dates operator (evaluated_at request) date))"
proof -
  let ?now = "evaluated_at request"
  have entry: "(list_all (\<lambda>(_, vals). if operator = lit ''DateNotEquals''
           then list_all (\<lambda>v. \<not> date_matches ch ?now operator v) vals
           else list_ex (date_matches ch ?now operator) vals) keys) \<longleftrightarrow>
     (\<exists>key vals. keys = [(key, vals)]
       \<and> (let dates = map (\<lambda>v. the (parse_iam_condition_date ch v)) vals in
          if operator = lit ''DateNotEquals''
          then \<forall>date \<in> set dates. compare_dates operator ?now date
          else \<exists>date \<in> set dates. compare_dates operator ?now date))"
    if "(operator, keys) \<in> set (st_conditions st)" for operator keys
  proof -
    from assms that obtain key vals where keys: "keys = [(key, vals)]"
      and op: "operator \<in> set condition_operators"
      and dates: "\<forall>v \<in> set vals. parse_iam_condition_date ch v \<noteq> None"
      by (fastforce simp: statement_ok_def conditions_ok_def)
    have "date_matches ch ?now operator v \<longleftrightarrow>
        (if operator = lit ''DateNotEquals''
         then \<not> compare_dates operator ?now (the (parse_iam_condition_date ch v))
         else compare_dates operator ?now (the (parse_iam_condition_date ch v)))"
      if "v \<in> set vals" for v
      using date_matches_compare [OF op] dates that by fastforce
    then show ?thesis
      by (cases "operator = lit ''DateNotEquals''")
         (simp_all add: keys Let_def list_all_iff list_ex_iff)
  qed
  show ?thesis
    unfolding conditions_match_def list_all_iff [of _ "st_conditions st"]
  proof (rule ball_cong [OF refl])
    fix x assume x: "x \<in> set (st_conditions st)"
    obtain operator keys where p: "x = (operator, keys)" by (cases x)
    show "(case x of (operator, keys) \<Rightarrow> list_all (\<lambda>(_, vals). if operator = lit ''DateNotEquals''
           then list_all (\<lambda>v. \<not> date_matches ch ?now operator v) vals
           else list_ex (date_matches ch ?now operator) vals) keys) \<longleftrightarrow>
      (case x of (operator, keys) \<Rightarrow> \<exists>key vals. keys = [(key, vals)]
         \<and> (let dates = map (\<lambda>v. the (parse_iam_condition_date ch v)) vals in
            if operator = lit ''DateNotEquals''
            then \<forall>date \<in> set dates. compare_dates operator ?now date
            else \<exists>date \<in> set dates. compare_dates operator ?now date))"
      unfolding p prod.case by (rule entry [OF x [unfolded p]])
  qed
qed

theorem conditions_compare_dates_witness:
  "conditions_match demo_chrono (hd (doc_statements demo_document)) demo_request"
proof -
  have ok: "statement_ok demo_chrono (hd (doc_statements demo_document))" by code_simp
  show ?thesis
    by (rule conditions_compare_dates [OF ok, THEN iffD2])
       (simp add: demo_document_def, intro conjI exI; code_simp)
qed

text \<open>
  C28: The permissions boundary, the service control policies and the session policy only restrict:
  what passes all three was allowed before them with the same facts, and a refusal goes through
  unchanged and without an error.
\<close>

theorem layers_only_restrict:
  "(bindE (enforce_permissions_boundary ch request b e) (\<lambda>e1.
     bindE (enforce_service_control_policies ch request levels e1) (enforce_session_policy ch request s))
     = Inr e' \<and> ev_decision e' = Decision_Allow
     \<longrightarrow> ev_decision e = Decision_Allow \<and> applicable_allow e' = applicable_allow e
       \<and> applicable_deny e' = applicable_deny e)
   \<and> (ev_decision e = Decision_Deny \<longrightarrow>
       bindE (enforce_permissions_boundary ch request b e) (\<lambda>e1.
         bindE (enforce_service_control_policies ch request levels e1)
           (enforce_session_policy ch request s)) = Inr e)"
  using layers.only_restricts [of ch request b e levels s e']
    layers.keeps_deny [of e ch request b levels s]
  by simp

theorem layers_only_restrict_witness:
  "bindE (enforce_permissions_boundary demo_chrono demo_request (Some demo_policy) demo_evaluation)
     (\<lambda>e1. bindE (enforce_service_control_policies demo_chrono demo_request [[demo_policy]] e1)
        (enforce_session_policy demo_chrono demo_request (Some demo_policy))) = Inr demo_evaluation
   \<and> ev_decision demo_evaluation = Decision_Allow"
proof
  show *: "bindE (enforce_permissions_boundary demo_chrono demo_request (Some demo_policy)
      demo_evaluation) (\<lambda>e1. bindE (enforce_service_control_policies demo_chrono demo_request
        [[demo_policy]] e1) (enforce_session_policy demo_chrono demo_request (Some demo_policy)))
      = Inr demo_evaluation"
    by code_simp
  have "ev_decision demo_evaluation = Decision_Allow" by code_simp
  with * show "ev_decision demo_evaluation = Decision_Allow"
    using layers_only_restrict by blast
qed

end
