(* ===== verification/Access_Control.thy ===== *)
theory Access_Control
  imports IAM
begin

section \<open>Who may do what: the identity tables and the API's authorization\<close>

text \<open>
  The queries of the store that gather a principal's policies, boundary and service control levels
  (\<open>authorization_context\<close>, \<open>authorization_context_for_principal\<close> in
  \<open>src/crates/heterocloud-store/src/lib.rs\<close>, \<open>permissions_boundary\<close> in \<open>iam_groups.rs\<close>,
  \<open>service_control_levels\<close> in \<open>cloud_organizations.rs\<close>) and the authorization of a request by the
  API (\<open>evaluate_account_permissions\<close>, \<open>authorize_actor_with_implicit_allow\<close> in
  \<open>src/crates/heterocloud-api/src/routes.rs\<close>).

  A table is the list of its rows; a stored policy is the document its JSON decodes to. A query
  that fails in the database is not modelled.
\<close>

subsection \<open>Tables\<close>

datatype store_error =
    AlreadyExists
  | Conflict
  | NotFound
  | RequestRejected string
  | Invariant string
  | InvitationUnavailable
  | SqlUniqueViolation
  | SqlCheckViolation
  | JsonError

datatype principal_kind = Kind_User | Kind_ServiceAccount

record account_row =
  ac_id :: uuid
  ac_slug :: str
  ac_name :: str
  ac_number :: nat

record user_row =
  u_id :: uuid
  u_email :: str
  u_display_name :: str
  u_password_hash :: "str option"
  u_active :: bool

record principal_row =
  p_id :: uuid
  p_organization_id :: uuid
  p_kind :: principal_kind
  p_name :: str
  p_user_id :: "uuid option"
  p_quota_user_id :: "uuid option"
  p_enabled :: bool
  p_boundary_policy_id :: "uuid option"

record membership_row =
  m_organization_id :: uuid
  m_user_id :: uuid
  m_principal_id :: uuid
  m_role :: str
  m_membership_id :: uuid

record policy_row =
  pol_id :: uuid
  pol_organization_id :: uuid
  pol_name :: str
  pol_document :: policy_document

record unit_row =
  un_id :: uuid
  un_organization_id :: uuid
  un_parent_id :: "uuid option"
  un_name :: str

record cloud_account_row =
  ca_account_id :: uuid
  ca_organization_id :: uuid
  ca_parent_id :: uuid

record scp_policy =
  sp_id :: uuid
  sp_organization_id :: uuid
  sp_name :: str
  sp_document :: policy_document
  sp_is_managed :: bool

text \<open>
  The accounts are the rows of the table \<open>organizations\<close>. Bindings are (id, account, principal,
  policy), groups (id, account, name), group members (account, group, principal), group attachments
  (account, group, policy), cloud organizations (id, management account), attachments of service
  control policies (organization, unit or account, policy).
\<close>

record iam_tables =
  organizations :: "account_row list"
  users :: "user_row list"
  principals :: "principal_row list"
  memberships :: "membership_row list"
  iam_policies :: "policy_row list"
  iam_bindings :: "(uuid \<times> uuid \<times> uuid \<times> uuid) list"
  iam_groups :: "(uuid \<times> uuid \<times> str) list"
  iam_group_members :: "(uuid \<times> uuid \<times> uuid) list"
  iam_group_policies :: "(uuid \<times> uuid \<times> uuid) list"
  scp_enabled :: bool
  cloud_organizations :: "(uuid \<times> uuid) list"
  cloud_units :: "unit_row list"
  cloud_accounts :: "cloud_account_row list"
  cloud_scps :: "scp_policy list"
  scp_unit_attachments :: "(uuid \<times> uuid \<times> uuid) list"
  scp_account_attachments :: "(uuid \<times> uuid \<times> uuid) list"

record authorization_context =
  ctx_principal_id :: uuid
  ctx_role :: str
  ctx_policies :: "policy_document list"
  ctx_permissions_boundary :: "policy_document option"

subsection \<open>The policies of a principal\<close>

definition user_is_active :: "iam_tables \<Rightarrow> uuid \<Rightarrow> bool" where
  "user_is_active db u \<longleftrightarrow> list_ex (\<lambda>r. u_id r = u \<and> u_active r) (users db)"

definition policy_attached :: "iam_tables \<Rightarrow> uuid \<Rightarrow> uuid \<Rightarrow> uuid \<Rightarrow> bool" where
  "policy_attached db account prin policy \<longleftrightarrow>
     list_ex (\<lambda>(_, binding). binding = (account, prin, policy)) (iam_bindings db)
     \<or> list_ex (\<lambda>(org, grp, member). org = account \<and> member = prin
          \<and> (org, grp, policy) \<in> set (iam_group_policies db)) (iam_group_members db)"

definition principal_policies :: "iam_tables \<Rightarrow> uuid \<Rightarrow> uuid \<Rightarrow> policy_document list" where
  "principal_policies db account prin =
     map pol_document
       (sort_key pol_id
         (filter (\<lambda>p. pol_organization_id p = account
                      \<and> policy_attached db account prin (pol_id p)) (iam_policies db)))"

definition permissions_boundary :: "iam_tables \<Rightarrow> uuid \<Rightarrow> uuid \<Rightarrow> policy_document option" where
  "permissions_boundary db account prin =
     (case find (\<lambda>p. p_organization_id p = account \<and> p_id p = prin) (principals db) of
        None \<Rightarrow> None
      | Some p \<Rightarrow>
          (case p_boundary_policy_id p of
             None \<Rightarrow> None
           | Some b \<Rightarrow>
               map_option pol_document
                 (find (\<lambda>pol. pol_organization_id pol = account \<and> pol_id pol = b)
                   (iam_policies db))))"

definition authorization_context ::
    "iam_tables \<Rightarrow> uuid \<Rightarrow> uuid \<Rightarrow> authorization_context option" where
  "authorization_context db user organization =
     (case find (\<lambda>m. m_user_id m = user \<and> m_organization_id m = organization
              \<and> list_ex (\<lambda>p. p_id p = m_principal_id m \<and> p_organization_id p = m_organization_id m
                             \<and> p_user_id p = Some (m_user_id m) \<and> p_enabled p) (principals db)
              \<and> user_is_active db (m_user_id m)) (memberships db) of
        None \<Rightarrow> None
      | Some m \<Rightarrow>
          Some \<lparr>ctx_principal_id = m_principal_id m, ctx_role = m_role m,
                ctx_policies = principal_policies db organization (m_principal_id m),
                ctx_permissions_boundary = permissions_boundary db organization (m_principal_id m)\<rparr>)"

definition authorization_context_for_principal ::
    "iam_tables \<Rightarrow> uuid \<Rightarrow> uuid \<Rightarrow> authorization_context option" where
  "authorization_context_for_principal db prin organization =
     (if list_ex (\<lambda>p. p_id p = prin \<and> p_organization_id p = organization \<and> p_enabled p
                      \<and> (case p_user_id p of None \<Rightarrow> True | Some u \<Rightarrow> user_is_active db u))
           (principals db)
      then Some \<lparr>ctx_principal_id = prin, ctx_role = lit ''service_account'',
                 ctx_policies = principal_policies db organization prin,
                 ctx_permissions_boundary = permissions_boundary db organization prin\<rparr>
      else None)"

subsection \<open>The service control levels of an account\<close>

text \<open>The recursive query over the organizational units, with its list of visited units.\<close>

function ancestors :: "unit_row list \<Rightarrow> uuid list \<Rightarrow> unit_row \<Rightarrow> unit_row list" where
  "ancestors units visited u =
     u # (case un_parent_id u of
            None \<Rightarrow> []
          | Some parent \<Rightarrow>
              (case find (\<lambda>x. un_id x = parent \<and> un_organization_id x = un_organization_id u
                             \<and> un_id x \<notin> set visited) units of
                 None \<Rightarrow> []
               | Some x \<Rightarrow> ancestors units (visited @ [un_id x]) x))"
  by pat_completeness auto
termination
proof (relation "measure (\<lambda>(units, visited, u). length (filter (\<lambda>x. un_id x \<notin> set visited) units))")
  fix units :: "unit_row list" and visited and u :: unit_row and parent x
  assume "find (\<lambda>x. un_id x = parent \<and> un_organization_id x = un_organization_id u
    \<and> un_id x \<notin> set visited) units = Some x"
  then have x: "x \<in> set units" "un_id x \<notin> set visited" by (auto simp: find_Some_iff)
  have "length (filter (\<lambda>y. un_id y \<notin> set (visited @ [un_id x])) units)
      < length (filter (\<lambda>y. un_id y \<notin> set visited) units)"
    by (rule length_filter_strict [OF x(1)]) (use x in auto)
  then show "((units, visited @ [un_id x], x), units, visited, u)
      \<in> measure (\<lambda>(units, visited, u). length (filter (\<lambda>x. un_id x \<notin> set visited) units))"
    by simp
qed simp

declare ancestors.simps [simp del]

type_synonym scp_row = "uuid \<times> bool \<times> policy_document option"

text \<open>
  The two left joins: a target without an attachment gives one row without a document, which still
  opens its level.
\<close>

definition attached_rows :: "iam_tables \<Rightarrow> (uuid \<times> uuid \<times> uuid) list \<Rightarrow> uuid \<Rightarrow> bool \<Rightarrow> scp_row list" where
  "attached_rows db attachments target is_root =
     (case filter (\<lambda>(_, t, _). t = target) attachments of
        [] \<Rightarrow> [(target, is_root, None)]
      | as \<Rightarrow> map (\<lambda>(_, _, policy). (target, is_root,
          map_option sp_document (find (\<lambda>p. sp_id p = policy) (cloud_scps db)))) as)"

definition account_units :: "iam_tables \<Rightarrow> uuid \<Rightarrow> unit_row list" where
  "account_units db account =
     (case find (\<lambda>a. ca_account_id a = account) (cloud_accounts db) of
        None \<Rightarrow> []
      | Some a \<Rightarrow>
          (case find (\<lambda>u. un_id u = ca_parent_id a \<and> un_organization_id u = ca_organization_id a)
                  (cloud_units db) of
             None \<Rightarrow> []
           | Some u \<Rightarrow> ancestors (cloud_units db) [un_id u] u))"

definition scp_rows :: "iam_tables \<Rightarrow> uuid \<Rightarrow> scp_row list" where
  "scp_rows db account =
     concat (map (\<lambda>u. attached_rows db (scp_unit_attachments db) (un_id u) (un_parent_id u = None))
               (account_units db account))
     @ (if list_ex (\<lambda>a. ca_account_id a = account) (cloud_accounts db)
        then attached_rows db (scp_account_attachments db) account False else [])"

primrec group_levels ::
    "scp_row list \<Rightarrow> (uuid, policy_document list) btree \<Rightarrow> (uuid, policy_document list) btree" where
  "group_levels [] levels = levels"
| "group_levels (row # rows) levels =
     (case row of (target, _, document) \<Rightarrow>
        (let level = (case map_of levels target of None \<Rightarrow> [] | Some l \<Rightarrow> l) in
         group_levels rows
           (btree_insert target (case document of None \<Rightarrow> level | Some d \<Rightarrow> level @ [d]) levels)))"

definition cloud_organization_for_account :: "iam_tables \<Rightarrow> uuid \<Rightarrow> (uuid \<times> uuid) option" where
  "cloud_organization_for_account db account =
     (case find (\<lambda>a. ca_account_id a = account) (cloud_accounts db) of
        None \<Rightarrow> None
      | Some a \<Rightarrow>
          find (\<lambda>(org, _). org = ca_organization_id a
                 \<and> list_ex (\<lambda>u. un_organization_id u = org \<and> un_parent_id u = None) (cloud_units db))
            (cloud_organizations db))"

definition service_control_levels ::
    "iam_tables \<Rightarrow> uuid \<Rightarrow> store_error + policy_document list list" where
  "service_control_levels db account =
     (if \<not> scp_enabled db then Inr []
      else
        bindE (ok_or (cloud_organization_for_account db account)
                 (Invariant ''account is missing its organization'')) (\<lambda>(_, management).
          if management = account then Inr []
          else if \<not> list_ex (\<lambda>(_, is_root, _). is_root) (scp_rows db account)
          then Inl (Invariant ''account organization has no reachable root'')
          else Inr (map snd (group_levels (scp_rows db account) []))))"

subsection \<open>The authorization of a request\<close>

datatype api_error =
    ApiBadRequest string
  | ApiConflict
  | ApiForbidden
  | ApiTemporaryCredentialCannotIssueDurable
  | ApiInternal
  | ApiIdentityProviderUnavailable
  | ApiFlashProviderUnavailable
  | ApiSyouyuProviderUnavailable
  | ApiNotFound
  | ApiServiceInstanceNotReady
  | ApiSyouyuBucketNotReady
  | ApiRealtimeProviderUnavailable
  | ApiRegistryProviderUnavailable
  | ApiSecretManagerUnavailable
  | ApiServiceControlUnavailable
  | ApiBrowserRoleSessionExpired
  | ApiTooManyRequests
  | ApiUnauthorized

fun from_store :: "store_error \<Rightarrow> api_error" where
  "from_store AlreadyExists = ApiConflict"
| "from_store Conflict = ApiConflict"
| "from_store InvitationUnavailable =
     ApiBadRequest ''The invitation is invalid or no longer available.''"
| "from_store NotFound = ApiNotFound"
| "from_store (RequestRejected message) = ApiBadRequest message"
| "from_store SqlUniqueViolation = ApiConflict"
| "from_store SqlCheckViolation = ApiInternal"
| "from_store (Invariant _) = ApiInternal"
| "from_store JsonError = ApiInternal"

text \<open>The status, the code and the message of an error response.\<close>

fun into_response :: "api_error \<Rightarrow> nat \<times> string \<times> string" where
  "into_response (ApiBadRequest message) =
     (400, ''bad_request'', message)"
| "into_response ApiConflict =
     (409, ''conflict'', ''A resource with the same identifier already exists.'')"
| "into_response ApiForbidden =
     (403, ''forbidden'', ''The authenticated principal is not authorized.'')"
| "into_response ApiTemporaryCredentialCannotIssueDurable =
     (403, ''temporary_session_cannot_issue_durable_credential'', ''Role and workload sessions cannot issue or rotate credentials that outlive the session.'')"
| "into_response ApiInternal =
     (500, ''internal'', ''The request could not be completed.'')"
| "into_response ApiIdentityProviderUnavailable =
     (503, ''identity_provider_unavailable'', ''The configured identity provider is temporarily unavailable.'')"
| "into_response ApiFlashProviderUnavailable =
     (503, ''flash_provider_unavailable'', ''The Flash provider is temporarily unavailable.'')"
| "into_response ApiSyouyuProviderUnavailable =
     (503, ''syouyu_provider_unavailable'', ''The Syouyu provider is temporarily unavailable.'')"
| "into_response ApiNotFound =
     (404, ''not_found'', ''The requested resource was not found.'')"
| "into_response ApiServiceInstanceNotReady =
     (409, ''service_instance_not_ready'', ''The Flow service instance is not ready for access contexts.'')"
| "into_response ApiSyouyuBucketNotReady =
     (409, ''syouyu_bucket_not_ready'', ''The Syouyu bucket is not ready for data access.'')"
| "into_response ApiRealtimeProviderUnavailable =
     (503, ''realtime_provider_unavailable'', ''The realtime data plane is temporarily unavailable.'')"
| "into_response ApiRegistryProviderUnavailable =
     (503, ''registry_provider_unavailable'', ''Flash Registry is temporarily unavailable.'')"
| "into_response ApiSecretManagerUnavailable =
     (503, ''secret_manager_unavailable'', ''Secret Manager is temporarily unavailable.'')"
| "into_response ApiServiceControlUnavailable =
     (503, ''service_control_unavailable'', ''Organization and IAM controls are pending activation after the API fleet upgrade.'')"
| "into_response ApiBrowserRoleSessionExpired =
     (403, ''browser_role_session_expired'', ''The role session expired or was revoked. Exit the role to continue.'')"
| "into_response ApiTooManyRequests =
     (429, ''too_many_requests'', ''Too many expensive authentication requests are in progress.'')"
| "into_response ApiUnauthorized =
     (401, ''unauthorized'', ''Authentication is required.'')"

text \<open>
  The authenticated caller: a browser session (its user), a workload token, a command line token,
  a role session (with its session policy, the browser user or the identity center user behind
  it), an API key. All but the first are bound to one account.
\<close>

datatype authenticated_actor =
    ActorUser (au_user: uuid)
  | ActorWorkload (aw_organization: uuid) (aw_principal: uuid)
  | ActorCliToken (ac_organization: uuid) (ac_user: uuid)
  | ActorRoleSession (ar_organization: uuid) (ar_principal: uuid)
      (ar_session_policy: "policy_document option") (ar_browser_user: "uuid option")
      (ar_identity_center_user: "uuid option")
  | ActorApiKey (ak_organization: uuid) (ak_principal: uuid) (ak_id: uuid)

record audit_event =
  audit_organization_id :: "uuid option"
  audit_principal_id :: "uuid option"
  audit_user_id :: "uuid option"
  audit_action :: str
  audit_resource :: str
  audit_decision :: string
  audit_reason :: string

fun actor_organization :: "authenticated_actor \<Rightarrow> uuid option" where
  "actor_organization (ActorUser _) = None"
| "actor_organization (ActorWorkload org _) = Some org"
| "actor_organization (ActorCliToken org _) = Some org"
| "actor_organization (ActorRoleSession org _ _ _ _) = Some org"
| "actor_organization (ActorApiKey org _ _) = Some org"

fun actor_context ::
    "iam_tables \<Rightarrow> uuid \<Rightarrow> authenticated_actor \<Rightarrow>
     api_error + authorization_context \<times> uuid option" where
  "actor_context db organization (ActorUser user) =
     bindE (ok_or (authorization_context db user organization) ApiForbidden)
       (\<lambda>context. Inr (context, Some user))"
| "actor_context db organization (ActorRoleSession org prin _ browser idc_user) =
     (if org \<noteq> organization then Inl ApiForbidden
      else bindE (ok_or (authorization_context_for_principal db prin organization) ApiForbidden)
        (\<lambda>context. Inr (context, case browser of Some u \<Rightarrow> Some u | None \<Rightarrow> idc_user)))"
| "actor_context db organization (ActorCliToken org user) =
     (if org \<noteq> organization then Inl ApiForbidden
      else bindE (ok_or (authorization_context db user organization) ApiForbidden)
        (\<lambda>context. Inr (context, Some user)))"
| "actor_context db organization (ActorWorkload org prin) =
     (if org \<noteq> organization then Inl ApiForbidden
      else bindE (ok_or (authorization_context_for_principal db prin organization) ApiForbidden)
        (\<lambda>context. Inr (context, None)))"
| "actor_context db organization (ActorApiKey org prin _) =
     (if org \<noteq> organization then Inl ApiForbidden
      else bindE (ok_or (authorization_context_for_principal db prin organization) ApiForbidden)
        (\<lambda>context. Inr (context, None)))"

fun require_durable_credential_issuer :: "authenticated_actor \<Rightarrow> api_error + unit" where
  "require_durable_credential_issuer (ActorRoleSession _ _ _ _ _) =
     Inl ApiTemporaryCredentialCannotIssueDurable"
| "require_durable_credential_issuer (ActorWorkload _ _) =
     Inl ApiTemporaryCredentialCannotIssueDurable"
| "require_durable_credential_issuer _ = Inr ()"

fun actor_session_policy :: "authenticated_actor \<Rightarrow> policy_document option" where
  "actor_session_policy (ActorRoleSession _ _ policy _ _) = policy"
| "actor_session_policy _ = None"

definition is_account_admin :: "authorization_context \<Rightarrow> bool" where
  "is_account_admin context \<longleftrightarrow>
     ctx_role context = lit ''owner'' \<or> ctx_role context = lit ''admin''"

definition account_request ::
    "uuid \<Rightarrow> str \<Rightarrow> str \<Rightarrow> datetime \<Rightarrow> authorization_request" where
  "account_request organization action resource at =
     \<lparr>principal_organization_id = organization, resource_organization_id = organization,
      req_action = action, req_resource = resource, evaluated_at = at\<rparr>"

definition evaluate_account_permissions ::
    "chrono \<Rightarrow> iam_tables \<Rightarrow> authorization_context \<Rightarrow> uuid \<Rightarrow> str \<Rightarrow> str \<Rightarrow> bool \<Rightarrow> datetime \<Rightarrow>
     api_error + evaluation" where
  "evaluate_account_permissions ch db context organization action resource implicit_allow at =
     (let request = account_request organization action resource at in
      bindE (map_err (\<lambda>_. ApiInternal)
        (authorize_with_administrator ch request (ctx_policies context)
           (implicit_allow \<or> is_account_admin context))) (\<lambda>identity.
      let identity =
            (if implicit_allow \<and> \<not> is_account_admin context
                \<and> ev_reason identity = ''administrator_allow''
             then identity\<lparr>ev_reason := ''self_service_allow''\<rparr> else identity) in
      bindE (map_err (\<lambda>_. ApiInternal)
        (enforce_permissions_boundary ch request (ctx_permissions_boundary context) identity))
        (\<lambda>identity.
      bindE (map_err from_store (service_control_levels db organization)) (\<lambda>levels.
      map_err (\<lambda>_. ApiInternal)
        (enforce_service_control_policies ch request levels identity)))))"

text \<open>The result and the audit log with the event the call appends.\<close>

definition authorize_actor_with_implicit_allow ::
    "chrono \<Rightarrow> iam_tables \<Rightarrow> authenticated_actor \<Rightarrow> uuid \<Rightarrow> str \<Rightarrow> str \<Rightarrow> bool \<Rightarrow> datetime \<Rightarrow>
     audit_event list \<Rightarrow> (api_error + authorization_context) \<times> audit_event list" where
  "authorize_actor_with_implicit_allow ch db actor organization action resource implicit_allow at log =
     (case actor_context db organization actor of
        Inl e \<Rightarrow> (Inl e, log)
      | Inr (context, user) \<Rightarrow>
          (case bindE (evaluate_account_permissions ch db context organization action resource
                         implicit_allow at) (\<lambda>evaluation.
                  map_err (\<lambda>_. ApiInternal)
                    (enforce_session_policy ch (account_request organization action resource at)
                       (actor_session_policy actor) evaluation)) of
             Inl e \<Rightarrow> (Inl e, log)
           | Inr evaluation \<Rightarrow>
               (let event = \<lparr>audit_organization_id = Some organization,
                             audit_principal_id = Some (ctx_principal_id context),
                             audit_user_id = user, audit_action = action,
                             audit_resource = resource,
                             audit_decision = (case ev_decision evaluation of
                                 Decision_Allow \<Rightarrow> ''allow'' | Decision_Deny \<Rightarrow> ''deny''),
                             audit_reason = ev_reason evaluation\<rparr> in
                (if ev_decision evaluation = Decision_Deny then Inl ApiForbidden else Inr context,
                 log @ [event]))))"

subsection \<open>The levels an account is subject to\<close>

text \<open>The documents the rows of one target carry.\<close>

definition target_documents :: "scp_row list \<Rightarrow> uuid \<Rightarrow> policy_document list" where
  "target_documents rows t =
     concat (map (\<lambda>(t', _, d). if t' = t then (case d of None \<Rightarrow> [] | Some x \<Rightarrow> [x]) else []) rows)"

lemma map_of_group_levels:
  "map_of (group_levels rows m) t =
     (if t \<in> fst ` set rows \<or> map_of m t \<noteq> None
      then Some ((case map_of m t of None \<Rightarrow> [] | Some l \<Rightarrow> l) @ target_documents rows t) else None)"
proof (induction rows arbitrary: m)
  case Nil
  then show ?case by (auto simp: target_documents_def)
next
  case (Cons row rows)
  obtain t' r d where "row = (t', r, d)" by (cases row) auto
  then show ?case
    by (auto simp: Cons.IH target_documents_def Let_def map_of_btree_insert image_iff
             split: option.splits)
qed

lemma btree_wf_group_levels: "btree_wf m \<Longrightarrow> btree_wf (group_levels rows m)"
  by (induction rows arbitrary: m) (auto simp: Let_def btree_wf_insert split: prod.splits)

lemma group_levels_values:
  "snd ` set (group_levels rows []) = target_documents rows ` fst ` set rows"
proof -
  let ?m = "group_levels rows []"
  have wf: "btree_wf ?m" by (rule btree_wf_group_levels) (simp add: btree_wf_def)
  have entry: "(t, l) \<in> set ?m \<longleftrightarrow> t \<in> fst ` set rows \<and> l = target_documents rows t" for t l
    using map_of_group_levels [of rows "[]" t]
      map_of_eq_Some_iff [OF btree_wf_distinct [OF wf], of t l]
    by (auto split: if_splits)
  have "x \<in> set ?m \<longleftrightarrow> x \<in> (\<lambda>t. (t, target_documents rows t)) ` fst ` set rows" for x
  proof (cases x)
    case (Pair t l)
    show ?thesis unfolding Pair entry by blast
  qed
  then have "set ?m = (\<lambda>t. (t, target_documents rows t)) ` fst ` set rows" by (rule set_eqI)
  then show ?thesis by (simp add: image_image)
qed

lemma attached_rows_targets: "fst ` set (attached_rows db as t r) = {t}"
proof (cases "filter (\<lambda>(_, t', _). t' = t) as")
  case (Cons a l)
  then show ?thesis by (auto simp: attached_rows_def image_image case_prod_beta)
qed (simp add: attached_rows_def)

lemma scp_rows_targets:
  "fst ` set (scp_rows db account) =
     un_id ` set (account_units db account)
     \<union> (if account \<in> ca_account_id ` set (cloud_accounts db) then {account} else {})"
  by (cases "list_ex (\<lambda>a. ca_account_id a = account) (cloud_accounts db)")
     (auto simp: scp_rows_def list_ex_iff image_Un image_UN attached_rows_targets)

lemma ancestors_units:
  "u \<in> set units \<Longrightarrow> set (ancestors units visited u) \<subseteq> set units"
proof (induction units visited u rule: ancestors.induct)
  case (1 units visited u)
  show ?case
  proof (cases "un_parent_id u")
    case None
    with 1(2) show ?thesis by (subst ancestors.simps) simp
  next
    case (Some parent)
    let ?f = "find (\<lambda>x. un_id x = parent \<and> un_organization_id x = un_organization_id u
                       \<and> un_id x \<notin> set visited) units"
    show ?thesis
    proof (cases ?f)
      case None
      with Some 1(2) show ?thesis by (subst ancestors.simps) simp
    next
      case (Some x)
      then have "x \<in> set units" by (auto simp: find_Some_iff)
      then have "set (ancestors units (visited @ [un_id x]) x) \<subseteq> set units"
        by (rule 1(1) [OF \<open>un_parent_id u = Some parent\<close> Some])
      with Some \<open>un_parent_id u = Some parent\<close> 1(2) show ?thesis
        by (subst ancestors.simps) simp
    qed
  qed
qed

subsection \<open>What an allowed request has passed\<close>

text \<open>A document list is readable and permits the request.\<close>

definition layer_permits :: "chrono \<Rightarrow> authorization_request \<Rightarrow> policy_document list \<Rightarrow> bool" where
  "layer_permits ch request ps \<longleftrightarrow>
     (\<forall>p \<in> set ps. policy_ok ch p) \<and> permits_request ch request ps"

definition optional_layer_permits ::
    "chrono \<Rightarrow> authorization_request \<Rightarrow> policy_document option \<Rightarrow> bool" where
  "optional_layer_permits ch request layer =
     (case layer of None \<Rightarrow> True | Some p \<Rightarrow> layer_permits ch request [p])"

lemma authorize_layer:
  "principal_organization_id request = resource_organization_id request \<Longrightarrow>
   (\<exists>e. authorize ch request ps = Inr e \<and> ev_decision e = Decision_Allow) \<longleftrightarrow>
     layer_permits ch request ps"
  by (simp add: authorize_allows_iff layer_permits_def same_org_def)

lemma account_request_orgs [simp]:
  "principal_organization_id (account_request org a r at) = org"
  "resource_organization_id (account_request org a r at) = org"
  by (simp_all add: account_request_def)

lemma evaluate_allow_iff:
  "(\<exists>e. evaluate_account_permissions ch db context org action resource implicit at = Inr e
        \<and> ev_decision e = Decision_Allow) \<longleftrightarrow>
   (\<exists>levels. service_control_levels db org = Inr levels
      \<and> (\<forall>ps \<in> set levels. layer_permits ch (account_request org action resource at) ps))
   \<and> (\<forall>p \<in> set (ctx_policies context). policy_ok ch p)
   \<and> \<not> has_statement ch (account_request org action resource at) Effect_Deny (ctx_policies context)
   \<and> (implicit \<or> is_account_admin context
      \<or> has_statement ch (account_request org action resource at) Effect_Allow (ctx_policies context))
   \<and> (\<forall>b. ctx_permissions_boundary context = Some b \<longrightarrow>
        layer_permits ch (account_request org action resource at) [b])"
  (is "?L \<longleftrightarrow> ?R")
proof -
  let ?r = "account_request org action resource at"
  let ?id = "\<lambda>e. if implicit \<and> \<not> is_account_admin context \<and> ev_reason e = ''administrator_allow''
                 then e\<lparr>ev_reason := ''self_service_allow''\<rparr> else e"
  let ?adm = "implicit \<or> is_account_admin context"
  have dec: "ev_decision (?id e) = ev_decision e" for e by simp
  have "?L \<longleftrightarrow> (\<exists>e i b levels.
      authorize_with_administrator ch ?r (ctx_policies context) ?adm = Inr i
      \<and> enforce_permissions_boundary ch ?r (ctx_permissions_boundary context) (?id i) = Inr b
      \<and> service_control_levels db org = Inr levels
      \<and> enforce_service_control_policies ch ?r levels b = Inr e \<and> ev_decision e = Decision_Allow)"
    unfolding evaluate_account_permissions_def Let_def by (simp add: bindE_Inr_iff) blast
  also have "\<dots> \<longleftrightarrow> (\<exists>i b levels.
      authorize_with_administrator ch ?r (ctx_policies context) ?adm = Inr i
      \<and> (enforce_permissions_boundary ch ?r (ctx_permissions_boundary context) (?id i) = Inr b
         \<and> ev_decision b = Decision_Allow)
      \<and> service_control_levels db org = Inr levels
      \<and> (\<forall>ps \<in> set levels. layer_permits ch ?r ps))"
    by (simp only: scp_allow authorize_layer account_request_orgs) blast
  also have "\<dots> \<longleftrightarrow> (\<exists>i.
      authorize_with_administrator ch ?r (ctx_policies context) ?adm = Inr i
      \<and> ev_decision i = Decision_Allow)
      \<and> (\<forall>b. ctx_permissions_boundary context = Some b \<longrightarrow> layer_permits ch ?r [b])
      \<and> (\<exists>levels. service_control_levels db org = Inr levels
        \<and> (\<forall>ps \<in> set levels. layer_permits ch ?r ps))"
    by (simp only: boundary_allow authorize_layer account_request_orgs dec) blast
  also have "\<dots> \<longleftrightarrow> ?R"
    by (simp only: administrator_allow same_org_def account_request_orgs) blast
  finally show ?thesis .
qed

lemma service_control_levels_error:
  "service_control_levels db account = Inl e \<Longrightarrow> from_store e = ApiInternal"
  by (auto simp: service_control_levels_def bindE_Inl_iff ok_or_def
           split: if_splits option.splits)

lemma session_layer_allow:
  "(\<exists>e'. enforce_session_policy ch (account_request org action resource at) s e = Inr e'
        \<and> ev_decision e' = Decision_Allow) \<longleftrightarrow>
   ev_decision e = Decision_Allow
   \<and> optional_layer_permits ch (account_request org action resource at) s"
  unfolding session_allow by (cases s) (simp_all add: authorize_layer optional_layer_permits_def)

lemma authorize_actor_cases:
  assumes result_def:
    "result = authorize_actor_with_implicit_allow ch db actor org action resource implicit at log"
  obtains (stopped) e where "result = (Inl e, log)"
      "e = ApiForbidden \<or> e = ApiInternal"
  | (evaluated) cx user e where "actor_context db org actor = Inr (cx, user)"
      "bindE (evaluate_account_permissions ch db cx org action resource implicit at)
         (\<lambda>evaluation. map_err (\<lambda>_. ApiInternal)
            (enforce_session_policy ch (account_request org action resource at)
               (actor_session_policy actor) evaluation)) = Inr e"
      "fst result = (if ev_decision e = Decision_Deny then Inl ApiForbidden else Inr cx)"
      "snd result = log @ [\<lparr>audit_organization_id = Some org,
         audit_principal_id = Some (ctx_principal_id cx), audit_user_id = user,
         audit_action = action, audit_resource = resource,
         audit_decision = (case ev_decision e of Decision_Allow \<Rightarrow> ''allow'' | Decision_Deny \<Rightarrow> ''deny''),
         audit_reason = ev_reason e\<rparr>]"
proof (cases "actor_context db org actor")
  case (Inl e)
  moreover from this have "e = ApiForbidden"
    by (cases actor) (auto simp: bindE_Inl_iff ok_or_def split: if_splits option.splits)
  ultimately show ?thesis
    by (intro stopped [of e]) (simp_all add: result_def authorize_actor_with_implicit_allow_def)
next
  case (Inr cu)
  obtain cx user where cu: "cu = (cx, user)" by (cases cu)
  let ?ev = "bindE (evaluate_account_permissions ch db cx org action resource implicit at)
         (\<lambda>evaluation. map_err (\<lambda>_. ApiInternal)
            (enforce_session_policy ch (account_request org action resource at)
               (actor_session_policy actor) evaluation))"
  show ?thesis
  proof (cases ?ev)
    case (Inl e)
    then have "e = ApiInternal"
      using service_control_levels_error
      by (auto simp: bindE_Inl_iff map_err_Inl_iff evaluate_account_permissions_def Let_def)
    with Inl Inr cu show ?thesis
      by (intro stopped [of e]) (simp_all add: result_def authorize_actor_with_implicit_allow_def)
  next
    case r: (Inr e)
    with Inr cu show ?thesis
      by (intro evaluated) (simp_all add: result_def authorize_actor_with_implicit_allow_def Let_def)
  qed
qed

lemma evaluated_allow_iff:
  "(\<exists>e. bindE (evaluate_account_permissions ch db cx org action resource implicit at)
         (\<lambda>evaluation. map_err (\<lambda>_. ApiInternal)
            (enforce_session_policy ch (account_request org action resource at)
               (actor_session_policy actor) evaluation)) = Inr e \<and> ev_decision e = Decision_Allow) \<longleftrightarrow>
   (\<exists>e. evaluate_account_permissions ch db cx org action resource implicit at = Inr e
        \<and> ev_decision e = Decision_Allow)
   \<and> optional_layer_permits ch (account_request org action resource at) (actor_session_policy actor)"
proof -
  have "?thesis \<longleftrightarrow>
    ((\<exists>x. evaluate_account_permissions ch db cx org action resource implicit at = Inr x
       \<and> (\<exists>e'. enforce_session_policy ch (account_request org action resource at)
               (actor_session_policy actor) x = Inr e' \<and> ev_decision e' = Decision_Allow)) \<longleftrightarrow>
    ((\<exists>e. evaluate_account_permissions ch db cx org action resource implicit at = Inr e
        \<and> ev_decision e = Decision_Allow)
    \<and> optional_layer_permits ch (account_request org action resource at) (actor_session_policy actor)))"
    by (simp add: bindE_Inr_iff) blast
  then show ?thesis by (simp only: session_layer_allow) blast
qed

subsection \<open>Properties\<close>

text \<open>A member account with one attached policy, service control policies on every level.\<close>

definition demo_tables :: iam_tables where
  "demo_tables =
     \<lparr>organizations = [\<lparr>ac_id = 1, ac_slug = lit ''main'', ac_name = lit ''Main'', ac_number = 100000000000\<rparr>,
        \<lparr>ac_id = 2, ac_slug = lit ''team'', ac_name = lit ''Team'', ac_number = 100000000001\<rparr>],
      users = [\<lparr>u_id = 7, u_email = lit ''a@example.org'', u_display_name = lit ''A'',
        u_password_hash = None, u_active = True\<rparr>],
      principals = [\<lparr>p_id = 5, p_organization_id = 2, p_kind = Kind_User, p_name = lit ''A'', p_user_id = Some 7,
        p_quota_user_id = Some 7, p_enabled = True, p_boundary_policy_id = Some 30\<rparr>],
      memberships = [\<lparr>m_organization_id = 2, m_user_id = 7, m_principal_id = 5,
        m_role = lit ''member'', m_membership_id = 60\<rparr>],
      iam_policies = [\<lparr>pol_id = 30, pol_organization_id = 2, pol_name = lit ''flow'', pol_document = demo_policy\<rparr>],
      iam_bindings = [(31, 2, 5, 30)], iam_groups = [], iam_group_members = [], iam_group_policies = [],
      scp_enabled = True, cloud_organizations = [(100, 1)],
      cloud_units = [\<lparr>un_id = 10, un_organization_id = 100, un_parent_id = None, un_name = lit ''Root''\<rparr>,
        \<lparr>un_id = 11, un_organization_id = 100, un_parent_id = Some 10, un_name = lit ''team''\<rparr>],
      cloud_accounts = [\<lparr>ca_account_id = 2, ca_organization_id = 100, ca_parent_id = 11\<rparr>],
      cloud_scps = [\<lparr>sp_id = 40, sp_organization_id = 100, sp_name = lit ''FullAWSAccess'',
        sp_document = demo_policy, sp_is_managed = True\<rparr>],
      scp_unit_attachments = [(100, 10, 40), (100, 11, 40)], scp_account_attachments = [(100, 2, 40)]\<rparr>"

lemma demo_accounts [simp]: "ac_id ` set (organizations demo_tables) = {1, 2}"
  by (simp add: demo_tables_def)

definition demo_context :: authorization_context where
  "demo_context = \<lparr>ctx_principal_id = 5, ctx_role = lit ''member'', ctx_policies = [demo_policy],
     ctx_permissions_boundary = Some demo_policy\<rparr>"

text \<open>
  C5: The API lets a request through exactly when the caller has a context in the account, every
  policy of the caller is well formed and none of them denies, an allow applies (or the caller
  administers the account, or the route allows it implicitly), the permissions boundary and the
  session policy permit it, and each service control level of the account permits it by itself.
\<close>

theorem actor_allowed_iff:
  "fst (authorize_actor_with_implicit_allow ch db actor org action resource implicit at log)
     = Inr cx \<longleftrightarrow>
   (\<exists>user levels. actor_context db org actor = Inr (cx, user)
      \<and> service_control_levels db org = Inr levels
      \<and> (\<forall>ps \<in> set levels. layer_permits ch (account_request org action resource at) ps)
      \<and> (\<forall>p \<in> set (ctx_policies cx). policy_ok ch p)
      \<and> \<not> has_statement ch (account_request org action resource at) Effect_Deny (ctx_policies cx)
      \<and> (implicit \<or> is_account_admin cx
          \<or> has_statement ch (account_request org action resource at) Effect_Allow (ctx_policies cx))
      \<and> optional_layer_permits ch (account_request org action resource at) (ctx_permissions_boundary cx)
      \<and> optional_layer_permits ch (account_request org action resource at) (actor_session_policy actor))"
  (is "?L \<longleftrightarrow> ?R")
proof -
  let ?ev = "bindE (evaluate_account_permissions ch db cx org action resource implicit at)
         (\<lambda>evaluation. map_err (\<lambda>_. ApiInternal)
            (enforce_session_policy ch (account_request org action resource at)
               (actor_session_policy actor) evaluation))"
  have "?L \<longleftrightarrow> (\<exists>user. actor_context db org actor = Inr (cx, user))
       \<and> (\<exists>e. ?ev = Inr e \<and> ev_decision e = Decision_Allow)"
  proof (cases "actor_context db org actor")
    case (Inr cu)
    obtain cx' user where "cu = (cx', user)" by (cases cu)
    with Inr show ?thesis
      by (cases "cx' = cx"; cases ?ev; cases "ev_decision (projr ?ev)")
         (auto simp: authorize_actor_with_implicit_allow_def Let_def split: sum.splits)
  qed (simp add: authorize_actor_with_implicit_allow_def)
  also have "\<dots> \<longleftrightarrow> ?R"
    unfolding evaluated_allow_iff evaluate_allow_iff
    by (cases "ctx_permissions_boundary cx") (auto simp: optional_layer_permits_def)
  finally show ?thesis .
qed

theorem actor_allowed_iff_witness:
  "fst (authorize_actor_with_implicit_allow demo_chrono demo_tables (ActorCliToken 2 7) 2
     (lit ''flow:CreateRoom'') (lit ''hc:org:2:flow/*'') False 0 []) = Inr demo_context"
proof (rule actor_allowed_iff [THEN iffD2], intro exI conjI)
  show "actor_context demo_tables 2 (ActorCliToken 2 7) = Inr (demo_context, Some 7)"
    by code_simp
  show "service_control_levels demo_tables 2 = Inr [[demo_policy], [demo_policy], [demo_policy]]"
    by code_simp
qed code_simp+

text \<open>
  C14: A credential that is bound to an account (a workload token, a command line token, a role
  session, an API key) is refused in every other account, whatever the tables say.
\<close>

theorem bound_credential_isolated:
  assumes "actor_organization actor = Some home" "home \<noteq> org"
  shows "authorize_actor_with_implicit_allow ch db actor org action resource implicit at log
    = (Inl ApiForbidden, log)"
  using assms by (cases actor) (auto simp: authorize_actor_with_implicit_allow_def)

theorem bound_credential_isolated_witness:
  "authorize_actor_with_implicit_allow demo_chrono demo_tables (ActorApiKey 3 5 1) 2
     (lit ''flow:CreateRoom'') (lit ''hc:org:2:flow/*'') True 0 [] = (Inl ApiForbidden, [])"
  by (rule bound_credential_isolated [of _ 3]) simp_all




end
