(* ===== verification/Std_Net.thy ===== *)
theory Std_Net
  imports HC_Prelude
begin

section \<open>Internet addresses as text\<close>

text \<open>
  The standard library's parser of \<open>std::net::IpAddr\<close>, which the specifications use to reject
  bucket names that are addresses and to read single addresses as networks. A parser maps the rest
  of the input to a value and the remaining input; one that fails leaves the input where it was.
\<close>

datatype ip_addr = IpV4 "nat list" | IpV6 "nat list"

type_synonym 'a parser = "str \<Rightarrow> ('a \<times> str) option"

definition to_digit :: "nat \<Rightarrow> rchar \<Rightarrow> nat option" where
  "to_digit radix c =
     (let d = (if 48 \<le> c \<and> c \<le> 57 then Some (c - 48)
               else if 97 \<le> c \<and> c \<le> 122 then Some (c - 87)
               else if 65 \<le> c \<and> c \<le> 90 then Some (c - 55) else None) in
      case d of None \<Rightarrow> None | Some v \<Rightarrow> if v < radix then Some v else None)"

fun number_loop :: "nat \<Rightarrow> nat \<Rightarrow> nat \<Rightarrow> nat \<Rightarrow> nat \<Rightarrow> str \<Rightarrow> (nat \<times> nat \<times> str) option" where
  "number_loop radix max_digits bound result count [] = Some (result, count, [])"
| "number_loop radix max_digits bound result count (c # s) =
     (case to_digit radix c of
        None \<Rightarrow> Some (result, count, c # s)
      | Some d \<Rightarrow>
          if result * radix + d > bound \<or> count + 1 > max_digits then None
          else number_loop radix max_digits bound (result * radix + d) (count + 1) s)"

definition read_number :: "nat \<Rightarrow> nat \<Rightarrow> nat \<Rightarrow> bool \<Rightarrow> nat parser" where
  "read_number radix max_digits bound allow_zero_prefix s =
     (case number_loop radix max_digits bound 0 0 s of
        None \<Rightarrow> None
      | Some (result, count, rest) \<Rightarrow>
          if count = 0 then None
          else if \<not> allow_zero_prefix \<and> first_is (\<lambda>c. c = 48) s \<and> count > 1 then None
          else Some (result, rest))"

definition read_char :: "rchar \<Rightarrow> unit parser" where
  "read_char c s = (case s of [] \<Rightarrow> None | x # rest \<Rightarrow> if x = c then Some ((), rest) else None)"

definition read_separator :: "rchar \<Rightarrow> nat \<Rightarrow> 'a parser \<Rightarrow> 'a parser" where
  "read_separator sep index inner s =
     (if index > 0 then (case read_char sep s of None \<Rightarrow> None | Some (_, rest) \<Rightarrow> inner rest)
      else inner s)"

fun read_octets :: "nat \<Rightarrow> nat \<Rightarrow> nat list parser" where
  "read_octets i 0 s = Some ([], s)"
| "read_octets i (Suc n) s =
     (case read_separator 46 i (read_number 10 3 255 False) s of
        None \<Rightarrow> None
      | Some (d, rest) \<Rightarrow>
          (case read_octets (Suc i) n rest of
             None \<Rightarrow> None
           | Some (ds, rest') \<Rightarrow> Some (d # ds, rest')))"

definition read_ipv4_addr :: "nat list parser" where
  "read_ipv4_addr = read_octets 0 4"

text \<open>The groups read from position \<open>i\<close> on with \<open>n\<close> slots left, and whether they end in IPv4.\<close>

fun read_groups :: "nat \<Rightarrow> nat \<Rightarrow> str \<Rightarrow> nat list \<times> bool \<times> str" where
  "read_groups i 0 s = ([], False, s)"
| "read_groups i (Suc n) s =
     (case (if n > 0 then read_separator 58 i read_ipv4_addr s else None) of
        Some ([a, b, c, d], rest) \<Rightarrow> ([a * 256 + b, c * 256 + d], True, rest)
      | _ \<Rightarrow>
          (case read_separator 58 i (read_number 16 4 65535 True) s of
             None \<Rightarrow> ([], False, s)
           | Some (g, rest) \<Rightarrow>
               (case read_groups (Suc i) n rest of (gs, v4, rest') \<Rightarrow> (g # gs, v4, rest'))))"

definition read_ipv6_addr :: "nat list parser" where
  "read_ipv6_addr s =
     (case read_groups 0 8 s of (head, head_ipv4, rest) \<Rightarrow>
        if length head = 8 then Some (head, rest)
        else if head_ipv4 then None
        else (case read_char 58 rest of
          None \<Rightarrow> None
        | Some (_, rest1) \<Rightarrow>
            (case read_char 58 rest1 of
               None \<Rightarrow> None
             | Some (_, rest2) \<Rightarrow>
                 (case read_groups 0 (8 - (length head + 1)) rest2 of (tail, _, rest3) \<Rightarrow>
                    Some (head @ replicate (8 - length head - length tail) 0 @ tail, rest3)))))"

definition parse_ip_addr :: "str \<Rightarrow> ip_addr option" where
  "parse_ip_addr s =
     (case (case read_ipv4_addr s of
              Some (octets, rest) \<Rightarrow> Some (IpV4 octets, rest)
            | None \<Rightarrow> map_option (\<lambda>(groups, rest). (IpV6 groups, rest)) (read_ipv6_addr s)) of
        Some (addr, []) \<Rightarrow> Some addr
      | _ \<Rightarrow> None)"

subsection \<open>Shape of the results\<close>

lemma number_loop_bound:
  "number_loop radix m bound r c s = Some (result, count, rest) \<Longrightarrow> r \<le> bound \<Longrightarrow> result \<le> bound"
  by (induction radix m bound r c s rule: number_loop.induct)
     (auto split: option.splits if_splits)

lemma read_number_bound: "read_number radix m bound z s = Some (n, rest) \<Longrightarrow> n \<le> bound"
  by (auto simp: read_number_def split: option.splits if_splits dest: number_loop_bound)

lemma read_octets_shape:
  "read_octets i n s = Some (ds, rest) \<Longrightarrow> length ds = n \<and> (\<forall>d \<in> set ds. d \<le> 255)"
  by (induction i n s arbitrary: ds rest rule: read_octets.induct)
     (auto simp: read_separator_def split: option.splits if_splits prod.splits
           dest!: read_number_bound)

text \<open>Addresses with their usual text, as a check of the parser.\<close>

lemma parse_ip_addr_examples:
  "parse_ip_addr (lit ''10.0.0.1'') = Some (IpV4 [10, 0, 0, 1])"
  "parse_ip_addr (lit ''010.0.0.1'') = None"
  "parse_ip_addr (lit ''256.0.0.1'') = None"
  "parse_ip_addr (lit ''fe80::1'') = Some (IpV6 [65152, 0, 0, 0, 0, 0, 0, 1])"
  "parse_ip_addr (lit ''::ffff:10.0.0.1'') = Some (IpV6 [0, 0, 0, 0, 0, 65535, 2560, 1])"
  "parse_ip_addr (lit ''::'') = Some (IpV6 [0, 0, 0, 0, 0, 0, 0, 0])"
  by code_simp+

end
