(* ===== verification/Quota_Limits.thy ===== *)
theory Quota_Limits
  imports Policy_Domain Std_Net "HOL-Library.Sublist"
begin

section \<open>Resource quotas and the Flow and Syouyu specifications\<close>

text \<open>
  The limits of \<open>src/crates/heterocloud-domain/src/lib.rs\<close>: the platform's constants, the quota
  record of an organization with its validation and defaults, and the specifications of a Flow
  service and of a Syouyu bucket. The length of a serialized JSON value is what \<open>serde_json\<close>
  produces and is a parameter.
\<close>

subsection \<open>Constants\<close>

definition DEFAULT_FLOW_MAX_ROOMS :: u32 where
  "DEFAULT_FLOW_MAX_ROOMS = 100"

definition MAX_FLOW_ROOMS :: u32 where
  "MAX_FLOW_ROOMS = 1000000"

definition DEFAULT_FLOW_RATE_LIMIT_REQUESTS_PER_SECOND :: u32 where
  "DEFAULT_FLOW_RATE_LIMIT_REQUESTS_PER_SECOND = 20"

definition DEFAULT_FLOW_RATE_LIMIT_BURST :: u32 where
  "DEFAULT_FLOW_RATE_LIMIT_BURST = 40"

definition MAX_FLOW_RATE_LIMIT_REQUESTS_PER_SECOND :: u32 where
  "MAX_FLOW_RATE_LIMIT_REQUESTS_PER_SECOND = 1000"

definition MAX_FLOW_RATE_LIMIT_BURST :: u32 where
  "MAX_FLOW_RATE_LIMIT_BURST = 5000"

definition MAX_FLOW_PARTICIPANTS :: u32 where
  "MAX_FLOW_PARTICIPANTS = 100000"

definition MAX_TENANT_SERVICES :: u32 where
  "MAX_TENANT_SERVICES = 10000"

definition MAX_TENANT_FLOW_ROOMS :: u64 where
  "MAX_TENANT_FLOW_ROOMS = 100000000"

definition MIN_SYOUYU_QUOTA_BYTES :: u64 where
  "MIN_SYOUYU_QUOTA_BYTES = 1048576"

definition MAX_SYOUYU_QUOTA_BYTES :: u64 where
  "MAX_SYOUYU_QUOTA_BYTES = 10 * 1024 * 1024 * 1024 * 1024"

definition MAX_SYOUYU_QUOTA_OBJECTS :: u64 where
  "MAX_SYOUYU_QUOTA_OBJECTS = 1000000000"

definition DEFAULT_SYOUYU_BUCKET_QUOTA_BYTES :: u64 where
  "DEFAULT_SYOUYU_BUCKET_QUOTA_BYTES = 10 * 1024 * 1024 * 1024"

definition DEFAULT_SYOUYU_BUCKET_QUOTA_OBJECTS :: u64 where
  "DEFAULT_SYOUYU_BUCKET_QUOTA_OBJECTS = 1000000"

definition DEFAULT_SYOUYU_MAX_BUCKETS :: u32 where
  "DEFAULT_SYOUYU_MAX_BUCKETS = 10"

definition DEFAULT_SYOUYU_TOTAL_QUOTA_BYTES :: u64 where
  "DEFAULT_SYOUYU_TOTAL_QUOTA_BYTES = 30 * 1024 * 1024 * 1024"

definition DEFAULT_SYOUYU_MAX_CREDENTIALS_PER_BUCKET :: u32 where
  "DEFAULT_SYOUYU_MAX_CREDENTIALS_PER_BUCKET = 10"

definition DEFAULT_SYOUYU_MAX_TOTAL_CREDENTIALS :: u32 where
  "DEFAULT_SYOUYU_MAX_TOTAL_CREDENTIALS = 1000"

definition MIN_FLASH_REPLICAS :: u32 where
  "MIN_FLASH_REPLICAS = 1"

definition MAX_FLASH_REPLICAS :: u32 where
  "MAX_FLASH_REPLICAS = 100000"

definition MIN_FLASH_CPU_MILLIS :: u32 where
  "MIN_FLASH_CPU_MILLIS = 10"

definition MAX_FLASH_CPU_MILLIS :: u32 where
  "MAX_FLASH_CPU_MILLIS = 100000000"

definition MIN_FLASH_MEMORY_MIB :: u32 where
  "MIN_FLASH_MEMORY_MIB = 16"

definition MAX_FLASH_MEMORY_MIB :: u32 where
  "MAX_FLASH_MEMORY_MIB = 1048576"

definition MAX_FLASH_GPU_TYPE_LENGTH :: nat where
  "MAX_FLASH_GPU_TYPE_LENGTH = 63"

definition MIN_FLASH_EPHEMERAL_STORAGE_GIB :: u32 where
  "MIN_FLASH_EPHEMERAL_STORAGE_GIB = 1"

definition MAX_FLASH_EPHEMERAL_STORAGE_GIB :: u32 where
  "MAX_FLASH_EPHEMERAL_STORAGE_GIB = 1000000"

definition DEFAULT_FLASH_MAX_REPLICAS_PER_SERVICE :: u32 where
  "DEFAULT_FLASH_MAX_REPLICAS_PER_SERVICE = 100"

definition DEFAULT_FLASH_MAX_CPU_MILLIS_PER_VM :: u32 where
  "DEFAULT_FLASH_MAX_CPU_MILLIS_PER_VM = 4000"

definition DEFAULT_FLASH_MAX_MEMORY_MIB_PER_VM :: u32 where
  "DEFAULT_FLASH_MAX_MEMORY_MIB_PER_VM = 8128"

definition DEFAULT_FLASH_MAX_DISK_GIB_PER_VM :: u32 where
  "DEFAULT_FLASH_MAX_DISK_GIB_PER_VM = 10"

definition DEFAULT_FLASH_EPHEMERAL_STORAGE_GIB :: u32 where
  "DEFAULT_FLASH_EPHEMERAL_STORAGE_GIB = 10"

definition DEFAULT_FLASH_ORGANIZATION_CPU_MILLIS :: u64 where
  "DEFAULT_FLASH_ORGANIZATION_CPU_MILLIS = 20000"

definition DEFAULT_FLASH_ORGANIZATION_MEMORY_MIB :: u64 where
  "DEFAULT_FLASH_ORGANIZATION_MEMORY_MIB = 32768"

definition DEFAULT_FLASH_ORGANIZATION_EPHEMERAL_STORAGE_GIB :: u64 where
  "DEFAULT_FLASH_ORGANIZATION_EPHEMERAL_STORAGE_GIB = 100"

definition DEFAULT_FLASH_ORGANIZATION_REPLICAS :: u64 where
  "DEFAULT_FLASH_ORGANIZATION_REPLICAS = 100"

definition DEFAULT_FLASH_WEEKLY_CPU_MILLICORE_SECONDS :: u64 where
  "DEFAULT_FLASH_WEEKLY_CPU_MILLICORE_SECONDS = 3245760000"

definition DEFAULT_FLASH_WEEKLY_MEMORY_MIB_SECONDS :: u64 where
  "DEFAULT_FLASH_WEEKLY_MEMORY_MIB_SECONDS = 2836280317"

definition DEFAULT_FLASH_WEEKLY_GPU_SECONDS :: u64 where
  "DEFAULT_FLASH_WEEKLY_GPU_SECONDS = 40320"

definition MAX_FLASH_WEEKLY_CPU_MILLICORE_SECONDS :: u64 where
  "MAX_FLASH_WEEKLY_CPU_MILLICORE_SECONDS = 3153600000000000"

definition MAX_FLASH_WEEKLY_MEMORY_MIB_SECONDS :: u64 where
  "MAX_FLASH_WEEKLY_MEMORY_MIB_SECONDS = 33067892736000"

definition MAX_FLASH_WEEKLY_GPU_SECONDS :: u64 where
  "MAX_FLASH_WEEKLY_GPU_SECONDS = 31536000"

definition DEFAULT_FLASH_IDLE_TIMEOUT_SECONDS :: u32 where
  "DEFAULT_FLASH_IDLE_TIMEOUT_SECONDS = 900"

definition MIN_FLASH_IDLE_TIMEOUT_SECONDS :: u32 where
  "MIN_FLASH_IDLE_TIMEOUT_SECONDS = 60"

definition MAX_FLASH_IDLE_TIMEOUT_SECONDS :: u32 where
  "MAX_FLASH_IDLE_TIMEOUT_SECONDS = 86400"

definition MAX_FLASH_ORGANIZATION_CPU_MILLIS :: u64 where
  "MAX_FLASH_ORGANIZATION_CPU_MILLIS = 100000000"

definition MAX_FLASH_ORGANIZATION_MEMORY_MIB :: u64 where
  "MAX_FLASH_ORGANIZATION_MEMORY_MIB = 1048576"

definition MAX_FLASH_ORGANIZATION_EPHEMERAL_STORAGE_GIB :: u64 where
  "MAX_FLASH_ORGANIZATION_EPHEMERAL_STORAGE_GIB = 1000000"

definition MAX_FLASH_ORGANIZATION_REPLICAS :: u64 where
  "MAX_FLASH_ORGANIZATION_REPLICAS = 100000"

definition MIN_FLASH_SERVICE_PORT :: u16 where
  "MIN_FLASH_SERVICE_PORT = 30000"

definition MAX_FLASH_SERVICE_PORT :: u16 where
  "MAX_FLASH_SERVICE_PORT = 32767"

definition MAX_FLASH_PORTS :: nat where
  "MAX_FLASH_PORTS = 16"

definition MAX_FLASH_SOURCE_CIDRS :: nat where
  "MAX_FLASH_SOURCE_CIDRS = 64"

definition MAX_FLASH_DESTINATION_CIDRS :: nat where
  "MAX_FLASH_DESTINATION_CIDRS = 64"

definition MAX_FLASH_REGION_LENGTH :: nat where
  "MAX_FLASH_REGION_LENGTH = 63"

definition MAX_FLASH_IMAGE_LENGTH :: nat where
  "MAX_FLASH_IMAGE_LENGTH = 512"

definition MAX_FLASH_PORT_NAME_LENGTH :: nat where
  "MAX_FLASH_PORT_NAME_LENGTH = 63"

definition MAX_FLASH_ENV_VARS :: nat where
  "MAX_FLASH_ENV_VARS = 128"

definition MAX_FLASH_SECRET_ENV :: nat where
  "MAX_FLASH_SECRET_ENV = 32"

definition MAX_FLASH_ENV_KEY_LENGTH :: nat where
  "MAX_FLASH_ENV_KEY_LENGTH = 253"

definition MAX_FLASH_ENV_VALUE_LENGTH :: nat where
  "MAX_FLASH_ENV_VALUE_LENGTH = 16 * 1024"

definition MAX_FLASH_COMMAND_PARTS :: nat where
  "MAX_FLASH_COMMAND_PARTS = 128"

definition MAX_FLASH_ARGS :: nat where
  "MAX_FLASH_ARGS = 256"

definition MAX_FLASH_PROCESS_VALUE_LENGTH :: nat where
  "MAX_FLASH_PROCESS_VALUE_LENGTH = 4 * 1024"

definition MAX_FLASH_METADATA_BYTES :: nat where
  "MAX_FLASH_METADATA_BYTES = 64 * 1024"

lemmas const_defs =
  DEFAULT_FLOW_MAX_ROOMS_def MAX_FLOW_ROOMS_def
  DEFAULT_FLOW_RATE_LIMIT_REQUESTS_PER_SECOND_def DEFAULT_FLOW_RATE_LIMIT_BURST_def
  MAX_FLOW_RATE_LIMIT_REQUESTS_PER_SECOND_def MAX_FLOW_RATE_LIMIT_BURST_def
  MAX_FLOW_PARTICIPANTS_def MAX_TENANT_SERVICES_def MAX_TENANT_FLOW_ROOMS_def
  MIN_SYOUYU_QUOTA_BYTES_def MAX_SYOUYU_QUOTA_BYTES_def MAX_SYOUYU_QUOTA_OBJECTS_def
  DEFAULT_SYOUYU_BUCKET_QUOTA_BYTES_def DEFAULT_SYOUYU_BUCKET_QUOTA_OBJECTS_def
  DEFAULT_SYOUYU_MAX_BUCKETS_def DEFAULT_SYOUYU_TOTAL_QUOTA_BYTES_def
  DEFAULT_SYOUYU_MAX_CREDENTIALS_PER_BUCKET_def DEFAULT_SYOUYU_MAX_TOTAL_CREDENTIALS_def
  MIN_FLASH_REPLICAS_def MAX_FLASH_REPLICAS_def MIN_FLASH_CPU_MILLIS_def
  MAX_FLASH_CPU_MILLIS_def MIN_FLASH_MEMORY_MIB_def MAX_FLASH_MEMORY_MIB_def
  MAX_FLASH_GPU_TYPE_LENGTH_def MIN_FLASH_EPHEMERAL_STORAGE_GIB_def
  MAX_FLASH_EPHEMERAL_STORAGE_GIB_def DEFAULT_FLASH_MAX_REPLICAS_PER_SERVICE_def
  DEFAULT_FLASH_MAX_CPU_MILLIS_PER_VM_def DEFAULT_FLASH_MAX_MEMORY_MIB_PER_VM_def
  DEFAULT_FLASH_MAX_DISK_GIB_PER_VM_def DEFAULT_FLASH_EPHEMERAL_STORAGE_GIB_def
  DEFAULT_FLASH_ORGANIZATION_CPU_MILLIS_def DEFAULT_FLASH_ORGANIZATION_MEMORY_MIB_def
  DEFAULT_FLASH_ORGANIZATION_EPHEMERAL_STORAGE_GIB_def
  DEFAULT_FLASH_ORGANIZATION_REPLICAS_def DEFAULT_FLASH_WEEKLY_CPU_MILLICORE_SECONDS_def
  DEFAULT_FLASH_WEEKLY_MEMORY_MIB_SECONDS_def DEFAULT_FLASH_WEEKLY_GPU_SECONDS_def
  MAX_FLASH_WEEKLY_CPU_MILLICORE_SECONDS_def MAX_FLASH_WEEKLY_MEMORY_MIB_SECONDS_def
  MAX_FLASH_WEEKLY_GPU_SECONDS_def DEFAULT_FLASH_IDLE_TIMEOUT_SECONDS_def
  MIN_FLASH_IDLE_TIMEOUT_SECONDS_def MAX_FLASH_IDLE_TIMEOUT_SECONDS_def
  MAX_FLASH_ORGANIZATION_CPU_MILLIS_def MAX_FLASH_ORGANIZATION_MEMORY_MIB_def
  MAX_FLASH_ORGANIZATION_EPHEMERAL_STORAGE_GIB_def MAX_FLASH_ORGANIZATION_REPLICAS_def
  MIN_FLASH_SERVICE_PORT_def MAX_FLASH_SERVICE_PORT_def MAX_FLASH_PORTS_def
  MAX_FLASH_SOURCE_CIDRS_def MAX_FLASH_DESTINATION_CIDRS_def MAX_FLASH_REGION_LENGTH_def
  MAX_FLASH_IMAGE_LENGTH_def MAX_FLASH_PORT_NAME_LENGTH_def MAX_FLASH_ENV_VARS_def
  MAX_FLASH_SECRET_ENV_def MAX_FLASH_ENV_KEY_LENGTH_def MAX_FLASH_ENV_VALUE_LENGTH_def
  MAX_FLASH_COMMAND_PARTS_def MAX_FLASH_ARGS_def MAX_FLASH_PROCESS_VALUE_LENGTH_def
  MAX_FLASH_METADATA_BYTES_def

definition SYOUYU_REGION :: str where
  "SYOUYU_REGION = lit ''heteronet-global''"

definition in_range :: "'a::order \<Rightarrow> 'a \<Rightarrow> 'a \<Rightarrow> bool" where
  "in_range lo hi x \<longleftrightarrow> lo \<le> x \<and> x \<le> hi"

subsection \<open>Specifications\<close>

record flow_rate_limit =
  requests_per_second :: u32
  burst :: u32

definition default_flow_rate_limit :: flow_rate_limit where
  "default_flow_rate_limit =
     \<lparr>requests_per_second = DEFAULT_FLOW_RATE_LIMIT_REQUESTS_PER_SECOND,
      burst = DEFAULT_FLOW_RATE_LIMIT_BURST\<rparr>"

record flow_spec =
  fl_region :: str
  max_participants :: u32
  max_rooms :: u32
  rate_limit :: flow_rate_limit
  fl_metadata :: json

record syouyu_spec =
  sy_region :: str
  bucket_name :: str
  quota_bytes :: u64
  quota_objects :: u64
  sy_metadata :: json

definition validate_s3_bucket_name :: "str \<Rightarrow> domain_error + unit" where
  "validate_s3_bucket_name name =
     fail_if (\<not> in_range 3 63 (str_len name)
              \<or> \<not> first_is is_ascii_alphanumeric (as_bytes name)
              \<or> \<not> last_is is_ascii_alphanumeric (as_bytes name)
              \<or> sublist (lit ''..'') name
              \<or> list_ex (\<lambda>b. \<not> is_ascii_lowercase b \<and> \<not> is_ascii_digit b \<and> b \<noteq> 45 \<and> b \<noteq> 46)
                  (as_bytes name)
              \<or> parse_ip_addr name \<noteq> None)
       (InvalidSyouyuSpec ''bucket_name must be a 3..63 character lowercase S3 bucket name'')"

definition validate_syouyu :: "(json \<Rightarrow> nat option) \<Rightarrow> syouyu_spec \<Rightarrow> domain_error + unit" where
  "validate_syouyu json_len spec =
     first_error
       [fail_if (sy_region spec \<noteq> SYOUYU_REGION)
          (InvalidSyouyuSpec ''region must be heteronet-global for the current Syouyu deployment''),
        validate_s3_bucket_name (bucket_name spec),
        fail_if (\<not> in_range MIN_SYOUYU_QUOTA_BYTES MAX_SYOUYU_QUOTA_BYTES (quota_bytes spec))
          (InvalidSyouyuSpec ''quota_bytes must be between {MIN_SYOUYU_QUOTA_BYTES} and {MAX_SYOUYU_QUOTA_BYTES}''),
        fail_if (\<not> in_range 1 MAX_SYOUYU_QUOTA_OBJECTS (quota_objects spec))
          (InvalidSyouyuSpec ''quota_objects must be between 1 and {MAX_SYOUYU_QUOTA_OBJECTS}''),
        (case json_len (sy_metadata spec) of
           None \<Rightarrow> Inl (InvalidSyouyuSpec ''metadata must be valid JSON'')
         | Some n \<Rightarrow>
             fail_if (n > 64 * 1024)
               (InvalidSyouyuSpec ''metadata must not exceed 65536 serialized bytes''))]"

subsection \<open>Quota limits\<close>

record flow_quota_limits =
  fq_max_services :: u32
  max_rooms_per_service :: u32
  max_total_rooms :: u64
  max_participants_per_service :: u32
  max_rate_limit_requests_per_second :: u32
  max_rate_limit_burst :: u32
  max_developer_credentials_per_service :: u32

record flash_quota_limits =
  hq_max_services :: u32
  max_replicas_per_service :: u32
  max_cpu_millis_per_vm :: u32
  max_memory_mib_per_vm :: u32
  max_disk_gib_per_vm :: u32
  max_total_replicas :: u64
  max_total_cpu_millis :: u64
  max_total_memory_mib :: u64
  max_total_disk_gib :: u64
  max_weekly_cpu_millicore_seconds :: u64
  max_weekly_memory_mib_seconds :: u64
  max_weekly_gpu_seconds :: u64

record registry_quota_limits =
  storage_gib :: u32
  max_credentials :: u32

record syouyu_quota_limits =
  max_buckets :: u32
  max_bytes_per_bucket :: u64
  max_objects_per_bucket :: u64
  max_total_bytes :: u64
  max_credentials_per_bucket :: u32
  max_total_credentials :: u32

record resource_quota_limits =
  q_flow :: flow_quota_limits
  q_flash :: flash_quota_limits
  q_registry :: registry_quota_limits
  q_syouyu :: syouyu_quota_limits

definition default_syouyu_quota :: syouyu_quota_limits where
  "default_syouyu_quota =
     \<lparr>max_buckets = DEFAULT_SYOUYU_MAX_BUCKETS,
      max_bytes_per_bucket = DEFAULT_SYOUYU_BUCKET_QUOTA_BYTES,
      max_objects_per_bucket = DEFAULT_SYOUYU_BUCKET_QUOTA_OBJECTS,
      max_total_bytes = DEFAULT_SYOUYU_TOTAL_QUOTA_BYTES,
      max_credentials_per_bucket = DEFAULT_SYOUYU_MAX_CREDENTIALS_PER_BUCKET,
      max_total_credentials = DEFAULT_SYOUYU_MAX_TOTAL_CREDENTIALS\<rparr>"

definition default_resource_quota :: resource_quota_limits where
  "default_resource_quota =
     \<lparr>q_flow =
        \<lparr>fq_max_services = 100, max_rooms_per_service = MAX_FLOW_ROOMS,
         max_total_rooms = u64_of MAX_FLOW_ROOMS,
         max_participants_per_service = MAX_FLOW_PARTICIPANTS,
         max_rate_limit_requests_per_second = MAX_FLOW_RATE_LIMIT_REQUESTS_PER_SECOND,
         max_rate_limit_burst = MAX_FLOW_RATE_LIMIT_BURST,
         max_developer_credentials_per_service = 100\<rparr>,
      q_flash =
        \<lparr>hq_max_services = 100,
         max_replicas_per_service = DEFAULT_FLASH_MAX_REPLICAS_PER_SERVICE,
         max_cpu_millis_per_vm = DEFAULT_FLASH_MAX_CPU_MILLIS_PER_VM,
         max_memory_mib_per_vm = DEFAULT_FLASH_MAX_MEMORY_MIB_PER_VM,
         max_disk_gib_per_vm = DEFAULT_FLASH_MAX_DISK_GIB_PER_VM,
         max_total_replicas = DEFAULT_FLASH_ORGANIZATION_REPLICAS,
         max_total_cpu_millis = DEFAULT_FLASH_ORGANIZATION_CPU_MILLIS,
         max_total_memory_mib = DEFAULT_FLASH_ORGANIZATION_MEMORY_MIB,
         max_total_disk_gib = DEFAULT_FLASH_ORGANIZATION_EPHEMERAL_STORAGE_GIB,
         max_weekly_cpu_millicore_seconds = DEFAULT_FLASH_WEEKLY_CPU_MILLICORE_SECONDS,
         max_weekly_memory_mib_seconds = DEFAULT_FLASH_WEEKLY_MEMORY_MIB_SECONDS,
         max_weekly_gpu_seconds = DEFAULT_FLASH_WEEKLY_GPU_SECONDS\<rparr>,
      q_registry = \<lparr>storage_gib = 10, max_credentials = 10\<rparr>,
      q_syouyu = default_syouyu_quota\<rparr>"

abbreviation invalid_quota :: "string \<Rightarrow> domain_error" where
  "invalid_quota \<equiv> InvalidResourceQuota"

definition validate_flow_quota :: "flow_quota_limits \<Rightarrow> domain_error + unit" where
  "validate_flow_quota flow =
     first_error
       [fail_if (\<not> in_range 1 MAX_TENANT_SERVICES (fq_max_services flow))
          (invalid_quota ''flow.max_services is outside the safety range''),
        fail_if (\<not> in_range 1 MAX_FLOW_ROOMS (max_rooms_per_service flow)
                 \<or> max_total_rooms flow < u64_of (max_rooms_per_service flow)
                 \<or> max_total_rooms flow > MAX_TENANT_FLOW_ROOMS)
          (invalid_quota ''Flow room limits are inconsistent or outside the safety range''),
        fail_if (\<not> in_range 1 MAX_FLOW_PARTICIPANTS (max_participants_per_service flow))
          (invalid_quota ''flow.max_participants_per_service is outside the safety range''),
        fail_if (\<not> in_range 1 MAX_FLOW_RATE_LIMIT_REQUESTS_PER_SECOND
                    (max_rate_limit_requests_per_second flow)
                 \<or> \<not> in_range 1 MAX_FLOW_RATE_LIMIT_BURST (max_rate_limit_burst flow)
                 \<or> max_rate_limit_burst flow < max_rate_limit_requests_per_second flow)
          (invalid_quota ''Flow API rate limits are inconsistent or outside the safety range''),
        fail_if (\<not> in_range 1 10000 (max_developer_credentials_per_service flow))
          (invalid_quota ''flow.max_developer_credentials_per_service is outside the safety range'')]"

definition validate_syouyu_quota :: "syouyu_quota_limits \<Rightarrow> domain_error + unit" where
  "validate_syouyu_quota syouyu =
     first_error
       [fail_if (\<not> in_range 1 MAX_TENANT_SERVICES (max_buckets syouyu))
          (invalid_quota ''syouyu.max_buckets is outside the safety range''),
        fail_if (\<not> in_range MIN_SYOUYU_QUOTA_BYTES MAX_SYOUYU_QUOTA_BYTES (max_bytes_per_bucket syouyu)
                 \<or> max_total_bytes syouyu < max_bytes_per_bucket syouyu
                 \<or> max_total_bytes syouyu > MAX_SYOUYU_QUOTA_BYTES)
          (invalid_quota ''Syouyu byte limits are inconsistent or outside the safety range''),
        fail_if (\<not> in_range 1 MAX_SYOUYU_QUOTA_OBJECTS (max_objects_per_bucket syouyu))
          (invalid_quota ''syouyu.max_objects_per_bucket is outside the safety range''),
        fail_if (\<not> in_range 1 10000 (max_credentials_per_bucket syouyu)
                 \<or> max_total_credentials syouyu < max_credentials_per_bucket syouyu
                 \<or> max_total_credentials syouyu > 1000000)
          (invalid_quota ''Syouyu credential limits are inconsistent or outside the safety range'')]"

definition validate_flash_quota :: "flash_quota_limits \<Rightarrow> domain_error + unit" where
  "validate_flash_quota flash =
     first_error
       [fail_if (\<not> in_range 1 MAX_TENANT_SERVICES (hq_max_services flash))
          (invalid_quota ''flash.max_services must be between 1 and {MAX_TENANT_SERVICES}''),
        fail_if (\<not> in_range MIN_FLASH_REPLICAS MAX_FLASH_REPLICAS (max_replicas_per_service flash))
          (invalid_quota ''flash.max_replicas_per_service must be between {MIN_FLASH_REPLICAS} and {MAX_FLASH_REPLICAS}''),
        fail_if (\<not> in_range MIN_FLASH_CPU_MILLIS MAX_FLASH_CPU_MILLIS (max_cpu_millis_per_vm flash))
          (invalid_quota ''flash.max_cpu_millis_per_vm must be between {MIN_FLASH_CPU_MILLIS} and {MAX_FLASH_CPU_MILLIS}''),
        fail_if (\<not> in_range MIN_FLASH_MEMORY_MIB MAX_FLASH_MEMORY_MIB (max_memory_mib_per_vm flash))
          (invalid_quota ''flash.max_memory_mib_per_vm must be between {MIN_FLASH_MEMORY_MIB} and {MAX_FLASH_MEMORY_MIB}''),
        fail_if (\<not> in_range MIN_FLASH_EPHEMERAL_STORAGE_GIB MAX_FLASH_EPHEMERAL_STORAGE_GIB
                    (max_disk_gib_per_vm flash))
          (invalid_quota ''flash.max_disk_gib_per_vm must be between {MIN_FLASH_EPHEMERAL_STORAGE_GIB} and {MAX_FLASH_EPHEMERAL_STORAGE_GIB}''),
        fail_if (\<not> in_range (u64_of (max_replicas_per_service flash)) MAX_FLASH_ORGANIZATION_REPLICAS
                    (max_total_replicas flash))
          (invalid_quota ''flash.max_total_replicas must be between {} and {MAX_FLASH_ORGANIZATION_REPLICAS}''),
        fail_if (\<not> in_range (u64_of (max_cpu_millis_per_vm flash)) MAX_FLASH_ORGANIZATION_CPU_MILLIS
                    (max_total_cpu_millis flash))
          (invalid_quota ''flash.max_total_cpu_millis must be between {} and {MAX_FLASH_ORGANIZATION_CPU_MILLIS}''),
        fail_if (\<not> in_range (u64_of (max_memory_mib_per_vm flash)) MAX_FLASH_ORGANIZATION_MEMORY_MIB
                    (max_total_memory_mib flash))
          (invalid_quota ''flash.max_total_memory_mib must be between {} and {MAX_FLASH_ORGANIZATION_MEMORY_MIB}''),
        fail_if (\<not> in_range (u64_of (max_disk_gib_per_vm flash))
                    MAX_FLASH_ORGANIZATION_EPHEMERAL_STORAGE_GIB (max_total_disk_gib flash))
          (invalid_quota ''flash.max_total_disk_gib must be between {} and {MAX_FLASH_ORGANIZATION_EPHEMERAL_STORAGE_GIB}''),
        fail_if (max_weekly_gpu_seconds flash > MAX_FLASH_WEEKLY_GPU_SECONDS)
          (invalid_quota ''flash.max_weekly_gpu_seconds must be between 0 and {MAX_FLASH_WEEKLY_GPU_SECONDS}''),
        fail_if (max_weekly_cpu_millicore_seconds flash > MAX_FLASH_WEEKLY_CPU_MILLICORE_SECONDS)
          (invalid_quota ''flash.max_weekly_cpu_millicore_seconds must be between 0 and {MAX_FLASH_WEEKLY_CPU_MILLICORE_SECONDS}''),
        fail_if (max_weekly_memory_mib_seconds flash > MAX_FLASH_WEEKLY_MEMORY_MIB_SECONDS)
          (invalid_quota ''flash.max_weekly_memory_mib_seconds must be between 0 and {MAX_FLASH_WEEKLY_MEMORY_MIB_SECONDS}'')]"

definition validate_quota_limits :: "resource_quota_limits \<Rightarrow> domain_error + unit" where
  "validate_quota_limits q =
     first_error
       [validate_flow_quota (q_flow q), validate_syouyu_quota (q_syouyu q),
        validate_flash_quota (q_flash q),
        fail_if (\<not> in_range 1 10240 (storage_gib (q_registry q)))
          (invalid_quota ''registry.storage_gib must be between 1 and 10240''),
        fail_if (\<not> in_range 1 1000 (max_credentials (q_registry q)))
          (invalid_quota ''registry.max_credentials must be between 1 and 1000'')]"

subsection \<open>Properties\<close>

lemma default_quota_valid: "validate_quota_limits default_resource_quota = Inr ()"
  by code_simp



lemma lit_dots: "lit ''..'' = [46, 46]" by code_simp

text \<open>
  An accepted bucket name is 3 to 63 ASCII characters, lower-case letters, digits, dashes and
  dots, starting and ending with a letter or digit, without two dots in a row, and is not the text
  of an address.
\<close>

theorem accepted_bucket_name:
  assumes "validate_s3_bucket_name name = Inr ()"
  shows "3 \<le> length name \<and> length name \<le> 63
    \<and> (\<forall>c \<in> set name. is_ascii_lowercase c \<or> is_ascii_digit c \<or> c = 45 \<or> c = 46)
    \<and> (is_ascii_lowercase (hd name) \<or> is_ascii_digit (hd name))
    \<and> (is_ascii_lowercase (last name) \<or> is_ascii_digit (last name))
    \<and> (\<forall>i. Suc i < length name \<longrightarrow> \<not> (name ! i = 46 \<and> name ! Suc i = 46))
    \<and> parse_ip_addr name = None"
proof -
  let ?ok = "\<lambda>b. is_ascii_lowercase b \<or> is_ascii_digit b \<or> b = 45 \<or> b = 46"
  from assms have len: "3 \<le> str_len name" "str_len name \<le> 63"
    and bytes: "\<forall>b \<in> set (as_bytes name). ?ok b"
    and ends: "first_is is_ascii_alphanumeric (as_bytes name)" "last_is is_ascii_alphanumeric (as_bytes name)"
    and dots: "\<not> sublist (lit ''..'') name" and ip: "parse_ip_addr name = None"
    by (auto simp: validate_s3_bucket_name_def in_range_def list_ex_iff)
  have "b < 128" if "?ok b" for b
    using that by (auto simp: is_ascii_lowercase_def is_ascii_digit_def)
  from as_bytes_all_ascii [of ?ok, OF this] bytes have "list_all ?ok name"
    by (simp add: list_all_iff)
  then have "list_all (\<lambda>c. c < 128) name"
    by (auto simp: list_all_iff is_ascii_lowercase_def is_ascii_digit_def dest!: bspec)
  then have ascii: "as_bytes name = name" by (rule as_bytes_ascii)
  then have l: "length name = str_len name" by (simp add: str_len_def)
  have ne: "name \<noteq> []" using len l by auto
  have "is_ascii_lowercase (hd name) \<or> is_ascii_digit (hd name)"
    "is_ascii_lowercase (last name) \<or> is_ascii_digit (last name)"
    using ends bytes ne unfolding ascii
    by (auto simp: first_is_def last_is_def is_ascii_alphanumeric_def is_ascii_alphabetic_def
        is_ascii_lowercase_def is_ascii_uppercase_def is_ascii_digit_def split: list.splits
        dest!: bspec [OF _ last_in_set])
  moreover have "\<not> (name ! i = 46 \<and> name ! Suc i = 46)" if "Suc i < length name" for i
  proof
    assume d: "name ! i = 46 \<and> name ! Suc i = 46"
    have "name = take i name @ [name ! i, name ! Suc i] @ drop (Suc (Suc i)) name"
      using that by (metis append_Cons append_Nil Cons_nth_drop_Suc Suc_lessD append_take_drop_id)
    then have "sublist (lit ''..'') name"
      using d by (metis sublist_appendI lit_dots)
    with dots show False ..
  qed
  ultimately show ?thesis using len l bytes ip unfolding ascii by auto
qed

theorem accepted_bucket_name_witness:
  "parse_ip_addr (lit ''team-1.assets'') = None \<and> length (lit ''team-1.assets'') \<le> 63"
proof -
  have "validate_s3_bucket_name (lit ''team-1.assets'') = Inr ()" by code_simp
  from accepted_bucket_name [OF this] show ?thesis by blast
qed

end
