(* ===== verification/Vpc_Spec.thy ===== *)
theory Vpc_Spec
  imports Quota_Limits
begin

section \<open>Private networks and deployment policies\<close>

text \<open>
  The specification of a VPC and of a service's attachment to one
  (\<open>src/crates/heterocloud-domain/src/vpc.rs\<close>) and the deployment policy
  (\<open>src/crates/heterocloud-domain/src/deployment.rs\<close>), with their validation.
\<close>

datatype flash_protocol = Tcp | Udp

subsection \<open>Deployment\<close>

record health_check =
  hc_port :: u16
  hc_path :: "str option"

record deployment_policy =
  strategy :: str
  stateless :: bool
  deadline_seconds :: u32
  auto_rollback :: bool
  health_check :: "health_check option"

definition default_deployment :: deployment_policy where
  "default_deployment = \<lparr>strategy = lit ''auto'', stateless = False, deadline_seconds = 600,
     auto_rollback = True, health_check = None\<rparr>"

definition validate_deployment :: "deployment_policy \<Rightarrow> string + unit" where
  "validate_deployment d =
     first_error
       [fail_if (strategy d \<notin> {lit ''auto'', lit ''rolling'', lit ''recreate''})
          ''deployment strategy must be auto, rolling, or recreate'',
        fail_if (strategy d = lit ''rolling'' \<and> \<not> stateless d)
          ''rolling deployments require stateless=true; persistent homes are retained without being mounted'',
        fail_if (\<not> in_range 60 3600 (deadline_seconds d))
          ''deployment deadline must be between 60 and 3600 seconds'',
        fail_if (case health_check d of
                   None \<Rightarrow> False
                 | Some check \<Rightarrow> hc_port check = 0
                     \<or> (case hc_path check of
                          None \<Rightarrow> False
                        | Some p \<Rightarrow> \<not> first_is (\<lambda>c. c = 47) p \<or> str_len p > 1024
                            \<or> list_ex is_control p))
          ''health check requires a nonzero port and an absolute HTTP path'']"

subsection \<open>Virtual private clouds\<close>

definition MAX_VPC_SECURITY_GROUPS :: nat where
  "MAX_VPC_SECURITY_GROUPS = 32"

definition MAX_VPC_RULES :: nat where
  "MAX_VPC_RULES = 128"

definition MAX_FLASH_SECURITY_GROUPS :: nat where
  "MAX_FLASH_SECURITY_GROUPS = 8"

lemmas vpc_const_defs = MAX_VPC_SECURITY_GROUPS_def MAX_VPC_RULES_def MAX_FLASH_SECURITY_GROUPS_def

datatype vpc_peer = PeerSecurityGroup str | PeerService uuid | PeerAll

record vpc_rule =
  vr_description :: str
  vr_source :: vpc_peer
  vr_destination :: vpc_peer
  vr_protocol :: flash_protocol
  vr_port :: u16
  vr_end_port :: "u16 option"

record vpc_spec =
  vpc_region :: str
  vpc_description :: str
  vpc_nat_enabled :: bool
  vpc_security_groups :: "str list"
  vpc_rules :: "vpc_rule list"

record flash_vpc_attachment =
  at_vpc_id :: uuid
  at_security_groups :: "str list"
  at_private_name :: "str option"

definition default_security_groups :: "str list" where
  "default_security_groups = [lit ''default'']"

definition valid_private_name :: "str \<Rightarrow> bool" where
  "valid_private_name v \<longleftrightarrow>
     v \<noteq> [] \<and> str_len v \<le> 63 \<and> first_is is_ascii_lowercase (as_bytes v)
     \<and> last_is is_ascii_alphanumeric (as_bytes v)
     \<and> list_all (\<lambda>b. is_ascii_lowercase b \<or> is_ascii_digit b \<or> b = 45) (as_bytes v)"

text \<open>The scan with the set of names seen so far; \<open>True\<close> when a name is invalid or repeated.\<close>

primrec bad_group :: "str list \<Rightarrow> str list \<Rightarrow> bool" where
  "bad_group seen [] = False"
| "bad_group seen (name # names) =
     (\<not> valid_private_name name \<or> name \<in> set seen \<or> bad_group (name # seen) names)"

definition validate_groups :: "str list \<Rightarrow> nat \<Rightarrow> domain_error + unit" where
  "validate_groups groups maximum =
     first_error
       [fail_if (groups = [] \<or> length groups > maximum)
          (InvalidVpcSpec ''security_groups must contain 1..{maximum} names''),
        fail_if (bad_group [] groups)
          (InvalidVpcSpec ''security group names must be unique lowercase DNS labels'')]"

definition validate_peer :: "str list \<Rightarrow> vpc_peer \<Rightarrow> domain_error + unit" where
  "validate_peer groups peer =
     (case peer of
        PeerSecurityGroup name \<Rightarrow>
          fail_if (name \<notin> set groups) (InvalidVpcSpec ''rule references an unknown security group'')
      | PeerService service_id \<Rightarrow>
          fail_if (service_id = 0) (InvalidVpcSpec ''rule service_id must be a non-nil UUID'')
      | PeerAll \<Rightarrow> Inr ())"

definition validate_vpc_rule :: "str list \<Rightarrow> vpc_rule \<Rightarrow> domain_error + unit" where
  "validate_vpc_rule groups rule =
     first_error
       [fail_if (str_len (vr_description rule) > 256)
          (InvalidVpcSpec ''rule description must be at most 256 bytes''),
        fail_if (vr_port rule = 0
                 \<or> (case vr_end_port rule of None \<Rightarrow> False | Some e \<Rightarrow> e < vr_port rule))
          (InvalidVpcSpec ''rule ports must be within 1..65535 in ascending order''),
        for_each (validate_peer groups) [vr_source rule, vr_destination rule]]"

definition validate_vpc :: "vpc_spec \<Rightarrow> domain_error + unit" where
  "validate_vpc spec =
     first_error
       [fail_if (vpc_region spec = [] \<or> str_len (vpc_region spec) > 128)
          (InvalidVpcSpec ''region is required and must be at most 128 bytes''),
        fail_if (str_len (vpc_description spec) > 2048)
          (InvalidVpcSpec ''description must be at most 2048 bytes''),
        validate_groups (vpc_security_groups spec) MAX_VPC_SECURITY_GROUPS,
        fail_if (length (vpc_rules spec) > MAX_VPC_RULES)
          (InvalidVpcSpec ''a VPC may have at most 128 connection rules''),
        for_each (validate_vpc_rule (vpc_security_groups spec)) (vpc_rules spec)]"

definition validate_attachment :: "flash_vpc_attachment \<Rightarrow> domain_error + unit" where
  "validate_attachment a =
     first_error
       [fail_if (at_vpc_id a = 0) (InvalidVpcSpec ''vpc_id must be a non-nil UUID''),
        validate_groups (at_security_groups a) MAX_FLASH_SECURITY_GROUPS,
        fail_if (case at_private_name a of None \<Rightarrow> False | Some name \<Rightarrow> \<not> valid_private_name name)
          (InvalidVpcSpec ''private_name must be a lowercase DNS label starting with a letter'')]"

subsection \<open>What validation guarantees\<close>

lemma bad_group_iff:
  "\<not> bad_group seen names \<longleftrightarrow>
     distinct names \<and> set names \<inter> set seen = {} \<and> (\<forall>n \<in> set names. valid_private_name n)"
  by (induction names arbitrary: seen) auto

lemma validate_groups_iff:
  "validate_groups groups m = Inr () \<longleftrightarrow>
     groups \<noteq> [] \<and> length groups \<le> m \<and> distinct groups \<and> (\<forall>n \<in> set groups. valid_private_name n)"
  using bad_group_iff [of "[]" groups] by (auto simp: validate_groups_def)

lemma validate_peer_iff:
  "validate_peer groups peer = Inr () \<longleftrightarrow>
     (case peer of PeerSecurityGroup name \<Rightarrow> name \<in> set groups | PeerService i \<Rightarrow> i \<noteq> 0 | PeerAll \<Rightarrow> True)"
  by (cases peer) (auto simp: validate_peer_def)

text \<open>The ports a rule opens.\<close>

definition rule_ports :: "vpc_rule \<Rightarrow> u16 set" where
  "rule_ports rule =
     {vr_port rule .. (case vr_end_port rule of None \<Rightarrow> vr_port rule | Some e \<Rightarrow> e)}"

definition peer_known :: "vpc_spec \<Rightarrow> vpc_peer \<Rightarrow> bool" where
  "peer_known spec peer \<longleftrightarrow>
     (case peer of
        PeerSecurityGroup name \<Rightarrow> name \<in> set (vpc_security_groups spec)
      | PeerService i \<Rightarrow> i \<noteq> 0
      | PeerAll \<Rightarrow> True)"

subsection \<open>Properties\<close>

definition demo_vpc :: vpc_spec where
  "demo_vpc = \<lparr>vpc_region = lit ''heteronet-global'', vpc_description = [], vpc_nat_enabled = True,
     vpc_security_groups = [lit ''default'', lit ''web-1''],
     vpc_rules = [\<lparr>vr_description = [], vr_source = PeerAll,
       vr_destination = PeerSecurityGroup (lit ''web-1''), vr_protocol = Tcp, vr_port = 80,
       vr_end_port = Some 443\<rparr>]\<rparr>"

text \<open>
  C31: A validated VPC has distinct security group names that are private DNS labels, and each of
  its connection rules opens a nonempty range of ports without port zero, between peers that the
  VPC itself declares, service identifiers that are not nil, or all of its services.
\<close>

theorem validated_vpc:
  assumes "validate_vpc spec = Inr ()"
  shows "distinct (vpc_security_groups spec)
    \<and> (\<forall>g \<in> set (vpc_security_groups spec). valid_private_name g)
    \<and> (\<forall>rule \<in> set (vpc_rules spec). rule_ports rule \<noteq> {} \<and> 0 \<notin> rule_ports rule
        \<and> peer_known spec (vr_source rule) \<and> peer_known spec (vr_destination rule))"
proof -
  have groups: "distinct (vpc_security_groups spec)"
      "\<forall>g \<in> set (vpc_security_groups spec). valid_private_name g"
    and rules: "\<And>rule. rule \<in> set (vpc_rules spec) \<Longrightarrow>
      validate_vpc_rule (vpc_security_groups spec) rule = Inr ()"
    using assms by (auto simp: validate_vpc_def validate_groups_iff for_each_Inr_iff)
  have "rule_ports rule \<noteq> {} \<and> 0 \<notin> rule_ports rule
      \<and> peer_known spec (vr_source rule) \<and> peer_known spec (vr_destination rule)"
    if "rule \<in> set (vpc_rules spec)" for rule
  proof -
    from rules [OF that] have "vr_port rule \<noteq> 0"
      "\<not> (case vr_end_port rule of None \<Rightarrow> False | Some e \<Rightarrow> e < vr_port rule)"
      "peer_known spec (vr_source rule)" "peer_known spec (vr_destination rule)"
      by (auto simp: validate_vpc_rule_def bindE_Inr_iff validate_peer_iff peer_known_def)
    then show ?thesis
      by (auto simp: rule_ports_def not_less split: option.splits)
  qed
  with groups show ?thesis by blast
qed

theorem validated_vpc_witness:
  "distinct (vpc_security_groups demo_vpc) \<and> rule_ports (hd (vpc_rules demo_vpc)) \<noteq> {}
    \<and> peer_known demo_vpc (vr_destination (hd (vpc_rules demo_vpc)))"
proof -
  have "validate_vpc demo_vpc = Inr ()" by code_simp
  moreover have "hd (vpc_rules demo_vpc) \<in> set (vpc_rules demo_vpc)" by code_simp
  ultimately show ?thesis using validated_vpc by blast
qed

end
