(* ===== verification/Flash_Spec.thy ===== *)
theory Flash_Spec
  imports Vpc_Spec
begin

section \<open>Flash service specifications\<close>

text \<open>
  \<open>FlashSpec\<close> of \<open>src/crates/heterocloud-domain/src/lib.rs\<close>, a container service, and its
  validation. What the code takes from other crates is the record \<open>platform\<close>: the length of
  serialized JSON (\<open>serde_json\<close>), URL parsing (\<open>url\<close>) and the networks of \<open>ipnet\<close>, whose type is
  a parameter with its order.
\<close>

subsection \<open>Data\<close>

record url =
  url_scheme :: str
  url_host :: "str option"
  url_username :: str
  url_password :: "str option"
  url_query :: "str option"
  url_fragment :: "str option"

record 'n platform =
  json_len :: "json \<Rightarrow> nat option"
  url_parse :: "str \<Rightarrow> url option"
  net_parse :: "str \<Rightarrow> 'n option"
  net_of_addr :: "ip_addr \<Rightarrow> 'n"
  net_trunc :: "'n \<Rightarrow> 'n"
  net_contains :: "'n \<Rightarrow> 'n \<Rightarrow> bool"

record flash_port =
  port_name :: str
  protocol :: flash_protocol
  container_port :: u16
  service_port :: u16

datatype flash_exposure_type = ExposureInternal | ExposurePublic
datatype flash_traffic_mode = Forwarded | Direct
datatype flash_endpoint_mode = EndpointIp | EndpointLoadBalancer | EndpointWeb

record flash_oidc_authentication =
  issuer_url :: str
  client_id :: str
  client_secret_ref :: str
  oidc_scopes :: "str list"

record flash_exposure =
  exposure_type :: flash_exposure_type
  traffic_mode :: flash_traffic_mode
  endpoint_mode :: flash_endpoint_mode
  allowed_source_cidrs :: "str list"
  denied_source_cidrs :: "str list"
  authentication :: "flash_oidc_authentication option"

datatype flash_egress_mode = EgressDisabled | EgressRestricted | EgressInternet

record flash_egress =
  egress_mode :: flash_egress_mode
  allow_same_organization :: bool
  allowed_destination_cidrs :: "str list"
  denied_destination_cidrs :: "str list"

definition default_flash_egress :: flash_egress where
  "default_flash_egress = \<lparr>egress_mode = EgressInternet, allow_same_organization = False,
     allowed_destination_cidrs = [], denied_destination_cidrs = []\<rparr>"

record flash_autoscaling =
  min_replicas :: u32
  max_replicas :: u32
  target_cpu_utilization_percent :: "u32 option"
  target_memory_utilization_percent :: "u32 option"
  idle_timeout_seconds :: u32

record flash_spec =
  fs_region :: str
  fs_image :: str
  deployment :: "deployment_policy option"
  task_role :: "uuid option"
  replicas :: u32
  stopped :: bool
  autoscaling :: "flash_autoscaling option"
  cpu_millis :: u32
  memory_mib :: u32
  gpu_type :: "str option"
  ephemeral_storage_gib :: u32
  rootfs_storage_gib :: "u32 option"
  persistent_storage_gib :: "u32 option"
  restore_from_backup_id :: "uuid option"
  ports :: "flash_port list"
  exposure :: flash_exposure
  egress :: flash_egress
  network :: "flash_vpc_attachment option"
  env :: "(str, str) btree"
  secret_env :: "(str, str) btree"
  secret_files :: "(str, str) btree"
  fs_command :: "str list"
  fs_args :: "str list"
  fs_metadata :: "(str, json) btree"

definition reserved_replicas :: "flash_spec \<Rightarrow> u32" where
  "reserved_replicas spec =
     (case autoscaling spec of None \<Rightarrow> replicas spec | Some scaling \<Rightarrow> max_replicas scaling)"

subsection \<open>Names and lists\<close>

definition valid_flash_port_name :: "str \<Rightarrow> bool" where
  "valid_flash_port_name name \<longleftrightarrow>
     name \<noteq> [] \<and> str_len name \<le> MAX_FLASH_PORT_NAME_LENGTH
     \<and> first_is is_ascii_lowercase (as_bytes name)
     \<and> last_is (\<lambda>b. is_ascii_lowercase b \<or> is_ascii_digit b) (as_bytes name)
     \<and> list_all (\<lambda>b. is_ascii_lowercase b \<or> is_ascii_digit b \<or> b = 45) (as_bytes name)"

definition valid_flash_gpu_type :: "str \<Rightarrow> bool" where
  "valid_flash_gpu_type g \<longleftrightarrow>
     g \<noteq> [] \<and> str_len g \<le> MAX_FLASH_GPU_TYPE_LENGTH
     \<and> list_all (\<lambda>b. is_ascii_lowercase b \<or> is_ascii_digit b \<or> b = 45) (as_bytes g)
     \<and> \<not> first_is (\<lambda>c. c = 45) g \<and> \<not> last_is (\<lambda>c. c = 45) g"

definition valid_flash_env_name :: "str \<Rightarrow> bool" where
  "valid_flash_env_name name \<longleftrightarrow>
     name \<noteq> [] \<and> str_len name \<le> MAX_FLASH_ENV_KEY_LENGTH
     \<and> first_is (\<lambda>b. is_ascii_alphabetic b \<or> b = 95) (as_bytes name)
     \<and> list_all (\<lambda>b. is_ascii_alphanumeric b \<or> b = 95) (as_bytes name)"

definition validate_process_values :: "str list \<Rightarrow> nat \<Rightarrow> domain_error + unit" where
  "validate_process_values vals maximum_parts =
     first_error
       [fail_if (length vals > maximum_parts)
          (InvalidFlashSpec ''{field} must contain at most {maximum_parts} entries''),
        fail_if (list_ex (\<lambda>v. v = [] \<or> str_len v > MAX_FLASH_PROCESS_VALUE_LENGTH \<or> 0 \<in> set v) vals)
          (InvalidFlashSpec ''{field} entries must be non-empty, at most {MAX_FLASH_PROCESS_VALUE_LENGTH} bytes, and cannot contain NUL'')]"

definition env_name_of_file :: "str \<Rightarrow> str" where
  "env_name_of_file file_name = map (\<lambda>c. if c = 45 then 95 else c) (to_ascii_uppercase file_name)"

primrec add_secret_files ::
    "(str \<times> str) list \<Rightarrow> (str, str) btree \<Rightarrow> domain_error + (str, str) btree" where
  "add_secret_files [] effective = Inr effective"
| "add_secret_files (entry # files) effective =
     (case entry of (file_name, secret_name) \<Rightarrow>
        if map_of effective (env_name_of_file file_name) \<noteq> None
        then Inl (InvalidFlashSpec ''secret environment variable {env_name} is configured more than once'')
        else add_secret_files files (btree_insert (env_name_of_file file_name) secret_name effective))"

definition effective_secret_env :: "flash_spec \<Rightarrow> domain_error + (str, str) btree" where
  "effective_secret_env spec = add_secret_files (secret_files spec) (secret_env spec)"

subsection \<open>Networks\<close>

primrec normalize_cidrs ::
    "('n::linorder) platform \<Rightarrow> str list \<Rightarrow> 'n list \<Rightarrow> domain_error + 'n list" where
  "normalize_cidrs pf [] normalized = Inr (sort normalized)"
| "normalize_cidrs pf (v # vs) normalized =
     bindE (fail_if (v = [] \<or> trim v \<noteq> v)
              (InvalidFlashSpec ''{field} entries must be trimmed IP addresses or CIDRs'')) (\<lambda>_.
     bindE (ok_or (case net_parse pf v of
                     Some n \<Rightarrow> Some n
                   | None \<Rightarrow> map_option (net_of_addr pf) (parse_ip_addr v))
              (InvalidFlashSpec ''{field} entry {value:?} must be an IPv4/IPv6 address or CIDR'')) (\<lambda>n.
     bindE (fail_if (net_trunc pf n \<in> set normalized)
              (InvalidFlashSpec ''{field} must not contain duplicate networks'')) (\<lambda>_.
     normalize_cidrs pf vs (net_trunc pf n # normalized))))"

definition parse_flash_cidrs ::
    "('n::linorder) platform \<Rightarrow> str list \<Rightarrow> nat \<Rightarrow> domain_error + 'n list" where
  "parse_flash_cidrs pf vals maximum =
     bindE (fail_if (length vals > maximum)
              (InvalidFlashSpec ''{field} must contain at most {maximum} entries'')) (\<lambda>_.
     normalize_cidrs pf vals [])"

definition protected_networks :: "str list" where
  "protected_networks =
     [lit ''::/128'', lit ''::1/128'', lit ''0.0.0.0/8'', lit ''10.0.0.0/8'', lit ''100.64.0.0/10'',
      lit ''127.0.0.0/8'', lit ''169.254.0.0/16'', lit ''172.16.0.0/12'', lit ''192.0.0.0/24'',
      lit ''192.88.99.0/24'', lit ''192.168.0.0/16'', lit ''198.18.0.0/15'', lit ''224.0.0.0/3'',
      lit ''fc00::/7'', lit ''fe80::/10'', lit ''ff00::/8'']"

definition validate_flash_source_cidrs ::
    "('n::linorder) platform \<Rightarrow> str list \<Rightarrow> domain_error + unit" where
  "validate_flash_source_cidrs pf vals =
     bindE (parse_flash_cidrs pf vals MAX_FLASH_SOURCE_CIDRS) (\<lambda>_. Inr ())"

definition validate_flash_egress ::
    "('n::linorder) platform \<Rightarrow> flash_egress \<Rightarrow> domain_error + unit" where
  "validate_flash_egress pf eg =
     bindE (parse_flash_cidrs pf (allowed_destination_cidrs eg) MAX_FLASH_DESTINATION_CIDRS) (\<lambda>allowed.
     bindE (parse_flash_cidrs pf (denied_destination_cidrs eg) MAX_FLASH_DESTINATION_CIDRS) (\<lambda>_.
     bindE (fail_if (egress_mode eg \<noteq> EgressRestricted \<and> allowed \<noteq> [])
              (InvalidFlashSpec ''allowed_destination_cidrs requires restricted egress mode'')) (\<lambda>_.
     bindE (collectE (\<lambda>s. ok_or (net_parse pf s)
              (InvalidFlashSpec ''protected destination CIDR configuration is invalid''))
              protected_networks) (\<lambda>protected.
     fail_if (list_ex (\<lambda>n. list_ex (\<lambda>p. net_contains pf n p \<or> net_contains pf p n) protected) allowed)
       (InvalidFlashSpec ''allowed destination {network} overlaps a protected private or infrastructure network'')))))"

definition validate_oidc :: "'n platform \<Rightarrow> flash_oidc_authentication \<Rightarrow> domain_error + unit" where
  "validate_oidc pf a =
     bindE (ok_or (url_parse pf (issuer_url a))
              (InvalidFlashSpec ''issuer_url must be an absolute HTTPS issuer URL'')) (\<lambda>issuer.
     first_error
       [fail_if (str_len (issuer_url a) > 2048 \<or> url_scheme issuer \<noteq> lit ''https''
                 \<or> url_host issuer = None \<or> url_username issuer \<noteq> [] \<or> url_password issuer \<noteq> None
                 \<or> url_query issuer \<noteq> None \<or> url_fragment issuer \<noteq> None
                 \<or> list_ex is_whitespace (issuer_url a) \<or> list_ex is_control (issuer_url a))
          (InvalidFlashSpec ''issuer_url must be HTTPS without credentials, query or fragment''),
        fail_if (client_id a = [] \<or> str_len (client_id a) > 256 \<or> list_ex is_control (client_id a))
          (InvalidFlashSpec ''OIDC client_id must contain 1 to 256 characters without controls''),
        fail_if (client_secret_ref a = [] \<or> str_len (client_secret_ref a) > 63
                 \<or> \<not> first_is is_ascii_alphanumeric (as_bytes (client_secret_ref a))
                 \<or> \<not> last_is is_ascii_alphanumeric (as_bytes (client_secret_ref a))
                 \<or> list_ex (\<lambda>b. \<not> is_ascii_lowercase b \<and> \<not> is_ascii_digit b \<and> b \<noteq> 45)
                     (as_bytes (client_secret_ref a)))
          (InvalidFlashSpec ''client_secret_ref must be a lowercase DNS label of at most 63 characters''),
        fail_if (length (oidc_scopes a) > 16
                 \<or> list_ex (\<lambda>s. s = [] \<or> str_len s > 128
                     \<or> list_ex (\<lambda>b. \<not> in_range 33 126 b \<or> b = 34 \<or> b = 92) (as_bytes s)) (oidc_scopes a)
                 \<or> \<not> distinct (oidc_scopes a))
          (InvalidFlashSpec ''OIDC scopes must be at most 16 unique nonempty scope tokens'')])"

subsection \<open>Validation\<close>

text \<open>The parts of \<open>validate_inner\<close> in the order of the code.\<close>

definition validate_flash_image :: "flash_spec \<Rightarrow> domain_error + unit" where
  "validate_flash_image spec =
     first_error
       [(case deployment spec of
           None \<Rightarrow> Inr ()
         | Some policy \<Rightarrow> map_err InvalidFlashSpec (validate_deployment policy)),
        fail_if (fs_region spec = [] \<or> str_len (fs_region spec) > MAX_FLASH_REGION_LENGTH
                 \<or> list_ex (\<lambda>b. \<not> is_ascii_lowercase b \<and> \<not> is_ascii_digit b \<and> b \<noteq> 45)
                     (as_bytes (fs_region spec))
                 \<or> first_is (\<lambda>c. c = 45) (fs_region spec) \<or> last_is (\<lambda>c. c = 45) (fs_region spec))
          (InvalidFlashSpec ''region must be a 1..{MAX_FLASH_REGION_LENGTH} character lowercase DNS label''),
        fail_if (fs_image spec = [] \<or> str_len (fs_image spec) > MAX_FLASH_IMAGE_LENGTH
                 \<or> list_ex is_whitespace (fs_image spec) \<or> list_ex is_control (fs_image spec))
          (InvalidFlashSpec ''image must be a 1..512 character container image reference without whitespace''),
        fail_if (\<not> in_range MIN_FLASH_REPLICAS MAX_FLASH_REPLICAS (replicas spec))
          (InvalidFlashSpec ''replicas must be between {MIN_FLASH_REPLICAS} and {MAX_FLASH_REPLICAS}'')]"

definition validate_autoscaling :: "flash_spec \<Rightarrow> domain_error + unit" where
  "validate_autoscaling spec =
     (case autoscaling spec of
        None \<Rightarrow> Inr ()
      | Some scaling \<Rightarrow>
          first_error
            [fail_if (max_replicas scaling < min_replicas scaling
                      \<or> \<not> in_range (max (min_replicas scaling) 1) (max_replicas scaling) (replicas spec))
               (InvalidFlashSpec ''autoscaling requires min_replicas >= 0, max_replicas >= min_replicas, and replicas within these bounds''),
             fail_if (min_replicas scaling = 0 \<and> endpoint_mode (exposure spec) \<noteq> EndpointWeb)
               (InvalidFlashSpec ''min_replicas=0 requires the HTTP/HTTPS web endpoint mode''),
             fail_if (\<not> in_range MIN_FLASH_IDLE_TIMEOUT_SECONDS MAX_FLASH_IDLE_TIMEOUT_SECONDS
                         (idle_timeout_seconds scaling))
               (InvalidFlashSpec ''idle_timeout_seconds must be between {MIN_FLASH_IDLE_TIMEOUT_SECONDS} and {MAX_FLASH_IDLE_TIMEOUT_SECONDS}''),
             fail_if (list_all (\<lambda>t. t = None)
                        [target_cpu_utilization_percent scaling, target_memory_utilization_percent scaling]
                      \<or> list_ex (\<lambda>t. case t of None \<Rightarrow> False | Some x \<Rightarrow> \<not> in_range 1 100 x)
                        [target_cpu_utilization_percent scaling, target_memory_utilization_percent scaling])
               (InvalidFlashSpec ''autoscaling requires at least one CPU or memory utilization target, each between 1 and 100'')])"

definition validate_compute :: "flash_spec \<Rightarrow> domain_error + unit" where
  "validate_compute spec =
     first_error
       [fail_if (\<not> in_range MIN_FLASH_CPU_MILLIS MAX_FLASH_CPU_MILLIS (cpu_millis spec))
          (InvalidFlashSpec ''cpu_millis must be between {MIN_FLASH_CPU_MILLIS} and {MAX_FLASH_CPU_MILLIS}''),
        fail_if (\<not> in_range MIN_FLASH_MEMORY_MIB MAX_FLASH_MEMORY_MIB (memory_mib spec))
          (InvalidFlashSpec ''memory_mib must be between {MIN_FLASH_MEMORY_MIB} and {MAX_FLASH_MEMORY_MIB}''),
        fail_if (case gpu_type spec of None \<Rightarrow> False | Some g \<Rightarrow> \<not> valid_flash_gpu_type g)
          (InvalidFlashSpec ''gpu_type must be a lowercase DNS label of at most {MAX_FLASH_GPU_TYPE_LENGTH} bytes''),
        fail_if (gpu_type spec \<noteq> None
                 \<and> (replicas spec \<noteq> 1
                     \<or> (case autoscaling spec of None \<Rightarrow> False | Some scaling \<Rightarrow> max_replicas scaling \<noteq> 1)))
          (InvalidFlashSpec ''GPU services require replicas=1 and autoscaling.max_replicas=1''),
        fail_if (\<not> in_range MIN_FLASH_EPHEMERAL_STORAGE_GIB MAX_FLASH_EPHEMERAL_STORAGE_GIB
                    (ephemeral_storage_gib spec))
          (InvalidFlashSpec ''ephemeral_storage_gib must be between {MIN_FLASH_EPHEMERAL_STORAGE_GIB} and {MAX_FLASH_EPHEMERAL_STORAGE_GIB}''),
        fail_if (case rootfs_storage_gib spec of
                   None \<Rightarrow> False
                 | Some rootfs \<Rightarrow> rootfs = 0 \<or> rootfs \<ge> ephemeral_storage_gib spec)
          (InvalidFlashSpec ''rootfs_storage_gib must be at least 1 and less than ephemeral_storage_gib''),
        fail_if (case persistent_storage_gib spec of
                   None \<Rightarrow> False
                 | Some persistent \<Rightarrow> persistent = 0
                     \<or> u64_of persistent
                         + u64_of (case rootfs_storage_gib spec of None \<Rightarrow> 1 | Some r \<Rightarrow> r)
                       \<ge> u64_of (ephemeral_storage_gib spec))
          (InvalidFlashSpec ''persistent_storage_gib must be at least 1 and leave room for the image and container filesystem within ephemeral_storage_gib'')]"

text \<open>The port loop with the names and the assigned ports seen so far.\<close>

primrec validate_port_loop ::
    "bool \<Rightarrow> bool \<Rightarrow> flash_port list \<Rightarrow> str list \<Rightarrow> (flash_protocol \<times> u16) list \<Rightarrow> domain_error + unit" where
  "validate_port_loop assigned private [] names taken = Inr ()"
| "validate_port_loop assigned private (port # rest) names taken =
     bindE (first_error
       [fail_if (\<not> valid_flash_port_name (port_name port))
          (InvalidFlashSpec ''port names must be unique lowercase DNS labels of at most 63 characters''),
        fail_if (port_name port \<in> set names) (InvalidFlashSpec ''port names must be unique''),
        fail_if (container_port port = 0)
          (InvalidFlashSpec ''container_port must be between 1 and 65535''),
        fail_if (assigned
                 \<and> (if private then service_port port \<noteq> container_port port
                     else \<not> in_range MIN_FLASH_SERVICE_PORT MAX_FLASH_SERVICE_PORT (service_port port)))
          (InvalidFlashSpec ''service_port must be assigned between {MIN_FLASH_SERVICE_PORT} and {MAX_FLASH_SERVICE_PORT}''),
        fail_if (assigned \<and> (protocol port, service_port port) \<in> set taken)
          (InvalidFlashSpec ''service_port must be unique within each protocol'')]) (\<lambda>_.
     validate_port_loop assigned private rest (port_name port # names)
       (if assigned then (protocol port, service_port port) # taken else taken))"

definition private_ports :: "flash_spec \<Rightarrow> bool" where
  "private_ports spec \<longleftrightarrow>
     network spec \<noteq> None \<and> exposure_type (exposure spec) = ExposureInternal"

definition validate_ports :: "bool \<Rightarrow> flash_spec \<Rightarrow> domain_error + unit" where
  "validate_ports assigned spec =
     first_error
       [fail_if (length (ports spec) > MAX_FLASH_PORTS)
          (InvalidFlashSpec ''ports must contain at most {MAX_FLASH_PORTS} entries''),
        validate_port_loop assigned (private_ports spec) (ports spec) [] []]"

definition validate_exposure :: "('n::linorder) platform \<Rightarrow> flash_spec \<Rightarrow> domain_error + unit" where
  "validate_exposure pf spec =
     (let ex = exposure spec in
      first_error
       [fail_if (exposure_type ex = ExposureInternal \<and> traffic_mode ex \<noteq> Forwarded)
          (InvalidFlashSpec ''internal exposure requires forwarded traffic_mode''),
        fail_if (endpoint_mode ex \<in> {EndpointLoadBalancer, EndpointWeb}
                 \<and> (exposure_type ex \<noteq> ExposurePublic \<or> traffic_mode ex \<noteq> Forwarded))
          (InvalidFlashSpec ''load_balancer and web endpoint_mode require public exposure and forwarded traffic_mode''),
        (case authentication ex of
           None \<Rightarrow> Inr ()
         | Some a \<Rightarrow>
             first_error
               [fail_if (endpoint_mode ex \<noteq> EndpointWeb)
                  (InvalidFlashSpec ''OIDC authentication requires the HTTP/HTTPS web endpoint mode''),
                validate_oidc pf a]),
        (if endpoint_mode ex = EndpointWeb then
           first_error
             [fail_if (length (ports spec) \<noteq> 1 \<or> protocol (hd (ports spec)) \<noteq> Tcp)
                (InvalidFlashSpec ''web endpoint_mode requires exactly one TCP port''),
              fail_if (allowed_source_cidrs ex \<noteq> [] \<or> denied_source_cidrs ex \<noteq> [])
                (InvalidFlashSpec ''web endpoint_mode does not support allowed_source_cidrs or denied_source_cidrs'')]
         else Inr ()),
        validate_flash_source_cidrs pf (allowed_source_cidrs ex),
        validate_flash_source_cidrs pf (denied_source_cidrs ex),
        validate_flash_egress pf (egress spec),
        (case network spec of
           None \<Rightarrow> Inr ()
         | Some attachment \<Rightarrow>
             first_error
               [validate_attachment attachment,
                fail_if (allow_same_organization (egress spec))
                  (InvalidFlashSpec ''VPC attachments use VPC connection rules; allow_same_organization must be false'')])])"

definition workload_env_names :: "str list" where
  "workload_env_names =
     [lit ''HETEROCLOUD_ENDPOINT'', lit ''HETEROCLOUD_ORGANIZATION_ID'',
      lit ''HETEROCLOUD_WORKLOAD_TOKEN_FILE'']"

definition validate_environment :: "flash_spec \<Rightarrow> domain_error + unit" where
  "validate_environment spec =
     bindE (first_error
       [fail_if (length (env spec) > MAX_FLASH_ENV_VARS)
          (InvalidFlashSpec ''env must contain at most {MAX_FLASH_ENV_VARS} entries''),
        for_each (\<lambda>(name, v).
          first_error
            [fail_if (\<not> valid_flash_env_name name)
               (InvalidFlashSpec ''environment variable names must be valid C identifiers''),
             fail_if (str_len v > MAX_FLASH_ENV_VALUE_LENGTH \<or> 0 \<in> set v)
               (InvalidFlashSpec ''environment variable values must be at most {MAX_FLASH_ENV_VALUE_LENGTH} bytes and cannot contain NUL'')])
          (env spec)]) (\<lambda>_.
     bindE (effective_secret_env spec) (\<lambda>secrets.
     first_error
       [fail_if (length secrets > MAX_FLASH_SECRET_ENV)
          (InvalidFlashSpec ''secret_env must contain at most {MAX_FLASH_SECRET_ENV} entries''),
        for_each (\<lambda>(file_name, secret_name).
          fail_if (\<not> valid_flash_port_name file_name \<or> \<not> valid_flash_port_name secret_name)
            (InvalidFlashSpec ''secret_files names must be lowercase DNS labels of at most 63 bytes''))
          (secret_files spec),
        fail_if (task_role spec \<noteq> None
                 \<and> list_ex (\<lambda>key. map_of (env spec) key \<noteq> None \<or> map_of secrets key \<noteq> None)
                     workload_env_names)
          (InvalidFlashSpec ''task_role reserves the HeteroCloud workload identity environment settings''),
        for_each (\<lambda>(env_name, secret_name).
          first_error
            [fail_if (\<not> valid_flash_env_name env_name \<or> \<not> valid_flash_port_name secret_name)
               (InvalidFlashSpec ''secret_env must map valid environment variable names to secret names''),
             fail_if (map_of (env spec) env_name \<noteq> None)
               (InvalidFlashSpec ''environment variable {env_name} is configured as both plain text and a secret'')])
          secrets]))"

definition validate_inner ::
    "('n::linorder) platform \<Rightarrow> bool \<Rightarrow> flash_spec \<Rightarrow> domain_error + unit" where
  "validate_inner pf require_assigned_service_ports spec =
     first_error
       [validate_flash_image spec,
        validate_autoscaling spec,
        validate_compute spec,
        validate_ports require_assigned_service_ports spec,
        validate_exposure pf spec,
        validate_environment spec,
        validate_process_values (fs_command spec) MAX_FLASH_COMMAND_PARTS,
        validate_process_values (fs_args spec) MAX_FLASH_ARGS,
        (case json_len pf (JObject (fs_metadata spec)) of
           None \<Rightarrow> Inl (InvalidFlashSpec ''metadata must be valid JSON'')
         | Some n \<Rightarrow> fail_if (n > MAX_FLASH_METADATA_BYTES)
             (InvalidFlashSpec ''metadata must not exceed {MAX_FLASH_METADATA_BYTES} serialized bytes''))]"

definition validate_flash :: "('n::linorder) platform \<Rightarrow> flash_spec \<Rightarrow> domain_error + unit" where
  "validate_flash pf spec = validate_inner pf True spec"

definition validate_flash_request :: "('n::linorder) platform \<Rightarrow> flash_spec \<Rightarrow> domain_error + unit" where
  "validate_flash_request pf spec = validate_inner pf False spec"

subsection \<open>What validation guarantees\<close>

definition port_key :: "flash_port \<Rightarrow> flash_protocol \<times> u16" where
  "port_key p = (protocol p, service_port p)"

definition port_assigned :: "bool \<Rightarrow> flash_port \<Rightarrow> bool" where
  "port_assigned private p \<longleftrightarrow>
     (if private then service_port p = container_port p
      else in_range MIN_FLASH_SERVICE_PORT MAX_FLASH_SERVICE_PORT (service_port p))"

lemma validate_port_loop_iff:
  "validate_port_loop assigned private ps names taken = Inr () \<longleftrightarrow>
     (\<forall>p \<in> set ps. valid_flash_port_name (port_name p) \<and> container_port p \<noteq> 0
        \<and> (assigned \<longrightarrow> port_assigned private p))
     \<and> distinct (map port_name ps) \<and> port_name ` set ps \<inter> set names = {}
     \<and> (assigned \<longrightarrow> distinct (map port_key ps) \<and> port_key ` set ps \<inter> set taken = {})"
proof (induction ps arbitrary: names taken)
  case (Cons p ps)
  show ?case
    unfolding validate_port_loop.simps bindE_Inr_iff Cons.IH port_key_def [symmetric]
    by (cases assigned) (auto simp: port_assigned_def)
qed simp

lemma validate_ports_assigned_imp: "validate_ports True spec = Inr () \<Longrightarrow> validate_ports False spec = Inr ()"
  by (auto simp: validate_ports_def validate_port_loop_iff)

lemma add_secret_files_map:
  "add_secret_files files m = Inr m' \<Longrightarrow>
     map_of m' = map_of m ++ map_of (map (\<lambda>(f, v). (env_name_of_file f, v)) files)
     \<and> distinct (map (env_name_of_file \<circ> fst) files)
     \<and> env_name_of_file ` fst ` set files \<inter> dom (map_of m) = {}"
proof (induction files arbitrary: m)
  case (Cons entry files)
  obtain f v where e: "entry = (f, v)" by (cases entry)
  let ?m = "btree_insert (env_name_of_file f) v m"
  from Cons.prems e have fresh: "map_of m (env_name_of_file f) = None"
    and rest: "add_secret_files files ?m = Inr m'" by (auto split: if_splits)
  from Cons.IH [OF rest] have IH:
    "map_of m' = map_of ?m ++ map_of (map (\<lambda>(f, v). (env_name_of_file f, v)) files)"
    "distinct (map (env_name_of_file \<circ> fst) files)"
    "env_name_of_file ` fst ` set files \<inter> dom (map_of ?m) = {}" by blast+
  have "dom (map_of ?m) = insert (env_name_of_file f) (dom (map_of m))"
    by (simp add: map_of_btree_insert)
  with IH(3) have new: "env_name_of_file f \<notin> env_name_of_file ` fst ` set files"
    "env_name_of_file ` fst ` set files \<inter> dom (map_of m) = {}" by auto
  have "map_of (map (\<lambda>(f, v). (env_name_of_file f, v)) files) (env_name_of_file f) = None"
    using new(1) by (force simp: map_of_eq_None_iff image_iff)
  then have "map_of m' = map_of m ++ map_of (map (\<lambda>(f, v). (env_name_of_file f, v)) (entry # files))"
    unfolding IH(1) by (auto simp: e map_of_btree_insert map_add_def fun_eq_iff split: option.splits)
  moreover have "distinct (map (env_name_of_file \<circ> fst) (entry # files))"
    using IH(2) new(1) by (auto simp: e image_iff)
  moreover have "env_name_of_file ` fst ` set (entry # files) \<inter> dom (map_of m) = {}"
    using new(2) fresh by (auto simp: e)
  ultimately show ?case by blast
qed simp

lemma storage_budget:
  fixes p r e :: u32
  shows "\<not> (u64_of p + u64_of r \<ge> u64_of e) \<longleftrightarrow> unat p + unat r < unat e"
  by (simp add: not_le word_less_nat_alt unat_u64_of_add unat_u64_of)

text \<open>The networks a list of texts denotes once parsed.\<close>

definition cidr_of :: "('n::linorder) platform \<Rightarrow> str \<Rightarrow> 'n option" where
  "cidr_of pf v =
     map_option (net_trunc pf)
       (case net_parse pf v of Some n \<Rightarrow> Some n | None \<Rightarrow> map_option (net_of_addr pf) (parse_ip_addr v))"

lemma normalize_cidrs_set:
  "normalize_cidrs pf vs acc = Inr ns \<Longrightarrow>
     Some ` set ns = cidr_of pf ` set vs \<union> Some ` set acc"
proof (induction vs arbitrary: acc)
  case Nil
  then show ?case by auto
next
  case (Cons v vs)
  then obtain n where n: "(case net_parse pf v of Some n \<Rightarrow> Some n
        | None \<Rightarrow> map_option (net_of_addr pf) (parse_ip_addr v)) = Some n"
    and rest: "normalize_cidrs pf vs (net_trunc pf n # acc) = Inr ns"
    by (auto simp: bindE_Inr_iff)
  from n have "cidr_of pf v = Some (net_trunc pf n)" by (simp add: cidr_of_def)
  with Cons.IH [OF rest] show ?case by auto
qed

lemma parse_flash_cidrs_set:
  "parse_flash_cidrs pf vs m = Inr ns \<Longrightarrow> Some ` set ns = cidr_of pf ` set vs"
  using normalize_cidrs_set [of pf vs "[]" ns] by (simp add: parse_flash_cidrs_def bindE_Inr_iff)

lemma collectE_ok_or:
  "collectE (\<lambda>s. ok_or (f s) e) xs = Inr ys \<Longrightarrow> Some ` set ys = f ` set xs"
proof (induction xs arbitrary: ys)
  case (Cons x xs)
  then obtain y zs where "f x = Some y" "ys = y # zs" "Some ` set zs = f ` set xs"
    by (auto simp: bindE_Inr_iff)
  then show ?case by simp
qed simp

lemma validate_flash_egress_checked:
  assumes "validate_flash_egress pf eg = Inr ()"
    and "v \<in> set (allowed_destination_cidrs eg)" "w \<in> set protected_networks"
  obtains n p where "cidr_of pf v = Some n" "net_parse pf w = Some p"
    "\<not> net_contains pf n p" "\<not> net_contains pf p n" "egress_mode eg = EgressRestricted"
proof -
  from assms(1) obtain allowed protected where
    allowed: "parse_flash_cidrs pf (allowed_destination_cidrs eg) MAX_FLASH_DESTINATION_CIDRS = Inr allowed"
    and protected: "collectE (\<lambda>s. ok_or (net_parse pf s)
      (InvalidFlashSpec ''protected destination CIDR configuration is invalid'')) protected_networks
      = Inr protected"
    and mode: "allowed \<noteq> [] \<longrightarrow> egress_mode eg = EgressRestricted"
    and no: "\<not> list_ex (\<lambda>n. list_ex (\<lambda>p. net_contains pf n p \<or> net_contains pf p n) protected) allowed"
    by (auto simp: validate_flash_egress_def bindE_Inr_iff)
  have "cidr_of pf v \<in> Some ` set allowed"
    using parse_flash_cidrs_set [OF allowed] assms(2) by blast
  moreover have "net_parse pf w \<in> Some ` set protected"
    using collectE_ok_or [OF protected] assms(3) by blast
  ultimately obtain n p where np: "cidr_of pf v = Some n" "n \<in> set allowed"
    "net_parse pf w = Some p" "p \<in> set protected" by auto
  with no mode show ?thesis by (intro that [of n p]) (auto simp: list_ex_iff)
qed

subsection \<open>A platform\<close>

text \<open>
  A concrete platform for the examples: networks are (IPv6?, address, prefix length), a network
  contains another when its prefix is no longer and their addresses agree on it.
\<close>

type_synonym cidr = "bool \<times> nat \<times> nat"

definition addr_bits :: "bool \<Rightarrow> nat" where
  "addr_bits v6 = (if v6 then 128 else 32)"

definition cidr_of_addr :: "ip_addr \<Rightarrow> cidr" where
  "cidr_of_addr a =
     (case a of
        IpV4 bs \<Rightarrow> (False, foldl (\<lambda>n b. n * 256 + b) 0 bs, 32)
      | IpV6 gs \<Rightarrow> (True, foldl (\<lambda>n b. n * 65536 + b) 0 gs, 128))"

definition cidr_parse :: "str \<Rightarrow> cidr option" where
  "cidr_parse s =
     (case split_once 47 s of
        None \<Rightarrow> None
      | Some (a, p) \<Rightarrow>
          (case (parse_ip_addr a, parse_digits p) of
             (Some ip, Some n) \<Rightarrow>
               (case cidr_of_addr ip of (v6, x, _) \<Rightarrow> if n \<le> addr_bits v6 then Some (v6, x, n) else None)
           | _ \<Rightarrow> None))"

definition cidr_block :: "cidr \<Rightarrow> nat" where
  "cidr_block = (\<lambda>(v6, _, p). 2 ^ (addr_bits v6 - p))"

definition cidr_trunc :: "cidr \<Rightarrow> cidr" where
  "cidr_trunc = (\<lambda>(v6, x, p). (v6, x div 2 ^ (addr_bits v6 - p) * 2 ^ (addr_bits v6 - p), p))"

definition cidr_contains :: "cidr \<Rightarrow> cidr \<Rightarrow> bool" where
  "cidr_contains = (\<lambda>(v6, x, p) (w6, y, q). v6 = w6 \<and> p \<le> q
     \<and> x div 2 ^ (addr_bits v6 - p) = y div 2 ^ (addr_bits v6 - p))"

definition cidr_members :: "cidr \<Rightarrow> (bool \<times> nat) set" where
  "cidr_members = (\<lambda>(v6, x, p).
     {(v6, y) |y. y div 2 ^ (addr_bits v6 - p) = x div 2 ^ (addr_bits v6 - p)})"

definition demo_platform :: "cidr platform" where
  "demo_platform = \<lparr>json_len = (\<lambda>_. Some 2), url_parse = (\<lambda>_. None), net_parse = cidr_parse,
     net_of_addr = cidr_of_addr, net_trunc = cidr_trunc, net_contains = cidr_contains\<rparr>"

lemma cidr_members_nested:
  assumes "z \<in> cidr_members a" "z \<in> cidr_members b"
  shows "cidr_contains a b \<or> cidr_contains b a"
proof -
  obtain v x p where a: "a = (v, x, p)" by (cases a)
  obtain w y q where b: "b = (w, y, q)" by (cases b)
  from assms obtain t where t: "z = (v, t)" "v = w"
    "t div 2 ^ (addr_bits v - p) = x div 2 ^ (addr_bits v - p)"
    "t div 2 ^ (addr_bits v - q) = y div 2 ^ (addr_bits v - q)"
    by (auto simp: cidr_members_def a b)
  have coarse: "y' div 2 ^ (addr_bits v - p') = t div 2 ^ (addr_bits v - p')"
    if le: "p' \<le> q'" and eq: "t div 2 ^ (addr_bits v - q') = y' div 2 ^ (addr_bits v - q')" for p' q' y'
  proof -
    obtain k where "addr_bits v - p' = (addr_bits v - q') + k"
      using le_Suc_ex [OF diff_le_mono2 [OF le, of "addr_bits v"]] by blast
    then have "n div 2 ^ (addr_bits v - p') = n div 2 ^ (addr_bits v - q') div 2 ^ k" for n :: nat
      by (simp add: power_add div_mult2_eq)
    with eq show ?thesis by simp
  qed
  show ?thesis
  proof (cases "p \<le> q")
    case True
    with coarse [of p q y] t show ?thesis by (simp add: a b cidr_contains_def)
  next
    case False
    with coarse [of q p x] t show ?thesis by (simp add: a b cidr_contains_def)
  qed
qed

lemma cidr_trunc_members: "cidr_members (cidr_trunc a) = cidr_members a"
  by (cases a) (auto simp: cidr_members_def cidr_trunc_def)
subsection \<open>Properties\<close>

definition demo_flash :: flash_spec where
  "demo_flash =
     \<lparr>fs_region = lit ''heteronet-global'', fs_image = lit ''registry.example/game:v1'',
      deployment = None, task_role = Some 9, replicas = 2, stopped = False,
      autoscaling = Some \<lparr>min_replicas = 1, max_replicas = 4,
        target_cpu_utilization_percent = Some 70, target_memory_utilization_percent = None,
        idle_timeout_seconds = 900\<rparr>,
      cpu_millis = 500, memory_mib = 512, gpu_type = None, ephemeral_storage_gib = 10,
      rootfs_storage_gib = Some 3, persistent_storage_gib = Some 6, restore_from_backup_id = None,
      ports = [\<lparr>port_name = lit ''http'', protocol = Tcp, container_port = 8080, service_port = 30001\<rparr>,
               \<lparr>port_name = lit ''dns'', protocol = Udp, container_port = 53, service_port = 30001\<rparr>],
      exposure = \<lparr>exposure_type = ExposurePublic, traffic_mode = Forwarded,
        endpoint_mode = EndpointIp, allowed_source_cidrs = [lit ''203.0.113.7''],
        denied_source_cidrs = [], authentication = None\<rparr>,
      egress = \<lparr>egress_mode = EgressRestricted, allow_same_organization = False,
        allowed_destination_cidrs = [lit ''203.0.113.0/24'', lit ''2001:db8::/32''],
        denied_destination_cidrs = [lit ''10.0.0.0/8'']\<rparr>,
      network = None,
      env = [(lit ''MODE'', lit ''prod'')], secret_env = [(lit ''TOKEN'', lit ''api-token'')],
      secret_files = [(lit ''db-password'', lit ''db'')],
      fs_command = [lit ''/bin/server''], fs_args = [], fs_metadata = []\<rparr>"

lemma demo_flash_valid: "validate_flash demo_platform demo_flash = Inr ()" by code_simp

text \<open>
  C32: In a validated Flash service the port names are distinct, no container port is zero, and the
  assigned service ports are unique per protocol and lie in 30000..32767, or equal the container
  port for a service that is only reachable inside its VPC.
\<close>

theorem validated_ports:
  assumes "validate_flash pf spec = Inr ()"
  shows "distinct (map port_name (ports spec)) \<and> distinct (map port_key (ports spec))
    \<and> (\<forall>p \<in> set (ports spec). 0 < container_port p
        \<and> (if private_ports spec then service_port p = container_port p
           else 30000 \<le> service_port p \<and> service_port p \<le> 32767))"
  using assms
  by (auto simp: validate_flash_def validate_inner_def validate_ports_def validate_port_loop_iff
      port_assigned_def in_range_def const_defs word_gt_0)

theorem validated_ports_witness:
  "distinct (map port_key (ports demo_flash)) \<and> \<not> private_ports demo_flash
    \<and> 30000 \<le> service_port (hd (ports demo_flash)) \<and> service_port (hd (ports demo_flash)) \<le> 32767"
proof -
  have "\<not> private_ports demo_flash" "hd (ports demo_flash) \<in> set (ports demo_flash)" by code_simp+
  with validated_ports [OF demo_flash_valid] show ?thesis by auto
qed

text \<open>
  C33: The storage of a validated service adds up over the natural numbers: the persistent home and
  the container file system (one gibibyte when it is not given) are positive and together smaller
  than the disk, and the number of replicas is within the reservation that quotas are charged for.
\<close>

theorem validated_storage:
  assumes "validate_flash pf spec = Inr ()"
  shows "(\<forall>r. rootfs_storage_gib spec = Some r \<longrightarrow> 0 < unat r \<and> unat r < unat (ephemeral_storage_gib spec))
    \<and> (\<forall>h. persistent_storage_gib spec = Some h \<longrightarrow> 0 < unat h
        \<and> unat h + (case rootfs_storage_gib spec of None \<Rightarrow> 1 | Some r \<Rightarrow> unat r)
          < unat (ephemeral_storage_gib spec))
    \<and> 1 \<le> unat (replicas spec) \<and> unat (replicas spec) \<le> unat (reserved_replicas spec)"
proof -
  from assms have c: "validate_compute spec = Inr ()" and i: "validate_flash_image spec = Inr ()"
    and a: "validate_autoscaling spec = Inr ()"
    by (auto simp: validate_flash_def validate_inner_def)
  have "0 < unat r \<and> unat r < unat (ephemeral_storage_gib spec)"
    if "rootfs_storage_gib spec = Some r" for r
    using c that by (auto simp: validate_compute_def not_le word_less_nat_alt unat_gt_0)
  moreover have "0 < unat h \<and> unat h + (case rootfs_storage_gib spec of None \<Rightarrow> 1 | Some r \<Rightarrow> unat r)
      < unat (ephemeral_storage_gib spec)"
    if "persistent_storage_gib spec = Some h" for h
  proof -
    from c that have "h \<noteq> 0" and "\<not> (u64_of h
        + u64_of (case rootfs_storage_gib spec of None \<Rightarrow> 1 | Some r \<Rightarrow> r)
        \<ge> u64_of (ephemeral_storage_gib spec))"
      by (auto simp: validate_compute_def)
    then show ?thesis
      unfolding storage_budget by (auto simp: unat_gt_0 split: option.splits)
  qed
  moreover have "1 \<le> unat (replicas spec)"
    using i by (auto simp: validate_flash_image_def in_range_def const_defs word_le_nat_alt)
  moreover have "unat (replicas spec) \<le> unat (reserved_replicas spec)"
    using a by (auto simp: validate_autoscaling_def reserved_replicas_def in_range_def word_le_nat_alt
        split: option.splits)
  ultimately show ?thesis by blast
qed

theorem validated_storage_witness:
  "unat (6 :: u32) + unat (3 :: u32) < unat (ephemeral_storage_gib demo_flash)
   \<and> unat (replicas demo_flash) \<le> unat (reserved_replicas demo_flash)"
proof -
  from validated_storage [OF demo_flash_valid] have
    "\<forall>h. persistent_storage_gib demo_flash = Some h \<longrightarrow>
        unat h + (case rootfs_storage_gib demo_flash of None \<Rightarrow> 1 | Some r \<Rightarrow> unat r)
          < unat (ephemeral_storage_gib demo_flash)"
    "unat (replicas demo_flash) \<le> unat (reserved_replicas demo_flash)" by blast+
  moreover have "persistent_storage_gib demo_flash = Some 6" "rootfs_storage_gib demo_flash = Some 3"
    by code_simp+
  ultimately show ?thesis by fastforce
qed

text \<open>
  What the provider may be asked to run was also acceptable as a request: a specification that
  is valid with its service ports assigned is valid before they are assigned.
\<close>

theorem validated_request:
  assumes "validate_flash pf spec = Inr ()"
  shows "validate_flash_request pf spec = Inr ()"
  using assms validate_ports_assigned_imp [of spec]
  by (auto simp: validate_flash_def validate_flash_request_def validate_inner_def)

theorem validated_request_witness: "validate_flash_request demo_platform demo_flash = Inr ()"
  by (rule validated_request [OF demo_flash_valid])

text \<open>
  The secret variables of a validated service are its declared ones together with one for each
  secret file, without a collision among them or with a plain variable; a service with a task role
  sets none of the platform's own variables.
\<close>

theorem validated_secrets:
  assumes "validate_flash pf spec = Inr ()"
  shows "\<exists>secrets. effective_secret_env spec = Inr secrets
    \<and> map_of secrets = map_of (secret_env spec)
        ++ map_of (map (\<lambda>(f, v). (env_name_of_file f, v)) (secret_files spec))
    \<and> distinct (map (env_name_of_file \<circ> fst) (secret_files spec))
    \<and> env_name_of_file ` fst ` set (secret_files spec) \<inter> dom (map_of (secret_env spec)) = {}
    \<and> fst ` set secrets \<inter> dom (map_of (env spec)) = {}
    \<and> (task_role spec = None \<or>
        set workload_env_names \<inter> (dom (map_of (env spec)) \<union> dom (map_of secrets)) = {})"
proof -
  from assms have v: "validate_environment spec = Inr ()"
    by (simp add: validate_flash_def validate_inner_def)
  then obtain secrets where s: "effective_secret_env spec = Inr secrets"
    and role: "\<not> (task_role spec \<noteq> None
      \<and> list_ex (\<lambda>key. map_of (env spec) key \<noteq> None \<or> map_of secrets key \<noteq> None) workload_env_names)"
    and plain: "\<forall>(name, v) \<in> set secrets. map_of (env spec) name = None"
    by (fastforce simp: validate_environment_def bindE_Inr_iff for_each_Inr_iff)
  from plain have "fst ` set secrets \<inter> dom (map_of (env spec)) = {}" by fastforce
  moreover from role have "task_role spec = None \<or>
      set workload_env_names \<inter> (dom (map_of (env spec)) \<union> dom (map_of secrets)) = {}"
    by (auto simp: list_ex_iff)
  ultimately show ?thesis
    using s add_secret_files_map [OF s [unfolded effective_secret_env_def]] by blast
qed

theorem validated_secrets_witness:
  "fst ` set [(lit ''DB_PASSWORD'', lit ''db''), (lit ''TOKEN'', lit ''api-token'')]
     \<inter> dom (map_of (env demo_flash)) = {}"
proof -
  from validated_secrets [OF demo_flash_valid] obtain secrets where
    s: "effective_secret_env demo_flash = Inr secrets"
    "fst ` set secrets \<inter> dom (map_of (env demo_flash)) = {}" by (elim exE conjE) (rule that)
  have "effective_secret_env demo_flash
    = Inr [(lit ''DB_PASSWORD'', lit ''db''), (lit ''TOKEN'', lit ''api-token'')]" by code_simp
  with s show ?thesis by simp
qed

text \<open>
  C34: When networks behave as sets of addresses that are nested or disjoint, no address a validated
  service is explicitly allowed to reach lies in a protected private or infrastructure network, and
  only the restricted mode has such destinations.
\<close>

theorem egress_avoids_protected:
  fixes pf :: "('n::linorder) platform" and members :: "'n \<Rightarrow> 'a set"
  assumes nested: "\<And>a b z. z \<in> members a \<Longrightarrow> z \<in> members b \<Longrightarrow>
      net_contains pf a b \<or> net_contains pf b a"
    and valid: "validate_flash pf spec = Inr ()"
    and allowed: "v \<in> set (allowed_destination_cidrs (egress spec))"
    and protected: "w \<in> set protected_networks"
  shows "\<exists>n p. cidr_of pf v = Some n \<and> net_parse pf w = Some p \<and> members n \<inter> members p = {}
    \<and> egress_mode (egress spec) = EgressRestricted"
proof -
  from valid have "validate_flash_egress pf (egress spec) = Inr ()"
    by (simp add: validate_flash_def validate_inner_def validate_exposure_def Let_def)
  then obtain n p where "cidr_of pf v = Some n" "net_parse pf w = Some p"
    "\<not> net_contains pf n p" "\<not> net_contains pf p n" "egress_mode (egress spec) = EgressRestricted"
    using validate_flash_egress_checked allowed protected by blast
  with nested show ?thesis by blast
qed

theorem egress_avoids_protected_witness:
  "\<exists>n p. cidr_of demo_platform (lit ''203.0.113.0/24'') = Some n
    \<and> net_parse demo_platform (lit ''10.0.0.0/8'') = Some p
    \<and> cidr_members n \<inter> cidr_members p = {}
    \<and> egress_mode (egress demo_flash) = EgressRestricted"
proof (rule egress_avoids_protected)
  show "net_contains demo_platform a b \<or> net_contains demo_platform b a"
    if "z \<in> cidr_members a" "z \<in> cidr_members b" for a b z
    using cidr_members_nested [OF that] by (simp add: demo_platform_def)
  show "validate_flash demo_platform demo_flash = Inr ()" by (rule demo_flash_valid)
qed code_simp+

end
