(* ===== verification/Store_State.thy ===== *)
theory Store_State
  imports Access_Control Flash_Spec
begin

section \<open>The state of the control plane\<close>

text \<open>
  The tables of \<open>src/crates/heterocloud-store/src/lib.rs\<close> that services, quotas and the outbox
  live in. A table is the list of its rows; a store operation is a function from the tables to an
  error or a result with the new tables, since each runs in one transaction under the tenant's
  advisory lock and rolls back on an error. The JSON column \<open>spec\<close> is the specification it decodes
  to; decoding it as another kind is the error \<open>JsonError\<close>. Timestamps of services are left out.
\<close>

datatype provider = Flow | Flash | Syouyu | Vpc | OtherProvider str

datatype service_state = Provisioning | Ready | Updating | Deleting | Failed

datatype service_spec =
    FlowSpec flow_spec
  | FlashSpec flash_spec
  | SyouyuSpec syouyu_spec
  | VpcSpec vpc_spec
  | OtherSpec json

fun flow_of :: "service_spec \<Rightarrow> store_error + flow_spec" where
  "flow_of (FlowSpec s) = Inr s"
| "flow_of _ = Inl JsonError"

fun flash_of :: "service_spec \<Rightarrow> store_error + flash_spec" where
  "flash_of (FlashSpec s) = Inr s"
| "flash_of _ = Inl JsonError"

fun syouyu_of :: "service_spec \<Rightarrow> store_error + syouyu_spec" where
  "syouyu_of (SyouyuSpec s) = Inr s"
| "syouyu_of _ = Inl JsonError"

fun vpc_of :: "service_spec \<Rightarrow> store_error + vpc_spec" where
  "vpc_of (VpcSpec s) = Inr s"
| "vpc_of _ = Inl JsonError"

lemma spec_of_Inr [simp]:
  "flow_of s = Inr a \<longleftrightarrow> s = FlowSpec a" "flash_of s = Inr b \<longleftrightarrow> s = FlashSpec b"
  "syouyu_of s = Inr c \<longleftrightarrow> s = SyouyuSpec c" "vpc_of s = Inr d \<longleftrightarrow> s = VpcSpec d"
  by (cases s; simp)+

record service_row =
  s_id :: uuid
  s_organization_id :: uuid
  s_project_id :: uuid
  s_provider :: provider
  s_name :: str
  s_generation :: i64
  s_state :: service_state
  s_spec :: service_spec
  s_status :: json
  s_quota_user_id :: "uuid option"

record gpu_device =
  gd_id :: uuid
  gd_gpu_type :: str
  gd_open :: bool

record gpu_request =
  gr_service_instance_id :: uuid
  gr_gpu_type :: str
  gr_principal_id :: uuid
  gr_user_id :: "uuid option"

record flash_backup =
  fb_id :: uuid
  fb_organization_id :: uuid
  fb_ready :: bool
  fb_delete_requested :: bool

datatype topic =
    TopicReconcile
  | TopicDelete
  | TopicFlashQuota
  | TopicRevocation
  | TopicOther str

record service_event =
  ev_service_instance_id :: uuid
  ev_organization_id :: uuid
  ev_project_id :: uuid
  ev_principal_id :: uuid
  ev_provider :: provider
  ev_generation :: i64

record revocation_payload =
  rv_context_id :: uuid
  rv_service_instance_id :: uuid
  rv_organization_id :: uuid
  rv_project_id :: uuid
  rv_principal_id :: uuid
  rv_provider :: provider
  rv_generation :: i64
  rv_expires_at :: i64

datatype outbox_payload =
    ServicePayload service_event
  | RevocationPayload revocation_payload
  | JsonPayload json

record outbox_row =
  ob_id :: uuid
  ob_topic :: topic
  ob_aggregate_id :: uuid
  ob_payload :: outbox_payload
  ob_attempts :: int
  ob_available_at :: datetime
  ob_locked_at :: "datetime option"
  ob_delivered_at :: "datetime option"
  ob_created_at :: datetime

record workload_token =
  wt_id :: uuid
  wt_organization_id :: uuid
  wt_service_instance_id :: uuid
  wt_principal_id :: uuid
  wt_pod_uid :: uuid
  wt_token_hash :: "nat list"
  wt_expires_at :: datetime

record developer_credential =
  dc_id :: uuid
  dc_organization_id :: uuid
  dc_service_instance_id :: uuid
  dc_created_by :: uuid
  dc_name :: str
  dc_prefix :: str
  dc_secret_hash :: "nat list"
  dc_permissions :: "str list"
  dc_expires_at :: datetime
  dc_last_used_at :: "datetime option"
  dc_revoked_at :: "datetime option"
  dc_created_at :: datetime

record access_context =
  fc_context_id :: uuid
  fc_organization_id :: uuid
  fc_project_id :: uuid
  fc_service_instance_id :: uuid
  fc_credential_id :: "uuid option"
  fc_principal_id :: uuid
  fc_permissions :: "str list"
  fc_issued_at :: datetime
  fc_expires_at :: datetime
  fc_revoked_at :: "datetime option"

text \<open>
  Projects are (id, account), quota overrides (account, limits), member overrides
  ((account, user), limits), quota owners (service, account, user), private GPU assignments
  (device, user), roles of the Identity Center (account, principal).
\<close>

record store =
  iam :: iam_tables
  projects :: "(uuid \<times> uuid) list"
  services :: "service_row list"
  quota_defaults :: resource_quota_limits
  account_quotas :: "(uuid \<times> resource_quota_limits) list"
  member_quotas :: "((uuid \<times> uuid) \<times> resource_quota_limits) list"
  service_quotas_enabled :: bool
  quota_owners :: "(uuid \<times> uuid \<times> uuid option) list"
  gpu_devices :: "gpu_device list"
  gpu_assignments :: "(uuid \<times> uuid) list"
  gpu_requests :: "gpu_request list"
  flash_backups :: "flash_backup list"
  workload_tokens :: "workload_token list"
  outbox :: "outbox_row list"
  flash_weekly_quotas_enabled :: bool
  identity_center_roles :: "(uuid \<times> uuid) list"
  developer_credentials :: "developer_credential list"
  access_contexts :: "access_context list"
  audit_events :: "audit_event list"

abbreviation accounts :: "store \<Rightarrow> uuid list" where
  "accounts db \<equiv> map ac_id (organizations (iam db))"

text \<open>Times are counted in microseconds, the resolution of the database.\<close>

definition seconds :: "int \<Rightarrow> int" where
  "seconds n = n * 1000000"

definition timestamp :: "datetime \<Rightarrow> i64" where
  "timestamp t = t div 1000000"

definition service_by_id :: "store \<Rightarrow> uuid \<Rightarrow> service_row option" where
  "service_by_id db sid = find (\<lambda>r. s_id r = sid) (services db)"

definition service_owned :: "store \<Rightarrow> uuid \<Rightarrow> uuid \<Rightarrow> provider \<Rightarrow> service_row option" where
  "service_owned db sid organization p =
     find (\<lambda>r. s_id r = sid \<and> s_organization_id r = organization \<and> s_provider r = p) (services db)"

definition update_service :: "uuid \<Rightarrow> (service_row \<Rightarrow> service_row) \<Rightarrow> store \<Rightarrow> store" where
  "update_service sid f db = db\<lparr>services := map (\<lambda>r. if s_id r = sid then f r else r) (services db)\<rparr>"

definition new_event :: "uuid \<Rightarrow> datetime \<Rightarrow> topic \<Rightarrow> service_event \<Rightarrow> outbox_row" where
  "new_event eid now topic ev =
     \<lparr>ob_id = eid, ob_topic = topic, ob_aggregate_id = ev_service_instance_id ev,
      ob_payload = ServicePayload ev, ob_attempts = 0, ob_available_at = now, ob_locked_at = None,
      ob_delivered_at = None, ob_created_at = now\<rparr>"

definition enqueue :: "outbox_row \<Rightarrow> store \<Rightarrow> store" where
  "enqueue row db = db\<lparr>outbox := outbox db @ [row]\<rparr>"

lemma fold_enqueue:
  "fold (\<lambda>(i, x). enqueue (f i x)) ixs db = db\<lparr>outbox := outbox db @ map (\<lambda>(i, x). f i x) ixs\<rparr>"
  by (induction ixs arbitrary: db) (auto simp: enqueue_def)

text \<open>The hexadecimal text of an identifier, without and with dashes.\<close>

definition hex_char :: "nat \<Rightarrow> rchar" where
  "hex_char d = (if d < 10 then 48 + d else 87 + d)"

primrec hex_digits :: "nat \<Rightarrow> nat \<Rightarrow> str" where
  "hex_digits 0 n = []"
| "hex_digits (Suc k) n = hex_digits k (n div 16) @ [hex_char (n mod 16)]"

definition uuid_simple :: "uuid \<Rightarrow> str" where
  "uuid_simple sid = hex_digits 32 sid"

definition uuid_string :: "uuid \<Rightarrow> str" where
  "uuid_string sid =
     (let h = uuid_simple sid in
      take 8 h @ lit ''-'' @ take 4 (drop 8 h) @ lit ''-'' @ take 4 (drop 12 h) @ lit ''-''
        @ take 4 (drop 16 h) @ lit ''-'' @ drop 20 h)"

definition private_name_of :: "uuid \<Rightarrow> flash_vpc_attachment \<Rightarrow> str" where
  "private_name_of sid n =
     (case at_private_name n of None \<Rightarrow> lit ''f-'' @ uuid_simple sid | Some name \<Rightarrow> name)"

definition attachment_of :: "service_row \<Rightarrow> flash_vpc_attachment option" where
  "attachment_of r = (case s_spec r of FlashSpec s \<Rightarrow> network s | _ \<Rightarrow> None)"

subsection \<open>Lookup and update of a row\<close>

lemma services_update_service [simp]:
  "services (update_service sid f db) = map (\<lambda>r. if s_id r = sid then f r else r) (services db)"
  by (simp add: update_service_def)

lemma services_enqueue [simp]: "services (enqueue row db) = services db"
  and outbox_enqueue [simp]: "outbox (enqueue row db) = outbox db @ [row]"
  by (simp_all add: enqueue_def)

lemma service_by_id_set:
  "distinct (map s_id (services db)) \<Longrightarrow> r \<in> set (services db) \<Longrightarrow> service_by_id db (s_id r) = Some r"
proof -
  have "distinct (map s_id rs) \<Longrightarrow> r \<in> set rs \<Longrightarrow> find (\<lambda>x. s_id x = s_id r) rs = Some r" for rs
    by (induction rs) (auto simp: image_iff)
  then show "distinct (map s_id (services db)) \<Longrightarrow> r \<in> set (services db) \<Longrightarrow>
    service_by_id db (s_id r) = Some r" by (simp add: service_by_id_def)
qed

lemma service_owned_Some:
  "service_owned db sid org p = Some r \<Longrightarrow>
     r \<in> set (services db) \<and> s_id r = sid \<and> s_organization_id r = org \<and> s_provider r = p"
  by (auto simp: service_owned_def dest: find_eq_Some)

subsection \<open>A store\<close>

text \<open>The account 2 with the project 20, its member 7 and nothing else, for the examples.\<close>

definition demo_store :: store where
  "demo_store =
     \<lparr>iam = demo_tables, projects = [(20, 2)], services = [],
      quota_defaults = default_resource_quota, account_quotas = [], member_quotas = [],
      service_quotas_enabled = True, quota_owners = [], gpu_devices = [], gpu_assignments = [],
      gpu_requests = [], flash_backups = [], workload_tokens = [], outbox = [],
      flash_weekly_quotas_enabled = True, identity_center_roles = [], developer_credentials = [],
      access_contexts = [], audit_events = []\<rparr>"

definition demo_flow :: flow_spec where
  "demo_flow = \<lparr>fl_region = lit ''tokyo'', max_participants = 10, max_rooms = 5,
     rate_limit = \<lparr>requests_per_second = 10, burst = 20\<rparr>, fl_metadata = JObject []\<rparr>"

definition demo_flow_row :: service_row where
  "demo_flow_row = \<lparr>s_id = 50, s_organization_id = 2, s_project_id = 20, s_provider = Flow,
     s_name = lit ''chat'', s_generation = 1, s_state = Ready, s_spec = FlowSpec demo_flow,
     s_status = JObject [], s_quota_user_id = Some 7\<rparr>"

end
