(* ===== verification/Allocation.thy ===== *)
theory Allocation
  imports Store_State
begin

section \<open>Admission of a specification\<close>

text \<open>
  What the store checks before it writes a specification: the account's quota and the assignment
  of ports (\<open>prepare_flow_spec\<close>, \<open>prepare_flash_spec\<close>, \<open>prepare_syouyu_spec\<close>, \<open>prepare_vpc_spec\<close>
  in \<open>src/crates/heterocloud-store/src/lib.rs\<close>), the quota of the member and of the cloud
  organization (\<open>organizations.rs\<close>), the VPC a service attaches to and the disk it already has.
  Sums are kept in \<open>u64\<close> as the code keeps them.
\<close>

subsection \<open>Quotas\<close>

definition validate_resource_quota :: "resource_quota_limits \<Rightarrow> store_error + unit" where
  "validate_resource_quota limits =
     map_err (\<lambda>_. RequestRejected ''{error}'') (validate_quota_limits limits)"

definition parse_resource_quota :: "resource_quota_limits \<Rightarrow> store_error + resource_quota_limits" where
  "parse_resource_quota limits = bindE (validate_resource_quota limits) (\<lambda>_. Inr limits)"

definition stored_quota :: "store \<Rightarrow> uuid \<Rightarrow> resource_quota_limits" where
  "stored_quota db account =
     (case map_of (account_quotas db) account of None \<Rightarrow> quota_defaults db | Some l \<Rightarrow> l)"

definition resource_quota_in_transaction :: "store \<Rightarrow> uuid \<Rightarrow> store_error + resource_quota_limits" where
  "resource_quota_in_transaction db organization =
     (if organization \<in> set (accounts db) then parse_resource_quota (stored_quota db organization)
      else Inl NotFound)"

subsection \<open>Flow and Syouyu\<close>

definition live :: "provider \<Rightarrow> service_row \<Rightarrow> bool" where
  "live p r \<longleftrightarrow> s_provider r = p \<and> s_state r \<noteq> Deleting"

definition org_rows :: "store \<Rightarrow> uuid \<Rightarrow> provider \<Rightarrow> service_row list" where
  "org_rows db organization p =
     filter (\<lambda>r. s_organization_id r = organization \<and> live p r) (services db)"

primrec flow_totals ::
    "uuid option \<Rightarrow> service_row list \<Rightarrow> u64 \<times> u64 \<Rightarrow> store_error + u64 \<times> u64" where
  "flow_totals excluded [] acc = Inr acc"
| "flow_totals excluded (row # rows) acc =
     (if excluded = Some (s_id row) then flow_totals excluded rows acc
      else bindE (flow_of (s_spec row)) (\<lambda>stored.
        flow_totals excluded rows
          (fst acc + 1, saturating_add (snd acc) (u64_of (max_rooms stored)))))"

definition prepare_flow_spec ::
    "store \<Rightarrow> uuid \<Rightarrow> uuid option \<Rightarrow> service_spec \<Rightarrow> resource_quota_limits \<Rightarrow> store_error + service_spec" where
  "prepare_flow_spec db organization excluded spec quota =
     bindE (flow_of spec) (\<lambda>requested.
     bindE (first_error
       [fail_if (max_rooms requested > max_rooms_per_service (q_flow quota))
          (RequestRejected ''Flow room limit exceeded: {} requested, limit is {} per service''),
        fail_if (max_participants requested > max_participants_per_service (q_flow quota))
          (RequestRejected ''Flow participant limit exceeded: {} requested, limit is {} per service''),
        fail_if (requests_per_second (rate_limit requested)
                   > max_rate_limit_requests_per_second (q_flow quota)
                 \<or> burst (rate_limit requested) > max_rate_limit_burst (q_flow quota))
          (RequestRejected ''Flow API rate limit exceeds the tenant ceiling of {} RPS and {} burst'')]) (\<lambda>_.
     bindE (flow_totals excluded (org_rows db organization Flow) (1, u64_of (max_rooms requested)))
       (\<lambda>(flow_services, rooms).
     bindE (first_error
       [fail_if (flow_services > u64_of (fq_max_services (q_flow quota)))
          (RequestRejected ''Flow service limit exceeded: {services} requested, limit is {}''),
        fail_if (rooms > max_total_rooms (q_flow quota))
          (RequestRejected ''Flow tenant room limit exceeded: {rooms} requested, limit is {}'')]) (\<lambda>_.
     Inr (FlowSpec requested)))))"

primrec syouyu_totals ::
    "syouyu_spec \<Rightarrow> uuid option \<Rightarrow> service_row list \<Rightarrow> u64 \<times> u64 \<Rightarrow> store_error + u64 \<times> u64" where
  "syouyu_totals requested excluded [] acc = Inr acc"
| "syouyu_totals requested excluded (row # rows) acc =
     bindE (syouyu_of (s_spec row)) (\<lambda>stored.
       if excluded = Some (s_id row) then
         bindE (fail_if (bucket_name requested \<noteq> bucket_name stored \<or> sy_region requested \<noteq> sy_region stored)
                  (RequestRejected ''Syouyu bucket_name and region cannot be changed after creation''))
           (\<lambda>_. syouyu_totals requested excluded rows acc)
       else syouyu_totals requested excluded rows
              (saturating_add (fst acc) 1, saturating_add (snd acc) (quota_bytes stored)))"

definition bucket_of :: "service_row \<Rightarrow> str option" where
  "bucket_of r = (case s_spec r of SyouyuSpec s \<Rightarrow> Some (bucket_name s) | _ \<Rightarrow> None)"

definition prepare_syouyu_spec ::
    "(json \<Rightarrow> nat option) \<Rightarrow> store \<Rightarrow> uuid \<Rightarrow> uuid option \<Rightarrow> service_spec \<Rightarrow> resource_quota_limits \<Rightarrow>
     store_error + service_spec" where
  "prepare_syouyu_spec jl db organization excluded spec quota =
     bindE (syouyu_of spec) (\<lambda>requested.
     bindE (map_err (\<lambda>_. RequestRejected ''{error}'') (validate_syouyu jl requested)) (\<lambda>_.
     bindE (first_error
       [fail_if (quota_bytes requested > max_bytes_per_bucket (q_syouyu quota))
          (RequestRejected ''Syouyu bucket byte quota exceeded: {} requested, limit is {}''),
        fail_if (quota_objects requested > max_objects_per_bucket (q_syouyu quota))
          (RequestRejected ''Syouyu bucket object quota exceeded: {} requested, limit is {}''),
        fail_if (case find (\<lambda>r. s_provider r = Syouyu \<and> bucket_of r = Some (bucket_name requested))
                        (services db) of
                   None \<Rightarrow> False
                 | Some owner \<Rightarrow> excluded \<noteq> Some (s_id owner))
          Conflict]) (\<lambda>_.
     bindE (syouyu_totals requested excluded (org_rows db organization Syouyu) (1, quota_bytes requested))
       (\<lambda>(buckets, bytes).
     bindE (first_error
       [fail_if (buckets > u64_of (max_buckets (q_syouyu quota)))
          (RequestRejected ''Syouyu bucket limit exceeded: {buckets} requested, limit is {}''),
        fail_if (bytes > max_total_bytes (q_syouyu quota))
          (RequestRejected ''Syouyu tenant byte quota exceeded: {bytes} requested, limit is {}'')]) (\<lambda>_.
     Inr (SyouyuSpec requested))))))"

subsection \<open>Flash\<close>

definition principal_user_id :: "store \<Rightarrow> uuid \<Rightarrow> uuid \<Rightarrow> store_error + uuid option" where
  "principal_user_id db organization prin =
     (case find (\<lambda>p. p_id p = prin \<and> p_organization_id p = organization \<and> p_enabled p
              \<and> (case p_user_id p of None \<Rightarrow> True | Some u \<Rightarrow> user_is_active (iam db) u))
           (principals (iam db)) of
        None \<Rightarrow> Inl (Invariant ''authorized principal is missing'')
      | Some p \<Rightarrow> Inr (p_user_id p))"

definition gpu_accessible :: "store \<Rightarrow> uuid option \<Rightarrow> str \<Rightarrow> bool" where
  "gpu_accessible db user g \<longleftrightarrow>
     list_ex (\<lambda>d. gd_gpu_type d = g
       \<and> (gd_open d \<or> (case user of None \<Rightarrow> False | Some u \<Rightarrow> (gd_id d, u) \<in> set (gpu_assignments db))))
       (gpu_devices db)"

definition validate_flash_gpu_access :: "store \<Rightarrow> uuid \<Rightarrow> uuid \<Rightarrow> flash_spec \<Rightarrow> store_error + unit" where
  "validate_flash_gpu_access db organization prin requested =
     (case gpu_type requested of
        None \<Rightarrow> Inr ()
      | Some g \<Rightarrow>
          bindE (principal_user_id db organization prin) (\<lambda>user.
            fail_if (\<not> gpu_accessible db user g)
              (RequestRejected ''GPU type {gpu_type} does not exist or is not accessible to the authenticated principal'')))"

record flash_totals =
  occupied_ports :: "(flash_protocol \<times> u16) list"
  organization_services :: u64
  organization_replicas :: u64
  organization_cpu_millis :: u64
  organization_memory_mib :: u64
  organization_ephemeral_storage_gib :: u64

definition shares_ports :: "flash_spec \<Rightarrow> bool" where
  "shares_ports s \<longleftrightarrow> exposure_type (exposure s) = ExposurePublic \<or> network s = None"

definition add_flash_row :: "uuid \<Rightarrow> uuid \<Rightarrow> flash_spec \<Rightarrow> flash_totals \<Rightarrow> flash_totals" where
  "add_flash_row organization row_organization stored t =
     (let t = (if shares_ports stored
               then t\<lparr>occupied_ports := map port_key (ports stored) @ occupied_ports t\<rparr> else t) in
      if row_organization = organization then
        t\<lparr>organization_services := organization_services t + 1,
          organization_replicas := organization_replicas t + u64_of (reserved_replicas stored),
          organization_cpu_millis := organization_cpu_millis t
            + u64_of (reserved_replicas stored) * u64_of (cpu_millis stored),
          organization_memory_mib := organization_memory_mib t
            + u64_of (reserved_replicas stored) * u64_of (memory_mib stored),
          organization_ephemeral_storage_gib := organization_ephemeral_storage_gib t
            + u64_of (reserved_replicas stored) * u64_of (ephemeral_storage_gib stored)\<rparr>
      else t)"

primrec flash_totals_loop ::
    "uuid \<Rightarrow> uuid option \<Rightarrow> service_row list \<Rightarrow> flash_totals \<Rightarrow> store_error + flash_totals" where
  "flash_totals_loop organization excluded [] t = Inr t"
| "flash_totals_loop organization excluded (row # rows) t =
     (if excluded = Some (s_id row) then flash_totals_loop organization excluded rows t
      else bindE (flash_of (s_spec row)) (\<lambda>stored.
        flash_totals_loop organization excluded rows
          (add_flash_row organization (s_organization_id row) stored t)))"

definition service_port_range :: "u16 list" where
  "service_port_range =
     map of_nat [unat MIN_FLASH_SERVICE_PORT ..< Suc (unat MAX_FLASH_SERVICE_PORT)]"

type_synonym port_map = "((flash_protocol \<times> str) \<times> u16) list"

text \<open>The map the code collects, where a later port of the same name replaces an earlier one.\<close>

definition existing_ports :: "flash_spec option \<Rightarrow> port_map" where
  "existing_ports existing =
     (case existing of
        None \<Rightarrow> []
      | Some stored \<Rightarrow>
          rev (map (\<lambda>p. ((protocol p, port_name p), service_port p)) (ports stored)))"

definition assign_port ::
    "port_map \<Rightarrow> (flash_protocol \<times> u16) list \<Rightarrow> flash_port \<Rightarrow> u16 option" where
  "assign_port existing occupied port =
     (case map_of existing (protocol port, port_name port) of
        Some v \<Rightarrow>
          if in_range MIN_FLASH_SERVICE_PORT MAX_FLASH_SERVICE_PORT v \<and> (protocol port, v) \<notin> set occupied
          then Some v
          else find (\<lambda>v. (protocol port, v) \<notin> set occupied) service_port_range
      | None \<Rightarrow> find (\<lambda>v. (protocol port, v) \<notin> set occupied) service_port_range)"

primrec assign_ports ::
    "bool \<Rightarrow> port_map \<Rightarrow> flash_port list \<Rightarrow> (flash_protocol \<times> u16) list \<Rightarrow> store_error + flash_port list" where
  "assign_ports private existing [] occupied = Inr []"
| "assign_ports private existing (port # ps) occupied =
     (if private then
        bindE (assign_ports private existing ps occupied)
          (\<lambda>rest. Inr (port\<lparr>service_port := container_port port\<rparr> # rest))
      else
        (case assign_port existing occupied port of
           None \<Rightarrow> Inl (RequestRejected ''no free {} service ports remain in {MIN_FLASH_SERVICE_PORT}..={MAX_FLASH_SERVICE_PORT}'')
         | Some v \<Rightarrow>
             bindE (assign_ports private existing ps ((protocol port, v) # occupied))
               (\<lambda>rest. Inr (port\<lparr>service_port := v\<rparr> # rest))))"

definition check_flash_quota :: "flash_quota_limits \<Rightarrow> flash_totals \<Rightarrow> store_error + unit" where
  "check_flash_quota quota t =
     first_error
       [fail_if (organization_services t > u64_of (hq_max_services quota))
          (RequestRejected ''Flash service limit exceeded: {organization_services} requested, limit is {}''),
        fail_if (organization_replicas t > max_total_replicas quota)
          (RequestRejected ''Flash tenant replica limit exceeded: {organization_replicas} requested, limit is {}''),
        fail_if (organization_cpu_millis t > max_total_cpu_millis quota)
          (RequestRejected ''Flash tenant CPU limit exceeded: {organization_cpu_millis} millicores requested, limit is {}''),
        fail_if (organization_memory_mib t > max_total_memory_mib quota)
          (RequestRejected ''Flash tenant memory limit exceeded: {organization_memory_mib} MiB requested, limit is {} MiB''),
        fail_if (organization_ephemeral_storage_gib t > max_total_disk_gib quota)
          (RequestRejected ''Flash tenant disk limit exceeded: {organization_ephemeral_storage_gib} GiB requested, limit is {} GiB'')]"

definition check_flash_vm :: "flash_quota_limits \<Rightarrow> flash_spec \<Rightarrow> store_error + unit" where
  "check_flash_vm quota requested =
     first_error
       [fail_if (reserved_replicas requested > max_replicas_per_service quota)
          (RequestRejected ''Flash replica limit exceeded: {} requested, limit is {} per service''),
        fail_if (cpu_millis requested > max_cpu_millis_per_vm quota
                 \<or> memory_mib requested > max_memory_mib_per_vm quota
                 \<or> ephemeral_storage_gib requested > max_disk_gib_per_vm quota)
          (RequestRejected ''Flash VM resources exceed the tenant ceiling of {} millicores, {} MiB memory, and {} GiB disk'')]"

definition flash_rows :: "store \<Rightarrow> service_row list" where
  "flash_rows db = filter (live Flash) (services db)"

definition empty_totals :: flash_totals where
  "empty_totals = \<lparr>occupied_ports = [], organization_services = 1, organization_replicas = 0,
     organization_cpu_millis = 0, organization_memory_mib = 0,
     organization_ephemeral_storage_gib = 0\<rparr>"

text \<open>The totals with the requested service counted in.\<close>

definition with_requested :: "flash_spec \<Rightarrow> flash_totals \<Rightarrow> flash_totals" where
  "with_requested requested t =
     t\<lparr>organization_cpu_millis := organization_cpu_millis t
         + u64_of (reserved_replicas requested) * u64_of (cpu_millis requested),
       organization_memory_mib := organization_memory_mib t
         + u64_of (reserved_replicas requested) * u64_of (memory_mib requested),
       organization_replicas := organization_replicas t + u64_of (reserved_replicas requested),
       organization_ephemeral_storage_gib := organization_ephemeral_storage_gib t
         + u64_of (reserved_replicas requested) * u64_of (ephemeral_storage_gib requested)\<rparr>"

definition prepare_flash_spec ::
    "('n::linorder) platform \<Rightarrow> store \<Rightarrow> uuid \<Rightarrow> uuid \<Rightarrow> uuid option \<Rightarrow> service_spec option \<Rightarrow> service_spec \<Rightarrow>
     resource_quota_limits \<Rightarrow> store_error + service_spec" where
  "prepare_flash_spec pf db organization prin excluded existing spec quota =
     bindE (flash_of spec) (\<lambda>requested.
     bindE (map_err (\<lambda>_. RequestRejected ''{error}'') (validate_flash_request pf requested)) (\<lambda>_.
     bindE (validate_flash_gpu_access db organization prin requested) (\<lambda>_.
     bindE (check_flash_vm (q_flash quota) requested) (\<lambda>_.
     bindE (flash_totals_loop organization excluded (flash_rows db) empty_totals) (\<lambda>t.
     bindE (case existing of
              None \<Rightarrow> Inr None
            | Some e \<Rightarrow> bindE (flash_of e) (\<lambda>stored. Inr (Some stored))) (\<lambda>stored.
     bindE (assign_ports (private_ports requested) (existing_ports stored) (ports requested)
              (occupied_ports t)) (\<lambda>assigned.
     bindE (check_flash_quota (q_flash quota) (with_requested requested t)) (\<lambda>_.
     bindE (map_err (\<lambda>_. RequestRejected ''{error}'')
              (validate_flash pf (requested\<lparr>ports := assigned\<rparr>))) (\<lambda>_.
     Inr (FlashSpec (requested\<lparr>ports := assigned\<rparr>)))))))))))"

subsection \<open>Quotas of a member and of the cloud organization\<close>

text \<open>Both limits have the same shape, so capping the JSON takes the smaller number of each field.\<close>

definition cap_flow :: "flow_quota_limits \<Rightarrow> flow_quota_limits \<Rightarrow> flow_quota_limits" where
  "cap_flow ceiling v =
     \<lparr>fq_max_services = min (fq_max_services v) (fq_max_services ceiling),
      max_rooms_per_service = min (max_rooms_per_service v) (max_rooms_per_service ceiling),
      max_total_rooms = min (max_total_rooms v) (max_total_rooms ceiling),
      max_participants_per_service = min (max_participants_per_service v) (max_participants_per_service ceiling),
      max_rate_limit_requests_per_second = min (max_rate_limit_requests_per_second v) (max_rate_limit_requests_per_second ceiling),
      max_rate_limit_burst = min (max_rate_limit_burst v) (max_rate_limit_burst ceiling),
      max_developer_credentials_per_service = min (max_developer_credentials_per_service v) (max_developer_credentials_per_service ceiling)\<rparr>"

definition cap_flash :: "flash_quota_limits \<Rightarrow> flash_quota_limits \<Rightarrow> flash_quota_limits" where
  "cap_flash ceiling v =
     \<lparr>hq_max_services = min (hq_max_services v) (hq_max_services ceiling),
      max_replicas_per_service = min (max_replicas_per_service v) (max_replicas_per_service ceiling),
      max_cpu_millis_per_vm = min (max_cpu_millis_per_vm v) (max_cpu_millis_per_vm ceiling),
      max_memory_mib_per_vm = min (max_memory_mib_per_vm v) (max_memory_mib_per_vm ceiling),
      max_disk_gib_per_vm = min (max_disk_gib_per_vm v) (max_disk_gib_per_vm ceiling),
      max_total_replicas = min (max_total_replicas v) (max_total_replicas ceiling),
      max_total_cpu_millis = min (max_total_cpu_millis v) (max_total_cpu_millis ceiling),
      max_total_memory_mib = min (max_total_memory_mib v) (max_total_memory_mib ceiling),
      max_total_disk_gib = min (max_total_disk_gib v) (max_total_disk_gib ceiling),
      max_weekly_cpu_millicore_seconds = min (max_weekly_cpu_millicore_seconds v) (max_weekly_cpu_millicore_seconds ceiling),
      max_weekly_memory_mib_seconds = min (max_weekly_memory_mib_seconds v) (max_weekly_memory_mib_seconds ceiling),
      max_weekly_gpu_seconds = min (max_weekly_gpu_seconds v) (max_weekly_gpu_seconds ceiling)\<rparr>"

definition cap_registry :: "registry_quota_limits \<Rightarrow> registry_quota_limits \<Rightarrow> registry_quota_limits" where
  "cap_registry ceiling v =
     \<lparr>storage_gib = min (storage_gib v) (storage_gib ceiling),
      max_credentials = min (max_credentials v) (max_credentials ceiling)\<rparr>"

definition cap_syouyu :: "syouyu_quota_limits \<Rightarrow> syouyu_quota_limits \<Rightarrow> syouyu_quota_limits" where
  "cap_syouyu ceiling v =
     \<lparr>max_buckets = min (max_buckets v) (max_buckets ceiling),
      max_bytes_per_bucket = min (max_bytes_per_bucket v) (max_bytes_per_bucket ceiling),
      max_objects_per_bucket = min (max_objects_per_bucket v) (max_objects_per_bucket ceiling),
      max_total_bytes = min (max_total_bytes v) (max_total_bytes ceiling),
      max_credentials_per_bucket = min (max_credentials_per_bucket v) (max_credentials_per_bucket ceiling),
      max_total_credentials = min (max_total_credentials v) (max_total_credentials ceiling)\<rparr>"

definition capped_limits ::
    "resource_quota_limits \<Rightarrow> resource_quota_limits \<Rightarrow> store_error + resource_quota_limits" where
  "capped_limits organization member =
     bindE (parse_resource_quota
       \<lparr>q_flow = cap_flow (q_flow organization) (q_flow member),
        q_flash = cap_flash (q_flash organization) (q_flash member),
        q_registry = cap_registry (q_registry organization) (q_registry member),
        q_syouyu = cap_syouyu (q_syouyu organization) (q_syouyu member)\<rparr>) (\<lambda>limits.
     Inr (limits\<lparr>q_registry := q_registry organization,
       q_syouyu := (q_syouyu limits)\<lparr>
         max_credentials_per_bucket := max_credentials_per_bucket (q_syouyu organization),
         max_total_credentials := max_total_credentials (q_syouyu organization)\<rparr>\<rparr>))"

definition is_member :: "store \<Rightarrow> uuid \<Rightarrow> uuid \<Rightarrow> bool" where
  "is_member db organization user \<longleftrightarrow>
     list_ex (\<lambda>m. m_organization_id m = organization \<and> m_user_id m = user) (memberships (iam db))"

definition member_quota_in_transaction ::
    "store \<Rightarrow> uuid \<Rightarrow> uuid \<Rightarrow> resource_quota_limits \<Rightarrow> store_error + resource_quota_limits" where
  "member_quota_in_transaction db organization user organization_limits =
     (if \<not> is_member db organization user then Inl NotFound
      else (case map_of (member_quotas db) (organization, user) of
              Some member \<Rightarrow>
                bindE (parse_resource_quota member) (\<lambda>m. capped_limits organization_limits m)
            | None \<Rightarrow> Inr organization_limits))"

record resource_quota_usage =
  flow_services :: u64
  flow_max_rooms_per_service :: u64
  flow_configured_rooms :: u64
  flow_max_participants_per_service :: u64
  flow_max_rate_limit_requests_per_second :: u64
  flow_max_rate_limit_burst :: u64
  flash_services :: u64
  flash_max_replicas_per_service :: u64
  flash_max_cpu_millis_per_vm :: u64
  flash_max_memory_mib_per_vm :: u64
  flash_max_disk_gib_per_vm :: u64
  flash_replicas :: u64
  flash_cpu_millis :: u64
  flash_memory_mib :: u64
  flash_disk_gib :: u64
  syouyu_buckets :: u64
  syouyu_max_bytes_per_bucket :: u64
  syouyu_max_objects_per_bucket :: u64
  syouyu_configured_bytes :: u64

definition empty_usage :: resource_quota_usage where
  "empty_usage =
     \<lparr>flow_services = 0, flow_max_rooms_per_service = 0, flow_configured_rooms = 0,
      flow_max_participants_per_service = 0, flow_max_rate_limit_requests_per_second = 0, flow_max_rate_limit_burst = 0,
      flash_services = 0, flash_max_replicas_per_service = 0, flash_max_cpu_millis_per_vm = 0,
      flash_max_memory_mib_per_vm = 0, flash_max_disk_gib_per_vm = 0, flash_replicas = 0,
      flash_cpu_millis = 0, flash_memory_mib = 0, flash_disk_gib = 0,
      syouyu_buckets = 0, syouyu_max_bytes_per_bucket = 0, syouyu_max_objects_per_bucket = 0,
      syouyu_configured_bytes = 0\<rparr>"

definition add_flow_spec :: "flow_spec \<Rightarrow> resource_quota_usage \<Rightarrow> resource_quota_usage" where
  "add_flow_spec spec u =
     u\<lparr>flow_services := saturating_add (flow_services u) 1,
       flow_max_rooms_per_service := max (flow_max_rooms_per_service u) (u64_of (max_rooms spec)),
       flow_configured_rooms := saturating_add (flow_configured_rooms u) (u64_of (max_rooms spec)),
       flow_max_participants_per_service :=
         max (flow_max_participants_per_service u) (u64_of (max_participants spec)),
       flow_max_rate_limit_requests_per_second :=
         max (flow_max_rate_limit_requests_per_second u)
           (u64_of (requests_per_second (rate_limit spec))),
       flow_max_rate_limit_burst :=
         max (flow_max_rate_limit_burst u) (u64_of (burst (rate_limit spec)))\<rparr>"

definition add_flash_spec :: "flash_spec \<Rightarrow> resource_quota_usage \<Rightarrow> resource_quota_usage" where
  "add_flash_spec spec u =
     (let n = u64_of (reserved_replicas spec) in
      u\<lparr>flash_services := saturating_add (flash_services u) 1,
        flash_max_replicas_per_service := max (flash_max_replicas_per_service u) n,
        flash_max_cpu_millis_per_vm := max (flash_max_cpu_millis_per_vm u) (u64_of (cpu_millis spec)),
        flash_max_memory_mib_per_vm := max (flash_max_memory_mib_per_vm u) (u64_of (memory_mib spec)),
        flash_max_disk_gib_per_vm :=
          max (flash_max_disk_gib_per_vm u) (u64_of (ephemeral_storage_gib spec)),
        flash_replicas := saturating_add (flash_replicas u) n,
        flash_cpu_millis :=
          saturating_add (flash_cpu_millis u) (saturating_mul n (u64_of (cpu_millis spec))),
        flash_memory_mib :=
          saturating_add (flash_memory_mib u) (saturating_mul n (u64_of (memory_mib spec))),
        flash_disk_gib :=
          saturating_add (flash_disk_gib u) (saturating_mul n (u64_of (ephemeral_storage_gib spec)))\<rparr>)"

definition add_syouyu_spec :: "syouyu_spec \<Rightarrow> resource_quota_usage \<Rightarrow> resource_quota_usage" where
  "add_syouyu_spec spec u =
     u\<lparr>syouyu_buckets := saturating_add (syouyu_buckets u) 1,
       syouyu_max_bytes_per_bucket := max (syouyu_max_bytes_per_bucket u) (quota_bytes spec),
       syouyu_max_objects_per_bucket := max (syouyu_max_objects_per_bucket u) (quota_objects spec),
       syouyu_configured_bytes := saturating_add (syouyu_configured_bytes u) (quota_bytes spec)\<rparr>"

definition metered :: "provider \<Rightarrow> bool" where
  "metered p \<longleftrightarrow> p \<in> {Flow, Flash, Syouyu}"

text \<open>Only called for a metered provider.\<close>

fun add_usage ::
    "provider \<Rightarrow> resource_quota_usage \<Rightarrow> service_spec \<Rightarrow> store_error + resource_quota_usage" where
  "add_usage Flow u v = bindE (flow_of v) (\<lambda>s. Inr (add_flow_spec s u))"
| "add_usage Flash u v = bindE (flash_of v) (\<lambda>s. Inr (add_flash_spec s u))"
| "add_usage Syouyu u v = bindE (syouyu_of v) (\<lambda>s. Inr (add_syouyu_spec s u))"
| "add_usage _ u v = Inl (Invariant ''unreachable'')"

primrec add_all_usage ::
    "provider \<Rightarrow> service_spec list \<Rightarrow> resource_quota_usage \<Rightarrow> store_error + resource_quota_usage" where
  "add_all_usage p [] u = Inr u"
| "add_all_usage p (v # vs) u = bindE (add_usage p u v) (add_all_usage p vs)"

text \<open>
  One exceeded dimension: above the limit, and not an unchanged or reduced amount of a service that
  exists already.
\<close>

definition over :: "bool \<Rightarrow> u64 \<Rightarrow> u64 \<Rightarrow> u64 \<Rightarrow> bool" where
  "over has_previous after limit old \<longleftrightarrow> after > limit \<and> (\<not> has_previous \<or> after > old)"

fun exceeded ::
    "provider \<Rightarrow> bool \<Rightarrow> resource_quota_limits \<Rightarrow> resource_quota_usage \<Rightarrow> resource_quota_usage \<Rightarrow>
     resource_quota_usage \<Rightarrow> resource_quota_usage \<Rightarrow> bool" where
  "exceeded Flow hp limits after before requested previous =
     (let l = q_flow limits in
      over hp (flow_services after) (u64_of (fq_max_services l)) (flow_services before)
      \<or> over hp (flow_configured_rooms after) (max_total_rooms l) (flow_configured_rooms before)
      \<or> over hp (flow_max_rooms_per_service requested) (u64_of (max_rooms_per_service l))
          (flow_max_rooms_per_service previous)
      \<or> over hp (flow_max_participants_per_service requested) (u64_of (max_participants_per_service l))
          (flow_max_participants_per_service previous)
      \<or> over hp (flow_max_rate_limit_requests_per_second requested)
          (u64_of (max_rate_limit_requests_per_second l))
          (flow_max_rate_limit_requests_per_second previous)
      \<or> over hp (flow_max_rate_limit_burst requested) (u64_of (max_rate_limit_burst l))
          (flow_max_rate_limit_burst previous))"
| "exceeded Flash hp limits after before requested previous =
     (let l = q_flash limits in
      over hp (flash_services after) (u64_of (hq_max_services l)) (flash_services before)
      \<or> over hp (flash_replicas after) (max_total_replicas l) (flash_replicas before)
      \<or> over hp (flash_cpu_millis after) (max_total_cpu_millis l) (flash_cpu_millis before)
      \<or> over hp (flash_memory_mib after) (max_total_memory_mib l) (flash_memory_mib before)
      \<or> over hp (flash_disk_gib after) (max_total_disk_gib l) (flash_disk_gib before)
      \<or> over hp (flash_max_replicas_per_service requested) (u64_of (max_replicas_per_service l))
          (flash_max_replicas_per_service previous)
      \<or> over hp (flash_max_cpu_millis_per_vm requested) (u64_of (max_cpu_millis_per_vm l))
          (flash_max_cpu_millis_per_vm previous)
      \<or> over hp (flash_max_memory_mib_per_vm requested) (u64_of (max_memory_mib_per_vm l))
          (flash_max_memory_mib_per_vm previous)
      \<or> over hp (flash_max_disk_gib_per_vm requested) (u64_of (max_disk_gib_per_vm l))
          (flash_max_disk_gib_per_vm previous))"
| "exceeded Syouyu hp limits after before requested previous =
     (let l = q_syouyu limits in
      over hp (syouyu_buckets after) (u64_of (max_buckets l)) (syouyu_buckets before)
      \<or> over hp (syouyu_configured_bytes after) (max_total_bytes l) (syouyu_configured_bytes before)
      \<or> over hp (syouyu_max_bytes_per_bucket requested) (max_bytes_per_bucket l)
          (syouyu_max_bytes_per_bucket previous)
      \<or> over hp (syouyu_max_objects_per_bucket requested) (max_objects_per_bucket l)
          (syouyu_max_objects_per_bucket previous))"
| "exceeded _ hp limits after before requested previous = False"

text \<open>The comparison both checks share: the rows of the others, the old row and the request.\<close>

definition compare_allocation ::
    "provider \<Rightarrow> resource_quota_limits \<Rightarrow> service_spec list \<Rightarrow> service_spec option \<Rightarrow> service_spec \<Rightarrow>
     string \<Rightarrow> store_error + unit" where
  "compare_allocation p limits rows previous requested message =
     bindE (add_all_usage p rows empty_usage) (\<lambda>others.
     bindE (case previous of None \<Rightarrow> Inr (others, empty_usage)
            | Some v \<Rightarrow> bindE (add_usage p others v) (\<lambda>before.
                bindE (add_usage p empty_usage v) (\<lambda>prev. Inr (before, prev)))) (\<lambda>(before, prev).
     bindE (add_usage p others requested) (\<lambda>after.
     bindE (add_usage p empty_usage requested) (\<lambda>req.
     fail_if (exceeded p (previous \<noteq> None) limits after before req prev)
       (RequestRejected message)))))"

definition validate_member_allocation ::
    "store \<Rightarrow> uuid \<Rightarrow> uuid \<Rightarrow> uuid option \<Rightarrow> provider \<Rightarrow> service_spec \<Rightarrow> resource_quota_limits \<Rightarrow> bool \<Rightarrow>
     store_error + unit" where
  "validate_member_allocation db organization user excluded p requested organization_limits allow_reduction =
     (if \<not> metered p then Inr ()
      else
        bindE (member_quota_in_transaction db organization user organization_limits) (\<lambda>limits.
        (let owned = (\<lambda>r. s_organization_id r = organization \<and> s_quota_user_id r = Some user \<and> live p r) in
         compare_allocation p limits
           (map s_spec (filter (\<lambda>r. owned r \<and> excluded \<noteq> Some (s_id r)) (services db)))
           (if allow_reduction
            then map_option s_spec (find (\<lambda>r. excluded = Some (s_id r) \<and> owned r) (services db))
            else None)
           requested ''{provider} allocation exceeds the member quota'')))"

definition account_cloud :: "store \<Rightarrow> uuid \<Rightarrow> (uuid \<times> uuid) option" where
  "account_cloud db account =
     (case find (\<lambda>a. ca_account_id a = account) (cloud_accounts (iam db)) of
        None \<Rightarrow> None
      | Some a \<Rightarrow> find (\<lambda>(c, _). c = ca_organization_id a) (cloud_organizations (iam db)))"

definition in_cloud :: "store \<Rightarrow> uuid \<Rightarrow> uuid \<Rightarrow> bool" where
  "in_cloud db cloud account \<longleftrightarrow>
     list_ex (\<lambda>a. ca_organization_id a = cloud \<and> ca_account_id a = account) (cloud_accounts (iam db))"

definition validate_cloud_organization_allocation ::
    "store \<Rightarrow> uuid \<Rightarrow> uuid option \<Rightarrow> provider \<Rightarrow> service_spec \<Rightarrow> bool \<Rightarrow> store_error + unit" where
  "validate_cloud_organization_allocation db account excluded p requested allow_reduction =
     (if \<not> metered p \<or> \<not> service_quotas_enabled db then Inr ()
      else
        bindE (ok_or (account_cloud db account) NotFound) (\<lambda>(cloud, management).
        bindE (parse_resource_quota (stored_quota db management)) (\<lambda>limits.
         compare_allocation p limits
           (map s_spec (filter (\<lambda>r. in_cloud db cloud (s_organization_id r) \<and> s_provider r = p
                                     \<and> excluded \<noteq> Some (s_id r)) (services db)))
           (if allow_reduction
            then map_option s_spec (find (\<lambda>r. excluded = Some (s_id r) \<and> s_organization_id r = account
                                            \<and> live p r) (services db))
            else None)
           requested ''{provider} allocation exceeds the cloud organization service quota'')))"

subsection \<open>Private networks and disks\<close>

definition GIB :: u64 where
  "GIB = 1024 * 1024 * 1024"

definition json_u64 :: "str \<Rightarrow> json \<Rightarrow> u64 option" where
  "json_u64 key v =
     (case json_get key v of None \<Rightarrow> None | Some x \<Rightarrow> map_option of_nat (json_as_u64 x))"

definition reported_status :: "json \<Rightarrow> json" where
  "reported_status status = (case json_get (lit ''status'') status of None \<Rightarrow> status | Some r \<Rightarrow> r)"

definition retained_bytes :: "flash_spec \<Rightarrow> json \<Rightarrow> u64" where
  "retained_bytes existing status =
     max (case json_u64 (lit ''persistent_storage_bytes'') (reported_status status) of
            None \<Rightarrow> 0 | Some n \<Rightarrow> n)
         ((case persistent_storage_gib existing of None \<Rightarrow> 0 | Some g \<Rightarrow> u64_of g) * GIB)"

definition validate_flash_disk_update :: "flash_spec \<Rightarrow> json \<Rightarrow> flash_spec \<Rightarrow> store_error + unit" where
  "validate_flash_disk_update existing status requested =
     (let retained = retained_bytes existing status;
          persistent = map_option (\<lambda>g. u64_of g * GIB) (persistent_storage_gib requested) in
      first_error
        [fail_if (case persistent of None \<Rightarrow> False | Some bytes \<Rightarrow> bytes < retained)
           (RequestRejected ''persistent disks cannot be shrunk; choose a size at least as large as the existing disk''),
         fail_if (fs_image existing = fs_image requested
                  \<and> (case (json_u64 (lit ''image_size_bytes'') (reported_status status),
                            rootfs_storage_gib requested) of
                        (Some image_size, Some rootfs) \<Rightarrow>
                          image_size + u64_of rootfs * GIB
                            + (case persistent of None \<Rightarrow> retained | Some bytes \<Rightarrow> bytes)
                          > u64_of (ephemeral_storage_gib requested) * GIB
                      | _ \<Rightarrow> False))
           (RequestRejected ''increase ephemeral_storage_gib to fit the image, requested container filesystem and existing persistent disk'')])"

definition attached_to :: "uuid \<Rightarrow> service_row \<Rightarrow> bool" where
  "attached_to vpc r \<longleftrightarrow>
     s_provider r = Flash \<and> (case attachment_of r of None \<Rightarrow> False | Some n \<Rightarrow> at_vpc_id n = vpc)"

definition validate_vpc_attachment ::
    "store \<Rightarrow> uuid \<Rightarrow> uuid \<Rightarrow> uuid \<Rightarrow> service_spec \<Rightarrow> store_error + unit" where
  "validate_vpc_attachment db organization project sid spec =
     bindE (map_err (\<lambda>_. RequestRejected ''{error}'') (flash_of spec)) (\<lambda>flash.
     (case network flash of
        None \<Rightarrow> Inr ()
      | Some n \<Rightarrow>
          bindE (ok_or (find (\<lambda>r. s_id r = at_vpc_id n \<and> s_organization_id r = organization
                              \<and> s_project_id r = project \<and> s_provider r = Vpc) (services db))
                   (RequestRejected ''VPC must belong to this organization and project'')) (\<lambda>row.
          bindE (fail_if (s_state row = Deleting) Conflict) (\<lambda>_.
          bindE (map_err (\<lambda>_. Invariant ''invalid VPC specification'') (vpc_of (s_spec row))) (\<lambda>vpc.
          first_error
            [fail_if (vpc_region vpc \<noteq> fs_region flash
                      \<or> list_ex (\<lambda>g. g \<notin> set (vpc_security_groups vpc)) (at_security_groups n))
               (RequestRejected ''VPC region and security groups must match the attachment''),
             fail_if (list_ex (\<lambda>r. s_organization_id r = organization \<and> s_id r \<noteq> sid
                        \<and> attached_to (at_vpc_id n) r
                        \<and> map_option (private_name_of (s_id r)) (attachment_of r)
                          = Some (private_name_of sid n)) (services db))
               (RequestRejected ''private_name is already in use in this VPC'')])))))"

definition vpc_serves :: "vpc_spec \<Rightarrow> service_row \<Rightarrow> store_error + unit" where
  "vpc_serves vpc r =
     bindE (map_err (\<lambda>_. Invariant ''invalid Flash specification'') (flash_of (s_spec r))) (\<lambda>flash.
     fail_if (fs_region flash \<noteq> vpc_region vpc
              \<or> (case network flash of
                    None \<Rightarrow> False
                  | Some n \<Rightarrow> list_ex (\<lambda>g. g \<notin> set (vpc_security_groups vpc)) (at_security_groups n)))
       (RequestRejected ''cannot remove an attached security group or change the region of an attached VPC''))"

definition rule_peer_attached :: "store \<Rightarrow> uuid \<Rightarrow> uuid \<Rightarrow> uuid \<Rightarrow> vpc_peer \<Rightarrow> store_error + unit" where
  "rule_peer_attached db organization project sid peer =
     (case peer of
        PeerService service_id \<Rightarrow>
          fail_if (\<not> list_ex (\<lambda>r. s_id r = service_id \<and> s_organization_id r = organization
                       \<and> s_project_id r = project \<and> live Flash r \<and> attached_to sid r) (services db))
            (RequestRejected ''rule service must be attached to this VPC'')
      | _ \<Rightarrow> Inr ())"

definition prepare_vpc_spec ::
    "store \<Rightarrow> uuid \<Rightarrow> uuid \<Rightarrow> uuid \<Rightarrow> service_spec \<Rightarrow> bool \<Rightarrow> store_error + service_spec" where
  "prepare_vpc_spec db organization project sid spec creating =
     bindE (map_err (\<lambda>_. RequestRejected ''{error}'') (vpc_of spec)) (\<lambda>vpc.
     bindE (map_err (\<lambda>_. RequestRejected ''{error}'') (validate_vpc vpc)) (\<lambda>_.
     bindE (fail_if (creating \<and> length (filter (\<lambda>r. s_organization_id r = organization
                                               \<and> s_provider r = Vpc) (services db)) \<ge> 16)
              (RequestRejected ''at most 16 VPCs are supported per organization'')) (\<lambda>_.
     bindE (for_each (vpc_serves vpc)
              (filter (\<lambda>r. s_organization_id r = organization \<and> attached_to sid r) (services db))) (\<lambda>_.
     bindE (for_each (\<lambda>rule. for_each (rule_peer_attached db organization project sid)
                                [vr_source rule, vr_destination rule]) (vpc_rules vpc)) (\<lambda>_.
     Inr (VpcSpec vpc))))))"

end
