(* ===== verification/Lifecycle.thy ===== *)
theory Lifecycle
  imports Allocation
begin

section \<open>The life of a service instance\<close>

text \<open>
  The operations of \<open>src/crates/heterocloud-store/src/lib.rs\<close> that create, replace, stop, start
  and delete a service instance and record what its provider answered. Each one is a transaction:
  an error leaves the store as it was. New identifiers and the time of an outbox event are
  arguments. Of the constraints of the tables, uniqueness is modelled.
\<close>

subsection \<open>Helpers\<close>

definition service_event_of :: "uuid \<Rightarrow> uuid \<Rightarrow> uuid \<Rightarrow> uuid \<Rightarrow> provider \<Rightarrow> i64 \<Rightarrow> service_event" where
  "service_event_of sid organization project prin p generation =
     \<lparr>ev_service_instance_id = sid, ev_organization_id = organization, ev_project_id = project,
      ev_principal_id = prin, ev_provider = p, ev_generation = generation\<rparr>"

definition replace_flash_gpu_service_request ::
    "store \<Rightarrow> uuid \<Rightarrow> uuid \<Rightarrow> uuid \<Rightarrow> service_spec \<Rightarrow> store_error + store" where
  "replace_flash_gpu_service_request db sid organization prin spec =
     bindE (flash_of spec) (\<lambda>requested.
       (case gpu_type requested of
          None \<Rightarrow>
            Inr (db\<lparr>gpu_requests := filter (\<lambda>q. gr_service_instance_id q \<noteq> sid) (gpu_requests db)\<rparr>)
        | Some g \<Rightarrow>
            bindE (principal_user_id db organization prin) (\<lambda>user.
              Inr (db\<lparr>gpu_requests :=
                filter (\<lambda>q. gr_service_instance_id q \<noteq> sid) (gpu_requests db)
                @ [\<lparr>gr_service_instance_id = sid, gr_gpu_type = g, gr_principal_id = prin,
                    gr_user_id = user\<rparr>]\<rparr>))))"

definition replace_gpu_request_if_flash ::
    "provider \<Rightarrow> store \<Rightarrow> uuid \<Rightarrow> uuid \<Rightarrow> uuid \<Rightarrow> service_spec \<Rightarrow> store_error + store" where
  "replace_gpu_request_if_flash p db sid organization prin spec =
     (if p = Flash then replace_flash_gpu_service_request db sid organization prin spec else Inr db)"

definition quota_principal :: "store \<Rightarrow> uuid \<Rightarrow> uuid \<Rightarrow> store_error + uuid option" where
  "quota_principal db organization prin =
     (case find (\<lambda>p. p_id p = prin \<and> p_organization_id p = organization \<and> p_enabled p)
             (principals (iam db)) of
        None \<Rightarrow> Inl NotFound
      | Some p \<Rightarrow> Inr (case p_user_id p of Some u \<Rightarrow> Some u | None \<Rightarrow> p_quota_user_id p))"

definition unique_name_violation :: "store \<Rightarrow> uuid \<Rightarrow> uuid \<Rightarrow> provider \<Rightarrow> str \<Rightarrow> bool" where
  "unique_name_violation db sid project p name \<longleftrightarrow>
     list_ex (\<lambda>r. s_id r \<noteq> sid \<and> s_project_id r = project \<and> s_provider r = p \<and> s_name r = name)
       (services db)"

text \<open>The admission of a specification by its provider; anything else is taken as it is.\<close>

definition prepare_spec ::
    "('n::linorder) platform \<Rightarrow> store \<Rightarrow> uuid \<Rightarrow> uuid \<Rightarrow> uuid \<Rightarrow> provider \<Rightarrow> uuid \<Rightarrow> service_row option \<Rightarrow>
     service_spec \<Rightarrow> store_error + service_spec" where
  "prepare_spec pf db organization project prin p sid existing spec =
     (let excluded = map_option s_id existing in
      case p of
        Flow \<Rightarrow> bindE (resource_quota_in_transaction db organization) (\<lambda>quota.
          prepare_flow_spec db organization excluded spec quota)
      | Flash \<Rightarrow> bindE (resource_quota_in_transaction db organization) (\<lambda>quota.
          prepare_flash_spec pf db organization prin excluded (map_option s_spec existing) spec quota)
      | Syouyu \<Rightarrow> bindE (resource_quota_in_transaction db organization) (\<lambda>quota.
          prepare_syouyu_spec (json_len pf) db organization excluded spec quota)
      | Vpc \<Rightarrow> prepare_vpc_spec db organization project sid spec (existing = None)
      | OtherProvider _ \<Rightarrow> Inr spec)"

definition validate_owner_allocation ::
    "store \<Rightarrow> uuid \<Rightarrow> uuid option \<Rightarrow> uuid option \<Rightarrow> provider \<Rightarrow> service_spec \<Rightarrow> bool \<Rightarrow> store_error + unit" where
  "validate_owner_allocation db organization owner excluded p spec allow_reduction =
     (case owner of
        None \<Rightarrow> Inr ()
      | Some user \<Rightarrow>
          bindE (resource_quota_in_transaction db organization) (\<lambda>limits.
            validate_member_allocation db organization user excluded p spec limits allow_reduction))"

definition flash_stopped :: "service_spec \<Rightarrow> bool" where
  "flash_stopped spec = (case spec of FlashSpec s \<Rightarrow> stopped s | _ \<Rightarrow> False)"

definition flash_task_role :: "service_spec \<Rightarrow> uuid option" where
  "flash_task_role spec = (case spec of FlashSpec s \<Rightarrow> task_role s | _ \<Rightarrow> None)"

definition revoke_workload_tokens :: "uuid \<Rightarrow> store \<Rightarrow> store" where
  "revoke_workload_tokens sid db =
     db\<lparr>workload_tokens := filter (\<lambda>t. wt_service_instance_id t \<noteq> sid) (workload_tokens db)\<rparr>"

subsection \<open>Create\<close>

definition backup_usable :: "store \<Rightarrow> uuid \<Rightarrow> service_spec \<Rightarrow> bool" where
  "backup_usable db organization spec =
     (case spec of
        FlashSpec s \<Rightarrow>
          (case restore_from_backup_id s of
             None \<Rightarrow> True
           | Some b \<Rightarrow> list_ex (\<lambda>k. fb_id k = b \<and> fb_organization_id k = organization \<and> fb_ready k
                                    \<and> \<not> fb_delete_requested k) (flash_backups db))
      | _ \<Rightarrow> True)"

definition check_quota_owner :: "store \<Rightarrow> uuid \<Rightarrow> provider \<Rightarrow> uuid option \<Rightarrow> store_error + unit" where
  "check_quota_owner db organization p owner =
     first_error
       [fail_if (case owner of None \<Rightarrow> False | Some u \<Rightarrow> \<not> is_member db organization u) NotFound,
        fail_if (owner = None \<and> metered p
                 \<and> list_ex (\<lambda>((o', _), _). o' = organization) (member_quotas db))
          (RequestRejected ''a service account must have an allocation owner before creating resources'')]"

definition insert_service :: "store \<Rightarrow> service_row \<Rightarrow> store_error + store" where
  "insert_service db row =
     (if (s_project_id row, s_organization_id row) \<notin> set (projects db) then Inl NotFound
      else if unique_name_violation db (s_id row) (s_project_id row) (s_provider row) (s_name row)
              \<or> s_id row \<in> fst ` set (quota_owners db)
      then Inl SqlUniqueViolation
      else Inr (db\<lparr>services := services db @ [row],
                   quota_owners := quota_owners db
                     @ [(s_id row, s_organization_id row, s_quota_user_id row)]\<rparr>))"

definition create_service_instance ::
    "('n::linorder) platform \<Rightarrow> uuid \<Rightarrow> datetime \<Rightarrow> uuid \<Rightarrow> uuid \<Rightarrow> uuid \<Rightarrow> provider \<Rightarrow> str \<Rightarrow>
     service_spec \<Rightarrow> uuid \<Rightarrow> uuid option option \<Rightarrow> store \<Rightarrow> store_error + service_row \<times> store" where
  "create_service_instance pf eid now organization project prin p name spec sid requested_quota_user db =
     (case service_by_id db sid of
        Some row \<Rightarrow>
          if s_organization_id row \<noteq> organization \<or> s_provider row \<noteq> p then Inl Conflict
          else Inr (row, db)
      | None \<Rightarrow>
          bindE (quota_principal db organization prin) (\<lambda>principal_user.
          (let owner = (case requested_quota_user of None \<Rightarrow> principal_user | Some u \<Rightarrow> u) in
          bindE (check_quota_owner db organization p owner) (\<lambda>_.
          bindE (fail_if (p = Flash \<and> \<not> backup_usable db organization spec) Conflict) (\<lambda>_.
          bindE (prepare_spec pf db organization project prin p sid None spec) (\<lambda>prepared.
          bindE (validate_cloud_organization_allocation db organization None p prepared False) (\<lambda>_.
          bindE (validate_owner_allocation db organization owner None p prepared False) (\<lambda>_.
          bindE (if p = Flash then validate_vpc_attachment db organization project sid prepared
                 else Inr ()) (\<lambda>_.
          (let row = \<lparr>s_id = sid, s_organization_id = organization, s_project_id = project,
                      s_provider = p, s_name = name, s_generation = 1, s_state = Provisioning,
                      s_spec = prepared, s_status = JObject [], s_quota_user_id = owner\<rparr> in
          bindE (insert_service db row) (\<lambda>db1.
          bindE (replace_gpu_request_if_flash p db1 sid organization prin prepared) (\<lambda>db2.
          Inr (row, enqueue (new_event eid now TopicReconcile
                 (service_event_of sid organization project prin p 1)) db2)))))))))))))"

subsection \<open>Replace\<close>

definition update_service_instance_checked ::
    "('n::linorder) platform \<Rightarrow> uuid \<Rightarrow> datetime \<Rightarrow> uuid \<Rightarrow> uuid \<Rightarrow> provider \<Rightarrow> uuid \<Rightarrow> uuid option \<Rightarrow> str \<Rightarrow>
     service_spec \<Rightarrow> i64 option \<Rightarrow> store \<Rightarrow> store_error + service_row \<times> store" where
  "update_service_instance_checked pf eid now organization sid p prin requested_project name spec
     expected_generation db =
     (if requested_project \<noteq> None \<and> p \<noteq> Flash
      then Inl (RequestRejected ''project updates are supported for Flash services only'')
      else
        bindE (ok_or (service_owned db sid organization p) NotFound) (\<lambda>existing.
        bindE (fail_if (case expected_generation of None \<Rightarrow> False | Some g \<Rightarrow> g \<noteq> s_generation existing)
                 Conflict) (\<lambda>_.
        bindE (fail_if (s_state existing = Deleting) Conflict) (\<lambda>_.
        (let project = (case requested_project of None \<Rightarrow> s_project_id existing | Some q \<Rightarrow> q) in
        bindE (fail_if (project \<noteq> s_project_id existing \<and> (project, organization) \<notin> set (projects db))
                 NotFound) (\<lambda>_.
        bindE (prepare_spec pf db organization (s_project_id existing) prin p sid (Some existing) spec)
          (\<lambda>prepared.
        (let starting = (p = Flash \<and> flash_stopped (s_spec existing) \<and> \<not> flash_stopped prepared) in
        bindE (validate_cloud_organization_allocation db organization (Some sid) p prepared (\<not> starting)) (\<lambda>_.
        bindE (validate_owner_allocation db organization (s_quota_user_id existing) (Some sid) p prepared
                 (\<not> starting)) (\<lambda>_.
        bindE (if p = Flash then
                 bindE (flash_of (s_spec existing)) (\<lambda>old. bindE (flash_of prepared) (\<lambda>new.
                 bindE (validate_flash_disk_update old (s_status existing) new) (\<lambda>_.
                 validate_vpc_attachment db organization project sid prepared)))
               else Inr ()) (\<lambda>_.
        (let db1 = (if p = Flash \<and> (flash_task_role (s_spec existing) \<noteq> flash_task_role prepared
                       \<or> project \<noteq> s_project_id existing \<or> flash_stopped prepared)
                    then revoke_workload_tokens sid db else db) in
        bindE (ok_or (checked_add_i64 (s_generation existing) 1) (Invariant ''service generation overflow''))
          (\<lambda>generation.
        bindE (fail_if (unique_name_violation db1 sid project p name) SqlUniqueViolation) (\<lambda>_.
        (let row = existing\<lparr>s_name := name, s_spec := prepared, s_generation := generation,
                            s_project_id := project, s_state := Updating, s_status := JObject []\<rparr>;
             db2 = update_service sid (\<lambda>_. row) db1 in
        bindE (replace_gpu_request_if_flash p db2 sid organization prin prepared) (\<lambda>db3.
        Inr (row, enqueue (new_event eid now TopicReconcile
               (service_event_of sid organization project prin p generation)) db3)))))))))))))))))"

subsection \<open>Stop and start\<close>

definition set_flash_service_stopped ::
    "('n::linorder) platform \<Rightarrow> uuid \<Rightarrow> datetime \<Rightarrow> uuid \<Rightarrow> uuid \<Rightarrow> uuid \<Rightarrow> bool \<Rightarrow> store \<Rightarrow>
     store_error + service_row \<times> store" where
  "set_flash_service_stopped pf eid now organization sid prin stop db =
     bindE (ok_or (service_owned db sid organization Flash) NotFound) (\<lambda>existing.
     bindE (fail_if (s_state existing = Deleting) Conflict) (\<lambda>_.
     bindE (flash_of (s_spec existing)) (\<lambda>current.
     if stopped current = stop then Inr (existing, db)
     else
       bindE (if stop then Inr (FlashSpec (current\<lparr>stopped := True\<rparr>))
              else
                bindE (resource_quota_in_transaction db organization) (\<lambda>quota.
                bindE (prepare_flash_spec pf db organization prin (Some sid) (Some (s_spec existing))
                         (FlashSpec (current\<lparr>stopped := False\<rparr>)) quota) (\<lambda>prepared.
                bindE (validate_cloud_organization_allocation db organization (Some sid) Flash prepared False) (\<lambda>_.
                bindE (case s_quota_user_id existing of
                         None \<Rightarrow> Inr ()
                       | Some user \<Rightarrow> validate_member_allocation db organization user (Some sid) Flash
                           prepared quota False) (\<lambda>_.
                bindE (validate_vpc_attachment db organization (s_project_id existing) sid prepared) (\<lambda>_.
                Inr prepared)))))) (\<lambda>spec.
       (let db1 = (if stop then revoke_workload_tokens sid db else db) in
       bindE (ok_or (checked_add_i64 (s_generation existing) 1) (Invariant ''service generation overflow''))
         (\<lambda>generation.
       (let row = existing\<lparr>s_spec := spec, s_generation := generation, s_state := Updating,
                           s_status := JObject []\<rparr>;
            db2 = update_service sid (\<lambda>_. row) db1 in
       bindE (if \<not> stop then replace_flash_gpu_service_request db2 sid organization prin spec
              else Inr db2) (\<lambda>db3.
       Inr (row, enqueue (new_event eid now TopicReconcile
              (service_event_of sid organization (s_project_id existing) prin Flash generation)) db3))))))))) "

subsection \<open>Delete\<close>

definition begin_delete_service_instance ::
    "uuid \<Rightarrow> datetime \<Rightarrow> uuid \<Rightarrow> uuid \<Rightarrow> provider \<Rightarrow> uuid \<Rightarrow> store \<Rightarrow> store_error + service_row \<times> store" where
  "begin_delete_service_instance eid now organization sid p prin db =
     bindE (fail_if (p = Vpc \<and> list_ex (\<lambda>r. s_organization_id r = organization \<and> attached_to sid r)
                                 (services db))
              (RequestRejected ''VPC is still attached to Flash services; detach or delete them first'')) (\<lambda>_.
     bindE (ok_or (service_owned db sid organization p) NotFound) (\<lambda>existing.
     if s_state existing = Deleting then Inr (existing, db)
     else
       bindE (ok_or (checked_add_i64 (s_generation existing) 1) (Invariant ''service generation overflow''))
         (\<lambda>generation.
       (let row = existing\<lparr>s_generation := generation, s_state := Deleting, s_status := JObject []\<rparr> in
       Inr (row, enqueue (new_event eid now TopicDelete
              (service_event_of sid organization (s_project_id existing) prin p generation))
              (update_service sid (\<lambda>_. row) db))))))"

text \<open>
  A deletion removes the rows that refer to the service as well (workload tokens, GPU requests,
  developer credentials and access contexts); the quota owner stays.
\<close>

definition complete_delete_service_instance :: "uuid \<Rightarrow> provider \<Rightarrow> i64 \<Rightarrow> store \<Rightarrow> bool \<times> store" where
  "complete_delete_service_instance sid p generation db =
     (let dead = (\<lambda>r. s_id r = sid \<and> s_generation r = generation \<and> s_provider r = p
                      \<and> s_state r = Deleting) in
      if list_ex dead (services db)
      then (True, revoke_workload_tokens sid
             (db\<lparr>services := filter (\<lambda>r. \<not> dead r) (services db),
                 gpu_requests := filter (\<lambda>q. gr_service_instance_id q \<noteq> sid) (gpu_requests db),
                 developer_credentials :=
                   filter (\<lambda>c. dc_service_instance_id c \<noteq> sid) (developer_credentials db),
                 access_contexts :=
                   filter (\<lambda>c. fc_service_instance_id c \<noteq> sid) (access_contexts db)\<rparr>))
      else (False, db))"

subsection \<open>What the provider answered\<close>

definition operation_status :: "str \<Rightarrow> json \<Rightarrow> json" where
  "operation_status operation_id provider_status =
     JObject [(lit ''operation_id'', JString operation_id), (lit ''status'', provider_status)]"

definition mark_service_instance ::
    "service_state \<Rightarrow> uuid \<Rightarrow> provider \<Rightarrow> i64 \<Rightarrow> str \<Rightarrow> json \<Rightarrow> store \<Rightarrow> bool \<times> store" where
  "mark_service_instance st sid p generation operation_id provider_status db =
     (let hit = (\<lambda>r. s_id r = sid \<and> s_generation r = generation \<and> s_provider r = p) in
      (list_ex hit (services db),
       db\<lparr>services := map (\<lambda>r. if hit r
            then r\<lparr>s_state := st, s_status := operation_status operation_id provider_status\<rparr> else r)
            (services db)\<rparr>))"

definition mark_service_instance_ready ::
    "uuid \<Rightarrow> provider \<Rightarrow> i64 \<Rightarrow> str \<Rightarrow> json \<Rightarrow> store \<Rightarrow> bool \<times> store" where
  "mark_service_instance_ready = mark_service_instance Ready"

definition mark_service_instance_error ::
    "uuid \<Rightarrow> provider \<Rightarrow> i64 \<Rightarrow> str \<Rightarrow> json \<Rightarrow> store \<Rightarrow> bool \<times> store" where
  "mark_service_instance_error = mark_service_instance Failed"

end
