(* ===== verification/Store_Invariants.thy ===== *)
theory Store_Invariants
  imports Lifecycle
begin

section \<open>Invariants of the services table\<close>

text \<open>
  What every operation of \<open>Lifecycle\<close> keeps: identifiers are unique, specifications fit their
  provider and are valid, the usage of each account stays below the platform's ceilings (so that
  the \<open>u64\<close> sums of the admission never wrap), exposed ports and bucket names are unique across
  the platform, and attachments to private networks are consistent.
\<close>

subsection \<open>Usage of an account\<close>

definition account_rows :: "store \<Rightarrow> uuid \<Rightarrow> provider \<Rightarrow> service_row set" where
  "account_rows db account p = {r \<in> set (services db). s_organization_id r = account \<and> live p r}"

definition rooms_of :: "service_row \<Rightarrow> nat" where
  "rooms_of r = (case s_spec r of FlowSpec s \<Rightarrow> unat (max_rooms s) | _ \<Rightarrow> 0)"

definition flash_amount :: "(flash_spec \<Rightarrow> nat) \<Rightarrow> service_row \<Rightarrow> nat" where
  "flash_amount f r = (case s_spec r of FlashSpec s \<Rightarrow> unat (reserved_replicas s) * f s | _ \<Rightarrow> 0)"

definition bytes_of :: "service_row \<Rightarrow> nat" where
  "bytes_of r = (case s_spec r of SyouyuSpec s \<Rightarrow> unat (quota_bytes s) | _ \<Rightarrow> 0)"

text \<open>The dimensions a quota limits, with the limit of each.\<close>

type_synonym dimension = "provider \<times> (service_row \<Rightarrow> nat) \<times> nat"

definition quota_dimensions :: "resource_quota_limits \<Rightarrow> dimension set" where
  "quota_dimensions q =
     {(Flow, (\<lambda>_. 1), unat (fq_max_services (q_flow q))),
      (Flow, rooms_of, unat (max_total_rooms (q_flow q))),
      (Flash, (\<lambda>_. 1), unat (hq_max_services (q_flash q))),
      (Flash, flash_amount (\<lambda>_. 1), unat (max_total_replicas (q_flash q))),
      (Flash, flash_amount (\<lambda>s. unat (cpu_millis s)), unat (max_total_cpu_millis (q_flash q))),
      (Flash, flash_amount (\<lambda>s. unat (memory_mib s)), unat (max_total_memory_mib (q_flash q))),
      (Flash, flash_amount (\<lambda>s. unat (ephemeral_storage_gib s)), unat (max_total_disk_gib (q_flash q))),
      (Syouyu, (\<lambda>_. 1), unat (max_buckets (q_syouyu q))),
      (Syouyu, bytes_of, unat (max_total_bytes (q_syouyu q)))}"

text \<open>The largest limits validation admits.\<close>

definition platform_dimensions :: "dimension set" where
  "platform_dimensions =
     {(Flow, (\<lambda>_. 1), 10 ^ 4), (Flow, rooms_of, 10 ^ 8), (Flash, (\<lambda>_. 1), 10 ^ 4),
      (Flash, flash_amount (\<lambda>_. 1), 10 ^ 5), (Flash, flash_amount (\<lambda>s. unat (cpu_millis s)), 10 ^ 8),
      (Flash, flash_amount (\<lambda>s. unat (memory_mib s)), 2 ^ 20),
      (Flash, flash_amount (\<lambda>s. unat (ephemeral_storage_gib s)), 10 ^ 6),
      (Syouyu, (\<lambda>_. 1), 10 ^ 4), (Syouyu, bytes_of, 10 * 2 ^ 40)}"

definition within :: "store \<Rightarrow> uuid \<Rightarrow> dimension set \<Rightarrow> bool" where
  "within db account dims \<longleftrightarrow>
     (\<forall>(p, m, limit) \<in> dims. (\<Sum>r \<in> account_rows db account p. m r) \<le> limit)"

lemma quota_below_platform:
  assumes "validate_quota_limits q = Inr ()" "(p, m, b) \<in> platform_dimensions"
  shows "\<exists>limit. (p, m, limit) \<in> quota_dimensions q \<and> limit \<le> b"
proof -
  have v: "validate_flow_quota (q_flow q) = Inr ()" "validate_syouyu_quota (q_syouyu q) = Inr ()"
    "validate_flash_quota (q_flash q) = Inr ()"
    using assms(1) by (auto simp: validate_quota_limits_def)
  have "unat (fq_max_services (q_flow q)) \<le> 10 ^ 4" "unat (max_total_rooms (q_flow q)) \<le> 10 ^ 8"
    using v(1) by (auto simp: validate_flow_quota_def in_range_def const_defs word_le_nat_alt
        not_less)
  moreover have "unat (max_buckets (q_syouyu q)) \<le> 10 ^ 4"
    "unat (max_total_bytes (q_syouyu q)) \<le> 10 * 2 ^ 40"
    using v(2) by (auto simp: validate_syouyu_quota_def in_range_def const_defs word_le_nat_alt
        not_less)
  moreover have "unat (hq_max_services (q_flash q)) \<le> 10 ^ 4"
    "unat (max_total_replicas (q_flash q)) \<le> 10 ^ 5"
    "unat (max_total_cpu_millis (q_flash q)) \<le> 10 ^ 8"
    "unat (max_total_memory_mib (q_flash q)) \<le> 2 ^ 20"
    "unat (max_total_disk_gib (q_flash q)) \<le> 10 ^ 6"
    using v(3) by (auto simp: validate_flash_quota_def in_range_def const_defs word_le_nat_alt
        not_less)
  ultimately show ?thesis
    using assms(2) unfolding quota_dimensions_def platform_dimensions_def
    by (elim insertE emptyE Pair_inject) (simp, blast)+
qed

definition other_rows :: "store \<Rightarrow> uuid \<Rightarrow> provider \<Rightarrow> uuid option \<Rightarrow> service_row set" where
  "other_rows db account p excluded = {r \<in> account_rows db account p. excluded \<noteq> Some (s_id r)}"

text \<open>The specification fits the quota beside the other services of the account.\<close>

definition fits :: "store \<Rightarrow> uuid \<Rightarrow> uuid option \<Rightarrow> provider \<Rightarrow> service_row \<Rightarrow> dimension set \<Rightarrow> bool" where
  "fits db account excluded p row dims \<longleftrightarrow>
     (\<forall>(p', m, limit) \<in> dims. p' = p \<longrightarrow> (\<Sum>r \<in> other_rows db account p excluded. m r) + m row \<le> limit)"

lemma finite_account_rows [simp]: "finite (account_rows db a p)" "finite (other_rows db a p e)"
  by (simp_all add: account_rows_def other_rows_def)

lemma sum_org_rows:
  assumes "distinct (map s_id (services db))"
  shows "sum_list (map m (filter (\<lambda>r. excluded \<noteq> Some (s_id r)) (org_rows db a p)))
    = (\<Sum>r \<in> other_rows db a p excluded. m r)"
proof -
  have "distinct (filter (\<lambda>r. excluded \<noteq> Some (s_id r)) (org_rows db a p))"
    using assms by (simp add: org_rows_def distinct_map)
  then have "sum_list (map m (filter (\<lambda>r. excluded \<noteq> Some (s_id r)) (org_rows db a p)))
    = (\<Sum>r \<in> set (filter (\<lambda>r. excluded \<noteq> Some (s_id r)) (org_rows db a p)). m r)"
    by (rule sum_list_distinct_conv_sum_set)
  also have "set (filter (\<lambda>r. excluded \<noteq> Some (s_id r)) (org_rows db a p)) = other_rows db a p excluded"
    by (auto simp: org_rows_def other_rows_def account_rows_def)
  finally show ?thesis .
qed

lemma sum_others_le: "(\<Sum>r \<in> other_rows db a p e. (m :: service_row \<Rightarrow> nat) r) \<le> (\<Sum>r \<in> account_rows db a p. m r)"
  by (rule sum_mono2) (auto simp: other_rows_def)

lemma withinD: "within db a dims \<Longrightarrow> (p, m, limit) \<in> dims \<Longrightarrow> (\<Sum>r \<in> account_rows db a p. m r) \<le> limit"
  by (auto simp: within_def)

lemma others_within:
  "within db a dims \<Longrightarrow> (p, m, limit) \<in> dims \<Longrightarrow> (\<Sum>r \<in> other_rows db a p e. m r) \<le> limit"
  using sum_others_le withinD order_trans by blast

lemma count_org_rows:
  assumes "distinct (map s_id (services db))"
  shows "length (filter (\<lambda>r. excluded \<noteq> Some (s_id r)) (org_rows db a p)) = card (other_rows db a p excluded)"
proof -
  have "length xs = sum_list (map (\<lambda>_. 1 :: nat) xs)" for xs :: "service_row list" by (induction xs) auto
  then show ?thesis using sum_org_rows [OF assms, of "\<lambda>_. 1 :: nat" excluded a p] by simp
qed

subsection \<open>Admission of Flow services and buckets\<close>

lemma flow_totals_eq:
  assumes "flow_totals excluded rows (a, b) = Inr (a', b')"
  shows "a' = a + of_nat (length (filter (\<lambda>r. excluded \<noteq> Some (s_id r)) rows))
    \<and> unat b' = min (unat b + sum_list (map rooms_of (filter (\<lambda>r. excluded \<noteq> Some (s_id r)) rows))) (2 ^ 64 - 1)"
  using assms
proof (induction rows arbitrary: a b)
  case Nil
  then show ?case using unat_u64_bound [of b] by simp
next
  case (Cons r rows)
  show ?case
  proof (cases "excluded = Some (s_id r)")
    case True
    with Cons show ?thesis by simp
  next
    case False
    with Cons.prems obtain s where s: "s_spec r = FlowSpec s"
      and rest: "flow_totals excluded rows (a + 1, saturating_add b (u64_of (max_rooms s))) = Inr (a', b')"
      by (auto simp: bindE_Inr_iff)
    from Cons.IH [OF rest] False s show ?thesis
      by (simp add: rooms_of_def unat_saturating_add unat_u64_of algebra_simps min_def)
  qed
qed

lemma count_word:
  assumes "n \<le> 10 ^ 4"
  shows "unat (1 + of_nat n :: u64) = Suc n"
proof -
  have "unat (of_nat n :: u64) = n" using assms by (simp add: unat_of_nat take_bit_nat_eq_self_iff)
  then show ?thesis using assms by (subst unat_add_u64) simp_all
qed

lemma count_dimensions:
  "(Flow, \<lambda>_. 1, 10 ^ 4) \<in> platform_dimensions" "(Flash, \<lambda>_. 1, 10 ^ 4) \<in> platform_dimensions"
  "(Syouyu, \<lambda>_. 1, 10 ^ 4) \<in> platform_dimensions"
  by (auto simp: platform_dimensions_def)

lemma sum_dimensions:
  "(Flow, rooms_of, 10 ^ 8) \<in> platform_dimensions" "(Syouyu, bytes_of, 10 * 2 ^ 40) \<in> platform_dimensions"
  by (auto simp: platform_dimensions_def)

lemma prepare_flow_fits:
  assumes d: "distinct (map s_id (services db))" and q: "validate_quota_limits quota = Inr ()"
    and w: "within db a platform_dimensions"
    and ok: "prepare_flow_spec db a excluded spec quota = Inr prepared"
    and row: "s_spec row = prepared"
  shows "(\<exists>s. prepared = FlowSpec s) \<and> fits db a excluded Flow row (quota_dimensions quota)"
proof -
  let ?rows = "filter (\<lambda>r. excluded \<noteq> Some (s_id r)) (org_rows db a Flow)"
  from ok obtain s n rooms where s: "prepared = FlowSpec s"
    and loop: "flow_totals excluded (org_rows db a Flow) (1, u64_of (max_rooms s)) = Inr (n, rooms)"
    and le: "n \<le> u64_of (fq_max_services (q_flow quota))" "rooms \<le> max_total_rooms (q_flow quota)"
    by (auto simp: prepare_flow_spec_def bindE_Inr_iff not_less)
  have count: "length ?rows = card (other_rows db a Flow excluded)" by (rule count_org_rows [OF d])
  have "length ?rows \<le> 10 ^ 4"
    using others_within [OF w count_dimensions(1), of excluded] by (simp add: count)
  then have n: "unat n = Suc (length ?rows)" using flow_totals_eq [OF loop] count_word by auto
  have sum: "sum_list (map rooms_of ?rows) = (\<Sum>r \<in> other_rows db a Flow excluded. rooms_of r)"
    by (rule sum_org_rows [OF d])
  have b: "unat rooms = min (unat (max_rooms s) + sum_list (map rooms_of ?rows)) (2 ^ 64 - 1)"
    using flow_totals_eq [OF loop] by (simp add: unat_u64_of)
  have "sum_list (map rooms_of ?rows) \<le> 10 ^ 8"
    unfolding sum by (rule others_within [OF w sum_dimensions(1)])
  with b unat_u32_bound [of "max_rooms s"]
  have "unat rooms = unat (max_rooms s) + sum_list (map rooms_of ?rows)" by simp
  moreover have "rooms_of row = unat (max_rooms s)" using s row by (simp add: rooms_of_def)
  ultimately show ?thesis using le n s
    by (auto simp: fits_def quota_dimensions_def word_le_nat_alt unat_u64_of count [symmetric]
        sum [symmetric])
qed

lemma syouyu_totals_eq:
  assumes "syouyu_totals req excluded rows (a, b) = Inr (a', b')"
  shows "unat a' = min (unat a + length (filter (\<lambda>r. excluded \<noteq> Some (s_id r)) rows)) (2 ^ 64 - 1)
    \<and> unat b' = min (unat b + sum_list (map bytes_of (filter (\<lambda>r. excluded \<noteq> Some (s_id r)) rows))) (2 ^ 64 - 1)"
  using assms
proof (induction rows arbitrary: a b)
  case Nil
  then show ?case using unat_u64_bound [of a] unat_u64_bound [of b] by simp
next
  case (Cons r rows)
  show ?case
  proof (cases "excluded = Some (s_id r)")
    case True
    with Cons.prems have "syouyu_totals req excluded rows (a, b) = Inr (a', b')"
      by (auto simp: bindE_Inr_iff)
    with True Cons.IH show ?thesis by simp
  next
    case False
    with Cons.prems obtain s where s: "s_spec r = SyouyuSpec s"
      and rest: "syouyu_totals req excluded rows
        (saturating_add a 1, saturating_add b (quota_bytes s)) = Inr (a', b')"
      by (auto simp: bindE_Inr_iff)
    from Cons.IH [OF rest] False s show ?thesis
      by (simp add: bytes_of_def unat_saturating_add algebra_simps min_def)
  qed
qed

lemma prepare_syouyu_fits:
  assumes d: "distinct (map s_id (services db))" and q: "validate_quota_limits quota = Inr ()"
    and w: "within db a platform_dimensions"
    and ok: "prepare_syouyu_spec jl db a excluded spec quota = Inr prepared"
    and row: "s_spec row = prepared"
  shows "(\<exists>s. prepared = SyouyuSpec s) \<and> fits db a excluded Syouyu row (quota_dimensions quota)"
proof -
  let ?rows = "filter (\<lambda>r. excluded \<noteq> Some (s_id r)) (org_rows db a Syouyu)"
  from ok obtain s n bytes where s: "prepared = SyouyuSpec s"
    and v: "validate_syouyu jl s = Inr ()"
    and loop: "syouyu_totals s excluded (org_rows db a Syouyu) (1, quota_bytes s) = Inr (n, bytes)"
    and le: "n \<le> u64_of (max_buckets (q_syouyu quota))" "bytes \<le> max_total_bytes (q_syouyu quota)"
    by (auto simp: prepare_syouyu_spec_def bindE_Inr_iff not_less)
  have count: "length ?rows = card (other_rows db a Syouyu excluded)" by (rule count_org_rows [OF d])
  have "length ?rows \<le> 10 ^ 4"
    using others_within [OF w count_dimensions(3), of excluded] by (simp add: count)
  then have n: "unat n = Suc (length ?rows)" using syouyu_totals_eq [OF loop] by auto
  have sum: "sum_list (map bytes_of ?rows) = (\<Sum>r \<in> other_rows db a Syouyu excluded. bytes_of r)"
    by (rule sum_org_rows [OF d])
  have b: "unat bytes = min (unat (quota_bytes s) + sum_list (map bytes_of ?rows)) (2 ^ 64 - 1)"
    using syouyu_totals_eq [OF loop] by simp
  have "unat (quota_bytes s) \<le> 10 * 2 ^ 40"
    using v by (auto simp: validate_syouyu_def in_range_def const_defs word_le_nat_alt)
  moreover have "sum_list (map bytes_of ?rows) \<le> 10 * 2 ^ 40"
    unfolding sum by (rule others_within [OF w sum_dimensions(2)])
  ultimately have "unat bytes = unat (quota_bytes s) + sum_list (map bytes_of ?rows)" using b by simp
  moreover have "bytes_of row = unat (quota_bytes s)" using s row by (simp add: bytes_of_def)
  ultimately show ?thesis using le n s
    by (auto simp: fits_def quota_dimensions_def word_le_nat_alt unat_u64_of count [symmetric]
        sum [symmetric])
qed

subsection \<open>Admission of Flash services\<close>

lemma u64_of_nat: "u64_of w = of_nat (unat w)"
  by (simp add: u64_of_def)

lemma u64_of_mult: "u64_of a * u64_of b = of_nat (unat a * unat b)"
  by (simp add: u64_of_nat)

definition flash_keys :: "service_row \<Rightarrow> (flash_protocol \<times> u16) set" where
  "flash_keys r =
     (case s_spec r of FlashSpec s \<Rightarrow> if shares_ports s then port_key ` set (ports s) else {} | _ \<Rightarrow> {})"

lemma flash_totals_loop_eq:
  assumes "flash_totals_loop org excluded rows t = Inr t'"
  defines "others \<equiv> filter (\<lambda>r. excluded \<noteq> Some (s_id r)) rows"
  defines "mine \<equiv> filter (\<lambda>r. s_organization_id r = org) others"
  shows "set (occupied_ports t') = set (occupied_ports t) \<union> (\<Union>r \<in> set others. flash_keys r)
    \<and> organization_services t' = organization_services t + of_nat (length mine)
    \<and> organization_replicas t' = organization_replicas t + of_nat (sum_list (map (flash_amount (\<lambda>_. 1)) mine))
    \<and> organization_cpu_millis t' = organization_cpu_millis t
        + of_nat (sum_list (map (flash_amount (\<lambda>s. unat (cpu_millis s))) mine))
    \<and> organization_memory_mib t' = organization_memory_mib t
        + of_nat (sum_list (map (flash_amount (\<lambda>s. unat (memory_mib s))) mine))
    \<and> organization_ephemeral_storage_gib t' = organization_ephemeral_storage_gib t
        + of_nat (sum_list (map (flash_amount (\<lambda>s. unat (ephemeral_storage_gib s))) mine))"
  using assms(1) unfolding others_def mine_def
proof (induction rows arbitrary: t)
  case (Cons r rows)
  show ?case
  proof (cases "excluded = Some (s_id r)")
    case True
    with Cons show ?thesis by simp
  next
    case False
    with Cons.prems obtain s where s: "s_spec r = FlashSpec s"
      and rest: "flash_totals_loop org excluded rows (add_flash_row org (s_organization_id r) s t) = Inr t'"
      by (auto simp: bindE_Inr_iff)
    have amount: "flash_amount f r = unat (reserved_replicas s) * f s" for f
      by (simp add: flash_amount_def s)
    have keys: "flash_keys r = (if shares_ports s then port_key ` set (ports s) else {})"
      by (simp add: flash_keys_def s)
    show ?thesis
      using Cons.IH [OF rest] False
      by (auto simp: add_flash_row_def Let_def amount keys u64_of_mult u64_of_nat algebra_simps
          split: if_splits)
  qed
qed simp
lemma mine_rows:
  "filter (\<lambda>r. s_organization_id r = a) (filter (\<lambda>r. excluded \<noteq> Some (s_id r)) (flash_rows db))
     = filter (\<lambda>r. excluded \<noteq> Some (s_id r)) (org_rows db a Flash)"
  unfolding flash_rows_def org_rows_def filter_filter by (rule filter_cong) auto

lemma word_total:
  assumes "n \<le> 10 ^ 8"
  shows "unat (of_nat n + u64_of x * u64_of y :: u64) = n + unat x * unat y"
    and "unat (of_nat n + u64_of x :: u64) = n + unat x"
proof -
  have "unat x \<le> 2 ^ 32 - 1" "unat y \<le> 2 ^ 32 - 1"
    using unat_u32_bound [of x] unat_u32_bound [of y] by auto
  then have xy: "unat x * unat y \<le> (2 ^ 32 - 1) * (2 ^ 32 - 1)" by (rule mult_le_mono)
  have n: "unat (of_nat n :: u64) = n" using assms by (simp add: unat_of_nat take_bit_nat_eq_self_iff)
  have "n + unat x * unat y < 2 ^ 64" using assms xy by simp
  then show "unat (of_nat n + u64_of x * u64_of y :: u64) = n + unat x * unat y"
    by (subst unat_add_u64) (simp_all add: n unat_u64_of_mult)
  show "unat (of_nat n + u64_of x :: u64) = n + unat x"
    using assms unat_u32_bound [of x] by (subst unat_add_u64) (simp_all add: n unat_u64_of)
qed

lemma flash_dimensions:
  "(Flash, flash_amount (\<lambda>_. 1), 10 ^ 5) \<in> platform_dimensions"
  "(Flash, flash_amount (\<lambda>s. unat (cpu_millis s)), 10 ^ 8) \<in> platform_dimensions"
  "(Flash, flash_amount (\<lambda>s. unat (memory_mib s)), 2 ^ 20) \<in> platform_dimensions"
  "(Flash, flash_amount (\<lambda>s. unat (ephemeral_storage_gib s)), 10 ^ 6) \<in> platform_dimensions"
  by (auto simp: platform_dimensions_def)

lemma flash_quota_fits:
  assumes d: "distinct (map s_id (services db))" and w: "within db a platform_dimensions"
    and loop: "flash_totals_loop a excluded (flash_rows db) empty_totals = Inr t"
    and ok: "check_flash_quota (q_flash quota) (with_requested s t) = Inr ()"
    and row: "\<And>f. flash_amount f row = unat (reserved_replicas s) * f s"
  shows "fits db a excluded Flash row (quota_dimensions quota)"
proof -
  let ?rows = "filter (\<lambda>r. excluded \<noteq> Some (s_id r)) (org_rows db a Flash)"
  let ?sum = "\<lambda>f. \<Sum>r \<in> other_rows db a Flash excluded. flash_amount f r"
  have sum: "sum_list (map (flash_amount f) ?rows) = ?sum f" for f by (rule sum_org_rows [OF d])
  have count: "length ?rows = card (other_rows db a Flash excluded)" by (rule count_org_rows [OF d])
  have few: "card (other_rows db a Flash excluded) \<le> 10 ^ 4"
    using others_within [OF w count_dimensions(2), of excluded] by simp
  have small: "?sum (\<lambda>_. 1) \<le> 10 ^ 8" "?sum (\<lambda>s. unat (cpu_millis s)) \<le> 10 ^ 8"
    "?sum (\<lambda>s. unat (memory_mib s)) \<le> 10 ^ 8" "?sum (\<lambda>s. unat (ephemeral_storage_gib s)) \<le> 10 ^ 8"
    using others_within [OF w flash_dimensions(1), of excluded]
      others_within [OF w flash_dimensions(2), of excluded]
      others_within [OF w flash_dimensions(3), of excluded]
      others_within [OF w flash_dimensions(4), of excluded] by auto
  from flash_totals_loop_eq [OF loop] have t:
    "organization_services t = 1 + of_nat (card (other_rows db a Flash excluded))"
    "organization_replicas t = of_nat (?sum (\<lambda>_. 1))"
    "organization_cpu_millis t = of_nat (?sum (\<lambda>s. unat (cpu_millis s)))"
    "organization_memory_mib t = of_nat (?sum (\<lambda>s. unat (memory_mib s)))"
    "organization_ephemeral_storage_gib t = of_nat (?sum (\<lambda>s. unat (ephemeral_storage_gib s)))"
    unfolding mine_rows sum count empty_totals_def by simp_all
  from ok have le: "organization_services t \<le> u64_of (hq_max_services (q_flash quota))"
    "organization_replicas t + u64_of (reserved_replicas s) \<le> max_total_replicas (q_flash quota)"
    "organization_cpu_millis t + u64_of (reserved_replicas s) * u64_of (cpu_millis s)
      \<le> max_total_cpu_millis (q_flash quota)"
    "organization_memory_mib t + u64_of (reserved_replicas s) * u64_of (memory_mib s)
      \<le> max_total_memory_mib (q_flash quota)"
    "organization_ephemeral_storage_gib t + u64_of (reserved_replicas s) * u64_of (ephemeral_storage_gib s)
      \<le> max_total_disk_gib (q_flash quota)"
    by (simp_all add: check_flash_quota_def with_requested_def not_less)
  from le(1) have "Suc (card (other_rows db a Flash excluded)) \<le> unat (hq_max_services (q_flash quota))"
    unfolding t word_le_nat_alt by (simp add: count_word [OF few] unat_u64_of)
  moreover from le(2) have "?sum (\<lambda>_. 1) + unat (reserved_replicas s) \<le> unat (max_total_replicas (q_flash quota))"
    unfolding t word_le_nat_alt word_total(2) [OF small(1)] .
  moreover from le(3) have "?sum (\<lambda>s. unat (cpu_millis s)) + unat (reserved_replicas s) * unat (cpu_millis s)
      \<le> unat (max_total_cpu_millis (q_flash quota))"
    unfolding t word_le_nat_alt word_total(1) [OF small(2)] .
  moreover from le(4) have "?sum (\<lambda>s. unat (memory_mib s)) + unat (reserved_replicas s) * unat (memory_mib s)
      \<le> unat (max_total_memory_mib (q_flash quota))"
    unfolding t word_le_nat_alt word_total(1) [OF small(3)] .
  moreover from le(5) have "?sum (\<lambda>s. unat (ephemeral_storage_gib s))
      + unat (reserved_replicas s) * unat (ephemeral_storage_gib s) \<le> unat (max_total_disk_gib (q_flash quota))"
    unfolding t word_le_nat_alt word_total(1) [OF small(4)] .
  ultimately show ?thesis by (auto simp: fits_def quota_dimensions_def row)
qed

lemma service_port_range_mem:
  "v \<in> set service_port_range \<longleftrightarrow> in_range MIN_FLASH_SERVICE_PORT MAX_FLASH_SERVICE_PORT v"
proof -
  have "set service_port_range = of_nat ` {unat MIN_FLASH_SERVICE_PORT ..< Suc (unat MAX_FLASH_SERVICE_PORT)}"
    by (simp only: service_port_range_def set_map set_upt)
  moreover have "unat (of_nat n :: u16) = n" if "n < Suc (unat MAX_FLASH_SERVICE_PORT)" for n
    using that by (simp add: const_defs unat_of_nat take_bit_nat_eq_self_iff)
  ultimately show ?thesis
    by (auto simp: in_range_def word_le_nat_alt less_Suc_eq_le intro!: rev_image_eqI [of "unat v"])
qed

lemma assign_port_free:
  "assign_port existing occupied port = Some v \<Longrightarrow>
     (protocol port, v) \<notin> set occupied \<and> in_range MIN_FLASH_SERVICE_PORT MAX_FLASH_SERVICE_PORT v"
  by (auto simp: assign_port_def service_port_range_mem [symmetric]
      split: option.splits if_splits dest: find_eq_Some)

lemma assign_ports_shape:
  assumes "assign_ports private existing ps occupied = Inr qs"
  shows "list_all2 (\<lambda>p q. \<exists>v. q = p\<lparr>service_port := v\<rparr>) ps qs
    \<and> (private \<longrightarrow> (\<forall>q \<in> set qs. service_port q = container_port q))
    \<and> (\<not> private \<longrightarrow> distinct (map port_key qs) \<and> port_key ` set qs \<inter> set occupied = {}
        \<and> (\<forall>q \<in> set qs. in_range MIN_FLASH_SERVICE_PORT MAX_FLASH_SERVICE_PORT (service_port q)))"
  using assms
proof (induction ps arbitrary: occupied qs)
  case (Cons p ps)
  show ?case
  proof (cases "private")
    case True
    with Cons.prems obtain rest where r: "assign_ports private existing ps occupied = Inr rest"
      "qs = p\<lparr>service_port := container_port p\<rparr> # rest" by (auto simp: bindE_Inr_iff)
    with Cons.IH [OF r(1)] True show ?thesis by auto
  next
    case False
    with Cons.prems obtain v rest where v: "assign_port existing occupied p = Some v"
      and r: "assign_ports private existing ps ((protocol p, v) # occupied) = Inr rest"
      and qs: "qs = p\<lparr>service_port := v\<rparr> # rest"
      by (auto simp: bindE_Inr_iff split: option.splits)
    from assign_port_free [OF v] Cons.IH [OF r] False qs show ?thesis
      by (auto simp: port_key_def)
  qed
qed simp

lemma reserved_replicas_ports [simp]: "reserved_replicas (s\<lparr>ports := qs\<rparr>) = reserved_replicas s"
  by (simp add: reserved_replicas_def split: option.split)

lemma prepare_flash_facts:
  assumes d: "distinct (map s_id (services db))" and w: "within db a platform_dimensions"
    and ok: "prepare_flash_spec pf db a prin excluded existing spec quota = Inr prepared"
    and row: "s_spec row = prepared"
  shows "(\<exists>s. prepared = FlashSpec s \<and> validate_flash pf s = Inr ())
    \<and> fits db a excluded Flash row (quota_dimensions quota)
    \<and> (\<forall>r \<in> set (services db). live Flash r \<longrightarrow> excluded \<noteq> Some (s_id r) \<longrightarrow> flash_keys row \<inter> flash_keys r = {})"
proof -
  from ok obtain s0 t old qs where
    loop: "flash_totals_loop a excluded (flash_rows db) empty_totals = Inr t"
    and ports: "assign_ports (private_ports s0) (existing_ports old) (ports s0) (occupied_ports t) = Inr qs"
    and quota: "check_flash_quota (q_flash quota) (with_requested s0 t) = Inr ()"
    and valid: "validate_flash pf (s0\<lparr>ports := qs\<rparr>) = Inr ()"
    and p: "prepared = FlashSpec (s0\<lparr>ports := qs\<rparr>)"
    by (auto simp: prepare_flash_spec_def bindE_Inr_iff)
  have amount: "flash_amount f row = unat (reserved_replicas (s0\<lparr>ports := qs\<rparr>)) * f (s0\<lparr>ports := qs\<rparr>)" for f
    using row p by (simp add: flash_amount_def)
  have "with_requested (s0\<lparr>ports := qs\<rparr>) t = with_requested s0 t"
    by (simp add: with_requested_def)
  with quota have "check_flash_quota (q_flash quota) (with_requested (s0\<lparr>ports := qs\<rparr>) t) = Inr ()" by simp
  from flash_quota_fits [OF d w loop this amount]
  have fits: "fits db a excluded Flash row (quota_dimensions quota)" .
  have shares: "private_ports s0 \<longleftrightarrow> \<not> shares_ports s0"
    by (cases "exposure_type (exposure s0)") (auto simp: private_ports_def shares_ports_def)
  have keys: "flash_keys row \<subseteq> (if shares_ports s0 then port_key ` set qs else {})"
    using row p by (auto simp: flash_keys_def shares_ports_def)
  have "flash_keys row \<inter> flash_keys r = {}"
    if "r \<in> set (services db)" "live Flash r" "excluded \<noteq> Some (s_id r)" for r
  proof (cases "shares_ports s0")
    case True
    then have "port_key ` set qs \<inter> set (occupied_ports t) = {}"
      using assign_ports_shape [OF ports] shares by blast
    moreover have "flash_keys r \<subseteq> set (occupied_ports t)"
      using flash_totals_loop_eq [OF loop] that by (auto simp: flash_rows_def)
    ultimately show ?thesis using keys True by (simp, blast)
  qed (use keys in simp)
  with fits valid p show ?thesis by blast
qed

lemma fits_platform:
  assumes "validate_quota_limits q = Inr ()" "fits db a e p row (quota_dimensions q)"
  shows "fits db a e p row platform_dimensions"
  unfolding fits_def
proof (clarify)
  fix m b assume "(p, m, b) \<in> platform_dimensions"
  with quota_below_platform [OF assms(1)] obtain limit
    where "(p, m, limit) \<in> quota_dimensions q" "limit \<le> b" by blast
  with assms(2) show "(\<Sum>r \<in> other_rows db a p e. m r) + m row \<le> b"
    by (fastforce simp: fits_def)
qed

end
