(* ===== verification/Service_Invariant.thy ===== *)
theory Service_Invariant
  imports Store_Invariants
begin

section \<open>The services table is kept consistent\<close>

text \<open>
  The invariant of the services table and that every operation of \<open>Lifecycle\<close> keeps it: the rows
  are typed and valid, usage stays below the ceilings of the platform, exposed ports and bucket
  names are unique across accounts, and a service is attached to a network that exists, in its own
  project, with its security groups.
\<close>

subsection \<open>The invariant\<close>

fun spec_fits_provider :: "provider \<Rightarrow> service_spec \<Rightarrow> bool" where
  "spec_fits_provider Flow (FlowSpec _) = True"
| "spec_fits_provider Flash (FlashSpec _) = True"
| "spec_fits_provider Syouyu (SyouyuSpec _) = True"
| "spec_fits_provider Vpc (VpcSpec _) = True"
| "spec_fits_provider (OtherProvider _) _ = True"
| "spec_fits_provider _ _ = False"

definition row_ok :: "('n::linorder) platform \<Rightarrow> service_row \<Rightarrow> bool" where
  "row_ok pf r \<longleftrightarrow>
     spec_fits_provider (s_provider r) (s_spec r)
     \<and> (s_provider r = Flash \<longrightarrow>
          (case s_spec r of FlashSpec s \<Rightarrow> validate_flash pf s = Inr () | _ \<Rightarrow> True))
     \<and> 1 \<le> s_generation r"

definition ports_ok :: "store \<Rightarrow> bool" where
  "ports_ok db \<longleftrightarrow>
     (\<forall>r \<in> set (services db). \<forall>r' \<in> set (services db).
        live Flash r \<and> live Flash r' \<and> s_id r \<noteq> s_id r' \<longrightarrow> flash_keys r \<inter> flash_keys r' = {})"

definition buckets_ok :: "store \<Rightarrow> bool" where
  "buckets_ok db \<longleftrightarrow>
     (\<forall>r \<in> set (services db). \<forall>r' \<in> set (services db).
        s_provider r = Syouyu \<and> s_provider r' = Syouyu \<and> bucket_of r = bucket_of r' \<longrightarrow>
        s_id r = s_id r')"

text \<open>A network hosts a service: it is the one named, in the same project, and has its groups.\<close>

definition hosts :: "service_row \<Rightarrow> service_row \<Rightarrow> bool" where
  "hosts v r =
     (case (s_spec v, s_spec r) of
        (VpcSpec vpc, FlashSpec s) \<Rightarrow>
          (case network s of
             None \<Rightarrow> False
           | Some n \<Rightarrow>
               s_id v = at_vpc_id n \<and> s_provider v = Vpc \<and> s_state v \<noteq> Deleting
               \<and> s_organization_id v = s_organization_id r \<and> s_project_id v = s_project_id r
               \<and> vpc_region vpc = fs_region s
               \<and> set (at_security_groups n) \<subseteq> set (vpc_security_groups vpc))
      | _ \<Rightarrow> False)"

definition attachments_ok :: "store \<Rightarrow> bool" where
  "attachments_ok db \<longleftrightarrow>
     (\<forall>r \<in> set (services db). s_provider r = Flash \<and> attachment_of r \<noteq> None \<longrightarrow>
        (\<exists>v \<in> set (services db). hosts v r))"

definition private_name :: "service_row \<Rightarrow> (uuid \<times> str) option" where
  "private_name r =
     map_option (\<lambda>n. (at_vpc_id n, private_name_of (s_id r) n)) (attachment_of r)"

definition names_ok :: "store \<Rightarrow> bool" where
  "names_ok db \<longleftrightarrow>
     (\<forall>r \<in> set (services db). \<forall>r' \<in> set (services db).
        s_provider r = Flash \<and> s_provider r' = Flash \<and> s_id r \<noteq> s_id r'
        \<and> private_name r \<noteq> None \<longrightarrow> private_name r \<noteq> private_name r')"

definition store_inv :: "('n::linorder) platform \<Rightarrow> store \<Rightarrow> bool" where
  "store_inv pf db \<longleftrightarrow>
     distinct (map s_id (services db)) \<and> (\<forall>r \<in> set (services db). row_ok pf r)
     \<and> (\<forall>a. within db a platform_dimensions) \<and> ports_ok db \<and> buckets_ok db
     \<and> attachments_ok db \<and> names_ok db"

subsection \<open>Writing one row\<close>

text \<open>What a write needs to keep the invariant, whatever operation it belongs to.\<close>

definition puts :: "service_row \<Rightarrow> store \<Rightarrow> store \<Rightarrow> bool" where
  "puts row db db' \<longleftrightarrow>
     distinct (map s_id (services db'))
     \<and> set (services db') = insert row {r \<in> set (services db). s_id r \<noteq> s_id row}"

definition admissible :: "('n::linorder) platform \<Rightarrow> store \<Rightarrow> service_row \<Rightarrow> bool" where
  "admissible pf db row \<longleftrightarrow>
     row_ok pf row
     \<and> (s_state row \<noteq> Deleting \<longrightarrow>
          fits db (s_organization_id row) (Some (s_id row)) (s_provider row) row platform_dimensions)
     \<and> (\<forall>r \<in> set (services db). s_id r \<noteq> s_id row \<longrightarrow>
          (live Flash row \<and> live Flash r \<longrightarrow> flash_keys row \<inter> flash_keys r = {})
          \<and> (s_provider row = Syouyu \<and> s_provider r = Syouyu \<longrightarrow> bucket_of row \<noteq> bucket_of r)
          \<and> (s_provider row = Flash \<and> s_provider r = Flash \<and> private_name row \<noteq> None \<longrightarrow>
               private_name row \<noteq> private_name r)
          \<and> (attached_to (s_id row) r \<longrightarrow> hosts row r))
     \<and> (s_provider row = Flash \<and> attachment_of row \<noteq> None \<longrightarrow>
          (\<exists>v \<in> set (services db). s_id v \<noteq> s_id row \<and> hosts v row))"

lemma puts_append:
  "distinct (map s_id (services db)) \<Longrightarrow> service_by_id db (s_id row) = None \<Longrightarrow>
   services db' = services db @ [row] \<Longrightarrow> puts row db db'"
  by (auto simp: puts_def service_by_id_def find_None_iff)

lemma puts_update:
  assumes "distinct (map s_id (services db))" "r \<in> set (services db)" "s_id r = sid" "s_id row = sid"
    "services db' = map (\<lambda>x. if s_id x = sid then row else x) (services db)"
  shows "puts row db db'"
proof -
  have "map s_id (services db') = map s_id (services db)" using assms by auto
  moreover have "set (services db') = insert row {r \<in> set (services db). s_id r \<noteq> s_id row}"
    using assms by (auto simp: image_iff)
  ultimately show ?thesis using assms(1) by (simp add: puts_def)
qed

lemma account_rows_puts:
  assumes "puts row db db'"
  shows "account_rows db' a p =
    (if s_organization_id row = a \<and> live p row then insert row (other_rows db a p (Some (s_id row)))
     else other_rows db a p (Some (s_id row)))"
proof -
  have "set (services db') = insert row {r \<in> set (services db). s_id r \<noteq> s_id row}"
    using assms by (simp add: puts_def)
  then have mem: "x \<in> set (services db') \<longleftrightarrow> x = row \<or> x \<in> set (services db) \<and> s_id x \<noteq> s_id row" for x
    by simp
  show ?thesis
  proof (intro set_eqI)
    fix x
    show "x \<in> account_rows db' a p \<longleftrightarrow> x \<in> (if s_organization_id row = a \<and> live p row
      then insert row (other_rows db a p (Some (s_id row))) else other_rows db a p (Some (s_id row)))"
      by (cases "x = row") (simp_all add: mem account_rows_def other_rows_def, force)
  qed
qed

lemma within_puts:
  assumes "puts row db db'" "\<forall>a. within db a dims"
    "live (s_provider row) row \<Longrightarrow>
       fits db (s_organization_id row) (Some (s_id row)) (s_provider row) row dims"
  shows "within db' a dims"
  unfolding within_def
proof (clarify)
  fix p m limit assume dim: "(p, m, limit) \<in> dims"
  let ?others = "other_rows db a p (Some (s_id row))"
  show "(\<Sum>r \<in> account_rows db' a p. m r) \<le> limit"
  proof (cases "s_organization_id row = a \<and> live p row")
    case True
    then have "(\<Sum>r \<in> ?others. m r) + m row \<le> limit"
      using assms(3) dim by (auto simp: fits_def live_def)
    moreover have "row \<notin> ?others" by (simp add: other_rows_def)
    ultimately show ?thesis using True by (simp add: account_rows_puts [OF assms(1)])
  next
    case False
    then have "account_rows db' a p = ?others" by (simp only: account_rows_puts [OF assms(1)] if_False)
    then show ?thesis using others_within [OF spec [OF assms(2)] dim] by simp
  qed
qed

lemma store_invD:
  assumes "store_inv pf db"
  shows "distinct (map s_id (services db))" "r \<in> set (services db) \<Longrightarrow> row_ok pf r"
    "within db a platform_dimensions" "ports_ok db" "buckets_ok db" "attachments_ok db" "names_ok db"
  using assms by (auto simp: store_inv_def)

lemma same_id_same_row:
  "store_inv pf db \<Longrightarrow> r \<in> set (services db) \<Longrightarrow> r' \<in> set (services db) \<Longrightarrow> s_id r = s_id r' \<Longrightarrow> r = r'"
  by (auto simp: store_inv_def distinct_map dest: inj_onD)

lemma hosts_attached: "hosts v r \<Longrightarrow> s_provider r = Flash \<Longrightarrow> attached_to (s_id v) r \<and> s_provider v = Vpc"
  by (auto simp: hosts_def attached_to_def attachment_of_def split: service_spec.splits option.splits)

lemma attachments_puts:
  assumes "store_inv pf db" "puts row db db'" "admissible pf db row"
  shows "attachments_ok db'"
  unfolding attachments_ok_def
proof (clarify)
  fix r n assume r: "r \<in> set (services db')" "s_provider r = Flash" "attachment_of r = Some n"
  show "\<exists>v \<in> set (services db'). hosts v r"
  proof (cases "r = row")
    case True
    with assms(2,3) r show ?thesis by (auto simp: admissible_def puts_def)
  next
    case False
    with assms(2) r have old: "r \<in> set (services db)" "s_id r \<noteq> s_id row" by (auto simp: puts_def)
    with store_invD(6) [OF assms(1)] r obtain v where v: "v \<in> set (services db)" "hosts v r"
      by (auto simp: attachments_ok_def)
    show ?thesis
    proof (cases "s_id v = s_id row")
      case True
      with hosts_attached [OF v(2) r(2)] assms(3) old have "hosts row r" by (auto simp: admissible_def)
      then show ?thesis using assms(2) by (auto simp: puts_def)
    next
      case False
      then show ?thesis using assms(2) v by (auto simp: puts_def)
    qed
  qed
qed

lemma store_inv_puts:
  assumes inv: "store_inv pf db" and put: "puts row db db'" and adm: "admissible pf db row"
  shows "store_inv pf db'"
proof -
  have set': "set (services db') = insert row {r \<in> set (services db). s_id r \<noteq> s_id row}"
    using put by (simp add: puts_def)
  have "\<forall>a. within db' a platform_dimensions"
    using within_puts [OF put] store_invD(3) [OF inv] adm by (auto simp: admissible_def live_def)
  moreover have "\<forall>r \<in> set (services db'). row_ok pf r"
    using adm store_invD(2) [OF inv] by (auto simp: set' admissible_def)
  moreover have "ports_ok db'"
    using adm store_invD(4) [OF inv] unfolding ports_ok_def set' admissible_def
    by (simp add: Int_commute)
  moreover have "buckets_ok db'"
    using adm store_invD(5) [OF inv] unfolding buckets_ok_def set' admissible_def
    by simp metis
  moreover have "names_ok db'"
    using adm store_invD(7) [OF inv] unfolding names_ok_def set' admissible_def
    by simp metis
  ultimately show ?thesis
    using put attachments_puts [OF inv put adm] by (simp add: store_inv_def puts_def)
qed
subsection \<open>Admission implies the invariant\<close>

definition target_of :: "store \<Rightarrow> uuid \<Rightarrow> provider \<Rightarrow> uuid \<Rightarrow> uuid \<Rightarrow> service_row option \<Rightarrow> bool" where
  "target_of db sid p organization project existing =
     (case existing of
        None \<Rightarrow> service_by_id db sid = None
      | Some e \<Rightarrow> e \<in> set (services db) \<and> s_id e = sid \<and> s_provider e = p
          \<and> s_organization_id e = organization \<and> s_project_id e = project)"

lemma fresh_id: "service_by_id db sid = None \<Longrightarrow> r \<in> set (services db) \<Longrightarrow> s_id r \<noteq> sid"
  by (auto simp: service_by_id_def find_None_iff)

lemma fits_target:
  assumes "target_of db sid p a project existing"
    "fits db a (map_option s_id existing) p row dims"
  shows "fits db a (Some sid) p row dims"
proof (cases existing)
  case None
  with assms(1) have "service_by_id db sid = None" by (simp add: target_of_def)
  then have "other_rows db a p None = other_rows db a p (Some sid)"
    by (auto simp: other_rows_def account_rows_def dest: fresh_id)
  with assms(2) None show ?thesis by (simp add: fits_def)
qed (use assms in \<open>auto simp: target_of_def\<close>)

lemma quota_valid:
  "resource_quota_in_transaction db a = Inr q \<Longrightarrow> validate_quota_limits q = Inr ()"
  by (auto simp: resource_quota_in_transaction_def parse_resource_quota_def validate_resource_quota_def
      bindE_Inr_iff split: if_splits)

lemma target_row:
  assumes "store_inv pf db" "target_of db sid p a project existing" "v \<in> set (services db)" "s_id v = sid"
  shows "existing = Some v \<and> s_provider v = p \<and> s_organization_id v = a \<and> s_project_id v = project"
proof (cases existing)
  case None
  with assms(2-4) show ?thesis by (auto simp: target_of_def dest: fresh_id)
next
  case (Some e)
  with assms(2,4) have e: "e \<in> set (services db)" "s_id v = s_id e" by (auto simp: target_of_def)
  then have "v = e" by (rule same_id_same_row [OF assms(1,3)])
  with assms(2) Some show ?thesis by (simp add: target_of_def)
qed

lemma attached_target:
  assumes "store_inv pf db" "target_of db sid p a project existing"
    "r \<in> set (services db)" "attached_to sid r"
  shows "\<exists>v. existing = Some v \<and> p = Vpc \<and> hosts v r"
proof -
  from assms(4) obtain n where r: "s_provider r = Flash" "attachment_of r = Some n" "at_vpc_id n = sid"
    by (auto simp: attached_to_def split: option.splits)
  with store_invD(6) [OF assms(1)] assms(3) obtain v where v: "v \<in> set (services db)" "hosts v r"
    by (auto simp: attachments_ok_def)
  from v(2) r have "s_id v = sid" "s_provider v = Vpc"
    by (auto simp: hosts_def attachment_of_def split: service_spec.splits option.splits)
  with target_row [OF assms(1,2) v(1)] v(2) show ?thesis by simp
qed

lemma buckets_okD:
  "buckets_ok db \<Longrightarrow> r \<in> set (services db) \<Longrightarrow> r' \<in> set (services db) \<Longrightarrow> s_provider r = Syouyu \<Longrightarrow>
   s_provider r' = Syouyu \<Longrightarrow> bucket_of r = bucket_of r' \<Longrightarrow> s_id r = s_id r'"
  unfolding buckets_ok_def by blast

lemma bucket_free:
  assumes "store_inv pf db" "prepare_syouyu_spec jl db a e spec quota = Inr prepared"
    "s_spec row = prepared" "r \<in> set (services db)" "s_provider r = Syouyu" "e \<noteq> Some (s_id r)"
  shows "bucket_of row \<noteq> bucket_of r"
proof
  assume same: "bucket_of row = bucket_of r"
  from assms(2) obtain s where s: "prepared = SyouyuSpec s"
    and owner: "\<not> (case find (\<lambda>x. s_provider x = Syouyu \<and> bucket_of x = Some (bucket_name s)) (services db) of
      None \<Rightarrow> False | Some owner \<Rightarrow> e \<noteq> Some (s_id owner))"
    by (auto simp: prepare_syouyu_spec_def bindE_Inr_iff)
  from s same assms(3) have r: "bucket_of r = Some (bucket_name s)" by (simp add: bucket_of_def)
  show False
  proof (cases "find (\<lambda>x. s_provider x = Syouyu \<and> bucket_of x = Some (bucket_name s)) (services db)")
    case None
    with assms(4,5) r show False by (auto simp: find_None_iff)
  next
    case (Some x)
    with owner have e: "e = Some (s_id x)" by simp
    from Some have "x \<in> set (services db)" "s_provider x = Syouyu" "bucket_of x = bucket_of r"
      using r by (auto dest: find_eq_Some)
    then have "s_id x = s_id r" using buckets_okD [OF store_invD(5) [OF assms(1)]] assms(4,5) by blast
    with e assms(6) show False by simp
  qed
qed

lemma attachment_facts:
  assumes "store_inv pf db" "target_of db sid Flash a project existing"
    "validate_vpc_attachment db a (s_project_id row) sid (s_spec row) = Inr ()"
    "s_id row = sid" "s_organization_id row = a" "attachment_of row \<noteq> None"
  shows "(\<exists>v \<in> set (services db). s_id v \<noteq> sid \<and> hosts v row)
    \<and> (\<forall>r \<in> set (services db). s_id r \<noteq> sid \<and> s_provider r = Flash \<longrightarrow> private_name row \<noteq> private_name r)"
proof -
  from assms(6) obtain s n where s: "s_spec row = FlashSpec s" "network s = Some n"
    by (auto simp: attachment_of_def split: service_spec.splits)
  from assms(3) s obtain v vpc where v: "v \<in> set (services db)" "s_id v = at_vpc_id n"
      "s_organization_id v = a" "s_project_id v = s_project_id row" "s_provider v = Vpc"
      "s_state v \<noteq> Deleting" "s_spec v = VpcSpec vpc" "vpc_region vpc = fs_region s"
      "set (at_security_groups n) \<subseteq> set (vpc_security_groups vpc)"
    and names: "\<not> list_ex (\<lambda>r. s_organization_id r = a \<and> s_id r \<noteq> sid \<and> attached_to (at_vpc_id n) r
        \<and> map_option (private_name_of (s_id r)) (attachment_of r) = Some (private_name_of sid n)) (services db)"
    by (auto simp: validate_vpc_attachment_def bindE_Inr_iff ok_or_def list_ex_iff subset_iff
        split: option.splits dest: find_eq_Some)
  have host: "hosts v row" using v s assms(5) by (auto simp: hosts_def)
  have "s_id v \<noteq> sid"
    using target_row [OF assms(1,2) v(1)] v(5) by auto
  moreover have "private_name row \<noteq> private_name r"
    if r: "r \<in> set (services db)" "s_id r \<noteq> sid" "s_provider r = Flash" for r
  proof
    assume same: "private_name row = private_name r"
    have "attachment_of row = Some n" using s by (simp add: attachment_of_def)
    with same assms(4) obtain n' where n': "attachment_of r = Some n'" "at_vpc_id n' = at_vpc_id n"
      "private_name_of (s_id r) n' = private_name_of sid n"
      by (cases "attachment_of r") (auto simp: private_name_def)
    then have att: "attached_to (at_vpc_id n) r" using r by (simp add: attached_to_def)
    from store_invD(6) [OF assms(1)] r n' obtain w where w: "w \<in> set (services db)" "hosts w r"
      by (auto simp: attachments_ok_def)
    with n' have "s_id w = at_vpc_id n" "s_organization_id w = s_organization_id r"
      by (auto simp: hosts_def attachment_of_def split: service_spec.splits option.splits)
    with v same_id_same_row [OF assms(1) w(1) v(1)] have "s_organization_id r = a" by simp
    with names r att n' show False by (auto simp: list_ex_iff)
  qed
  ultimately show ?thesis using v(1) host by blast
qed

lemma prepare_vpc_facts:
  "prepare_vpc_spec db a project sid spec creating = Inr prepared \<Longrightarrow>
   \<exists>vpc. prepared = VpcSpec vpc
     \<and> (\<forall>r \<in> set (services db). s_organization_id r = a \<and> attached_to sid r \<longrightarrow> vpc_serves vpc r = Inr ())"
  by (auto simp: prepare_vpc_spec_def bindE_Inr_iff)

lemma prepared_row:
  assumes "store_inv pf db" "target_of db (s_id row) (s_provider row) (s_organization_id row) project existing"
    "s_state row \<noteq> Deleting" "1 \<le> s_generation row"
    "prepare_spec pf db (s_organization_id row) project prin (s_provider row) (s_id row) existing spec
       = Inr (s_spec row)"
  shows "row_ok pf row
    \<and> fits db (s_organization_id row) (Some (s_id row)) (s_provider row) row platform_dimensions
    \<and> (\<forall>r \<in> set (services db). s_id r \<noteq> s_id row \<longrightarrow>
          (live Flash row \<and> live Flash r \<longrightarrow> flash_keys row \<inter> flash_keys r = {})
          \<and> (s_provider row = Syouyu \<and> s_provider r = Syouyu \<longrightarrow> bucket_of row \<noteq> bucket_of r))"
proof -
  let ?e = "map_option s_id existing"
  have excl: "?e \<noteq> Some (s_id r)" if "s_id r \<noteq> s_id row" for r
    using assms(2) that by (auto simp: target_of_def split: option.splits)
  note d = store_invD(1) [OF assms(1)] and w = store_invD(3) [OF assms(1)]
  have fit: "fits db (s_organization_id row) (Some (s_id row)) (s_provider row) row platform_dimensions"
    if "resource_quota_in_transaction db (s_organization_id row) = Inr q"
      "fits db (s_organization_id row) ?e (s_provider row) row (quota_dimensions q)" for q
    using fits_target [OF assms(2)] fits_platform [OF quota_valid [OF that(1)] that(2)] by blast
  show ?thesis
  proof (cases "s_provider row")
    case Flow
    with assms(5) obtain q where q: "resource_quota_in_transaction db (s_organization_id row) = Inr q"
      and ok: "prepare_flow_spec db (s_organization_id row) ?e spec q = Inr (s_spec row)"
      by (auto simp: prepare_spec_def bindE_Inr_iff Let_def)
    from prepare_flow_fits [OF d quota_valid [OF q] w ok refl] fit [OF q] Flow assms(4)
    show ?thesis by (auto simp: row_ok_def live_def)
  next
    case Flash
    with assms(5) obtain q where q: "resource_quota_in_transaction db (s_organization_id row) = Inr q"
      and ok: "prepare_flash_spec pf db (s_organization_id row) prin ?e (map_option s_spec existing) spec q
        = Inr (s_spec row)"
      by (auto simp: prepare_spec_def bindE_Inr_iff Let_def)
    note facts = prepare_flash_facts [OF d w ok refl]
    from facts fit [OF q] Flash assms(4)
    have "row_ok pf row" "fits db (s_organization_id row) (Some (s_id row)) (s_provider row) row platform_dimensions"
      by (auto simp: row_ok_def)
    moreover have "flash_keys row \<inter> flash_keys r = {}"
      if "r \<in> set (services db)" "s_id r \<noteq> s_id row" "live Flash r" for r
      using facts excl [OF that(2)] that by blast
    ultimately show ?thesis using Flash by simp
  next
    case Syouyu
    with assms(5) obtain q where q: "resource_quota_in_transaction db (s_organization_id row) = Inr q"
      and ok: "prepare_syouyu_spec (json_len pf) db (s_organization_id row) ?e spec q = Inr (s_spec row)"
      by (auto simp: prepare_spec_def bindE_Inr_iff Let_def)
    from prepare_syouyu_fits [OF d quota_valid [OF q] w ok refl] fit [OF q] Syouyu assms(4)
    have "row_ok pf row" "fits db (s_organization_id row) (Some (s_id row)) (s_provider row) row platform_dimensions"
      by (auto simp: row_ok_def)
    moreover have "bucket_of row \<noteq> bucket_of r"
      if "r \<in> set (services db)" "s_id r \<noteq> s_id row" "s_provider r = Syouyu" for r
      using bucket_free [OF assms(1) ok refl that(1,3) excl [OF that(2)]] .
    ultimately show ?thesis using Syouyu by (simp add: live_def)
  next
    case Vpc
    with assms(5) obtain v where "s_spec row = VpcSpec v"
      by (auto simp: prepare_spec_def dest: prepare_vpc_facts)
    with Vpc assms(4) show ?thesis by (auto simp: row_ok_def live_def fits_def platform_dimensions_def)
  next
    case (OtherProvider x)
    with assms(4) show ?thesis by (auto simp: row_ok_def live_def fits_def platform_dimensions_def)
  qed
qed

lemma vpc_keeps_members:
  assumes "store_inv pf db" "target_of db (s_id row) (s_provider row) (s_organization_id row) project existing"
    "s_state row \<noteq> Deleting" "s_provider row \<noteq> Flash \<Longrightarrow> s_project_id row = project"
    "prepare_spec pf db (s_organization_id row) project prin (s_provider row) (s_id row) existing spec
       = Inr (s_spec row)"
    "r \<in> set (services db)" "attached_to (s_id row) r"
  shows "hosts row r"
proof -
  from attached_target [OF assms(1,2,6,7)] obtain v where v: "existing = Some v" "s_provider row = Vpc" "hosts v r"
    by blast
  with assms(2,4) have row: "s_organization_id v = s_organization_id row" "s_project_id v = s_project_id row"
    by (auto simp: target_of_def)
  from v(3) obtain s n where s: "s_spec r = FlashSpec s" "network s = Some n"
    and r: "s_organization_id r = s_organization_id v" "s_project_id r = s_project_id v"
    by (auto simp: hosts_def split: service_spec.splits option.splits)
  from assms(7) s have "at_vpc_id n = s_id row" by (simp add: attached_to_def attachment_of_def)
  moreover from assms(5) v(2) obtain vpc where vpc: "s_spec row = VpcSpec vpc"
    and "\<forall>r \<in> set (services db). s_organization_id r = s_organization_id row
      \<and> attached_to (s_id row) r \<longrightarrow> vpc_serves vpc r = Inr ()"
    by (auto simp: prepare_spec_def dest: prepare_vpc_facts)
  then have "vpc_serves vpc r = Inr ()" using assms(6,7) r row by simp
  then have "vpc_region vpc = fs_region s" "set (at_security_groups n) \<subseteq> set (vpc_security_groups vpc)"
    using s by (auto simp: vpc_serves_def list_ex_iff)
  ultimately show ?thesis using s vpc v(2) assms(3) row r by (simp add: hosts_def)
qed

lemma prepared_admissible:
  assumes "store_inv pf db" "target_of db (s_id row) (s_provider row) (s_organization_id row) project existing"
    "s_state row \<noteq> Deleting" "1 \<le> s_generation row"
    "s_provider row \<noteq> Flash \<Longrightarrow> s_project_id row = project"
    "s_provider row = Flash \<Longrightarrow>
       validate_vpc_attachment db (s_organization_id row) (s_project_id row) (s_id row) (s_spec row) = Inr ()"
    "prepare_spec pf db (s_organization_id row) project prin (s_provider row) (s_id row) existing spec
       = Inr (s_spec row)"
  shows "admissible pf db row"
proof -
  note prepared = prepared_row [OF assms(1-4,7)] and members = vpc_keeps_members [OF assms(1-3,5,7)]
  have names: "(\<exists>v \<in> set (services db). s_id v \<noteq> s_id row \<and> hosts v row)
    \<and> (\<forall>r \<in> set (services db). s_id r \<noteq> s_id row \<and> s_provider r = Flash \<longrightarrow> private_name row \<noteq> private_name r)"
    if "s_provider row = Flash" "attachment_of row \<noteq> None"
    using attachment_facts [OF assms(1) assms(2) [unfolded that(1)] assms(6) refl refl that(2)] that by blast
  have "private_name row \<noteq> None \<longleftrightarrow> attachment_of row \<noteq> None" by (simp add: private_name_def)
  then show ?thesis unfolding admissible_def using prepared members names by blast
qed
subsection \<open>A row kept as it is\<close>

lemma validate_stopped_parts:
  "validate_flash_image (s\<lparr>stopped := b\<rparr>) = validate_flash_image s"
  "validate_autoscaling (s\<lparr>stopped := b\<rparr>) = validate_autoscaling s"
  "validate_compute (s\<lparr>stopped := b\<rparr>) = validate_compute s"
  "validate_ports x (s\<lparr>stopped := b\<rparr>) = validate_ports x s"
  "validate_exposure pf (s\<lparr>stopped := b\<rparr>) = validate_exposure pf s"
  "validate_environment (s\<lparr>stopped := b\<rparr>) = validate_environment s"
  by (cases s, simp only: validate_flash_image_def validate_autoscaling_def validate_compute_def
      validate_ports_def private_ports_def validate_exposure_def validate_environment_def
      effective_secret_env_def flash_spec.simps)+

lemma validate_stopped [simp]: "validate_flash pf (s\<lparr>stopped := b\<rparr>) = validate_flash pf s"
  unfolding validate_flash_def validate_inner_def validate_stopped_parts by simp

lemma reserved_stopped [simp]: "reserved_replicas (s\<lparr>stopped := b\<rparr>) = reserved_replicas s"
  by (simp add: reserved_replicas_def split: option.split)

definition same_spec :: "service_spec \<Rightarrow> service_spec \<Rightarrow> bool" where
  "same_spec spec spec' \<longleftrightarrow>
     spec' = spec \<or> (\<exists>s b. spec = FlashSpec s \<and> spec' = FlashSpec (s\<lparr>stopped := b\<rparr>))"

lemma same_spec_facts:
  assumes "same_spec (s_spec r) (s_spec row)" "s_id row = s_id r"
  shows "flash_keys row = flash_keys r" "bucket_of row = bucket_of r"
    "attachment_of row = attachment_of r" "private_name row = private_name r"
    "s_provider row = s_provider r \<Longrightarrow> row_ok pf r \<Longrightarrow> 1 \<le> s_generation row \<Longrightarrow> row_ok pf row"
    "(p, m, limit) \<in> platform_dimensions \<Longrightarrow> m row = m r"
proof -
  show "flash_keys row = flash_keys r" "bucket_of row = bucket_of r"
    "attachment_of row = attachment_of r" "private_name row = private_name r"
    using assms by (auto simp: same_spec_def flash_keys_def bucket_of_def attachment_of_def
        private_name_def shares_ports_def split: if_splits)
  show "s_provider row = s_provider r \<Longrightarrow> row_ok pf r \<Longrightarrow> 1 \<le> s_generation row \<Longrightarrow> row_ok pf row"
    using assms(1) by (cases "s_provider r") (auto simp: same_spec_def row_ok_def)
  show "m row = m r" if "(p, m, limit) \<in> platform_dimensions"
    using assms(1) that unfolding platform_dimensions_def
    by (auto simp: same_spec_def rooms_of_def flash_amount_def bytes_of_def)
qed

lemma kept_admissible:
  assumes inv: "store_inv pf db" and r: "r \<in> set (services db)"
    and same: "s_id row = s_id r" "s_organization_id row = s_organization_id r"
      "s_project_id row = s_project_id r" "s_provider row = s_provider r" "same_spec (s_spec r) (s_spec row)"
    and gen: "1 \<le> s_generation row"
    and state: "s_state row = Deleting \<and>
        (s_provider r = Vpc \<longrightarrow> (\<forall>x \<in> set (services db). \<not> attached_to (s_id r) x))
      \<or> s_state row \<noteq> Deleting \<and> s_state r \<noteq> Deleting"
  shows "admissible pf db row"
proof -
  note facts = same_spec_facts [OF same(5,1)]
  have rok: "row_ok pf row" using facts(5) same(4) store_invD(2) [OF inv r] gen by blast
  have fit: "fits db (s_organization_id row) (Some (s_id row)) (s_provider row) row platform_dimensions"
    if live: "s_state row \<noteq> Deleting"
    unfolding fits_def
  proof (clarify)
    fix m b assume dim: "(s_provider row, m, b) \<in> platform_dimensions"
    let ?all = "account_rows db (s_organization_id row) (s_provider row)"
      and ?others = "other_rows db (s_organization_id row) (s_provider row) (Some (s_id row))"
    have "r \<in> ?all" using r same live state by (auto simp: account_rows_def live_def)
    moreover have "?others = ?all - {r}"
      unfolding other_rows_def
      using same(1) same_id_same_row [OF inv _ r] by (auto simp: account_rows_def)
    ultimately have "(\<Sum>x \<in> ?others. m x) + m r = (\<Sum>x \<in> ?all. m x)"
      by (simp add: sum.remove)
    moreover have "(\<Sum>x \<in> ?all. m x) \<le> b" using withinD [OF store_invD(3) [OF inv] dim] .
    ultimately show "(\<Sum>x \<in> ?others. m x) + m row \<le> b" using facts(6) [OF dim] by simp
  qed
  have old: "x \<in> set (services db) \<Longrightarrow> s_id x \<noteq> s_id row \<Longrightarrow> x \<noteq> r" for x using same(1) by auto
  have ports: "flash_keys row \<inter> flash_keys x = {}"
    if "x \<in> set (services db)" "s_id x \<noteq> s_id row" "live Flash row" "live Flash x" for x
    using store_invD(4) [OF inv] that r same state facts(1)
    unfolding ports_ok_def live_def by metis
  have buckets: "bucket_of row \<noteq> bucket_of x"
    if "x \<in> set (services db)" "s_id x \<noteq> s_id row" "s_provider row = Syouyu" "s_provider x = Syouyu" for x
    using buckets_okD [OF store_invD(5) [OF inv] r that(1)] that same facts(2) by metis
  have names: "private_name row \<noteq> private_name x"
    if "x \<in> set (services db)" "s_id x \<noteq> s_id row" "s_provider row = Flash" "s_provider x = Flash"
      "private_name row \<noteq> None" for x
    using store_invD(7) [OF inv] that r same facts(4) unfolding names_ok_def by metis
  have members: "hosts row x" if x: "x \<in> set (services db)" "attached_to (s_id row) x" for x
  proof -
    from x(2) have "s_provider x = Flash" "attachment_of x \<noteq> None"
      by (auto simp: attached_to_def split: option.splits)
    with store_invD(6) [OF inv] x(1) obtain v where v: "v \<in> set (services db)" "hosts v x"
      unfolding attachments_ok_def by blast
    with x(2) same(1) have "s_id v = s_id r"
      by (auto simp: hosts_def attached_to_def attachment_of_def split: service_spec.splits option.splits)
    with same_id_same_row [OF inv v(1) r] v(2) have host: "hosts r x" by simp
    then have "s_provider r = Vpc" by (auto simp: hosts_def split: service_spec.splits option.splits)
    with state x same(1) have "s_state row \<noteq> Deleting" by auto
    with host same show ?thesis
      by (auto simp: hosts_def same_spec_def split: service_spec.splits option.splits)
  qed
  have host: "\<exists>v \<in> set (services db). s_id v \<noteq> s_id row \<and> hosts v row"
    if "s_provider row = Flash" "attachment_of row \<noteq> None"
  proof -
    from that same(4) facts(3) store_invD(6) [OF inv] r obtain v where v: "v \<in> set (services db)" "hosts v r"
      unfolding attachments_ok_def by metis
    from v(2) have "s_provider v = Vpc" by (auto simp: hosts_def split: service_spec.splits option.splits)
    with that same have "s_id v \<noteq> s_id row" using same_id_same_row [OF inv v(1) r] by auto
    moreover have "hosts v row"
      using v(2) same by (auto simp: hosts_def same_spec_def split: service_spec.splits option.splits)
    ultimately show ?thesis using v(1) by blast
  qed
  show ?thesis unfolding admissible_def using rok fit ports buckets names members host by blast
qed

subsection \<open>What an operation writes\<close>

lemma gpu_request_frame:
  assumes "replace_gpu_request_if_flash p db sid a prin spec = Inr db'"
  shows "services db' = services db" "outbox db' = outbox db"
  using assms
  by (auto simp: replace_gpu_request_if_flash_def replace_flash_gpu_service_request_def bindE_Inr_iff
      split: if_splits option.splits)

lemma create_cases:
  assumes "create_service_instance pf eid now a project prin p name spec sid quota_user db = Inr (row, db')"
  obtains (existing) "service_by_id db sid = Some row" "s_organization_id row = a" "s_provider row = p" "db' = db"
  | (created) "service_by_id db sid = None" "s_id row = sid" "s_organization_id row = a"
      "s_project_id row = project" "s_provider row = p" "s_generation row = 1" "s_state row = Provisioning"
      "prepare_spec pf db a project prin p sid None spec = Inr (s_spec row)"
      "p = Flash \<Longrightarrow> validate_vpc_attachment db a project sid (s_spec row) = Inr ()"
      "services db' = services db @ [row]"
      "outbox db' = outbox db @ [new_event eid now TopicReconcile (service_event_of sid a project prin p 1)]"
proof (cases "service_by_id db sid")
  case (Some r)
  with assms existing show thesis by (auto simp: create_service_instance_def split: if_splits)
next
  case None
  from assms None obtain owner prepared db1 db2 where
    row: "row = \<lparr>s_id = sid, s_organization_id = a, s_project_id = project, s_provider = p, s_name = name,
        s_generation = 1, s_state = Provisioning, s_spec = prepared, s_status = JObject [], s_quota_user_id = owner\<rparr>"
    and prep: "prepare_spec pf db a project prin p sid None spec = Inr prepared"
    and vpc: "p = Flash \<Longrightarrow> validate_vpc_attachment db a project sid prepared = Inr ()"
    and ins: "insert_service db row = Inr db1"
    and gpu: "replace_gpu_request_if_flash p db1 sid a prin prepared = Inr db2"
    and db': "db' = enqueue (new_event eid now TopicReconcile (service_event_of sid a project prin p 1)) db2"
    by (auto simp: create_service_instance_def bindE_Inr_iff Let_def split: if_splits)
  from ins have "services db1 = services db @ [row]" "outbox db1 = outbox db"
    by (auto simp: insert_service_def split: if_splits)
  with gpu_request_frame [OF gpu] show thesis
    by (intro created) (use None row prep vpc db' in auto)
qed

lemma revoke_frame [simp]:
  "services (revoke_workload_tokens sid db) = services db" "outbox (revoke_workload_tokens sid db) = outbox db"
  by (simp_all add: revoke_workload_tokens_def)

lemma outbox_update_service [simp]: "outbox (update_service sid f db) = outbox db"
  by (simp add: update_service_def)

definition replaces :: "store \<Rightarrow> service_row \<Rightarrow> service_row \<Rightarrow> store \<Rightarrow> bool" where
  "replaces db e row db' \<longleftrightarrow>
     e \<in> set (services db) \<and> s_id row = s_id e \<and> s_organization_id row = s_organization_id e
     \<and> s_provider row = s_provider e \<and> s_generation row = s_generation e + 1
     \<and> s_state e \<noteq> Deleting
     \<and> services db' = map (\<lambda>x. if s_id x = s_id e then row else x) (services db)"

definition announces :: "store \<Rightarrow> uuid \<Rightarrow> datetime \<Rightarrow> topic \<Rightarrow> uuid \<Rightarrow> service_row \<Rightarrow> store \<Rightarrow> bool" where
  "announces db eid now topic prin row db' \<longleftrightarrow>
     outbox db' = outbox db @ [new_event eid now topic (service_event_of (s_id row) (s_organization_id row)
       (s_project_id row) prin (s_provider row) (s_generation row))]"

lemma replaces_puts:
  "store_inv pf db \<Longrightarrow> replaces db e row db' \<Longrightarrow> puts row db db'"
  by (rule puts_update [of db e "s_id e"]) (auto simp: replaces_def store_inv_def)

lemma update_cases:
  assumes "update_service_instance_checked pf eid now a sid p prin new_project name spec expected db
    = Inr (row, db')"
  obtains e where "replaces db e row db'" "announces db eid now TopicReconcile prin row db'"
    "s_id e = sid" "s_organization_id e = a" "s_provider e = p" "s_state row = Updating"
    "expected \<noteq> None \<Longrightarrow> expected = Some (s_generation e)"
    "p \<noteq> Flash \<Longrightarrow> s_project_id row = s_project_id e"
    "prepare_spec pf db a (s_project_id e) prin p sid (Some e) spec = Inr (s_spec row)"
    "p = Flash \<Longrightarrow> validate_vpc_attachment db a (s_project_id row) sid (s_spec row) = Inr ()
       \<and> (\<exists>old new. s_spec e = FlashSpec old \<and> s_spec row = FlashSpec new
            \<and> validate_flash_disk_update old (s_status e) new = Inr ())"
proof -
  from assms obtain e where e: "service_owned db sid a p = Some e"
    by (auto simp: update_service_instance_checked_def bindE_Inr_iff Let_def
        split: if_splits option.splits)
  note owned = service_owned_Some [OF e]
  define project where "project = (case new_project of None \<Rightarrow> s_project_id e | Some q \<Rightarrow> q)"
  from assms e obtain prepared generation db2 where
    proj: "new_project = None \<or> p = Flash" and gen: "checked_add_i64 (s_generation e) 1 = Some generation"
    and exp: "\<not> (case expected of None \<Rightarrow> False | Some g \<Rightarrow> g \<noteq> s_generation e)" and st: "s_state e \<noteq> Deleting"
    and prep: "prepare_spec pf db a (s_project_id e) prin p sid (Some e) spec = Inr prepared"
    and flash: "p = Flash \<Longrightarrow> validate_vpc_attachment db a project sid prepared = Inr ()
       \<and> (\<exists>old new. s_spec e = FlashSpec old \<and> prepared = FlashSpec new
            \<and> validate_flash_disk_update old (s_status e) new = Inr ())"
    and row: "row = e\<lparr>s_name := name, s_spec := prepared, s_generation := generation,
        s_project_id := project, s_state := Updating, s_status := JObject []\<rparr>"
    and gpu: "replace_gpu_request_if_flash p (update_service sid (\<lambda>_. row)
        (if p = Flash \<and> (flash_task_role (s_spec e) \<noteq> flash_task_role prepared
           \<or> project \<noteq> s_project_id e \<or> flash_stopped prepared) then revoke_workload_tokens sid db else db))
        sid a prin prepared = Inr db2"
    and db': "db' = enqueue (new_event eid now TopicReconcile
        (service_event_of sid a project prin p generation)) db2"
    unfolding update_service_instance_checked_def project_def
    by (auto simp: bindE_Inr_iff Let_def split: if_splits option.splits)
  have frame: "services db' = map (\<lambda>x. if s_id x = sid then row else x) (services db)"
    "outbox db' = outbox db @ [new_event eid now TopicReconcile (service_event_of sid a project prin p generation)]"
    using gpu_request_frame [OF gpu] db' by auto
  show thesis
    by (rule that [of e])
      (use frame owned proj gen exp st prep flash row in
        \<open>auto simp: replaces_def announces_def project_def checked_add_i64_Some split: option.splits\<close>)
qed

lemma stop_cases:
  assumes "set_flash_service_stopped pf eid now a sid prin stop db = Inr (row, db')"
  obtains (unchanged) "row \<in> set (services db)" "db' = db"
  | (changed) e where "replaces db e row db'" "announces db eid now TopicReconcile prin row db'"
      "s_id e = sid" "s_organization_id e = a" "s_provider e = Flash" "s_state row = Updating"
      "s_project_id row = s_project_id e"
      "same_spec (s_spec e) (s_spec row)
       \<or> validate_vpc_attachment db a (s_project_id e) sid (s_spec row) = Inr ()
         \<and> (\<exists>spec. prepare_spec pf db a (s_project_id e) prin Flash sid (Some e) spec = Inr (s_spec row))"
proof -
  from assms obtain e s where e: "service_owned db sid a Flash = Some e" and st: "s_state e \<noteq> Deleting"
    and s: "s_spec e = FlashSpec s"
    by (auto simp: set_flash_service_stopped_def bindE_Inr_iff split: if_splits option.splits)
  note owned = service_owned_Some [OF e]
  show thesis
  proof (cases "stopped s = stop")
    case True
    with assms e s st have "row = e" "db' = db"
      by (simp_all add: set_flash_service_stopped_def bindE_Inr_iff)
    with owned show thesis by (intro unchanged) auto
  next
    case False
    from owned have sid: "s_id e = sid" by simp
    from assms e s st False obtain spec generation db2 where
      gen: "checked_add_i64 (s_generation e) 1 = Some generation"
      and spec: "stop \<and> spec = FlashSpec (s\<lparr>stopped := True\<rparr>)
        \<or> validate_vpc_attachment db a (s_project_id e) sid spec = Inr ()
          \<and> prepare_spec pf db a (s_project_id e) prin Flash sid (Some e) (FlashSpec (s\<lparr>stopped := False\<rparr>)) = Inr spec"
      and row: "row = e\<lparr>s_spec := spec, s_generation := generation, s_state := Updating, s_status := JObject []\<rparr>"
      and gpu: "(if \<not> stop then replace_flash_gpu_service_request
           (update_service sid (\<lambda>_. row) (if stop then revoke_workload_tokens sid db else db)) sid a prin spec
         else Inr (update_service sid (\<lambda>_. row) (if stop then revoke_workload_tokens sid db else db))) = Inr db2"
      and db': "db' = enqueue (new_event eid now TopicReconcile
        (service_event_of sid a (s_project_id e) prin Flash generation)) db2"
      unfolding set_flash_service_stopped_def
      by (cases stop) (auto simp: bindE_Inr_iff Let_def prepare_spec_def sid)
    from gpu have "services db2 = map (\<lambda>x. if s_id x = sid then row else x) (services db)"
      "outbox db2 = outbox db"
      using gpu_request_frame [of Flash] by (auto simp: replace_gpu_request_if_flash_def split: if_splits)
    with db' have frame: "services db' = map (\<lambda>x. if s_id x = sid then row else x) (services db)"
      "outbox db' = outbox db @ [new_event eid now TopicReconcile
        (service_event_of sid a (s_project_id e) prin Flash generation)]" by auto
    have "same_spec (s_spec e) (s_spec row)
       \<or> validate_vpc_attachment db a (s_project_id e) sid (s_spec row) = Inr ()
         \<and> (\<exists>spec. prepare_spec pf db a (s_project_id e) prin Flash sid (Some e) spec = Inr (s_spec row))"
      using spec s row by (auto simp: same_spec_def)
    then show thesis
      by (intro changed [of e])
        (use frame owned gen st row in \<open>auto simp: replaces_def announces_def checked_add_i64_Some\<close>)
  qed
qed

lemma delete_cases:
  assumes "begin_delete_service_instance eid now a sid p prin db = Inr (row, db')"
  obtains (unchanged) "row \<in> set (services db)" "s_state row = Deleting" "db' = db"
  | (changed) e where "replaces db e row db'" "announces db eid now TopicDelete prin row db'"
      "s_id e = sid" "s_organization_id e = a" "s_provider e = p" "s_state row = Deleting"
      "s_project_id row = s_project_id e" "s_spec row = s_spec e"
      "p = Vpc \<Longrightarrow> \<forall>r \<in> set (services db). s_organization_id r = a \<longrightarrow> \<not> attached_to sid r"
proof -
  from assms obtain e where e: "service_owned db sid a p = Some e"
    by (auto simp: begin_delete_service_instance_def bindE_Inr_iff split: option.splits)
  note owned = service_owned_Some [OF e]
  show thesis
  proof (cases "s_state e = Deleting")
    case True
    with assms e have "row = e" "db' = db"
      by (simp_all add: begin_delete_service_instance_def bindE_Inr_iff)
    with owned True show thesis by (intro unchanged) auto
  next
    case False
    with assms e obtain generation where
      "checked_add_i64 (s_generation e) 1 = Some generation"
      "row = e\<lparr>s_generation := generation, s_state := Deleting, s_status := JObject []\<rparr>"
      "db' = enqueue (new_event eid now TopicDelete (service_event_of sid a (s_project_id e) prin p generation))
         (update_service sid (\<lambda>_. row) db)"
      "p = Vpc \<Longrightarrow> \<forall>r \<in> set (services db). s_organization_id r = a \<longrightarrow> \<not> attached_to sid r"
      by (auto simp: begin_delete_service_instance_def bindE_Inr_iff Let_def list_ex_iff
          split: option.splits)
    with False owned show thesis
      by (intro changed [of e]) (auto simp: replaces_def announces_def checked_add_i64_Some)
  qed
qed

subsection \<open>Every operation keeps the invariant\<close>

lemma create_inv:
  assumes inv: "store_inv pf db"
    and op: "create_service_instance pf eid now a project prin p name spec sid quota_user db = Inr (row, db')"
  shows "store_inv pf db'"
  using op
proof (cases rule: create_cases)
  case created
  have "admissible pf db row"
    by (rule prepared_admissible [OF inv, of _ project None]) (use created in \<open>simp_all add: target_of_def\<close>)
  with store_inv_puts [OF inv puts_append] created store_invD(1) [OF inv] show ?thesis by blast
qed (use inv in simp)

lemma target_existing:
  "replaces db e row db' \<Longrightarrow> target_of db (s_id row) (s_provider row) (s_organization_id row) (s_project_id e) (Some e)"
  by (simp add: replaces_def target_of_def)

lemma replaces_generation: "store_inv pf db \<Longrightarrow> replaces db e row db' \<Longrightarrow> 1 \<le> s_generation row"
  by (auto simp: replaces_def row_ok_def dest: store_invD(2))

lemma update_inv:
  assumes inv: "store_inv pf db"
    and op: "update_service_instance_checked pf eid now a sid p prin new_project name spec expected db
      = Inr (row, db')"
  shows "store_inv pf db'"
  using op
proof (cases rule: update_cases)
  case (1 e)
  have "admissible pf db row"
    by (rule prepared_admissible [OF inv target_existing [OF 1(1)] _ replaces_generation [OF inv 1(1)]])
      (use 1 in \<open>simp_all add: replaces_def\<close>)
  then show ?thesis by (rule store_inv_puts [OF inv replaces_puts [OF inv 1(1)]])
qed

lemma stop_inv:
  assumes inv: "store_inv pf db"
    and op: "set_flash_service_stopped pf eid now a sid prin stop db = Inr (row, db')"
  shows "store_inv pf db'"
  using op
proof (cases rule: stop_cases)
  case (changed e)
  note gen = replaces_generation [OF inv changed(1)]
  from changed(1) have e: "e \<in> set (services db)" "s_id row = s_id e" "s_organization_id row = s_organization_id e"
    "s_provider row = s_provider e" "s_state e \<noteq> Deleting" by (simp_all add: replaces_def)
  have "admissible pf db row"
  proof (cases "same_spec (s_spec e) (s_spec row)")
    case True
    show ?thesis by (rule kept_admissible [OF inv e(1) _ _ _ _ True gen]) (use changed e in simp_all)
  next
    case False
    with changed(8) obtain spec where
      "prepare_spec pf db a (s_project_id e) prin Flash sid (Some e) spec = Inr (s_spec row)"
      "validate_vpc_attachment db a (s_project_id e) sid (s_spec row) = Inr ()" by blast
    then show ?thesis
      by (intro prepared_admissible [OF inv target_existing [OF changed(1)] _ gen]) (use changed e in simp_all)
  qed
  then show ?thesis by (rule store_inv_puts [OF inv replaces_puts [OF inv changed(1)]])
qed (use inv in simp)

lemma attached_organization:
  assumes "store_inv pf db" "r \<in> set (services db)" "attached_to (s_id v) r" "v \<in> set (services db)"
  shows "s_organization_id r = s_organization_id v"
proof -
  from assms(3) have "s_provider r = Flash" "attachment_of r \<noteq> None"
    by (auto simp: attached_to_def split: option.splits)
  with store_invD(6) [OF assms(1)] assms(2) obtain w where w: "w \<in> set (services db)" "hosts w r"
    unfolding attachments_ok_def by blast
  with assms(3) have "s_id w = s_id v" "s_organization_id r = s_organization_id w"
    by (auto simp: hosts_def attached_to_def attachment_of_def split: service_spec.splits option.splits)
  with same_id_same_row [OF assms(1) w(1) assms(4)] show ?thesis by simp
qed

lemma begin_delete_inv:
  assumes inv: "store_inv pf db"
    and op: "begin_delete_service_instance eid now a sid p prin db = Inr (row, db')"
  shows "store_inv pf db'"
  using op
proof (cases rule: delete_cases)
  case (changed e)
  from changed(1) have e: "e \<in> set (services db)" "s_id row = s_id e" "s_organization_id row = s_organization_id e"
    "s_provider row = s_provider e" "s_state e \<noteq> Deleting" by (simp_all add: replaces_def)
  have unused: "s_provider e = Vpc \<longrightarrow> (\<forall>x \<in> set (services db). \<not> attached_to (s_id e) x)"
    using changed(3-5,9) attached_organization [OF inv _ _ e(1)] by metis
  have "admissible pf db row"
    by (rule kept_admissible [OF inv e(1) _ _ _ _ _ replaces_generation [OF inv changed(1)]])
      (use changed e unused in \<open>simp_all add: same_spec_def\<close>)
  then show ?thesis by (rule store_inv_puts [OF inv replaces_puts [OF inv changed(1)]])
qed (use inv in simp)

lemma store_inv_cong: "services db' = services db \<Longrightarrow> store_inv pf db' \<longleftrightarrow> store_inv pf db"
  by (simp only: store_inv_def within_def account_rows_def ports_ok_def buckets_ok_def
      attachments_ok_def names_ok_def)

lemma services_mark:
  "services (snd (mark_service_instance st sid p g op status db)) =
     map (\<lambda>x. if s_id x = sid \<and> s_generation x = g \<and> s_provider x = p
       then x\<lparr>s_state := st, s_status := operation_status op status\<rparr> else x) (services db)"
  by (simp add: mark_service_instance_def)

lemma outbox_mark [simp]: "outbox (snd (mark_service_instance st sid p g op status db)) = outbox db"
  by (simp add: mark_service_instance_def Let_def)

lemma mark_inv:
  assumes inv: "store_inv pf db" and st: "st \<noteq> Deleting"
    and live: "\<And>r. r \<in> set (services db) \<Longrightarrow> s_id r = sid \<Longrightarrow> s_generation r = g \<Longrightarrow> s_state r \<noteq> Deleting"
  shows "store_inv pf (snd (mark_service_instance st sid p g op status db))"
proof (cases "\<exists>r \<in> set (services db). s_id r = sid \<and> s_generation r = g \<and> s_provider r = p")
  case True
  then obtain r where r: "r \<in> set (services db)" "s_id r = sid" "s_generation r = g" "s_provider r = p" by blast
  let ?row = "r\<lparr>s_state := st, s_status := operation_status op status\<rparr>"
  have "services (snd (mark_service_instance st sid p g op status db))
    = map (\<lambda>x. if s_id x = sid then ?row else x) (services db)"
    unfolding services_mark
  proof (rule map_cong [OF refl])
    fix x assume x: "x \<in> set (services db)"
    show "(if s_id x = sid \<and> s_generation x = g \<and> s_provider x = p
      then x\<lparr>s_state := st, s_status := operation_status op status\<rparr> else x) = (if s_id x = sid then ?row else x)"
      using same_id_same_row [OF inv x r(1)] r by (cases "s_id x = sid") simp_all
  qed
  then have put: "puts ?row db (snd (mark_service_instance st sid p g op status db))"
    by (intro puts_update [OF store_invD(1) [OF inv] r(1,2)]) (use r in simp_all)
  have "admissible pf db ?row"
    by (rule kept_admissible [OF inv r(1)])
      (use store_invD(2) [OF inv r(1)] st live r in \<open>simp_all add: same_spec_def row_ok_def\<close>)
  with store_inv_puts [OF inv put] show ?thesis by blast
next
  case False
  then have "services (snd (mark_service_instance st sid p g op status db)) = services db"
    unfolding services_mark by (intro map_idI) auto
  then show ?thesis using inv store_inv_cong by blast
qed

lemma remove_inv:
  assumes inv: "store_inv pf db" and removed: "services db' = filter (\<lambda>r. \<not> dead r) (services db)"
    and dead: "\<And>r. dead r \<Longrightarrow> s_state r = Deleting"
  shows "store_inv pf db'"
proof -
  have sub: "set (services db') \<subseteq> set (services db)" using removed by auto
  have "within db' a platform_dimensions" for a
    unfolding within_def
  proof (clarify)
    fix p m limit assume dim: "(p, m, limit) \<in> platform_dimensions"
    have "account_rows db' a p \<subseteq> account_rows db a p" using sub by (auto simp: account_rows_def)
    then have "(\<Sum>r \<in> account_rows db' a p. m r) \<le> (\<Sum>r \<in> account_rows db a p. m r)"
      by (intro sum_mono2) auto
    also have "\<dots> \<le> limit" by (rule withinD [OF store_invD(3) [OF inv] dim])
    finally show "(\<Sum>r \<in> account_rows db' a p. m r) \<le> limit" .
  qed
  moreover have "attachments_ok db'"
    unfolding attachments_ok_def
  proof (clarify)
    fix r n assume r: "r \<in> set (services db')" "s_provider r = Flash" "attachment_of r = Some n"
    with sub store_invD(6) [OF inv] obtain v where v: "v \<in> set (services db)" "hosts v r"
      unfolding attachments_ok_def by blast
    from v(2) have "s_state v \<noteq> Deleting" by (auto simp: hosts_def split: service_spec.splits option.splits)
    with dead v removed show "\<exists>v \<in> set (services db'). hosts v r" by auto
  qed
  moreover have "distinct (map s_id (services db'))"
    using store_invD(1) [OF inv] removed by (simp add: distinct_map inj_on_def)
  moreover have "ports_ok db'" "buckets_ok db'" "names_ok db'"
    using store_invD(4,5,7) [OF inv] sub unfolding ports_ok_def buckets_ok_def names_ok_def by blast+
  ultimately show ?thesis using store_invD(2) [OF inv] sub by (auto simp: store_inv_def)
qed

lemma complete_delete_cases:
  obtains "complete_delete_service_instance sid p g db = (False, db)"
  | "fst (complete_delete_service_instance sid p g db)"
    "services (snd (complete_delete_service_instance sid p g db)) =
       filter (\<lambda>r. \<not> (s_id r = sid \<and> s_generation r = g \<and> s_provider r = p \<and> s_state r = Deleting)) (services db)"
    "outbox (snd (complete_delete_service_instance sid p g db)) = outbox db"
    "\<exists>r \<in> set (services db). s_id r = sid \<and> s_generation r = g \<and> s_provider r = p \<and> s_state r = Deleting"
  unfolding complete_delete_service_instance_def
  by (cases "list_ex (\<lambda>r. s_id r = sid \<and> s_generation r = g \<and> s_provider r = p \<and> s_state r = Deleting) (services db)")
    (simp_all add: Let_def list_ex_iff)

lemma complete_delete_inv:
  assumes "store_inv pf db"
  shows "store_inv pf (snd (complete_delete_service_instance sid p g db))"
proof (cases rule: complete_delete_cases [of sid p g db])
  case 2
  show ?thesis by (rule remove_inv [OF assms 2(2)]) simp
qed (use assms in simp)

end
