(* ===== verification/Quota_Admin.thy ===== *)
theory Quota_Admin
  imports Service_Invariant "HOL-Library.AList"
begin

section \<open>Administration of quotas\<close>

text \<open>
  The operations of \<open>src/crates/heterocloud-store/src/lib.rs\<close> and \<open>organizations.rs\<close> that read and
  change the quotas of the platform, of an account and of a member, assign a resource to the member
  whose allocation it uses, and queue the Flash services whose provider has to learn of a change.
  The identifiers of new outbox events are \<open>gen 0\<close>, \<open>gen 1\<close>, ...
\<close>

subsection \<open>Reading\<close>

definition effective_resource_quota :: "store \<Rightarrow> uuid \<Rightarrow> store_error + resource_quota_limits" where
  "effective_resource_quota db organization = resource_quota_in_transaction db organization"

definition effective_member_quota :: "store \<Rightarrow> uuid \<Rightarrow> uuid \<Rightarrow> store_error + resource_quota_limits" where
  "effective_member_quota db organization user =
     bindE (resource_quota_in_transaction db organization) (\<lambda>organization_limits.
     member_quota_in_transaction db organization user organization_limits)"

definition service_quota_user :: "store \<Rightarrow> uuid \<Rightarrow> uuid \<Rightarrow> store_error + uuid option" where
  "service_quota_user db organization sid =
     (case find (\<lambda>r. s_id r = sid \<and> s_organization_id r = organization) (services db) of
        None \<Rightarrow> Inl NotFound
      | Some r \<Rightarrow> Inr (s_quota_user_id r))"

definition principal_quota_user :: "store \<Rightarrow> uuid \<Rightarrow> uuid \<Rightarrow> store_error + uuid option" where
  "principal_quota_user db organization prin =
     (case find (\<lambda>p. p_id p = prin \<and> p_organization_id p = organization \<and> p_enabled p)
             (principals (iam db)) of
        None \<Rightarrow> Inl NotFound
      | Some p \<Rightarrow> Inr (case p_user_id p of Some u \<Rightarrow> Some u | None \<Rightarrow> p_quota_user_id p))"

definition cloud_flash_weekly_quota ::
    "store \<Rightarrow> uuid \<Rightarrow> store_error + (uuid list \<times> resource_quota_limits) option" where
  "cloud_flash_weekly_quota db account =
     bindE (ok_or (account_cloud db account) NotFound) (\<lambda>(cloud, management).
     if \<not> flash_weekly_quotas_enabled db then Inr None
     else
       (let members = take 10001 (sort (map ca_account_id
              (filter (\<lambda>a. ca_organization_id a = cloud) (cloud_accounts (iam db))))) in
       bindE (fail_if (members = [] \<or> length members > 10000)
                (Invariant ''invalid cloud organization account count'')) (\<lambda>_.
       bindE (parse_resource_quota (stored_quota db management)) (\<lambda>limits.
       Inr (Some (members, limits))))))"

subsection \<open>Queueing the services that use a quota\<close>

text \<open>The principal of the latest reconcile event of the service's generation.\<close>

definition later_event :: "outbox_row \<Rightarrow> outbox_row \<Rightarrow> outbox_row" where
  "later_event e e' =
     (if (ob_created_at e, ob_id e) < (ob_created_at e', ob_id e') then e' else e)"

definition reconciles :: "service_row \<Rightarrow> outbox_row \<Rightarrow> bool" where
  "reconciles s e \<longleftrightarrow>
     ob_aggregate_id e = s_id s \<and> ob_topic e = TopicReconcile
     \<and> (case ob_payload e of ServicePayload ev \<Rightarrow> ev_generation ev = s_generation s | _ \<Rightarrow> False)"

definition reconcile_principal :: "store \<Rightarrow> service_row \<Rightarrow> uuid option" where
  "reconcile_principal db s =
     (case filter (reconciles s) (outbox db) of
        [] \<Rightarrow> None
      | e # es \<Rightarrow>
          (case ob_payload (foldl later_event e es) of
             ServicePayload ev \<Rightarrow> Some (ev_principal_id ev)
           | _ \<Rightarrow> None))"

definition enabled_principals :: "store \<Rightarrow> uuid \<Rightarrow> uuid list" where
  "enabled_principals db organization =
     map p_id (filter (\<lambda>p. p_organization_id p = organization \<and> p_enabled p) (principals (iam db)))"

definition quota_event_principal :: "store \<Rightarrow> service_row \<Rightarrow> uuid option" where
  "quota_event_principal db s =
     (let ps = enabled_principals db (s_organization_id s) in
      if ps = [] then None
      else
        (case reconcile_principal db s of
           Some q \<Rightarrow> Some (if q \<in> set ps then q else min_list ps)
         | None \<Rightarrow> Some (min_list ps)))"

definition flash_quota_rows :: "store \<Rightarrow> uuid option \<Rightarrow> (service_row \<times> uuid) list" where
  "flash_quota_rows db organization =
     map (\<lambda>s. (s, the (quota_event_principal db s)))
       (filter (\<lambda>s. live Flash s \<and> (organization = None \<or> organization = Some (s_organization_id s))
                     \<and> quota_event_principal db s \<noteq> None)
         (sort_key s_id (services db)))"

definition flash_quota_event :: "uuid \<Rightarrow> datetime \<Rightarrow> service_row \<times> uuid \<Rightarrow> outbox_row" where
  "flash_quota_event eid now row =
     new_event eid now TopicFlashQuota
       (service_event_of (s_id (fst row)) (s_organization_id (fst row)) (s_project_id (fst row))
          (snd row) Flash (s_generation (fst row)))"

definition enqueue_flash_quota_reconcile_tx ::
    "(nat \<Rightarrow> uuid) \<Rightarrow> datetime \<Rightarrow> uuid option \<Rightarrow> store \<Rightarrow> nat \<times> store" where
  "enqueue_flash_quota_reconcile_tx gen now organization db =
     (let rows = flash_quota_rows db organization in
      (length rows,
       fold (\<lambda>(i, row). enqueue (flash_quota_event (gen i) now row)) (enumerate 0 rows) db))"

primrec enqueue_accounts_flash_quotas ::
    "(nat \<Rightarrow> uuid) \<Rightarrow> datetime \<Rightarrow> uuid list \<Rightarrow> store \<Rightarrow> store" where
  "enqueue_accounts_flash_quotas gen now [] db = db"
| "enqueue_accounts_flash_quotas gen now (a # as) db =
     (let (n, db1) = enqueue_flash_quota_reconcile_tx gen now (Some a) db in
      enqueue_accounts_flash_quotas (\<lambda>i. gen (n + i)) now as db1)"

definition managed_accounts :: "store \<Rightarrow> uuid \<Rightarrow> uuid list" where
  "managed_accounts db account =
     sort (map ca_account_id
       (filter (\<lambda>a. (ca_organization_id a, account) \<in> set (cloud_organizations (iam db)))
         (cloud_accounts (iam db))))"

definition enqueue_organization_flash_quotas_tx ::
    "(nat \<Rightarrow> uuid) \<Rightarrow> datetime \<Rightarrow> uuid \<Rightarrow> store \<Rightarrow> store" where
  "enqueue_organization_flash_quotas_tx gen now account db =
     (let managed = managed_accounts db account in
      enqueue_accounts_flash_quotas gen now (if managed = [] then [account] else managed) db)"

subsection \<open>Changing\<close>

definition update_resource_quota_defaults ::
    "(nat \<Rightarrow> uuid) \<Rightarrow> datetime \<Rightarrow> resource_quota_limits \<Rightarrow> store \<Rightarrow>
     store_error + resource_quota_limits \<times> store" where
  "update_resource_quota_defaults gen now limits db =
     bindE (validate_resource_quota limits) (\<lambda>_.
     bindE (parse_resource_quota limits) (\<lambda>stored.
     Inr (stored, snd (enqueue_flash_quota_reconcile_tx gen now None (db\<lparr>quota_defaults := limits\<rparr>)))))"

definition set_organization_resource_quota ::
    "(nat \<Rightarrow> uuid) \<Rightarrow> datetime \<Rightarrow> uuid \<Rightarrow> resource_quota_limits \<Rightarrow> store \<Rightarrow>
     store_error + resource_quota_limits \<times> store" where
  "set_organization_resource_quota gen now organization limits db =
     bindE (validate_resource_quota limits) (\<lambda>_.
     bindE (fail_if (organization \<notin> set (accounts db)) NotFound) (\<lambda>_.
     bindE (parse_resource_quota limits) (\<lambda>stored.
     Inr (stored, enqueue_organization_flash_quotas_tx gen now organization
            (db\<lparr>account_quotas := AList.update organization limits (account_quotas db)\<rparr>)))))"

definition clear_organization_resource_quota ::
    "(nat \<Rightarrow> uuid) \<Rightarrow> datetime \<Rightarrow> uuid \<Rightarrow> store \<Rightarrow> store_error + resource_quota_limits \<times> store" where
  "clear_organization_resource_quota gen now organization db =
     bindE (fail_if (organization \<notin> set (accounts db)) NotFound) (\<lambda>_.
     (let db1 = db\<lparr>account_quotas := AList.delete organization (account_quotas db)\<rparr> in
     bindE (resource_quota_in_transaction db1 organization) (\<lambda>limits.
     Inr (limits, enqueue_organization_flash_quotas_tx gen now organization db1))))"

definition enable_organization_flash_weekly_quotas ::
    "(nat \<Rightarrow> uuid) \<Rightarrow> datetime \<Rightarrow> store \<Rightarrow> nat \<times> store" where
  "enable_organization_flash_weekly_quotas gen now db =
     enqueue_flash_quota_reconcile_tx gen now None (db\<lparr>flash_weekly_quotas_enabled := True\<rparr>)"

definition unassigned_resources :: "store \<Rightarrow> uuid \<Rightarrow> bool" where
  "unassigned_resources db organization \<longleftrightarrow>
     list_ex (\<lambda>r. s_organization_id r = organization \<and> s_quota_user_id r = None
                  \<and> s_state r \<noteq> Deleting \<and> metered (s_provider r)) (services db)
     \<or> list_ex (\<lambda>p. p_organization_id p = organization \<and> p_quota_user_id p = None
                  \<and> p_kind p = Kind_ServiceAccount \<and> p_enabled p
                  \<and> (organization, p_id p) \<notin> set (identity_center_roles db)) (principals (iam db))"

definition shares_credentials :: "resource_quota_limits \<Rightarrow> resource_quota_limits \<Rightarrow> bool" where
  "shares_credentials limits organization \<longleftrightarrow>
     q_registry limits = q_registry organization
     \<and> max_credentials_per_bucket (q_syouyu limits) = max_credentials_per_bucket (q_syouyu organization)
     \<and> max_total_credentials (q_syouyu limits) = max_total_credentials (q_syouyu organization)"

definition set_member_resource_quota ::
    "(nat \<Rightarrow> uuid) \<Rightarrow> datetime \<Rightarrow> uuid \<Rightarrow> uuid \<Rightarrow> resource_quota_limits option \<Rightarrow> store \<Rightarrow>
     store_error + resource_quota_limits \<times> store" where
  "set_member_resource_quota gen now organization user limits db =
     bindE (resource_quota_in_transaction db organization) (\<lambda>organization_limits.
     bindE (fail_if (\<not> is_member db organization user) NotFound) (\<lambda>_.
     bindE (case limits of
              Some limits \<Rightarrow>
                bindE (validate_resource_quota limits) (\<lambda>_.
                bindE (first_error
                  [fail_if (unassigned_resources db organization)
                     (RequestRejected ''assign existing services and service accounts to a member before setting personal limits''),
                   fail_if (\<not> shares_credentials limits organization_limits)
                     (RequestRejected ''registry and Syouyu credential limits are shared by the organization'')]) (\<lambda>_.
                bindE (capped_limits organization_limits limits) (\<lambda>capped.
                bindE (fail_if (capped \<noteq> limits)
                         (RequestRejected ''member limits cannot exceed organization limits'')) (\<lambda>_.
                Inr (limits, db\<lparr>member_quotas :=
                       AList.update (organization, user) limits (member_quotas db)\<rparr>)))))
            | None \<Rightarrow>
                Inr (organization_limits,
                     db\<lparr>member_quotas := AList.delete (organization, user) (member_quotas db)\<rparr>)) (\<lambda>(effective, db1).
     Inr (effective, snd (enqueue_flash_quota_reconcile_tx gen now (Some organization) db1)))))"

definition assign_quota_resource ::
    "(nat \<Rightarrow> uuid) \<Rightarrow> datetime \<Rightarrow> uuid \<Rightarrow> uuid \<Rightarrow> uuid \<Rightarrow> bool \<Rightarrow> store \<Rightarrow> store_error + store" where
  "assign_quota_resource gen now organization resource_id user service_account db =
     bindE (fail_if (\<not> is_member db organization user) NotFound) (\<lambda>_.
     if service_account then
       (let free = (\<lambda>p. p_id p = resource_id \<and> p_organization_id p = organization
                        \<and> p_kind p = Kind_ServiceAccount \<and> p_quota_user_id p = None \<and> p_enabled p
                        \<and> (organization, resource_id) \<notin> set (identity_center_roles db)) in
       bindE (fail_if (length (filter free (principals (iam db))) \<noteq> 1) Conflict) (\<lambda>_.
       Inr (db\<lparr>iam := (iam db)\<lparr>principals :=
              map (\<lambda>p. if free p then p\<lparr>p_quota_user_id := Some user\<rparr> else p) (principals (iam db))\<rparr>\<rparr>)))
     else
       (let free = (\<lambda>r. s_id r = resource_id \<and> s_organization_id r = organization
                        \<and> s_quota_user_id r = None \<and> s_state r \<noteq> Deleting \<and> metered (s_provider r)) in
       bindE (fail_if (length (filter free (services db)) \<noteq> 1) Conflict) (\<lambda>_.
       Inr (snd (enqueue_flash_quota_reconcile_tx gen now (Some organization)
         (db\<lparr>services := map (\<lambda>r. if free r then r\<lparr>s_quota_user_id := Some user\<rparr> else r) (services db),
             quota_owners := map (\<lambda>(s, a, u). if s = resource_id \<and> a = organization \<and> u = None
               then (s, a, Some user) else (s, a, u)) (quota_owners db)\<rparr>))))))"

subsection \<open>Capping\<close>

definition flow_le :: "flow_quota_limits \<Rightarrow> flow_quota_limits \<Rightarrow> bool" where
  "flow_le f g \<longleftrightarrow>
     fq_max_services f \<le> fq_max_services g
     \<and> max_rooms_per_service f \<le> max_rooms_per_service g
     \<and> max_total_rooms f \<le> max_total_rooms g
     \<and> max_participants_per_service f \<le> max_participants_per_service g
     \<and> max_rate_limit_requests_per_second f \<le> max_rate_limit_requests_per_second g
     \<and> max_rate_limit_burst f \<le> max_rate_limit_burst g
     \<and> max_developer_credentials_per_service f \<le> max_developer_credentials_per_service g"

definition flash_le :: "flash_quota_limits \<Rightarrow> flash_quota_limits \<Rightarrow> bool" where
  "flash_le f g \<longleftrightarrow>
     hq_max_services f \<le> hq_max_services g
     \<and> max_replicas_per_service f \<le> max_replicas_per_service g
     \<and> max_cpu_millis_per_vm f \<le> max_cpu_millis_per_vm g
     \<and> max_memory_mib_per_vm f \<le> max_memory_mib_per_vm g
     \<and> max_disk_gib_per_vm f \<le> max_disk_gib_per_vm g
     \<and> max_total_replicas f \<le> max_total_replicas g
     \<and> max_total_cpu_millis f \<le> max_total_cpu_millis g
     \<and> max_total_memory_mib f \<le> max_total_memory_mib g
     \<and> max_total_disk_gib f \<le> max_total_disk_gib g
     \<and> max_weekly_cpu_millicore_seconds f \<le> max_weekly_cpu_millicore_seconds g
     \<and> max_weekly_memory_mib_seconds f \<le> max_weekly_memory_mib_seconds g
     \<and> max_weekly_gpu_seconds f \<le> max_weekly_gpu_seconds g"

definition registry_le :: "registry_quota_limits \<Rightarrow> registry_quota_limits \<Rightarrow> bool" where
  "registry_le f g \<longleftrightarrow>
     storage_gib f \<le> storage_gib g
     \<and> max_credentials f \<le> max_credentials g"

definition syouyu_le :: "syouyu_quota_limits \<Rightarrow> syouyu_quota_limits \<Rightarrow> bool" where
  "syouyu_le f g \<longleftrightarrow>
     max_buckets f \<le> max_buckets g
     \<and> max_bytes_per_bucket f \<le> max_bytes_per_bucket g
     \<and> max_objects_per_bucket f \<le> max_objects_per_bucket g
     \<and> max_total_bytes f \<le> max_total_bytes g
     \<and> max_credentials_per_bucket f \<le> max_credentials_per_bucket g
     \<and> max_total_credentials f \<le> max_total_credentials g"

definition quota_le :: "resource_quota_limits \<Rightarrow> resource_quota_limits \<Rightarrow> bool" where
  "quota_le q q' \<longleftrightarrow> flow_le (q_flow q) (q_flow q') \<and> flash_le (q_flash q) (q_flash q')
     \<and> registry_le (q_registry q) (q_registry q') \<and> syouyu_le (q_syouyu q) (q_syouyu q')"

lemma u64_of_mono: "u64_of a \<le> u64_of b \<longleftrightarrow> a \<le> b"
  by (simp add: word_le_nat_alt unat_u64_of)

lemma u64_of_min: "u64_of (min a b) = min (u64_of a) (u64_of b)"
  by (simp add: min_def u64_of_mono)

lemma cap_flow_valid:
  "validate_flow_quota f = Inr () \<Longrightarrow> validate_flow_quota g = Inr () \<Longrightarrow> validate_flow_quota (cap_flow f g) = Inr ()"
  by (auto simp: validate_flow_quota_def cap_flow_def in_range_def not_less u64_of_min min_le_iff_disj)

lemma cap_flash_valid:
  "validate_flash_quota f = Inr () \<Longrightarrow> validate_flash_quota g = Inr () \<Longrightarrow> validate_flash_quota (cap_flash f g) = Inr ()"
  by (auto simp: validate_flash_quota_def cap_flash_def in_range_def not_less u64_of_min min_le_iff_disj)

lemma cap_syouyu_valid:
  "validate_syouyu_quota f = Inr () \<Longrightarrow> validate_syouyu_quota g = Inr () \<Longrightarrow> validate_syouyu_quota (cap_syouyu f g) = Inr ()"
  by (auto simp: validate_syouyu_quota_def cap_syouyu_def in_range_def not_less min_le_iff_disj)

lemma shared_syouyu_valid:
  "validate_syouyu_quota f = Inr () \<Longrightarrow> validate_syouyu_quota g = Inr () \<Longrightarrow>
   validate_syouyu_quota (f\<lparr>max_credentials_per_bucket := max_credentials_per_bucket g,
     max_total_credentials := max_total_credentials g\<rparr>) = Inr ()"
  by (simp add: validate_syouyu_quota_def)

lemma cap_le:
  "flow_le (cap_flow f g) f" "flow_le (cap_flow f g) g" "flash_le (cap_flash h k) h" "flash_le (cap_flash h k) k"
  "syouyu_le (cap_syouyu a b) a" "syouyu_le (cap_syouyu a b) b"
  by (simp_all add: flow_le_def cap_flow_def flash_le_def cap_flash_def syouyu_le_def cap_syouyu_def)

lemma cap_flow_le: "flow_le g f \<Longrightarrow> cap_flow f g = g"
  by (simp add: flow_le_def cap_flow_def)

lemma cap_flash_le: "flash_le g f \<Longrightarrow> cap_flash f g = g"
  by (simp add: flash_le_def cap_flash_def)

lemma cap_syouyu_le: "syouyu_le g f \<Longrightarrow> cap_syouyu f g = g"
  by (simp add: syouyu_le_def cap_syouyu_def)

lemma cap_registry_le: "registry_le g f \<Longrightarrow> cap_registry f g = g"
  by (simp add: registry_le_def cap_registry_def)

lemma capped_limits_total:
  assumes "validate_quota_limits q = Inr ()" "validate_quota_limits m = Inr ()"
  shows "capped_limits q m = Inr \<lparr>q_flow = cap_flow (q_flow q) (q_flow m), q_flash = cap_flash (q_flash q) (q_flash m),
    q_registry = q_registry q,
    q_syouyu = (cap_syouyu (q_syouyu q) (q_syouyu m))\<lparr>
      max_credentials_per_bucket := max_credentials_per_bucket (q_syouyu q),
      max_total_credentials := max_total_credentials (q_syouyu q)\<rparr>\<rparr>"
proof -
  have "in_range 1 10240 (storage_gib (cap_registry (q_registry q) (q_registry m)))"
    "in_range 1 1000 (max_credentials (cap_registry (q_registry q) (q_registry m)))"
    using assms by (auto simp: validate_quota_limits_def cap_registry_def in_range_def min_le_iff_disj)
  with assms show ?thesis
    by (simp add: capped_limits_def parse_resource_quota_def validate_resource_quota_def validate_quota_limits_def
        cap_flow_valid cap_flash_valid cap_syouyu_valid)
qed

lemma capped_twice:
  assumes "validate_quota_limits q = Inr ()" "validate_quota_limits m = Inr ()" "capped_limits q m = Inr l"
  shows "validate_quota_limits l = Inr ()" "quota_le l q" "capped_limits q l = Inr l"
proof -
  note l = assms(3) [unfolded capped_limits_total [OF assms(1,2)] sum.inject, symmetric]
  show valid: "validate_quota_limits l = Inr ()"
    using assms(1,2) unfolding l
    by (simp add: validate_quota_limits_def cap_flow_valid cap_flash_valid cap_syouyu_valid shared_syouyu_valid)
  show le: "quota_le l q"
    using cap_le unfolding l quota_le_def by (simp add: registry_le_def syouyu_le_def)
  show "capped_limits q l = Inr l"
    using le unfolding capped_limits_total [OF assms(1) valid] quota_le_def
    by (simp add: cap_flow_le cap_flash_le cap_syouyu_le) (simp add: l)
qed

subsection \<open>Effective quotas\<close>

lemma parse_resource_quota_Inr:
  "parse_resource_quota q = Inr q' \<longleftrightarrow> q' = q \<and> validate_quota_limits q = Inr ()"
  by (cases "validate_quota_limits q") (auto simp: parse_resource_quota_def validate_resource_quota_def)

lemma resource_quota_valid:
  "resource_quota_in_transaction db a = Inr q \<Longrightarrow> validate_quota_limits q = Inr ()"
  by (auto simp: resource_quota_in_transaction_def parse_resource_quota_Inr split: if_splits)

lemma enqueue_tx_eq:
  "enqueue_flash_quota_reconcile_tx gen now a db =
     (length (flash_quota_rows db a),
      db\<lparr>outbox := outbox db @ map (\<lambda>(i, row). flash_quota_event (gen i) now row)
           (enumerate 0 (flash_quota_rows db a))\<rparr>)"
  by (simp add: enqueue_flash_quota_reconcile_tx_def Let_def fold_enqueue)

lemma quota_frame [simp]:
  "stored_quota (db\<lparr>outbox := x\<rparr>) a = stored_quota db a"
  "stored_quota (db\<lparr>member_quotas := y\<rparr>) a = stored_quota db a"
  "resource_quota_in_transaction (db\<lparr>outbox := x\<rparr>) a = resource_quota_in_transaction db a"
  "resource_quota_in_transaction (db\<lparr>member_quotas := y\<rparr>) a = resource_quota_in_transaction db a"
  "is_member (db\<lparr>outbox := x\<rparr>) a u = is_member db a u"
  "is_member (db\<lparr>member_quotas := y\<rparr>) a u = is_member db a u"
  "member_quota_in_transaction (db\<lparr>outbox := x\<rparr>) a u q = member_quota_in_transaction db a u q"
  by (simp_all add: stored_quota_def resource_quota_in_transaction_def is_member_def
      member_quota_in_transaction_def split: option.split)

lemma enqueue_tx_quota [simp]:
  "effective_member_quota (snd (enqueue_flash_quota_reconcile_tx gen now a db)) = effective_member_quota db"
  by (simp add: enqueue_tx_eq effective_member_quota_def fun_eq_iff)

lemma member_quotas_update:
  assumes "map_of mq' = (map_of (member_quotas db))(k := v)"
  shows "effective_member_quota (db\<lparr>member_quotas := mq'\<rparr>) a u =
    (if (a, u) = k \<and> is_member db a u
     then bindE (resource_quota_in_transaction db a) (\<lambda>q. case v of None \<Rightarrow> Inr q
            | Some m \<Rightarrow> bindE (parse_resource_quota m) (capped_limits q))
     else effective_member_quota db a u)"
  using assms
  by (cases "resource_quota_in_transaction db a"; cases "is_member db a u"; cases "(a, u) = k")
     (auto simp: effective_member_quota_def member_quota_in_transaction_def split: option.split)

lemma validate_resource_quota_Inr:
  "validate_resource_quota l = Inr x \<longleftrightarrow> validate_quota_limits l = Inr ()"
  by (cases "validate_quota_limits l") (auto simp: validate_resource_quota_def)

definition member_quotas_after ::
    "uuid \<times> uuid \<Rightarrow> resource_quota_limits option \<Rightarrow> store \<Rightarrow> store" where
  "member_quotas_after k limits db = db\<lparr>member_quotas := (case limits of
     None \<Rightarrow> AList.delete k (member_quotas db) | Some l \<Rightarrow> AList.update k l (member_quotas db))\<rparr>"

lemma set_member_cases:
  assumes "set_member_resource_quota gen now a u limits db = Inr (e, db')"
  obtains q where "resource_quota_in_transaction db a = Inr q" "is_member db a u"
    "db' = snd (enqueue_flash_quota_reconcile_tx gen now (Some a) (member_quotas_after (a, u) limits db))"
    "case limits of None \<Rightarrow> e = q
       | Some l \<Rightarrow> e = l \<and> validate_quota_limits l = Inr () \<and> capped_limits q l = Inr l"
proof -
  from assms obtain q where q: "resource_quota_in_transaction db a = Inr q"
    unfolding set_member_resource_quota_def bindE_Inr_iff by blast
  from assms q have mem: "is_member db a u"
    unfolding set_member_resource_quota_def by (cases "is_member db a u") simp_all
  show thesis
  proof (cases limits)
    case None
    with assms q mem show thesis
      by (intro that [of q]) (simp_all add: set_member_resource_quota_def member_quotas_after_def)
  next
    case (Some l)
    have op: "set_member_resource_quota gen now a u limits db =
      bindE (validate_resource_quota l) (\<lambda>_. bindE (first_error
        [fail_if (unassigned_resources db a)
           (RequestRejected ''assign existing services and service accounts to a member before setting personal limits''),
         fail_if (\<not> shares_credentials l q)
           (RequestRejected ''registry and Syouyu credential limits are shared by the organization'')]) (\<lambda>_.
        bindE (capped_limits q l) (\<lambda>c. if c \<noteq> l
          then Inl (RequestRejected ''member limits cannot exceed organization limits'')
          else Inr (l, snd (enqueue_flash_quota_reconcile_tx gen now (Some a) (member_quotas_after (a, u) limits db))))))"
      using q mem Some
      by (cases "validate_resource_quota l"; cases "capped_limits q l")
         (simp_all add: set_member_resource_quota_def member_quotas_after_def fail_if_def)
    obtain c w where c: "validate_resource_quota l = Inr w" "capped_limits q l = Inr c"
      "(if c \<noteq> l then Inl (RequestRejected ''member limits cannot exceed organization limits'')
        else Inr (l, snd (enqueue_flash_quota_reconcile_tx gen now (Some a) (member_quotas_after (a, u) limits db))))
       = Inr (e, db')"
      using assms unfolding op bindE_Inr_iff by blast
    then have "c = l" by (cases "c = l") simp_all
    with c have "e = l" "capped_limits q l = Inr l" "validate_resource_quota l = Inr w"
      "db' = snd (enqueue_flash_quota_reconcile_tx gen now (Some a) (member_quotas_after (a, u) limits db))"
      by simp_all
    with q mem Some show thesis by (intro that [of q]) (simp_all add: validate_resource_quota_Inr)
  qed
qed

subsection \<open>Properties\<close>

text \<open>
  Capping the limits of a member by those of the organization always succeeds on valid limits:
  the result is valid again, in no dimension above the organization's limits, and capping it once
  more changes nothing.
\<close>

theorem capping_is_total:
  assumes "validate_quota_limits q = Inr ()" "validate_quota_limits m = Inr ()"
  shows "\<exists>l. capped_limits q m = Inr l \<and> validate_quota_limits l = Inr () \<and> quota_le l q
    \<and> flow_le (q_flow l) (q_flow m) \<and> flash_le (q_flash l) (q_flash m) \<and> capped_limits q l = Inr l"
  using capped_limits_total [OF assms] capped_twice [OF assms] cap_le
  by (metis resource_quota_limits.select_convs(1,2))

theorem capping_is_total_witness:
  "\<exists>l. capped_limits default_resource_quota default_resource_quota = Inr l \<and> quota_le l default_resource_quota"
  using capping_is_total [OF default_quota_valid default_quota_valid] by blast

text \<open>
  C35: The limits set for a member are the limits in force for that member afterwards, never above
  those of the organization; clearing them puts the organization's limits in force. No other
  member's limits change.
\<close>

theorem member_quota_roundtrip:
  assumes "set_member_resource_quota gen now a u limits db = Inr (e, db')"
  shows "effective_member_quota db' a u = Inr e
    \<and> (\<exists>q. resource_quota_in_transaction db a = Inr q \<and> quota_le e q
        \<and> e = (case limits of Some l \<Rightarrow> l | None \<Rightarrow> q))
    \<and> (\<forall>a' u'. (a', u') \<noteq> (a, u) \<longrightarrow> effective_member_quota db' a' u' = effective_member_quota db a' u')"
proof -
  obtain q where q: "resource_quota_in_transaction db a = Inr q" and mem: "is_member db a u"
    and db': "db' = snd (enqueue_flash_quota_reconcile_tx gen now (Some a) (member_quotas_after (a, u) limits db))"
    and e: "case limits of None \<Rightarrow> e = q
       | Some l \<Rightarrow> e = l \<and> validate_quota_limits l = Inr () \<and> capped_limits q l = Inr l"
    by (rule set_member_cases [OF assms])
  have "map_of (case limits of None \<Rightarrow> AList.delete (a, u) (member_quotas db)
      | Some l \<Rightarrow> AList.update (a, u) l (member_quotas db)) = (map_of (member_quotas db))((a, u) := limits)"
    by (simp add: AList.delete_conv' AList.update_conv' split: option.split)
  note upd = member_quotas_update [OF this, folded member_quotas_after_def]
  have eff: "effective_member_quota db' a' u' = (if (a', u') = (a, u) \<and> is_member db a' u'
      then bindE (resource_quota_in_transaction db a') (\<lambda>q. case limits of None \<Rightarrow> Inr q
        | Some m \<Rightarrow> bindE (parse_resource_quota m) (capped_limits q))
      else effective_member_quota db a' u')" for a' u'
    by (simp only: db' enqueue_tx_quota upd)
  have "quota_le q q" by (simp add: quota_le_def flow_le_def flash_le_def registry_le_def syouyu_le_def)
  moreover have "quota_le l q" if "validate_quota_limits l = Inr ()" "capped_limits q l = Inr l" for l
    by (rule capped_twice(2) [OF resource_quota_valid [OF q] that])
  ultimately show ?thesis
    using e q mem by (cases limits) (simp_all add: eff parse_resource_quota_Inr bindE_Inr_iff)
qed

lemma default_quota_in_force:
  assumes "a \<in> set (accounts db)" "account_quotas db = []" "quota_defaults db = default_resource_quota"
  shows "resource_quota_in_transaction db a = Inr default_resource_quota"
  using assms by (simp add: resource_quota_in_transaction_def stored_quota_def parse_resource_quota_Inr default_quota_valid)

lemma capped_default: "capped_limits default_resource_quota default_resource_quota = Inr default_resource_quota"
  by (simp add: capped_limits_total default_quota_valid cap_flow_def cap_flash_def cap_syouyu_def)

theorem member_quota_roundtrip_witness:
  "\<exists>db'. set_member_resource_quota (\<lambda>i. 90 + i) 10 2 7 (Some default_resource_quota) demo_store
       = Inr (default_resource_quota, db') \<and> effective_member_quota db' 2 7 = Inr default_resource_quota"
proof -
  have "resource_quota_in_transaction demo_store 2 = Inr default_resource_quota"
    by (simp add: default_quota_in_force demo_store_def)
  moreover have "is_member demo_store 2 7" "\<not> unassigned_resources demo_store 2" by code_simp+
  ultimately have "set_member_resource_quota (\<lambda>i. 90 + i) 10 2 7 (Some default_resource_quota) demo_store
    = Inr (default_resource_quota, snd (enqueue_flash_quota_reconcile_tx (\<lambda>i. 90 + i) 10 (Some 2)
        (demo_store\<lparr>member_quotas := AList.update (2, 7) default_resource_quota (member_quotas demo_store)\<rparr>)))"
    by (simp add: set_member_resource_quota_def validate_resource_quota_def default_quota_valid capped_default
        shares_credentials_def)
  with member_quota_roundtrip show ?thesis by blast
qed

definition quota_notice :: "datetime \<Rightarrow> service_row \<Rightarrow> uuid list \<Rightarrow> outbox_row \<Rightarrow> bool" where
  "quota_notice now s ps e \<longleftrightarrow>
     ob_topic e = TopicFlashQuota \<and> ob_aggregate_id e = s_id s
     \<and> ob_delivered_at e = None \<and> ob_locked_at e = None \<and> ob_available_at e = now
     \<and> (case ob_payload e of
          ServicePayload p \<Rightarrow> ev_service_instance_id p = s_id s \<and> ev_generation p = s_generation s
            \<and> ev_principal_id p \<in> set ps
        | _ \<Rightarrow> False)"

definition informed :: "datetime \<Rightarrow> service_row \<Rightarrow> store \<Rightarrow> bool" where
  "informed now s db \<longleftrightarrow>
     (\<exists>e \<in> set (outbox db). quota_notice now s (enabled_principals db (s_organization_id s)) e)"

lemma quota_event_principal_enabled:
  "quota_event_principal db s = Some p \<Longrightarrow> p \<in> set (enabled_principals db (s_organization_id s))"
  using min_list_in
  by (auto simp: quota_event_principal_def Let_def split: if_splits option.splits)

lemma quota_event_principal_None:
  "quota_event_principal db s = None \<longleftrightarrow> enabled_principals db (s_organization_id s) = []"
  by (auto simp: quota_event_principal_def Let_def split: option.splits)

lemma enabled_principals_outbox [simp]: "enabled_principals (db\<lparr>outbox := x\<rparr>) a = enabled_principals db a"
  by (simp add: enabled_principals_def)

lemma informed_mono:
  "informed now s db \<Longrightarrow> informed now s (db\<lparr>outbox := outbox db @ es\<rparr>)"
  by (auto simp: informed_def)

lemma informed_tx:
  assumes "s \<in> set (services db)" "live Flash s" "a = None \<or> a = Some (s_organization_id s)"
    "enabled_principals db (s_organization_id s) \<noteq> []"
  shows "informed now s (snd (enqueue_flash_quota_reconcile_tx gen now a db))"
proof -
  obtain p where p: "quota_event_principal db s = Some p"
    using assms(4) quota_event_principal_None [of db s] by auto
  then have "(s, p) \<in> set (flash_quota_rows db a)"
    using assms(1-3) by (force simp: flash_quota_rows_def)
  then obtain i where "i < length (flash_quota_rows db a)" "flash_quota_rows db a ! i = (s, p)"
    by (auto simp: in_set_conv_nth)
  then have "(i, s, p) \<in> set (enumerate 0 (flash_quota_rows db a))" by (auto simp: in_set_enumerate_eq)
  then have "flash_quota_event (gen i) now (s, p) \<in> set (outbox (snd (enqueue_flash_quota_reconcile_tx gen now a db)))"
    by (force simp: enqueue_tx_eq)
  then show ?thesis unfolding informed_def
    by (rule bexI [rotated])
       (use quota_event_principal_enabled [OF p] in
         \<open>simp add: quota_notice_def flash_quota_event_def new_event_def service_event_of_def enqueue_tx_eq\<close>)
qed

lemma enqueue_accounts_frame:
  "\<exists>es. enqueue_accounts_flash_quotas gen now as db = db\<lparr>outbox := outbox db @ es\<rparr>"
proof (induction as arbitrary: gen db)
  case Nil
  show ?case by (intro exI [of _ "[]"]) simp
next
  case (Cons a as)
  obtain es where "snd (enqueue_flash_quota_reconcile_tx gen now (Some a) db) = db\<lparr>outbox := outbox db @ es\<rparr>"
    by (simp add: enqueue_tx_eq)
  moreover obtain n where n: "fst (enqueue_flash_quota_reconcile_tx gen now (Some a) db) = n" by simp
  moreover obtain es' where "enqueue_accounts_flash_quotas (\<lambda>i. gen (n + i)) now as (db\<lparr>outbox := outbox db @ es\<rparr>)
    = db\<lparr>outbox := (outbox db @ es) @ es'\<rparr>" using Cons [of "\<lambda>i. gen (n + i)" "db\<lparr>outbox := outbox db @ es\<rparr>"] by auto
  ultimately show ?case
    by (intro exI [of _ "es @ es'"]) (simp add: split_beta Let_def)
qed

lemma enqueue_accounts_informs:
  assumes "s \<in> set (services db)" "live Flash s" "s_organization_id s \<in> set as"
    "enabled_principals db (s_organization_id s) \<noteq> []"
  shows "informed now s (enqueue_accounts_flash_quotas gen now as db)"
  using assms
proof (induction as arbitrary: gen db)
  case (Cons a as)
  let ?db = "snd (enqueue_flash_quota_reconcile_tx gen now (Some a) db)"
  let ?gen = "\<lambda>i. gen (fst (enqueue_flash_quota_reconcile_tx gen now (Some a) db) + i)"
  have step: "enqueue_accounts_flash_quotas gen now (a # as) db = enqueue_accounts_flash_quotas ?gen now as ?db"
    by (simp add: split_beta Let_def)
  show ?case
  proof (cases "s_organization_id s = a")
    case True
    with Cons.prems have "informed now s ?db" by (intro informed_tx) simp_all
    moreover obtain es where "enqueue_accounts_flash_quotas ?gen now as ?db = ?db\<lparr>outbox := outbox ?db @ es\<rparr>"
      using enqueue_accounts_frame by blast
    ultimately show ?thesis unfolding step by (simp only: informed_mono)
  next
    case False
    with Cons.prems show ?thesis unfolding step by (intro Cons.IH) (simp_all add: enqueue_tx_eq)
  qed
qed simp

text \<open>
  C36: After the quota of an account is set, it is the quota in force there, no service changes, and
  every live Flash service of an account whose provider budget depends on it - all accounts of the
  cloud organization that the account manages, else the account itself - has a pending notice of its
  current generation under an enabled principal of its account.
\<close>

theorem quota_change_informs_services:
  assumes "set_organization_resource_quota gen now a limits db = Inr (q, db')"
  shows "q = limits \<and> resource_quota_in_transaction db' a = Inr limits \<and> services db' = services db
    \<and> (\<forall>s \<in> set (services db). live Flash s \<and> enabled_principals db (s_organization_id s) \<noteq> []
         \<and> s_organization_id s \<in> set (if managed_accounts db a = [] then [a] else managed_accounts db a)
       \<longrightarrow> informed now s db')"
proof -
  let ?db = "db\<lparr>account_quotas := AList.update a limits (account_quotas db)\<rparr>"
  let ?as = "if managed_accounts db a = [] then [a] else managed_accounts db a"
  have managed: "managed_accounts ?db a = managed_accounts db a" by (simp add: managed_accounts_def)
  from assms have "validate_quota_limits limits = Inr () \<and> a \<in> set (accounts db) \<and> limits = q
      \<and> enqueue_accounts_flash_quotas gen now ?as ?db = db'"
    by (clarsimp simp: set_organization_resource_quota_def bindE_Inr_iff parse_resource_quota_Inr
        enqueue_organization_flash_quotas_tx_def managed Let_def simp del: enqueue_accounts_flash_quotas.simps
        split del: if_split)
  then have valid: "parse_resource_quota limits = Inr limits" "a \<in> set (accounts db)" "q = limits"
    and db': "db' = enqueue_accounts_flash_quotas gen now ?as ?db"
    unfolding parse_resource_quota_Inr by blast+
  obtain es where frame: "enqueue_accounts_flash_quotas gen now ?as ?db = ?db\<lparr>outbox := outbox ?db @ es\<rparr>"
    using enqueue_accounts_frame by blast
  have "stored_quota ?db a = limits"
    by (simp add: stored_quota_def AList.update_conv')
  then have "resource_quota_in_transaction db' a = Inr limits"
    using valid unfolding db' frame quota_frame by (simp add: resource_quota_in_transaction_def)
  moreover have "informed now s db'" if "s \<in> set (services db)" "live Flash s" "s_organization_id s \<in> set ?as"
    "enabled_principals db (s_organization_id s) \<noteq> []" for s
    unfolding db' by (rule enqueue_accounts_informs) (use that in \<open>simp_all add: enabled_principals_def\<close>)
  ultimately show ?thesis using valid(3) frame db' by simp
qed

text \<open>A Flash service of account 2 on a machine of the default size.\<close>

definition demo_flash_row :: service_row where
  "demo_flash_row = \<lparr>s_id = 51, s_organization_id = 2, s_project_id = 20, s_provider = Flash,
     s_name = lit ''web'', s_generation = 3, s_state = Ready, s_spec = FlashSpec demo_flash,
     s_status = JObject [], s_quota_user_id = Some 7\<rparr>"

theorem quota_change_informs_services_witness:
  "informed 10 demo_flash_row (snd (projr (set_organization_resource_quota (\<lambda>i. 90 + i) 10 2 default_resource_quota
     (demo_store\<lparr>services := [demo_flash_row]\<rparr>))))"
proof -
  let ?db = "demo_store\<lparr>services := [demo_flash_row]\<rparr>"
  have "2 \<in> set (accounts ?db)" by (simp add: demo_store_def)
  then obtain q db' where ok: "set_organization_resource_quota (\<lambda>i. 90 + i) 10 2 default_resource_quota ?db = Inr (q, db')"
    by (simp add: set_organization_resource_quota_def validate_resource_quota_def parse_resource_quota_def
        default_quota_valid)
  have "enabled_principals ?db 2 = [5]" "managed_accounts ?db 2 = []"
    by (simp_all add: enabled_principals_def managed_accounts_def demo_store_def demo_tables_def)
  moreover have "live Flash demo_flash_row" "s_organization_id demo_flash_row = 2" "demo_flash_row \<in> set (services ?db)"
    by (simp_all add: live_def demo_flash_row_def)
  ultimately show ?thesis using quota_change_informs_services [OF ok] ok by simp
qed

end
