(* ===== verification/Cloud_Organizations.thy ===== *)
theory Cloud_Organizations
  imports Quota_Admin
begin

section \<open>Accounts and their organizations\<close>

text \<open>
  The tree of accounts of \<open>src/crates/heterocloud-store/src/cloud_organizations.rs\<close> and the triggers
  of \<open>src/migrations/0026_cloud_organizations.sql\<close> that keep it: every account has an organization,
  a new unit or member starts with the managed policy. The operations run on the identity tables;
  identifiers and account numbers that the database draws are arguments, and \<open>lower\<close> is the
  lower-casing of the database.
\<close>

subsection \<open>Triggers\<close>

definition full_access :: policy_document where
  "full_access = \<lparr>doc_version = POLICY_VERSION, doc_statements = [\<lparr>st_effect = Effect_Allow, st_sid = None,
     st_actions = [lit ''*''], st_not_actions = [], st_resources = [lit ''*''], st_not_resources = [],
     st_conditions = []\<rparr>]\<rparr>"

definition managed_policies :: "iam_tables \<Rightarrow> uuid \<Rightarrow> uuid list" where
  "managed_policies db organization =
     map sp_id (filter (\<lambda>p. sp_organization_id p = organization \<and> sp_is_managed p) (cloud_scps db))"

definition attach_default_unit_scp :: "unit_row \<Rightarrow> iam_tables \<Rightarrow> iam_tables" where
  "attach_default_unit_scp u db =
     db\<lparr>scp_unit_attachments := scp_unit_attachments db
          @ map (\<lambda>p. (un_organization_id u, un_id u, p)) (managed_policies db (un_organization_id u))\<rparr>"

definition insert_unit :: "unit_row \<Rightarrow> iam_tables \<Rightarrow> iam_tables" where
  "insert_unit u db = attach_default_unit_scp u (db\<lparr>cloud_units := cloud_units db @ [u]\<rparr>)"

definition attach_default_account_scp :: "cloud_account_row \<Rightarrow> iam_tables \<Rightarrow> iam_tables" where
  "attach_default_account_scp a db =
     db\<lparr>scp_account_attachments := scp_account_attachments db
          @ map (\<lambda>p. (ca_organization_id a, ca_account_id a, p)) (managed_policies db (ca_organization_id a))\<rparr>"

definition insert_cloud_account :: "cloud_account_row \<Rightarrow> iam_tables \<Rightarrow> iam_tables" where
  "insert_cloud_account a db = attach_default_account_scp a (db\<lparr>cloud_accounts := cloud_accounts db @ [a]\<rparr>)"

definition create_account_organization :: "uuid \<Rightarrow> uuid \<Rightarrow> uuid \<Rightarrow> uuid \<Rightarrow> iam_tables \<Rightarrow> iam_tables" where
  "create_account_organization new_organization_id policy_id new_root_id account db =
     insert_cloud_account \<lparr>ca_account_id = account, ca_organization_id = new_organization_id, ca_parent_id = new_root_id\<rparr>
       (insert_unit \<lparr>un_id = new_root_id, un_organization_id = new_organization_id, un_parent_id = None,
                     un_name = lit ''Root''\<rparr>
         (db\<lparr>cloud_organizations := cloud_organizations db @ [(new_organization_id, account)],
             cloud_scps := cloud_scps db @ [\<lparr>sp_id = policy_id, sp_organization_id = new_organization_id,
               sp_name = lit ''FullAWSAccess'', sp_document = full_access, sp_is_managed = True\<rparr>]\<rparr>))"

text \<open>
  A new row of \<open>organizations\<close>: the slug is unique, and the trigger gives the account its own
  organization.
\<close>

definition insert_account :: "(nat \<Rightarrow> uuid) \<Rightarrow> account_row \<Rightarrow> iam_tables \<Rightarrow> store_error + iam_tables" where
  "insert_account gen account db =
     bindE (fail_if (list_ex (\<lambda>a. ac_slug a = ac_slug account) (organizations db)) SqlUniqueViolation) (\<lambda>_.
     Inr (create_account_organization (gen 0) (gen 1) (gen 2) (ac_id account)
            (db\<lparr>organizations := organizations db @ [account]\<rparr>)))"

text \<open>Deleting an organization deletes everything that refers to it.\<close>

definition delete_cloud_organizations :: "uuid \<Rightarrow> iam_tables \<Rightarrow> iam_tables" where
  "delete_cloud_organizations management db =
     (let gone = map fst (filter (\<lambda>(_, m). m = management) (cloud_organizations db)) in
      db\<lparr>cloud_organizations := filter (\<lambda>(_, m). m \<noteq> management) (cloud_organizations db),
         cloud_units := filter (\<lambda>u. un_organization_id u \<notin> set gone) (cloud_units db),
         cloud_accounts := filter (\<lambda>a. ca_organization_id a \<notin> set gone) (cloud_accounts db),
         cloud_scps := filter (\<lambda>p. sp_organization_id p \<notin> set gone) (cloud_scps db),
         scp_unit_attachments := filter (\<lambda>(org, _). org \<notin> set gone) (scp_unit_attachments db),
         scp_account_attachments := filter (\<lambda>(org, _). org \<notin> set gone) (scp_account_attachments db)\<rparr>)"

text \<open>A principal has a name of its own in its account and stands for at most one user.\<close>

definition insert_principal :: "principal_row \<Rightarrow> iam_tables \<Rightarrow> store_error + iam_tables" where
  "insert_principal p db =
     bindE (fail_if (list_ex (\<lambda>q. p_organization_id q = p_organization_id p
                \<and> (p_name q = p_name p \<or> p_user_id p \<noteq> None \<and> p_user_id q = p_user_id p)) (principals db))
              SqlUniqueViolation) (\<lambda>_.
     Inr (db\<lparr>principals := principals db @ [p]\<rparr>))"

definition insert_membership :: "membership_row \<Rightarrow> iam_tables \<Rightarrow> store_error + iam_tables" where
  "insert_membership m db =
     bindE (fail_if (list_ex (\<lambda>x. m_organization_id x = m_organization_id m
                \<and> (m_user_id x = m_user_id m \<or> m_principal_id x = m_principal_id m)) (memberships db))
              SqlUniqueViolation) (\<lambda>_.
     Inr (db\<lparr>memberships := memberships db @ [m]\<rparr>))"

definition user_principal :: "uuid \<Rightarrow> uuid \<Rightarrow> str \<Rightarrow> uuid \<Rightarrow> principal_row" where
  "user_principal prin account name user =
     \<lparr>p_id = prin, p_organization_id = account, p_kind = Kind_User, p_name = name, p_user_id = Some user,
      p_quota_user_id = Some user, p_enabled = True, p_boundary_policy_id = None\<rparr>"

definition active_user :: "iam_tables \<Rightarrow> uuid \<Rightarrow> user_row option" where
  "active_user db user = find (\<lambda>u. u_id u = user \<and> u_active u) (users db)"

text \<open>The first administrator of a new account.\<close>

definition insert_owner :: "uuid \<Rightarrow> uuid \<Rightarrow> uuid \<Rightarrow> str \<Rightarrow> uuid \<Rightarrow> iam_tables \<Rightarrow> store_error + iam_tables" where
  "insert_owner prin membership account name user db =
     bindE (insert_principal (user_principal prin account name user) db) (\<lambda>db1.
     insert_membership \<lparr>m_organization_id = account, m_user_id = user, m_principal_id = prin,
       m_role = lit ''owner'', m_membership_id = membership\<rparr> db1)"

definition create_organization ::
    "(nat \<Rightarrow> uuid) \<Rightarrow> nat \<Rightarrow> uuid \<Rightarrow> str \<Rightarrow> str \<Rightarrow> iam_tables \<Rightarrow> store_error + account_row \<times> iam_tables" where
  "create_organization gen number user slug name db =
     bindE (ok_or (active_user db user) NotFound) (\<lambda>u.
     (let account = \<lparr>ac_id = gen 3, ac_slug = slug, ac_name = name, ac_number = number\<rparr> in
     bindE (insert_account gen account db) (\<lambda>db1.
     bindE (insert_owner (gen 4) (gen 5) (gen 3) (u_display_name u) user db1) (\<lambda>db2.
     Inr (account, db2)))))"

subsection \<open>Units\<close>

definition managed_organization :: "iam_tables \<Rightarrow> uuid \<Rightarrow> uuid option" where
  "managed_organization db management =
     map_option fst (find (\<lambda>(_, m). m = management) (cloud_organizations db))"

definition unit_of :: "iam_tables \<Rightarrow> uuid \<Rightarrow> uuid \<Rightarrow> unit_row option" where
  "unit_of db organization unit =
     find (\<lambda>u. un_id u = unit \<and> un_organization_id u = organization) (cloud_units db)"

definition unit_depth :: "iam_tables \<Rightarrow> uuid \<Rightarrow> uuid \<Rightarrow> nat" where
  "unit_depth db management unit =
     (case managed_organization db management of
        None \<Rightarrow> 0
      | Some organization \<Rightarrow>
          (case unit_of db organization unit of
             None \<Rightarrow> 0
           | Some u \<Rightarrow>
               (let chain = ancestors (cloud_units db) [un_id u] u in
                if list_ex (\<lambda>a. un_parent_id a = None) chain then length chain else 0)))"

text \<open>Units of one parent have different names, whatever their case.\<close>

definition sibling_name_taken :: "(str \<Rightarrow> str) \<Rightarrow> iam_tables \<Rightarrow> uuid \<Rightarrow> unit_row \<Rightarrow> bool" where
  "sibling_name_taken lower db skip u \<longleftrightarrow>
     list_ex (\<lambda>x. un_id x \<noteq> skip \<and> un_organization_id x = un_organization_id u \<and> un_parent_id x \<noteq> None
                \<and> un_parent_id x = un_parent_id u \<and> lower (un_name x) = lower (un_name u)) (cloud_units db)"

definition create_cloud_organizational_unit ::
    "(str \<Rightarrow> str) \<Rightarrow> uuid \<Rightarrow> uuid \<Rightarrow> uuid \<Rightarrow> str \<Rightarrow> iam_tables \<Rightarrow> store_error + unit_row \<times> iam_tables" where
  "create_cloud_organizational_unit lower uid management parent_id name db =
     (let depth = unit_depth db management parent_id in
      if depth = 0 then Inl NotFound
      else if depth > 5
      then Inl (RequestRejected ''Organizational units can be nested at most five levels below the root.'')
      else
        bindE (ok_or (managed_organization db management) NotFound) (\<lambda>organization.
        (let u = \<lparr>un_id = uid, un_organization_id = organization, un_parent_id = Some parent_id, un_name = name\<rparr> in
        bindE (fail_if (sibling_name_taken lower db uid u) SqlUniqueViolation) (\<lambda>_.
        Inr (u, insert_unit u db)))))"

definition rename_cloud_unit ::
    "(str \<Rightarrow> str) \<Rightarrow> uuid \<Rightarrow> uuid \<Rightarrow> str \<Rightarrow> iam_tables \<Rightarrow> store_error + iam_tables" where
  "rename_cloud_unit lower management unit name db =
     bindE (ok_or (managed_organization db management) NotFound) (\<lambda>organization.
     bindE (ok_or (unit_of db organization unit) NotFound) (\<lambda>u.
     bindE (fail_if (un_parent_id u = None) NotFound) (\<lambda>_.
     bindE (fail_if (sibling_name_taken lower db unit (u\<lparr>un_name := name\<rparr>)) SqlUniqueViolation) (\<lambda>_.
     Inr (db\<lparr>cloud_units := map (\<lambda>x. if un_id x = unit \<and> un_organization_id x = organization
                                     then x\<lparr>un_name := name\<rparr> else x) (cloud_units db)\<rparr>)))))"

subsection \<open>Member accounts\<close>

definition add_member_account ::
    "(nat \<Rightarrow> uuid) \<Rightarrow> nat \<Rightarrow> uuid \<Rightarrow> uuid \<Rightarrow> uuid \<Rightarrow> str \<Rightarrow> str \<Rightarrow> iam_tables \<Rightarrow>
     store_error + account_row \<times> iam_tables" where
  "add_member_account gen number management parent_id user slug name db =
     bindE (ok_or (managed_organization db management) NotFound) (\<lambda>organization.
     bindE (ok_or (unit_of db organization parent_id) NotFound) (\<lambda>_.
     bindE (ok_or (active_user db user) NotFound) (\<lambda>u.
     (let account = \<lparr>ac_id = gen 3, ac_slug = slug, ac_name = name, ac_number = number\<rparr> in
     bindE (insert_account gen account db) (\<lambda>db1.
     (let db2 = insert_cloud_account \<lparr>ca_account_id = gen 3, ca_organization_id = organization, ca_parent_id = parent_id\<rparr>
                  (delete_cloud_organizations (gen 3) db1) in
     bindE (insert_owner (gen 4) (gen 5) (gen 3) (u_display_name u) user db2) (\<lambda>db3.
     Inr (account, db3))))))))"

definition create_cloud_member_account ::
    "(nat \<Rightarrow> uuid) \<Rightarrow> datetime \<Rightarrow> nat \<Rightarrow> uuid \<Rightarrow> uuid \<Rightarrow> uuid \<Rightarrow> str \<Rightarrow> str \<Rightarrow> store \<Rightarrow>
     store_error + account_row \<times> store" where
  "create_cloud_member_account gen now number management parent_id user slug name db =
     bindE (add_member_account gen number management parent_id user slug name (iam db)) (\<lambda>(account, tables).
     Inr (account, enqueue_organization_flash_quotas_tx (\<lambda>i. gen (6 + i)) now management (db\<lparr>iam := tables\<rparr>)))"

definition move_cloud_member_account :: "uuid \<Rightarrow> uuid \<Rightarrow> uuid \<Rightarrow> iam_tables \<Rightarrow> store_error + iam_tables" where
  "move_cloud_member_account management account parent_id db =
     bindE (ok_or (managed_organization db management) NotFound) (\<lambda>organization.
     (let hit = (\<lambda>a. ca_account_id a = account \<and> account \<noteq> management \<and> ca_organization_id a = organization
                     \<and> unit_of db organization parent_id \<noteq> None) in
      bindE (fail_if (length (filter hit (cloud_accounts db)) \<noteq> 1) NotFound) (\<lambda>_.
      Inr (db\<lparr>cloud_accounts := map (\<lambda>a. if hit a then a\<lparr>ca_parent_id := parent_id\<rparr> else a) (cloud_accounts db)\<rparr>))))"

definition rename_cloud_account :: "uuid \<Rightarrow> uuid \<Rightarrow> str \<Rightarrow> iam_tables \<Rightarrow> store_error + iam_tables" where
  "rename_cloud_account management account name db =
     bindE (ok_or (managed_organization db management) NotFound) (\<lambda>organization.
     (let hit = (\<lambda>r. ac_id r = account \<and> list_ex (\<lambda>a. ca_account_id a = account \<and> ca_organization_id a = organization)
                                            (cloud_accounts db)) in
      bindE (fail_if (length (filter hit (organizations db)) \<noteq> 1) NotFound) (\<lambda>_.
      Inr (db\<lparr>organizations := map (\<lambda>r. if hit r then r\<lparr>ac_name := name\<rparr> else r) (organizations db)\<rparr>))))"

subsection \<open>Service control policies\<close>

definition create_service_control_policy ::
    "uuid \<Rightarrow> uuid \<Rightarrow> str \<Rightarrow> policy_document \<Rightarrow> iam_tables \<Rightarrow> store_error + scp_policy \<times> iam_tables" where
  "create_service_control_policy pid management name document db =
     bindE (ok_or (managed_organization db management) NotFound) (\<lambda>organization.
     bindE (fail_if (list_ex (\<lambda>p. sp_organization_id p = organization \<and> sp_name p = name) (cloud_scps db))
              SqlUniqueViolation) (\<lambda>_.
     (let p = \<lparr>sp_id = pid, sp_organization_id = organization, sp_name = name, sp_document = document,
               sp_is_managed = False\<rparr> in
      Inr (p, db\<lparr>cloud_scps := cloud_scps db @ [p]\<rparr>))))"

datatype scp_target = UnitTarget | AccountTarget

definition target_exists :: "scp_target \<Rightarrow> iam_tables \<Rightarrow> uuid \<Rightarrow> uuid \<Rightarrow> bool" where
  "target_exists kind db organization target_id =
     (case kind of
        UnitTarget \<Rightarrow> unit_of db organization target_id \<noteq> None
      | AccountTarget \<Rightarrow>
          list_ex (\<lambda>a. ca_organization_id a = organization \<and> ca_account_id a = target_id) (cloud_accounts db))"

definition target_attachments :: "scp_target \<Rightarrow> iam_tables \<Rightarrow> (uuid \<times> uuid \<times> uuid) list" where
  "target_attachments kind db =
     (case kind of UnitTarget \<Rightarrow> scp_unit_attachments db | AccountTarget \<Rightarrow> scp_account_attachments db)"

definition set_target_attachments ::
    "scp_target \<Rightarrow> (uuid \<times> uuid \<times> uuid) list \<Rightarrow> iam_tables \<Rightarrow> iam_tables" where
  "set_target_attachments kind rows db =
     (case kind of
        UnitTarget \<Rightarrow> db\<lparr>scp_unit_attachments := rows\<rparr>
      | AccountTarget \<Rightarrow> db\<lparr>scp_account_attachments := rows\<rparr>)"

definition change_service_control_attachment ::
    "uuid \<Rightarrow> str \<Rightarrow> uuid \<Rightarrow> uuid \<Rightarrow> bool \<Rightarrow> iam_tables \<Rightarrow> store_error + iam_tables" where
  "change_service_control_attachment management target_type target_id policy attach db =
     bindE (ok_or (managed_organization db management) NotFound) (\<lambda>organization.
     bindE (if target_type = lit ''unit'' then Inr UnitTarget
            else if target_type = lit ''account'' then Inr AccountTarget else Inl NotFound) (\<lambda>kind.
     bindE (fail_if (\<not> (target_exists kind db organization target_id
                        \<and> list_ex (\<lambda>p. sp_organization_id p = organization \<and> sp_id p = policy) (cloud_scps db)))
              NotFound) (\<lambda>_.
     (let rows = target_attachments kind db;
          count = length (filter (\<lambda>(org, t, _). org = organization \<and> t = target_id) rows) in
      if attach then
        bindE (fail_if (count \<ge> 10 \<and> (organization, target_id, policy) \<notin> set rows)
                 (RequestRejected ''A maximum of 10 service control policies can be attached to a target.'')) (\<lambda>_.
        Inr (set_target_attachments kind
               (if list_ex (\<lambda>(_, t, p). t = target_id \<and> p = policy) rows then rows
                else rows @ [(organization, target_id, policy)]) db))
      else
        bindE (fail_if (count \<le> 1)
                 (RequestRejected ''At least one service control policy must remain attached.'')) (\<lambda>_.
        bindE (fail_if (length (filter (\<lambda>r. r = (organization, target_id, policy)) rows) \<noteq> 1) NotFound) (\<lambda>_.
        Inr (set_target_attachments kind (filter (\<lambda>r. r \<noteq> (organization, target_id, policy)) rows) db)))))))"

subsection \<open>The tree of units\<close>

text \<open>A path from a unit to the root of its organization.\<close>

inductive chain :: "unit_row list \<Rightarrow> unit_row list \<Rightarrow> bool" for units where
  chain_root: "u \<in> set units \<Longrightarrow> un_parent_id u = None \<Longrightarrow> chain units [u]"
| chain_below: "u \<in> set units \<Longrightarrow> un_parent_id u = Some (un_id v) \<Longrightarrow> un_organization_id v = un_organization_id u \<Longrightarrow>
    chain units (v # path) \<Longrightarrow> chain units (u # v # path)"

inductive_cases chain_ConsE: "chain units (u # path)"

lemma chain_in: "chain units path \<Longrightarrow> set path \<subseteq> set units"
  by (induction rule: chain.induct) auto

lemma chain_ends: "chain units path \<Longrightarrow> \<exists>r \<in> set path. un_parent_id r = None"
  by (induction rule: chain.induct) auto

lemma chain_mono: "chain units path \<Longrightarrow> set units \<subseteq> set units' \<Longrightarrow> chain units' path"
  by (induction rule: chain.induct) (auto intro: chain.intros)

lemma chain_map:
  assumes "\<And>u. un_id (f u) = un_id u" "\<And>u. un_parent_id (f u) = un_parent_id u"
    "\<And>u. un_organization_id (f u) = un_organization_id u"
  shows "chain units path \<Longrightarrow> chain (map f units) (map f path)"
  by (induction rule: chain.induct) (auto intro!: chain.intros simp: assms)

lemma chain_ancestors:
  assumes "distinct (map un_id units)"
  shows "chain units path \<Longrightarrow> distinct (map un_id path) \<Longrightarrow> un_id ` set (tl path) \<inter> set visited = {} \<Longrightarrow>
    ancestors units visited (hd path) = path"
proof (induction arbitrary: visited rule: chain.induct)
  case (chain_root u)
  then show ?case by (simp add: ancestors.simps [of units visited u])
next
  case (chain_below u v path)
  let ?P = "\<lambda>x. un_id x = un_id v \<and> un_organization_id x = un_organization_id u \<and> un_id x \<notin> set visited"
  have v: "v \<in> set units" using chain_in [OF chain_below.hyps(4)] by simp
  have "find ?P units = Some v"
    by (rule find_unique [OF assms v]) (use chain_below.prems chain_below.hyps(3) in auto)
  moreover have "ancestors units (visited @ [un_id v]) (hd (v # path)) = v # path"
    by (rule chain_below.IH) (use chain_below.prems in auto)
  ultimately show ?case using chain_below.hyps(2) by (simp add: ancestors.simps [of units visited u])
qed

definition unit_rooted :: "unit_row list \<Rightarrow> unit_row \<Rightarrow> bool" where
  "unit_rooted units u \<longleftrightarrow> (\<exists>path. chain units (u # path) \<and> length path \<le> 5 \<and> distinct (map un_id (u # path)))"

lemma unit_rootedE:
  assumes "unit_rooted units u" "distinct (map un_id units)"
  obtains path where "chain units (u # path)" "length path \<le> 5" "distinct (map un_id (u # path))"
    "ancestors units [un_id u] u = u # path"
proof -
  from assms(1) obtain path where p: "chain units (u # path)" "length path \<le> 5" "distinct (map un_id (u # path))"
    unfolding unit_rooted_def by blast
  moreover have "ancestors units [un_id u] (hd (u # path)) = u # path"
    by (rule chain_ancestors [OF assms(2) p(1,3)]) (use p(3) in auto)
  ultimately show thesis using that by simp
qed

lemma unit_rooted_mono: "unit_rooted units u \<Longrightarrow> set units \<subseteq> set units' \<Longrightarrow> unit_rooted units' u"
  unfolding unit_rooted_def using chain_mono by blast

lemma unit_rooted_new:
  assumes parent: "v \<in> set units" "unit_rooted units v" and d: "distinct (map un_id units)"
    and depth: "length (ancestors units [un_id v] v) \<le> 5"
    and u: "un_parent_id u = Some (un_id v)" "un_organization_id u = un_organization_id v" "un_id u \<notin> un_id ` set units"
  shows "unit_rooted (units @ [u]) u"
proof -
  obtain path where p: "chain units (v # path)" "distinct (map un_id (v # path))" "ancestors units [un_id v] v = v # path"
    using unit_rootedE [OF parent(2) d] by blast
  have "chain (units @ [u]) (u # v # path)"
    using p(1) u by (intro chain_below chain_mono [OF p(1)]) auto
  moreover have "distinct (map un_id (u # v # path))" using p(2) u(3) chain_in [OF p(1)] by auto
  moreover have "length (v # path) \<le> 5" using depth p(3) by simp
  ultimately show ?thesis unfolding unit_rooted_def by blast
qed

lemma unit_rooted_map:
  assumes "\<And>u. un_id (f u) = un_id u" "\<And>u. un_parent_id (f u) = un_parent_id u"
    "\<And>u. un_organization_id (f u) = un_organization_id u" "unit_rooted units u"
  shows "unit_rooted (map f units) (f u)"
proof -
  from assms(4) obtain path where p: "chain units (u # path)" "length path \<le> 5" "distinct (map un_id (u # path))"
    unfolding unit_rooted_def by blast
  have "map un_id (f u # map f path) = map un_id (u # path)" by (simp add: assms(1))
  then have "distinct (map un_id (f u # map f path))" using p(3) by (simp only:)
  moreover have "chain (map f units) (f u # map f path)" using chain_map [OF assms(1-3) p(1)] by simp
  ultimately show ?thesis unfolding unit_rooted_def using p(2) by (metis length_map)
qed

subsection \<open>The invariant\<close>

text \<open>
  Every account belongs to one organization, every organization has a root and one managed policy,
  every unit reaches its root over at most five other units, and every unit and member has between
  one and ten policies of its own organization.
\<close>

definition attached_count :: "(uuid \<times> uuid \<times> uuid) list \<Rightarrow> uuid \<Rightarrow> nat" where
  "attached_count rows t = length (filter (\<lambda>(_, t', _). t' = t) rows)"

definition attachments_refer :: "(uuid \<times> uuid \<times> uuid) list \<Rightarrow> (uuid \<times> uuid) set \<Rightarrow> scp_policy list \<Rightarrow> bool" where
  "attachments_refer rows targets scps \<longleftrightarrow>
     distinct rows \<and> (\<forall>(org, t, p) \<in> set rows. (org, t) \<in> targets \<and> (org, p) \<in> (\<lambda>q. (sp_organization_id q, sp_id q)) ` set scps)"

abbreviation unit_keys :: "iam_tables \<Rightarrow> (uuid \<times> uuid) set" where
  "unit_keys db \<equiv> (\<lambda>u. (un_organization_id u, un_id u)) ` set (cloud_units db)"

abbreviation account_keys :: "iam_tables \<Rightarrow> (uuid \<times> uuid) set" where
  "account_keys db \<equiv> (\<lambda>a. (ca_organization_id a, ca_account_id a)) ` set (cloud_accounts db)"

definition keys_distinct :: "iam_tables \<Rightarrow> bool" where
  "keys_distinct db \<longleftrightarrow>
     distinct (map fst (cloud_organizations db)) \<and> distinct (map snd (cloud_organizations db))
     \<and> distinct (map un_id (cloud_units db)) \<and> distinct (map sp_id (cloud_scps db))
     \<and> distinct (map ca_account_id (cloud_accounts db))
     \<and> un_id ` set (cloud_units db) \<inter> ca_account_id ` set (cloud_accounts db) = {}"

definition organizations_ok :: "iam_tables \<Rightarrow> bool" where
  "organizations_ok db \<longleftrightarrow>
     (\<forall>(org, management) \<in> set (cloud_organizations db).
        (\<exists>u \<in> set (cloud_units db). un_organization_id u = org \<and> un_parent_id u = None)
        \<and> length (managed_policies db org) = 1 \<and> (org, management) \<in> account_keys db)"

definition units_ok :: "iam_tables \<Rightarrow> bool" where
  "units_ok db \<longleftrightarrow>
     (\<forall>u \<in> set (cloud_units db). unit_rooted (cloud_units db) u \<and> un_organization_id u \<in> fst ` set (cloud_organizations db)
        \<and> attached_count (scp_unit_attachments db) (un_id u) \<in> {1..10})"

definition members_ok :: "iam_tables \<Rightarrow> bool" where
  "members_ok db \<longleftrightarrow>
     (\<forall>a \<in> set (cloud_accounts db). ca_organization_id a \<in> fst ` set (cloud_organizations db)
        \<and> (ca_organization_id a, ca_parent_id a) \<in> unit_keys db
        \<and> attached_count (scp_account_attachments db) (ca_account_id a) \<in> {1..10})
     \<and> ac_id ` set (organizations db) \<subseteq> ca_account_id ` set (cloud_accounts db)"

definition policies_ok :: "iam_tables \<Rightarrow> bool" where
  "policies_ok db \<longleftrightarrow>
     sp_organization_id ` set (cloud_scps db) \<subseteq> fst ` set (cloud_organizations db)
     \<and> attachments_refer (scp_unit_attachments db) (unit_keys db) (cloud_scps db)
     \<and> attachments_refer (scp_account_attachments db) (account_keys db) (cloud_scps db)"

definition tree_inv :: "iam_tables \<Rightarrow> bool" where
  "tree_inv db \<longleftrightarrow> keys_distinct db \<and> organizations_ok db \<and> units_ok db \<and> members_ok db \<and> policies_ok db"

lemmas tree_defs = tree_inv_def keys_distinct_def organizations_ok_def units_ok_def members_ok_def policies_ok_def

text \<open>Identifiers drawn for new rows are new to all the tables.\<close>

definition used_ids :: "iam_tables \<Rightarrow> uuid set" where
  "used_ids db = fst ` set (cloud_organizations db) \<union> un_id ` set (cloud_units db) \<union> sp_id ` set (cloud_scps db)
     \<union> ca_account_id ` set (cloud_accounts db) \<union> ac_id ` set (organizations db) \<union> snd ` set (cloud_organizations db)"

definition fresh_ids :: "uuid list \<Rightarrow> iam_tables \<Rightarrow> bool" where
  "fresh_ids ids db \<longleftrightarrow> distinct ids \<and> set ids \<inter> used_ids db = {}"

lemma attachments_refer_mono:
  assumes "attachments_refer rows targets scps" "targets \<subseteq> targets'"
    "(\<lambda>q. (sp_organization_id q, sp_id q)) ` set scps \<subseteq> (\<lambda>q. (sp_organization_id q, sp_id q)) ` set scps'"
  shows "attachments_refer rows targets' scps'"
  unfolding attachments_refer_def
proof (intro conjI ballI, goal_cases)
  case 1
  then show ?case using assms(1) by (simp add: attachments_refer_def)
next
  case (2 x)
  obtain org t p where x: "x = (org, t, p)" by (cases x) auto
  with 2 assms(1) have "(org, t) \<in> targets" "(org, p) \<in> (\<lambda>q. (sp_organization_id q, sp_id q)) ` set scps"
    by (fastforce simp: attachments_refer_def)+
  with assms(2,3) x show ?case by (simp add: subset_iff)
qed

lemma attachments_refer_snoc:
  assumes "attachments_refer rows targets scps" "(org, t) \<in> targets" "p \<in> set scps" "sp_organization_id p = org"
    "(org, t, sp_id p) \<notin> set rows"
  shows "attachments_refer (rows @ [(org, t, sp_id p)]) targets scps"
  using assms unfolding attachments_refer_def by auto

lemma attachments_refer_filter:
  "attachments_refer rows targets scps \<Longrightarrow> attachments_refer (filter P rows) targets scps"
  unfolding attachments_refer_def by auto

lemma attached_count_append [simp]: "attached_count (rows @ rows') t = attached_count rows t + attached_count rows' t"
  by (simp add: attached_count_def)

lemma attached_count_single [simp]: "attached_count [(org, t, p)] t' = (if t = t' then 1 else 0)"
  by (simp add: attached_count_def)

lemma attached_count_new:
  "attachments_refer rows targets scps \<Longrightarrow> t \<notin> snd ` targets \<Longrightarrow> attached_count rows t = 0"
  unfolding attachments_refer_def attached_count_def by (force simp: filter_empty_conv)

text \<open>
  The count of the code, over the organization and the target, is the count over the target.
\<close>

lemma attached_count_org:
  assumes "attachments_refer rows targets scps" "\<And>org'. (org', t) \<in> targets \<Longrightarrow> org' = org"
  shows "length (filter (\<lambda>(o', t', _). o' = org \<and> t' = t) rows) = attached_count rows t"
proof -
  have "filter (\<lambda>(o', t', _). o' = org \<and> t' = t) rows = filter (\<lambda>(_, t', _). t' = t) rows"
    using assms unfolding attachments_refer_def by (intro filter_cong) auto
  then show ?thesis by (simp add: attached_count_def)
qed

subsection \<open>Levels\<close>

lemma target_documents_append [simp]:
  "target_documents (rows @ rows') t = target_documents rows t @ target_documents rows' t"
  by (simp add: target_documents_def)

lemma target_documents_other: "t \<notin> fst ` set rows \<Longrightarrow> target_documents rows t = []"
  by (force simp: target_documents_def)

lemma attached_documents:
  assumes "attachments_refer rows targets (cloud_scps db)"
  shows "length (target_documents (attached_rows db rows t r) t) = attached_count rows t"
proof -
  let ?as = "filter (\<lambda>(_, t', _). t' = t) rows"
  have found: "\<exists>q. find (\<lambda>p. sp_id p = policy) (cloud_scps db) = Some q"
    if "(org, t', policy) \<in> set ?as" for org t' policy
  proof -
    have "policy \<in> sp_id ` set (cloud_scps db)"
      using assms that unfolding attachments_refer_def by auto
    then show ?thesis by (cases "find (\<lambda>p. sp_id p = policy) (cloud_scps db)") (auto simp: find_None_iff)
  qed
  have "length (target_documents (map (\<lambda>(_, _, policy). (t, r,
      map_option sp_document (find (\<lambda>p. sp_id p = policy) (cloud_scps db)))) as) t) = length as"
    if "set as \<subseteq> set ?as" for as
    using that
  proof (induction as)
    case (Cons a as)
    obtain org t' policy where a: "a = (org, t', policy)" by (cases a) auto
    with found [of org t' policy] Cons.prems obtain q where
      "find (\<lambda>p. sp_id p = policy) (cloud_scps db) = Some q" by auto
    with a Cons show ?case by (simp add: target_documents_def)
  qed (simp add: target_documents_def)
  from this [of ?as] show ?thesis
    by (cases ?as) (simp_all add: attached_rows_def attached_count_def target_documents_def)
qed

lemma unit_rows_targets:
  "fst ` set (concat (map (\<lambda>u. attached_rows db rows (un_id u) (root u)) us)) = un_id ` set us"
  by (induction us) (simp_all add: image_Un attached_rows_targets)

lemma unit_documents:
  assumes "distinct (map un_id us)" "u \<in> set us" "attachments_refer rows targets (cloud_scps db)"
  shows "length (target_documents (concat (map (\<lambda>u. attached_rows db rows (un_id u) (root u)) us)) (un_id u))
    = attached_count rows (un_id u)"
  using assms(1,2)
proof (induction us)
  case (Cons x us)
  show ?case
  proof (cases "x = u")
    case True
    have "un_id u \<notin> un_id ` set us" using Cons.prems True by auto
    then have "un_id u \<notin> fst ` set (concat (map (\<lambda>u. attached_rows db rows (un_id u) (root u)) us))"
      by (simp only: unit_rows_targets not_False_eq_True)
    then show ?thesis using True target_documents_other attached_documents [OF assms(3), of "un_id u" "root u"] by simp
  next
    case False
    with Cons.prems have us: "u \<in> set us" "un_id x \<notin> un_id ` set us" by auto
    then have "un_id u \<noteq> un_id x" "u \<in> set us" by (metis image_eqI, blast)
    moreover from this(1) have "target_documents (attached_rows db rows (un_id x) (root x)) (un_id u) = []"
      by (intro target_documents_other) (simp add: attached_rows_targets)
    ultimately show ?thesis using Cons by simp
  qed
qed simp

lemma keyed_find:
  assumes "distinct (map k xs)" "x \<in> set xs"
  shows "find (\<lambda>y. k y = k x) xs = Some x"
  by (rule find_unique [OF assms]) simp_all

lemma account_organization:
  assumes inv: "tree_inv db" and a: "a \<in> set (cloud_accounts db)"
  obtains management where "(ca_organization_id a, management) \<in> set (cloud_organizations db)"
    "cloud_organization_for_account db (ca_account_id a) = Some (ca_organization_id a, management)"
proof -
  from inv a have "ca_organization_id a \<in> fst ` set (cloud_organizations db)"
    by (auto simp: tree_inv_def members_ok_def)
  then obtain management where m: "(ca_organization_id a, management) \<in> set (cloud_organizations db)" by force
  with inv have root: "list_ex (\<lambda>u. un_organization_id u = ca_organization_id a \<and> un_parent_id u = None) (cloud_units db)"
    by (fastforce simp: tree_inv_def organizations_ok_def list_ex_iff)
  have "find (\<lambda>(org, _). org = ca_organization_id a
      \<and> list_ex (\<lambda>u. un_organization_id u = org \<and> un_parent_id u = None) (cloud_units db)) (cloud_organizations db)
    = Some (ca_organization_id a, management)"
    by (rule find_unique [OF _ m, where k = fst]) (use inv root in \<open>auto simp: tree_inv_def keys_distinct_def\<close>)
  moreover have "find (\<lambda>x. ca_account_id x = ca_account_id a) (cloud_accounts db) = Some a"
    by (rule keyed_find [OF _ a]) (use inv in \<open>simp add: tree_inv_def keys_distinct_def\<close>)
  ultimately have "cloud_organization_for_account db (ca_account_id a) = Some (ca_organization_id a, management)"
    by (simp add: cloud_organization_for_account_def)
  with m show thesis by (rule that)
qed

lemma account_path:
  assumes inv: "tree_inv db" and a: "a \<in> set (cloud_accounts db)"
  obtains u path where "chain (cloud_units db) (u # path)" "length path \<le> 5" "distinct (map un_id (u # path))"
    "account_units db (ca_account_id a) = u # path"
proof -
  from inv a have "(ca_organization_id a, ca_parent_id a) \<in> unit_keys db" by (simp add: tree_inv_def members_ok_def)
  then obtain u where u: "u \<in> set (cloud_units db)" "un_organization_id u = ca_organization_id a" "un_id u = ca_parent_id a"
    by auto
  have d: "distinct (map un_id (cloud_units db))" using inv by (simp add: tree_inv_def keys_distinct_def)
  have rooted: "unit_rooted (cloud_units db) u" using inv u(1) by (simp add: tree_inv_def units_ok_def)
  have "find (\<lambda>x. un_id x = ca_parent_id a \<and> un_organization_id x = ca_organization_id a) (cloud_units db) = Some u"
    by (rule find_unique [OF d u(1)]) (use u in auto)
  moreover have "find (\<lambda>x. ca_account_id x = ca_account_id a) (cloud_accounts db) = Some a"
    by (rule keyed_find [OF _ a]) (use inv in \<open>simp add: tree_inv_def keys_distinct_def\<close>)
  ultimately have "account_units db (ca_account_id a) = ancestors (cloud_units db) [un_id u] u"
    by (simp add: account_units_def)
  with unit_rootedE [OF rooted d] that show thesis by metis
qed

lemma root_row:
  "r \<in> set us \<Longrightarrow> un_parent_id r = None \<Longrightarrow>
   list_ex (\<lambda>(_, is_root, _). is_root) (concat (map (\<lambda>u. attached_rows db rows (un_id u) (un_parent_id u = None)) us) @ xs)"
proof (induction us)
  case (Cons x us)
  then show ?case
  proof (cases "x = r")
    case True
    with Cons.prems show ?thesis
      by (cases "filter (\<lambda>(_, t, _). t = un_id r) rows") (auto simp: attached_rows_def)
  qed simp
qed simp

lemma length_group_levels: "length (group_levels rows []) = card (fst ` set rows)"
proof -
  have wf: "btree_wf (group_levels rows [])" by (rule btree_wf_group_levels) (simp add: btree_wf_def)
  have "fst ` set (group_levels rows []) = dom (map_of (group_levels rows []))" by (simp add: dom_map_of_conv_image_fst)
  also have "\<dots> = fst ` set rows" by (simp add: dom_def map_of_group_levels)
  finally show ?thesis using distinct_card [OF btree_wf_distinct [OF wf]] by simp
qed

text \<open>
  The levels of a member account: one for each unit of its path, one for itself, none of them empty.
\<close>

lemma member_levels:
  assumes inv: "tree_inv db" and a: "a \<in> set (cloud_accounts db)"
  shows "list_ex (\<lambda>(_, is_root, _). is_root) (scp_rows db (ca_account_id a))
    \<and> length (group_levels (scp_rows db (ca_account_id a)) []) \<in> {2..7}
    \<and> (\<forall>l \<in> snd ` set (group_levels (scp_rows db (ca_account_id a)) []). length l \<in> {1..10})"
proof -
  let ?t = "ca_account_id a"
  obtain u path where c: "chain (cloud_units db) (u # path)" "length path \<le> 5" "distinct (map un_id (u # path))"
    and us: "account_units db ?t = u # path" using account_path [OF inv a] by metis
  let ?us = "u # path"
  let ?units = "concat (map (\<lambda>u. attached_rows db (scp_unit_attachments db) (un_id u) (un_parent_id u = None)) ?us)"
  have rows: "scp_rows db ?t = ?units @ attached_rows db (scp_account_attachments db) ?t False"
    using a by (auto simp: scp_rows_def us list_ex_iff)
  obtain r where r: "r \<in> set ?us" "un_parent_id r = None" using chain_ends [OF c(1)] by blast
  have sub: "set ?us \<subseteq> set (cloud_units db)" by (rule chain_in [OF c(1)])
  have t: "?t \<notin> un_id ` set ?us" using inv a sub by (auto simp: tree_inv_def keys_distinct_def)
  have keys: "fst ` set (scp_rows db ?t) = insert ?t (un_id ` set ?us)"
    unfolding rows by (simp only: set_append image_Un unit_rows_targets attached_rows_targets) blast
  have "card (un_id ` set ?us) = length ?us" using distinct_card [OF c(3)] by simp
  then have len: "length (group_levels (scp_rows db ?t) []) = Suc (length ?us)"
    using t by (simp add: length_group_levels keys)
  have docs: "length (target_documents (scp_rows db ?t) k) \<in> {1..10}" if "k \<in> insert ?t (un_id ` set ?us)" for k
  proof (cases "k = ?t")
    case True
    have "target_documents ?units ?t = []" by (rule target_documents_other) (simp only: unit_rows_targets t not_False_eq_True)
    with True have "length (target_documents (scp_rows db ?t) k) = attached_count (scp_account_attachments db) ?t"
      using inv attached_documents [of "scp_account_attachments db" "account_keys db" db ?t False]
      unfolding rows by (simp add: tree_inv_def policies_ok_def)
    with inv a show ?thesis by (simp add: tree_inv_def members_ok_def)
  next
    case False
    with that obtain x where x: "x \<in> set ?us" "k = un_id x" by blast
    have "target_documents (attached_rows db (scp_account_attachments db) ?t False) k = []"
      by (rule target_documents_other) (simp add: attached_rows_targets False)
    then have "length (target_documents (scp_rows db ?t) k) = attached_count (scp_unit_attachments db) k"
      using inv unit_documents [OF c(3) x(1), of "scp_unit_attachments db" "unit_keys db" db "\<lambda>u. un_parent_id u = None"] x(2)
      unfolding rows by (simp add: tree_inv_def policies_ok_def)
    moreover have "x \<in> set (cloud_units db)" using x(1) sub by blast
    ultimately show ?thesis using inv x(2) by (simp add: tree_inv_def units_ok_def)
  qed
  have "list_ex (\<lambda>(_, is_root, _). is_root) (scp_rows db ?t)" unfolding rows by (rule root_row [OF r])
  moreover have "\<forall>l \<in> snd ` set (group_levels (scp_rows db ?t) []). length l \<in> {1..10}"
    using docs by (auto simp: group_levels_values keys simp del: insert_iff)
  ultimately show ?thesis using len c(2) by auto
qed

subsection \<open>Every operation keeps the invariant\<close>

lemma tree_inv_cong:
  "organizations db' = organizations db \<Longrightarrow> cloud_organizations db' = cloud_organizations db \<Longrightarrow>
   cloud_units db' = cloud_units db \<Longrightarrow> cloud_accounts db' = cloud_accounts db \<Longrightarrow> cloud_scps db' = cloud_scps db \<Longrightarrow>
   scp_unit_attachments db' = scp_unit_attachments db \<Longrightarrow> scp_account_attachments db' = scp_account_attachments db \<Longrightarrow>
   tree_inv db' \<longleftrightarrow> tree_inv db"
  by (simp add: tree_defs managed_policies_def)

lemma managed_policies_new:
  assumes "policies_ok db" "org \<notin> fst ` set (cloud_organizations db)"
  shows "managed_policies db org = []"
  using assms by (auto simp: managed_policies_def policies_ok_def filter_empty_conv)

text \<open>The rows a new account brings: its organization, root, policy, membership and attachments.\<close>

lemma account_rows_added:
  assumes "policies_ok db" "org \<notin> fst ` set (cloud_organizations db)"
  shows "create_account_organization org p r a db = db\<lparr>
    cloud_organizations := cloud_organizations db @ [(org, a)],
    cloud_units := cloud_units db @ [\<lparr>un_id = r, un_organization_id = org, un_parent_id = None, un_name = lit ''Root''\<rparr>],
    cloud_accounts := cloud_accounts db @ [\<lparr>ca_account_id = a, ca_organization_id = org, ca_parent_id = r\<rparr>],
    cloud_scps := cloud_scps db @ [\<lparr>sp_id = p, sp_organization_id = org, sp_name = lit ''FullAWSAccess'',
      sp_document = full_access, sp_is_managed = True\<rparr>],
    scp_unit_attachments := scp_unit_attachments db @ [(org, r, p)],
    scp_account_attachments := scp_account_attachments db @ [(org, a, p)]\<rparr>"
proof -
  have "managed_policies db org = []" using assms by (rule managed_policies_new)
  then show ?thesis
    by (simp add: create_account_organization_def insert_cloud_account_def insert_unit_def attach_default_unit_scp_def
        attach_default_account_scp_def managed_policies_def)
qed

lemma added_account_inv:
  assumes inv: "tree_inv db" and fresh: "fresh_ids [org, p, r, ac_id acct] db"
    and org: "organizations db' = organizations db @ [acct]"
    and new: "cloud_organizations db' = cloud_organizations db @ [(org, ac_id acct)]"
      "cloud_units db' = cloud_units db @ [u]" "un_id u = r" "un_organization_id u = org" "un_parent_id u = None"
      "cloud_accounts db' = cloud_accounts db @ [m]" "ca_account_id m = ac_id acct" "ca_organization_id m = org" "ca_parent_id m = r"
      "cloud_scps db' = cloud_scps db @ [q]" "sp_id q = p" "sp_organization_id q = org" "sp_is_managed q"
      "scp_unit_attachments db' = scp_unit_attachments db @ [(org, r, p)]"
      "scp_account_attachments db' = scp_account_attachments db @ [(org, ac_id acct, p)]"
  shows "tree_inv db'"
proof -
  let ?a = "ac_id acct"
  have f: "org \<notin> fst ` set (cloud_organizations db)" "?a \<notin> snd ` set (cloud_organizations db)" "r \<notin> un_id ` set (cloud_units db)"
    "p \<notin> sp_id ` set (cloud_scps db)" "?a \<notin> ca_account_id ` set (cloud_accounts db)" "?a \<notin> un_id ` set (cloud_units db)"
    "r \<notin> ca_account_id ` set (cloud_accounts db)" "r \<noteq> ?a"
    using fresh by (auto simp: fresh_ids_def used_ids_def)
  from inv have parts: "keys_distinct db" "organizations_ok db" "units_ok db" "members_ok db" "policies_ok db"
    by (simp_all add: tree_inv_def)
  have mp: "managed_policies db' org' = managed_policies db org' @ (if org' = org then [p] else [])" for org'
    by (simp add: managed_policies_def new)
  have none: "managed_policies db org = []" using managed_policies_new [OF parts(5) f(1)] .
  have refer: "attachments_refer (scp_unit_attachments db) (unit_keys db) (cloud_scps db)"
    "attachments_refer (scp_account_attachments db) (account_keys db) (cloud_scps db)"
    using parts(5) by (simp_all add: policies_ok_def)
  have zero: "attached_count (scp_unit_attachments db) r = 0" "attached_count (scp_account_attachments db) ?a = 0"
    using f by (auto intro!: attached_count_new [OF refer(1)] attached_count_new [OF refer(2)] simp: image_image)
  have "keys_distinct db'" using parts(1) f by (auto simp: keys_distinct_def new)
  moreover have "organizations_ok db'"
    using parts(2) f(1) none unfolding organizations_ok_def mp by (force simp: new)
  moreover have "units_ok db'"
    unfolding units_ok_def new(2)
  proof (intro ballI conjI)
    fix x assume x: "x \<in> set (cloud_units db @ [u])"
    have "unit_rooted (cloud_units db @ [u]) u"
      unfolding unit_rooted_def by (rule exI [of _ "[]"]) (use new(5) in \<open>auto intro: chain_root\<close>)
    with x parts(3) show "unit_rooted (cloud_units db @ [u]) x"
      by (auto simp: units_ok_def intro: unit_rooted_mono)
    show "un_organization_id x \<in> fst ` set (cloud_organizations db')" using x parts(3) new(4) by (auto simp: units_ok_def new)
    show "attached_count (scp_unit_attachments db') (un_id x) \<in> {1..10}"
    proof (cases "x = u")
      case False
      with x have "x \<in> set (cloud_units db)" by simp
      moreover from this f(3) have "un_id x \<noteq> r" by blast
      ultimately show ?thesis using parts(3) by (simp add: units_ok_def new(14))
    qed (use zero(1) new(3,14) in simp)
  qed
  moreover have "members_ok db'"
    unfolding members_ok_def new(6) org
  proof (intro ballI conjI)
    fix x assume x: "x \<in> set (cloud_accounts db @ [m])"
    show "ca_organization_id x \<in> fst ` set (cloud_organizations db')" "(ca_organization_id x, ca_parent_id x) \<in> unit_keys db'"
      using x parts(4) new by (auto simp: members_ok_def)
    show "attached_count (scp_account_attachments db') (ca_account_id x) \<in> {1..10}"
    proof (cases "x = m")
      case False
      with x have "x \<in> set (cloud_accounts db)" by simp
      moreover from this f(5) have "ca_account_id x \<noteq> ?a" by (metis image_eqI)
      ultimately show ?thesis using parts(4) by (simp add: members_ok_def new(15))
    qed (use zero(2) new(7,15) in simp)
  qed (use parts(4) new(7) in \<open>auto simp: members_ok_def\<close>)
  moreover have "policies_ok db'"
  proof -
    have "attachments_refer (scp_unit_attachments db @ [(org, r, sp_id q)]) (unit_keys db') (cloud_scps db')"
      by (rule attachments_refer_snoc [OF attachments_refer_mono [OF refer(1)]])
         (use zero new f in \<open>auto simp: attached_count_def filter_empty_conv\<close>)
    moreover have "attachments_refer (scp_account_attachments db @ [(org, ?a, sp_id q)]) (account_keys db') (cloud_scps db')"
      by (rule attachments_refer_snoc [OF attachments_refer_mono [OF refer(2)]])
         (use zero new f in \<open>auto simp: attached_count_def filter_empty_conv\<close>)
    ultimately show ?thesis using parts(5) by (auto simp: policies_ok_def new)
  qed
  ultimately show ?thesis by (simp add: tree_inv_def)
qed

lemma insert_account_cases:
  assumes "insert_account gen acct db = Inr db'"
  shows "db' = create_account_organization (gen 0) (gen 1) (gen 2) (ac_id acct) (db\<lparr>organizations := organizations db @ [acct]\<rparr>)"
  using assms by (simp add: insert_account_def bindE_Inr_iff)

lemma insert_owner_frame:
  assumes "insert_owner prin membership account name user db = Inr db'"
  shows "organizations db' = organizations db" "cloud_organizations db' = cloud_organizations db"
    "cloud_units db' = cloud_units db" "cloud_accounts db' = cloud_accounts db" "cloud_scps db' = cloud_scps db"
    "scp_unit_attachments db' = scp_unit_attachments db" "scp_account_attachments db' = scp_account_attachments db"
  using assms by (auto simp: insert_owner_def insert_principal_def insert_membership_def bindE_Inr_iff)

lemma create_organization_inv:
  assumes inv: "tree_inv db" and op: "create_organization gen number user slug name db = Inr (acct, db')"
    and fresh: "fresh_ids [gen 0, gen 1, gen 2, gen 3] db"
  shows "tree_inv db'"
proof -
  let ?db = "db\<lparr>organizations := organizations db @ [acct]\<rparr>"
  from op have "ac_id acct = gen 3 \<and> (\<exists>db1. insert_account gen acct db = Inr db1
      \<and> (\<exists>n. insert_owner (gen 4) (gen 5) (gen 3) n user db1 = Inr db'))"
    by (clarsimp simp: create_organization_def bindE_Inr_iff Let_def) blast
  then obtain n db1 where a: "ac_id acct = gen 3" and db1: "insert_account gen acct db = Inr db1"
    and db': "insert_owner (gen 4) (gen 5) (gen 3) n user db1 = Inr db'" by blast
  have pol: "policies_ok ?db" using inv by (simp add: tree_inv_def policies_ok_def)
  have "gen 0 \<notin> fst ` set (cloud_organizations ?db)" using fresh by (auto simp: fresh_ids_def used_ids_def)
  note rows = insert_account_cases [OF db1, unfolded account_rows_added [OF pol this]]
  have "tree_inv db1"
    by (rule added_account_inv [OF inv, of "gen 0" "gen 1" "gen 2" acct]) ((use fresh a in \<open>simp_all add: rows\<close>), simp_all)
  then show ?thesis using tree_inv_cong [OF insert_owner_frame [OF db']] by blast
qed

lemma managed_organization_Some:
  "managed_organization db management = Some org \<Longrightarrow> (org, management) \<in> set (cloud_organizations db)"
  by (auto simp: managed_organization_def dest: find_eq_Some)

lemma unit_of_Some:
  "unit_of db org unit = Some u \<Longrightarrow> u \<in> set (cloud_units db) \<and> un_id u = unit \<and> un_organization_id u = org"
  by (auto simp: unit_of_def dest: find_eq_Some)

lemma unit_of_iff: "unit_of db org unit \<noteq> None \<longleftrightarrow> (org, unit) \<in> unit_keys db"
  by (auto simp: unit_of_def find_None_iff)

lemma managed_policy:
  assumes "tree_inv db" "org \<in> fst ` set (cloud_organizations db)"
  obtains q where "q \<in> set (cloud_scps db)" "sp_organization_id q = org" "managed_policies db org = [sp_id q]"
proof -
  from assms have "length (managed_policies db org) = 1" by (fastforce simp: tree_inv_def organizations_ok_def)
  then obtain q where q: "filter (\<lambda>p. sp_organization_id p = org \<and> sp_is_managed p) (cloud_scps db) = [q]"
    by (auto simp: managed_policies_def length_Suc_conv)
  then have "set (filter (\<lambda>p. sp_organization_id p = org \<and> sp_is_managed p) (cloud_scps db)) = {q}" by (simp only: list.set)
  then have "q \<in> set (cloud_scps db)" "sp_organization_id q = org" by auto
  with q show thesis by (intro that) (simp_all add: managed_policies_def)
qed

text \<open>A unit below an existing one.\<close>

lemma inserted_unit_inv:
  assumes inv: "tree_inv db" and v: "v \<in> set (cloud_units db)" "length (ancestors (cloud_units db) [un_id v] v) \<le> 5"
    and u: "un_parent_id u = Some (un_id v)" "un_organization_id u = un_organization_id v" "fresh_ids [un_id u] db"
  shows "tree_inv (insert_unit u db)"
proof -
  let ?db = "insert_unit u db" and ?org = "un_organization_id v"
  from inv have parts: "keys_distinct db" "organizations_ok db" "units_ok db" "members_ok db" "policies_ok db"
    by (simp_all add: tree_inv_def)
  have f: "un_id u \<notin> un_id ` set (cloud_units db)" "un_id u \<notin> ca_account_id ` set (cloud_accounts db)"
    using u(3) by (auto simp: fresh_ids_def used_ids_def)
  have org: "?org \<in> fst ` set (cloud_organizations db)" using parts(3) v(1) by (simp add: units_ok_def)
  obtain q where q: "q \<in> set (cloud_scps db)" "sp_organization_id q = ?org" "managed_policies db ?org = [sp_id q]"
    using managed_policy [OF inv org] .
  have mp: "managed_policies ?db x = managed_policies db x" for x
    by (simp add: insert_unit_def attach_default_unit_scp_def managed_policies_def)
  have new: "cloud_units ?db = cloud_units db @ [u]" "cloud_organizations ?db = cloud_organizations db"
    "cloud_accounts ?db = cloud_accounts db" "cloud_scps ?db = cloud_scps db" "organizations ?db = organizations db"
    "scp_account_attachments ?db = scp_account_attachments db"
    "scp_unit_attachments ?db = scp_unit_attachments db @ [(?org, un_id u, sp_id q)]"
    using q(3) u(2) by (simp_all add: insert_unit_def attach_default_unit_scp_def managed_policies_def)
  have refer: "attachments_refer (scp_unit_attachments db) (unit_keys db) (cloud_scps db)" using parts(5) by (simp add: policies_ok_def)
  have zero: "attached_count (scp_unit_attachments db) (un_id u) = 0"
    using f by (auto intro!: attached_count_new [OF refer] simp: image_image)
  have "keys_distinct ?db" using parts(1) f by (auto simp: keys_distinct_def new)
  moreover have "organizations_ok ?db" using parts(2) unfolding organizations_ok_def mp new by fastforce
  moreover have "units_ok ?db"
    unfolding units_ok_def new
  proof (intro ballI conjI)
    fix x assume x: "x \<in> set (cloud_units db @ [u])"
    have "unit_rooted (cloud_units db @ [u]) u"
      by (rule unit_rooted_new [OF v(1) _ _ v(2) u(1,2) f(1)]) (use parts v(1) in \<open>simp_all add: units_ok_def keys_distinct_def\<close>)
    with x parts(3) show "unit_rooted (cloud_units db @ [u]) x"
      by (auto simp: units_ok_def intro: unit_rooted_mono)
    show "un_organization_id x \<in> fst ` set (cloud_organizations db)" 
      by (cases "x = u") (use x parts(3) u(2) org in \<open>simp_all add: units_ok_def\<close>)
    show "attached_count (scp_unit_attachments db @ [(?org, un_id u, sp_id q)]) (un_id x) \<in> {1..10}"
    proof (cases "x = u")
      case False
      with x have "x \<in> set (cloud_units db)" by simp
      moreover from this f(1) have "un_id x \<noteq> un_id u" by (metis image_eqI)
      ultimately show ?thesis using parts(3) by (simp add: units_ok_def)
    qed (use zero in simp)
  qed
  moreover have "members_ok ?db" using parts(4) by (auto simp: members_ok_def new)
  moreover have "attachments_refer (scp_unit_attachments db @ [(?org, un_id u, sp_id q)]) (unit_keys ?db) (cloud_scps ?db)"
    by (rule attachments_refer_snoc [OF attachments_refer_mono [OF refer]])
       (use zero q u(2) in \<open>auto simp: attached_count_def filter_empty_conv new\<close>)
  then have "policies_ok ?db" using parts(5) by (simp add: policies_ok_def new)
  ultimately show ?thesis by (simp add: tree_inv_def)
qed

lemma create_unit_inv:
  assumes inv: "tree_inv db" and op: "create_cloud_organizational_unit lower uid management parent name db = Inr (u, db')"
    and fresh: "fresh_ids [uid] db"
  shows "tree_inv db'"
proof -
  from op obtain org where org: "managed_organization db management = Some org"
    and depth: "unit_depth db management parent \<noteq> 0" "unit_depth db management parent \<le> 5"
    and u: "u = \<lparr>un_id = uid, un_organization_id = org, un_parent_id = Some parent, un_name = name\<rparr>"
    and db': "db' = insert_unit u db"
    by (auto simp: create_cloud_organizational_unit_def Let_def bindE_Inr_iff split: if_splits)
  from depth(1) org obtain v where v: "unit_of db org parent = Some v"
    by (auto simp: unit_depth_def split: option.splits)
  have "length (ancestors (cloud_units db) [un_id v] v) \<le> 5"
    using depth org v by (simp add: unit_depth_def Let_def split: if_splits)
  then show ?thesis
    unfolding db' using unit_of_Some [OF v] fresh u by (intro inserted_unit_inv [OF inv]) auto
qed

text \<open>
  A member account: the organization the trigger made for it is gone again before anyone sees it.
\<close>

lemma tree_inv_scoped:
  assumes "tree_inv db"
  shows "un_organization_id ` set (cloud_units db) \<subseteq> fst ` set (cloud_organizations db)"
    "ca_organization_id ` set (cloud_accounts db) \<subseteq> fst ` set (cloud_organizations db)"
    "sp_organization_id ` set (cloud_scps db) \<subseteq> fst ` set (cloud_organizations db)"
    "fst ` set (scp_unit_attachments db) \<subseteq> fst ` set (cloud_organizations db)"
    "fst ` set (scp_account_attachments db) \<subseteq> fst ` set (cloud_organizations db)"
proof -
  show "un_organization_id ` set (cloud_units db) \<subseteq> fst ` set (cloud_organizations db)"
    using assms by (auto simp: tree_inv_def units_ok_def)
  show "ca_organization_id ` set (cloud_accounts db) \<subseteq> fst ` set (cloud_organizations db)"
    using assms by (auto simp: tree_inv_def members_ok_def)
  show p: "sp_organization_id ` set (cloud_scps db) \<subseteq> fst ` set (cloud_organizations db)"
    using assms by (simp add: tree_inv_def policies_ok_def)
  have "fst ` set rows \<subseteq> sp_organization_id ` set (cloud_scps db)" if "attachments_refer rows targets (cloud_scps db)" for rows targets
    using that by (force simp: attachments_refer_def)
  with assms p show "fst ` set (scp_unit_attachments db) \<subseteq> fst ` set (cloud_organizations db)"
    "fst ` set (scp_account_attachments db) \<subseteq> fst ` set (cloud_organizations db)"
    unfolding tree_inv_def policies_ok_def by (meson order_trans)+
qed

lemma filter_scoped: "k ` set xs \<subseteq> A \<Longrightarrow> x \<notin> A \<Longrightarrow> filter (\<lambda>y. k y \<noteq> x) xs = xs"
  by (auto simp: filter_id_conv)

lemma delete_added_organization:
  assumes inv: "tree_inv db" and fresh: "fresh_ids [org, p, r, a] db"
    and same: "organizations db1 = accts" "db1 = db\<lparr>organizations := accts\<rparr>"
  shows "delete_cloud_organizations a (create_account_organization org p r a db1) = db1"
proof -
  have pol: "policies_ok db1" using inv same(2) by (simp add: tree_inv_def policies_ok_def)
  have f: "org \<notin> fst ` set (cloud_organizations db)" "a \<notin> snd ` set (cloud_organizations db)"
    using fresh by (auto simp: fresh_ids_def used_ids_def)
  note drop = filter_scoped [OF tree_inv_scoped(1) [OF inv] f(1)] filter_scoped [OF tree_inv_scoped(2) [OF inv] f(1)]
    filter_scoped [OF tree_inv_scoped(3) [OF inv] f(1)] filter_scoped [OF tree_inv_scoped(4) [OF inv] f(1)]
    filter_scoped [OF tree_inv_scoped(5) [OF inv] f(1)]
  have orgs: "filter (\<lambda>(_, m). m = a) (cloud_organizations db) = []" "filter (\<lambda>(_, m). m \<noteq> a) (cloud_organizations db) = cloud_organizations db"
    using f(2) by (force simp: filter_empty_conv, force simp: filter_id_conv)
  show ?thesis
    using pol f(1) unfolding same(2)
    by (simp add: account_rows_added delete_cloud_organizations_def orgs drop case_prod_unfold
        drop [unfolded case_prod_unfold] orgs [unfolded case_prod_unfold])
qed

lemma added_member_inv:
  assumes inv: "tree_inv db" and org: "org \<in> fst ` set (cloud_organizations db)" and unit: "(org, parent) \<in> unit_keys db"
    and fresh: "fresh_ids [ac_id acct] db"
  shows "tree_inv (insert_cloud_account \<lparr>ca_account_id = ac_id acct, ca_organization_id = org, ca_parent_id = parent\<rparr>
    (db\<lparr>organizations := organizations db @ [acct]\<rparr>))"
    (is "tree_inv ?db")
proof -
  let ?a = "ac_id acct"
  from inv have parts: "keys_distinct db" "organizations_ok db" "units_ok db" "members_ok db" "policies_ok db"
    by (simp_all add: tree_inv_def)
  have f: "?a \<notin> un_id ` set (cloud_units db)" "?a \<notin> ca_account_id ` set (cloud_accounts db)"
    using fresh by (auto simp: fresh_ids_def used_ids_def)
  obtain q where q: "q \<in> set (cloud_scps db)" "sp_organization_id q = org" "managed_policies db org = [sp_id q]"
    using managed_policy [OF inv org] .
  have mp: "managed_policies ?db x = managed_policies db x" for x
    by (simp add: insert_cloud_account_def attach_default_account_scp_def managed_policies_def)
  have new: "cloud_accounts ?db = cloud_accounts db @ [\<lparr>ca_account_id = ?a, ca_organization_id = org, ca_parent_id = parent\<rparr>]"
    "cloud_units ?db = cloud_units db" "cloud_organizations ?db = cloud_organizations db" "cloud_scps ?db = cloud_scps db"
    "organizations ?db = organizations db @ [acct]" "scp_unit_attachments ?db = scp_unit_attachments db"
    "scp_account_attachments ?db = scp_account_attachments db @ [(org, ?a, sp_id q)]"
    using q(3) by (simp_all add: insert_cloud_account_def attach_default_account_scp_def managed_policies_def)
  have refer: "attachments_refer (scp_account_attachments db) (account_keys db) (cloud_scps db)"
    using parts(5) by (simp add: policies_ok_def)
  have zero: "attached_count (scp_account_attachments db) ?a = 0"
    using f by (auto intro!: attached_count_new [OF refer] simp: image_image)
  have "keys_distinct ?db" using parts(1) f by (auto simp: keys_distinct_def new)
  moreover have "organizations_ok ?db" using parts(2) unfolding organizations_ok_def mp new by fastforce
  moreover have "units_ok ?db" using parts(3) by (simp add: units_ok_def new)
  moreover have "members_ok ?db"
  proof -
    have "attached_count (scp_account_attachments db) (ca_account_id x) \<in> {1..10} \<and> ca_account_id x \<noteq> ?a"
      if "x \<in> set (cloud_accounts db)" for x
      using that parts(4) image_eqI [of _ ca_account_id x] f(2) by (metis members_ok_def)
    then show ?thesis using parts(4) org unit zero by (auto simp: members_ok_def new)
  qed
  moreover have "attachments_refer (scp_account_attachments db @ [(org, ?a, sp_id q)]) (account_keys ?db) (cloud_scps ?db)"
    by (rule attachments_refer_snoc [OF attachments_refer_mono [OF refer]])
       (use zero q in \<open>auto simp: attached_count_def filter_empty_conv new\<close>)
  then have "policies_ok ?db" using parts(5) by (simp add: policies_ok_def new)
  ultimately show ?thesis by (simp add: tree_inv_def)
qed

lemma add_member_inv:
  assumes inv: "tree_inv db" and op: "add_member_account gen number management parent user slug name db = Inr (acct, db')"
    and fresh: "fresh_ids [gen 0, gen 1, gen 2, gen 3] db"
  shows "tree_inv db'"
proof -
  let ?db = "db\<lparr>organizations := organizations db @ [acct]\<rparr>"
  from op have "ac_id acct = gen 3 \<and> (\<exists>org db1. managed_organization db management = Some org
      \<and> unit_of db org parent \<noteq> None \<and> insert_account gen acct db = Inr db1
      \<and> (\<exists>n. insert_owner (gen 4) (gen 5) (gen 3) n user
           (insert_cloud_account \<lparr>ca_account_id = gen 3, ca_organization_id = org, ca_parent_id = parent\<rparr>
             (delete_cloud_organizations (gen 3) db1)) = Inr db'))"
    by (clarsimp simp: add_member_account_def bindE_Inr_iff Let_def) blast
  then obtain org db1 n where a: "ac_id acct = gen 3" and org: "managed_organization db management = Some org"
    and unit: "unit_of db org parent \<noteq> None" and db1: "insert_account gen acct db = Inr db1"
    and db': "insert_owner (gen 4) (gen 5) (gen 3) n user
      (insert_cloud_account \<lparr>ca_account_id = gen 3, ca_organization_id = org, ca_parent_id = parent\<rparr>
         (delete_cloud_organizations (gen 3) db1)) = Inr db'" by blast
  have "delete_cloud_organizations (gen 3) db1 = ?db"
    unfolding insert_account_cases [OF db1] a by (rule delete_added_organization [OF inv fresh]) simp_all
  moreover have "tree_inv (insert_cloud_account \<lparr>ca_account_id = ac_id acct, ca_organization_id = org, ca_parent_id = parent\<rparr> ?db)"
  proof (rule added_member_inv [OF inv])
    show "org \<in> fst ` set (cloud_organizations db)" using managed_organization_Some [OF org] by force
    show "(org, parent) \<in> unit_keys db" using unit unit_of_iff by blast
    show "fresh_ids [ac_id acct] db" using fresh a by (simp add: fresh_ids_def)
  qed
  ultimately show ?thesis using tree_inv_cong [OF insert_owner_frame [OF db']] a by simp
qed

lemma move_inv:
  assumes inv: "tree_inv db" and op: "move_cloud_member_account management account parent db = Inr db'"
  shows "tree_inv db'"
proof -
  from op obtain org where org: "managed_organization db management = Some org"
    and db': "db' = db\<lparr>cloud_accounts := map (\<lambda>a. if ca_account_id a = account \<and> account \<noteq> management
       \<and> ca_organization_id a = org \<and> unit_of db org parent \<noteq> None then a\<lparr>ca_parent_id := parent\<rparr> else a) (cloud_accounts db)\<rparr>"
    by (auto simp: move_cloud_member_account_def Let_def bindE_Inr_iff)
  define f where "f a = (if ca_account_id a = account \<and> account \<noteq> management
       \<and> ca_organization_id a = org \<and> unit_of db org parent \<noteq> None then a\<lparr>ca_parent_id := parent\<rparr> else a)" for a :: cloud_account_row
  have f: "ca_account_id (f a) = ca_account_id a" "ca_organization_id (f a) = ca_organization_id a"
    "ca_parent_id (f a) = ca_parent_id a \<or> ca_organization_id a = org \<and> ca_parent_id (f a) = parent \<and> unit_of db org parent \<noteq> None" for a
    by (auto simp: f_def)
  have db': "db' = db\<lparr>cloud_accounts := map f (cloud_accounts db)\<rparr>" unfolding db' f_def by (simp add: fun_eq_iff)
  have keys: "map ca_account_id (cloud_accounts db') = map ca_account_id (cloud_accounts db)"
    "account_keys db' = account_keys db" by (simp_all add: db' f(1,2) image_image)
  from inv have parts: "keys_distinct db" "organizations_ok db" "units_ok db" "members_ok db" "policies_ok db"
    by (simp_all add: tree_inv_def)
  have sets: "ca_account_id ` set (cloud_accounts db') = ca_account_id ` set (cloud_accounts db)"
    using arg_cong [OF keys(1), of set] by simp
  have "keys_distinct db'" using parts(1) unfolding keys_distinct_def keys(1) sets by (simp add: db')
  moreover have "organizations_ok db'"
    using parts(2) unfolding organizations_ok_def keys(2) by (simp add: db' managed_policies_def)
  moreover have "units_ok db'" using parts(3) by (simp add: units_ok_def db')
  moreover have "members_ok db'"
    unfolding members_ok_def sets
  proof (intro ballI conjI)
    fix x assume "x \<in> set (cloud_accounts db')"
    then obtain a where a: "a \<in> set (cloud_accounts db)" and x: "x = f a" by (auto simp: db')
    with parts(4) show "ca_organization_id x \<in> fst ` set (cloud_organizations db')"
      "attached_count (scp_account_attachments db') (ca_account_id x) \<in> {1..10}"
      by (simp_all add: members_ok_def db' f(1,2))
    have "(ca_organization_id a, ca_parent_id a) \<in> unit_keys db" using parts(4) a by (simp add: members_ok_def)
    then have "(ca_organization_id x, ca_parent_id x) \<in> unit_keys db"
      using f(3) [of a] unit_of_iff [of db org parent] unfolding x f(2) by metis
    then show "(ca_organization_id x, ca_parent_id x) \<in> unit_keys db'" by (simp add: db')
  qed (use parts(4) in \<open>simp add: members_ok_def db'\<close>)
  moreover have "policies_ok db'" using parts(5) unfolding policies_ok_def keys(2) by (simp add: db')
  ultimately show ?thesis by (simp add: tree_inv_def)
qed

lemma rename_unit_inv:
  assumes inv: "tree_inv db" and op: "rename_cloud_unit lower management unit name db = Inr db'"
  shows "tree_inv db'"
proof -
  from op obtain org where db': "db' = db\<lparr>cloud_units := map (\<lambda>x. if un_id x = unit \<and> un_organization_id x = org
      then x\<lparr>un_name := name\<rparr> else x) (cloud_units db)\<rparr>"
    by (auto simp: rename_cloud_unit_def bindE_Inr_iff)
  define f where "f x = (if un_id x = unit \<and> un_organization_id x = org then x\<lparr>un_name := name\<rparr> else x)" for x :: unit_row
  have f: "un_id (f x) = un_id x" "un_organization_id (f x) = un_organization_id x" "un_parent_id (f x) = un_parent_id x" for x
    by (simp_all add: f_def)
  have db': "db' = db\<lparr>cloud_units := map f (cloud_units db)\<rparr>" unfolding db' f_def by (simp add: fun_eq_iff)
  have keys: "map un_id (cloud_units db') = map un_id (cloud_units db)" "unit_keys db' = unit_keys db"
    by (simp_all add: db' f image_image)
  from inv have parts: "keys_distinct db" "organizations_ok db" "units_ok db" "members_ok db" "policies_ok db"
    by (simp_all add: tree_inv_def)
  have sets: "un_id ` set (cloud_units db') = un_id ` set (cloud_units db)"
    using arg_cong [OF keys(1), of set] by simp
  have "keys_distinct db'" using parts(1) unfolding keys_distinct_def keys(1) sets by (simp add: db')
  moreover have "organizations_ok db'"
    using parts(2) by (simp add: organizations_ok_def db' managed_policies_def f)
  moreover have "units_ok db'"
    using parts(3) by (auto simp: units_ok_def db' f intro: unit_rooted_map [of f])
  moreover have "members_ok db'" using parts(4) unfolding members_ok_def keys(2) by (simp add: db')
  moreover have "policies_ok db'" using parts(5) unfolding policies_ok_def keys(2) by (simp add: db')
  ultimately show ?thesis by (simp add: tree_inv_def)
qed

lemma rename_account_inv:
  assumes inv: "tree_inv db" and op: "rename_cloud_account management account name db = Inr db'"
  shows "tree_inv db'"
proof -
  from op obtain hit where db': "db' = db\<lparr>organizations := map (\<lambda>r. if hit r then r\<lparr>ac_name := name\<rparr> else r) (organizations db)\<rparr>"
    by (auto simp: rename_cloud_account_def Let_def bindE_Inr_iff)
  have "map ac_id (organizations db') = map ac_id (organizations db)" by (simp add: db')
  from arg_cong [OF this, of set] have sets: "ac_id ` set (organizations db') = ac_id ` set (organizations db)" by simp
  have "members_ok db'" using inv unfolding tree_inv_def members_ok_def sets by (simp add: db')
  with inv show ?thesis
    by (simp add: tree_inv_def keys_distinct_def organizations_ok_def units_ok_def policies_ok_def db' managed_policies_def)
qed

lemma create_policy_inv:
  assumes inv: "tree_inv db" and op: "create_service_control_policy pid management name document db = Inr (p, db')"
    and fresh: "fresh_ids [pid] db"
  shows "tree_inv db'"
proof -
  from op obtain org where org: "managed_organization db management = Some org"
    and p: "sp_id p = pid" "sp_organization_id p = org" "\<not> sp_is_managed p" and db': "db' = db\<lparr>cloud_scps := cloud_scps db @ [p]\<rparr>"
    by (auto simp: create_service_control_policy_def Let_def bindE_Inr_iff)
  from inv have parts: "keys_distinct db" "organizations_ok db" "units_ok db" "members_ok db" "policies_ok db"
    by (simp_all add: tree_inv_def)
  have "org \<in> fst ` set (cloud_organizations db)" using managed_organization_Some [OF org] by force
  moreover have "pid \<notin> sp_id ` set (cloud_scps db)" using fresh by (auto simp: fresh_ids_def used_ids_def)
  moreover have "managed_policies db' x = managed_policies db x" for x using p(3) by (simp add: managed_policies_def db')
  ultimately have "keys_distinct db'" "organizations_ok db'" "sp_organization_id ` set (cloud_scps db') \<subseteq> fst ` set (cloud_organizations db')"
    using parts p by (auto simp: keys_distinct_def organizations_ok_def policies_ok_def db')
  moreover have "attachments_refer (scp_unit_attachments db') (unit_keys db') (cloud_scps db')"
    "attachments_refer (scp_account_attachments db') (account_keys db') (cloud_scps db')"
    using parts(5) by (auto simp: policies_ok_def db' intro: attachments_refer_mono)
  moreover have "units_ok db'" "members_ok db'" using parts by (simp_all add: units_ok_def members_ok_def db')
  ultimately show ?thesis by (simp add: tree_inv_def policies_ok_def)
qed

lemma target_attachments_simps [simp]:
  "target_attachments UnitTarget db = scp_unit_attachments db"
  "target_attachments AccountTarget db = scp_account_attachments db"
  "set_target_attachments UnitTarget rows db = db\<lparr>scp_unit_attachments := rows\<rparr>"
  "set_target_attachments AccountTarget rows db = db\<lparr>scp_account_attachments := rows\<rparr>"
  by (simp_all add: target_attachments_def set_target_attachments_def)

definition target_keys :: "scp_target \<Rightarrow> iam_tables \<Rightarrow> (uuid \<times> uuid) set" where
  "target_keys kind db = (case kind of UnitTarget \<Rightarrow> unit_keys db | AccountTarget \<Rightarrow> account_keys db)"

lemma target_keys_unique:
  assumes "tree_inv db" "(org, t) \<in> target_keys kind db" "(org', t) \<in> target_keys kind db"
  shows "org' = org"
  using assms by (cases kind) (auto simp: target_keys_def tree_inv_def keys_distinct_def distinct_map inj_on_def)

text \<open>New attachments of one kind that still refer to rows, between one and ten for each target.\<close>

lemma set_attachments_inv:
  assumes inv: "tree_inv db" and refer: "attachments_refer rows (target_keys kind db) (cloud_scps db)"
    and count: "\<And>org t. (org, t) \<in> target_keys kind db \<Longrightarrow> attached_count rows t \<in> {1..10}"
  shows "tree_inv (set_target_attachments kind rows db)"
proof (cases kind)
  case UnitTarget
  have "attached_count rows (un_id u) \<in> {1..10}" if "u \<in> set (cloud_units db)" for u
    by (rule count [of "un_organization_id u"]) (use that UnitTarget in \<open>simp add: target_keys_def\<close>)
  with inv refer UnitTarget show ?thesis by (simp add: tree_defs target_keys_def managed_policies_def)
next
  case AccountTarget
  have "attached_count rows (ca_account_id a) \<in> {1..10}" if "a \<in> set (cloud_accounts db)" for a
    by (rule count [of "ca_organization_id a"]) (use that AccountTarget in \<open>simp add: target_keys_def\<close>)
  with inv refer AccountTarget show ?thesis by (simp add: tree_defs target_keys_def managed_policies_def)
qed

lemma tree_inv_attachments:
  assumes "tree_inv db"
  shows "attachments_refer (target_attachments kind db) (target_keys kind db) (cloud_scps db)"
    "(org, t) \<in> target_keys kind db \<Longrightarrow> attached_count (target_attachments kind db) t \<in> {1..10}"
  using assms by (cases kind; auto simp: tree_defs target_keys_def)+

lemma attached_count_filter:
  assumes "distinct rows" "(org, t, p) \<in> set rows"
  shows "attached_count (filter (\<lambda>r. r \<noteq> (org, t, p)) rows) t' = attached_count rows t' - (if t' = t then 1 else 0)"
proof -
  have "filter (\<lambda>(_, t'', _). t'' = t') (filter (\<lambda>r. r \<noteq> (org, t, p)) rows)
      = filter (\<lambda>r. r \<noteq> (org, t, p)) (filter (\<lambda>(_, t'', _). t'' = t') rows)"
    by (simp add: conj_commute)
  also have "\<dots> = remove1 (org, t, p) (filter (\<lambda>(_, t'', _). t'' = t') rows)"
    using assms(1) by (simp add: distinct_remove1_removeAll removeAll_filter_not_eq) (metis (mono_tags, lifting))
  finally show ?thesis using assms(2) by (auto simp: attached_count_def length_remove1)
qed

lemma change_attachment_inv:
  assumes inv: "tree_inv db" and op: "change_service_control_attachment management ty t policy attach db = Inr db'"
  shows "tree_inv db'"
proof -
  from op obtain org kind where org: "managed_organization db management = Some org"
    and exists: "target_exists kind db org t" "list_ex (\<lambda>p. sp_organization_id p = org \<and> sp_id p = policy) (cloud_scps db)"
    and result: "(let rows = target_attachments kind db; count = length (filter (\<lambda>(o', t', _). o' = org \<and> t' = t) rows) in
      if attach then bindE (fail_if (count \<ge> 10 \<and> (org, t, policy) \<notin> set rows)
           (RequestRejected ''A maximum of 10 service control policies can be attached to a target.'')) (\<lambda>_.
         Inr (set_target_attachments kind (if list_ex (\<lambda>(_, t', p). t' = t \<and> p = policy) rows then rows else rows @ [(org, t, policy)]) db))
      else bindE (fail_if (count \<le> 1)
           (RequestRejected ''At least one service control policy must remain attached.'')) (\<lambda>_.
         bindE (fail_if (length (filter (\<lambda>r. r = (org, t, policy)) rows) \<noteq> 1) NotFound) (\<lambda>_.
         Inr (set_target_attachments kind (filter (\<lambda>r. r \<noteq> (org, t, policy)) rows) db)))) = Inr db'"
    by (auto simp: change_service_control_attachment_def bindE_Inr_iff split: if_splits)
  let ?rows = "target_attachments kind db"
  note refer = tree_inv_attachments(1) [OF inv, of kind] and counts = tree_inv_attachments(2) [OF inv, of _ _ kind]
  have key: "(org, t) \<in> target_keys kind db"
    using exists(1) unit_of_iff [of db org t]
    by (cases kind) (force simp: target_exists_def target_keys_def list_ex_iff)+
  have count: "length (filter (\<lambda>(o', t', _). o' = org \<and> t' = t) ?rows) = attached_count ?rows t"
    by (rule attached_count_org [OF refer target_keys_unique [OF inv key]])
  note result = result [unfolded Let_def count]
  show ?thesis
  proof (cases attach)
    case True
    show ?thesis
    proof (cases "list_ex (\<lambda>(_, t', p). t' = t \<and> p = policy) ?rows")
      case present: True
      with result True have "db' = set_target_attachments kind ?rows db" by (simp add: bindE_Inr_iff)
      then show ?thesis using set_attachments_inv [OF inv refer counts] by simp
    next
      case False
      have new: "(org, t, policy) \<notin> set ?rows" using False by (auto simp: list_ex_iff)
      with result True False have db': "db' = set_target_attachments kind (?rows @ [(org, t, policy)]) db"
        and less: "attached_count ?rows t < 10" by (auto simp: bindE_Inr_iff)
      from exists(2) obtain q where q: "q \<in> set (cloud_scps db)" "sp_organization_id q = org" "sp_id q = policy"
        by (auto simp: list_ex_iff)
      have "attachments_refer (?rows @ [(org, t, sp_id q)]) (target_keys kind db) (cloud_scps db)"
        by (rule attachments_refer_snoc [OF refer key q(1,2)]) (use new q(3) in simp)
      then show ?thesis
        unfolding db' using counts less q(3) by (intro set_attachments_inv [OF inv]) (simp, fastforce)
    qed
  next
    case False
    with result have more: "1 < attached_count ?rows t" and mem: "filter (\<lambda>r. r = (org, t, policy)) ?rows \<noteq> []"
      and db': "db' = set_target_attachments kind (filter (\<lambda>r. r \<noteq> (org, t, policy)) ?rows) db"
      by (auto simp: bindE_Inr_iff)
    have "(org, t, policy) \<in> set ?rows" using mem by (auto simp: filter_empty_conv)
    moreover have "distinct ?rows" using refer by (simp add: attachments_refer_def)
    ultimately show ?thesis
      unfolding db' using counts more
      by (intro set_attachments_inv [OF inv attachments_refer_filter [OF refer]]) (fastforce simp: attached_count_filter)
  qed
qed

subsection \<open>Runs\<close>

text \<open>
  The transactions that change accounts and their organizations, in any order; all others leave
  these tables alone.
\<close>

inductive tree_step :: "(str \<Rightarrow> str) \<Rightarrow> iam_tables \<Rightarrow> iam_tables \<Rightarrow> bool" for lower where
  new_account: "create_organization gen number user slug name db = Inr (acct, db') \<Longrightarrow>
    fresh_ids [gen 0, gen 1, gen 2, gen 3] db \<Longrightarrow> tree_step lower db db'"
| new_member: "add_member_account gen number management parent user slug name db = Inr (acct, db') \<Longrightarrow>
    fresh_ids [gen 0, gen 1, gen 2, gen 3] db \<Longrightarrow> tree_step lower db db'"
| new_unit: "create_cloud_organizational_unit lower uid management parent name db = Inr (u, db') \<Longrightarrow>
    fresh_ids [uid] db \<Longrightarrow> tree_step lower db db'"
| new_policy: "create_service_control_policy pid management name document db = Inr (p, db') \<Longrightarrow>
    fresh_ids [pid] db \<Longrightarrow> tree_step lower db db'"
| attachment: "change_service_control_attachment management ty t policy attach db = Inr db' \<Longrightarrow> tree_step lower db db'"
| moved: "move_cloud_member_account management account parent db = Inr db' \<Longrightarrow> tree_step lower db db'"
| unit_renamed: "rename_cloud_unit lower management unit name db = Inr db' \<Longrightarrow> tree_step lower db db'"
| account_renamed: "rename_cloud_account management account name db = Inr db' \<Longrightarrow> tree_step lower db db'"
| elsewhere: "organizations db' = organizations db \<Longrightarrow> cloud_organizations db' = cloud_organizations db \<Longrightarrow>
    cloud_units db' = cloud_units db \<Longrightarrow> cloud_accounts db' = cloud_accounts db \<Longrightarrow> cloud_scps db' = cloud_scps db \<Longrightarrow>
    scp_unit_attachments db' = scp_unit_attachments db \<Longrightarrow>
    scp_account_attachments db' = scp_account_attachments db \<Longrightarrow> tree_step lower db db'"

definition no_accounts :: "iam_tables \<Rightarrow> bool" where
  "no_accounts db \<longleftrightarrow>
     organizations db = [] \<and> cloud_organizations db = [] \<and> cloud_units db = [] \<and> cloud_accounts db = []
     \<and> cloud_scps db = [] \<and> scp_unit_attachments db = [] \<and> scp_account_attachments db = []"

lemma no_accounts_inv: "no_accounts db \<Longrightarrow> tree_inv db"
  by (simp add: no_accounts_def tree_defs attachments_refer_def)

lemma tree_step_inv: "tree_step lower db db' \<Longrightarrow> tree_inv db \<Longrightarrow> tree_inv db'"
proof (induction rule: tree_step.induct)
  case (elsewhere db' db)
  then show ?case using tree_inv_cong by blast
qed (blast intro: create_organization_inv add_member_inv create_unit_inv create_policy_inv change_attachment_inv
    move_inv rename_unit_inv rename_account_inv)+

lemma tree_run_inv: "(tree_step lower)\<^sup>*\<^sup>* db db' \<Longrightarrow> tree_inv db \<Longrightarrow> tree_inv db'"
  by (induction rule: rtranclp_induct) (auto intro: tree_step_inv)

lemma create_member_iam:
  assumes "create_cloud_member_account gen now number management parent user slug name db = Inr (acct, db')"
  shows "add_member_account gen number management parent user slug name (iam db) = Inr (acct, iam db')"
proof -
  from assms obtain tables where t: "add_member_account gen number management parent user slug name (iam db) = Inr (acct, tables)"
    and db': "db' = enqueue_organization_flash_quotas_tx (\<lambda>i. gen (6 + i)) now management (db\<lparr>iam := tables\<rparr>)"
    by (auto simp: create_cloud_member_account_def bindE_Inr_iff)
  have "iam (enqueue_accounts_flash_quotas g now as x) = iam x" for g as and x :: store
    using enqueue_accounts_frame [of g now as x] by auto
  then have "iam db' = tables" unfolding db' by (simp add: enqueue_organization_flash_quotas_tx_def Let_def)
  with t show ?thesis by simp
qed

text \<open>In a well-formed tree every account has its levels.\<close>

lemma levels_in_tree:
  assumes inv: "tree_inv db" and acct: "account \<in> ac_id ` set (organizations db)"
  shows "\<exists>levels. service_control_levels db account = Inr levels
    \<and> (if scp_enabled db \<and> account \<notin> snd ` set (cloud_organizations db)
       then length levels \<in> {2..7} \<and> (\<forall>l \<in> set levels. length l \<in> {1..10}) else levels = [])"
proof -
  from inv acct obtain a where a: "a \<in> set (cloud_accounts db)" "ca_account_id a = account"
    by (fastforce simp: tree_inv_def members_ok_def)
  obtain management where m: "(ca_organization_id a, management) \<in> set (cloud_organizations db)"
    "cloud_organization_for_account db account = Some (ca_organization_id a, management)"
    using account_organization [OF inv a(1)] a(2) by metis
  have own: "management = account \<longleftrightarrow> account \<in> snd ` set (cloud_organizations db)"
  proof
    assume "account \<in> snd ` set (cloud_organizations db)"
    then obtain org where o: "(org, account) \<in> set (cloud_organizations db)" by force
    with inv have "(org, account) \<in> account_keys db" by (fastforce simp: tree_inv_def organizations_ok_def)
    then obtain b where "b \<in> set (cloud_accounts db)" "ca_organization_id b = org" "ca_account_id b = account" by auto
    with a inv have "org = ca_organization_id a" by (auto simp: tree_inv_def keys_distinct_def distinct_map inj_on_def)
    moreover have "distinct (map fst (cloud_organizations db))" using inv by (simp add: tree_inv_def keys_distinct_def)
    ultimately show "management = account" using o m(1) by (metis eq_key_imp_eq_value)
  qed (use m(1) in force)
  show ?thesis
    using member_levels [OF inv a(1)] m(2) a(2) own by (auto simp: service_control_levels_def)
qed

definition demo_people :: iam_tables where
  "demo_people = demo_tables\<lparr>organizations := [], cloud_organizations := [], cloud_units := [], cloud_accounts := [],
     cloud_scps := [], scp_unit_attachments := [], scp_account_attachments := [], principals := [], memberships := []\<rparr>"

definition demo_one_account :: iam_tables where
  "demo_one_account = snd (projr (create_organization (\<lambda>i. 100 + i) 100000000000 7 (lit ''main'') (lit ''Main'') demo_people))"

definition demo_two_accounts :: iam_tables where
  "demo_two_accounts = snd (projr (add_member_account (\<lambda>i. 200 + i) 100000000001 103 102 7 (lit ''team'') (lit ''Team'')
     demo_one_account))"



end
