(* ===== verification/Sign_In.thy ===== *)
theory Sign_In
  imports Cloud_Organizations
begin

text \<open>
  Sign-in: sessions, invitations, identities of an OpenID provider and the device authorization of
  the command line client (\<open>src/crates/heterocloud-store/src/lib.rs\<close>, migrations 0001, 0002, 0003,
  0013, 0018 and 0028), the histories of their calls, and what a token or an admission in a history
  goes back to.
\<close>

section \<open>Sessions, invitations and command line tokens\<close>

text \<open>
  How people get in: the operations of \<open>src/crates/heterocloud-store/src/lib.rs\<close> on sessions,
  invitations, identities of an OpenID provider and the device authorization of the command line
  client. Secrets are stored as digests, so the tables hold digests; the routes that compute them are
  in another theory. \<open>lower\<close> is the lower-casing of the database. The columns that only record when a
  row was last used are left out.
\<close>

subsection \<open>Tables\<close>

type_synonym digest = "nat list"

record session_row =
  se_id :: uuid
  se_user_id :: uuid
  se_token_hash :: digest
  se_expires_at :: datetime
  se_active_role :: "uuid option"

record login_event =
  le_id :: nat
  le_user_id :: uuid
  le_session_id :: uuid
  le_source_ip :: "str option"
  le_method :: str
  le_occurred_at :: datetime

record invitation_row =
  iv_id :: uuid
  iv_code_hash :: digest
  iv_created_by :: uuid
  iv_organization_id :: "uuid option"
  iv_max_uses :: int
  iv_used_count :: int
  iv_expires_at :: datetime
  iv_revoked_at :: "datetime option"

datatype device_status = DevicePending | DeviceApproved | DeviceDenied | DeviceConsumed

record device_row =
  dv_id :: uuid
  dv_device_code_hash :: digest
  dv_user_code_hash :: digest
  dv_organization_id :: uuid
  dv_approved_user_id :: "uuid option"
  dv_status :: device_status
  dv_interval_seconds :: int
  dv_expires_at :: datetime
  dv_last_polled_at :: "datetime option"

record cli_token_row =
  ct_id :: uuid
  ct_user_id :: uuid
  ct_organization_id :: uuid
  ct_prefix :: str
  ct_token_hash :: digest
  ct_expires_at :: datetime
  ct_revoked_at :: "datetime option"

text \<open>Identities are (issuer, subject, user).\<close>

record credentials =
  sessions :: "session_row list"
  login_events :: "login_event list"
  invitations :: "invitation_row list"
  identities :: "(str \<times> str \<times> uuid) list"
  devices :: "device_row list"
  cli_tokens :: "cli_token_row list"

subsection \<open>Sessions\<close>

definition MAX_USER_LOGIN_EVENTS_PER_USER :: nat where
  "MAX_USER_LOGIN_EVENTS_PER_USER = 100"

definition user_by_id :: "iam_tables \<Rightarrow> uuid \<Rightarrow> user_row option" where
  "user_by_id db user = find (\<lambda>u. u_id u = user) (users db)"

definition newest_logins :: "uuid \<Rightarrow> login_event list \<Rightarrow> login_event list" where
  "newest_logins user events =
     rev (sort_key (\<lambda>e. (le_occurred_at e, le_id e)) (filter (\<lambda>e. le_user_id e = user) events))"

definition create_session ::
    "uuid \<Rightarrow> nat \<Rightarrow> datetime \<Rightarrow> uuid \<Rightarrow> digest \<Rightarrow> datetime \<Rightarrow> str option \<Rightarrow> str \<Rightarrow> iam_tables \<Rightarrow>
     credentials \<Rightarrow> store_error + uuid \<times> credentials" where
  "create_session sid event_id now user token_hash expires_at source_ip authentication_method db cr =
     bindE (fail_if (authentication_method \<notin> {lit ''local'', lit ''oidc''})
              (RequestRejected ''unsupported authentication method'')) (\<lambda>_.
     bindE (fail_if (list_ex (\<lambda>s. se_token_hash s = token_hash) (sessions cr)) SqlUniqueViolation) (\<lambda>_.
     bindE (fail_if (user_by_id db user = None) SqlCheckViolation) (\<lambda>_.
     (let session = \<lparr>se_id = sid, se_user_id = user, se_token_hash = token_hash, se_expires_at = expires_at,
                     se_active_role = None\<rparr>;
          event = \<lparr>le_id = event_id, le_user_id = user, le_session_id = sid, le_source_ip = source_ip,
                   le_method = authentication_method, le_occurred_at = now\<rparr>;
          events = login_events cr @ [event];
          kept = le_id ` set (take MAX_USER_LOGIN_EVENTS_PER_USER (newest_logins user events)) in
      Inr (sid, cr\<lparr>sessions := sessions cr @ [session],
                   login_events := filter (\<lambda>e. \<not> (le_user_id e = user \<and> le_id e \<notin> kept)) events\<rparr>)))))"

text \<open>The memberships of a user, in the order of the table.\<close>

definition session_user :: "iam_tables \<Rightarrow> uuid \<Rightarrow> (user_row \<times> membership_row list) option" where
  "session_user db user =
     (case user_by_id db user of
        None \<Rightarrow> None
      | Some u \<Rightarrow>
          Some (u, filter (\<lambda>m. m_user_id m = user
              \<and> list_ex (\<lambda>a. ac_id a = m_organization_id m) (organizations db)
              \<and> list_ex (\<lambda>p. p_id p = m_principal_id m \<and> p_organization_id p = m_organization_id m
                             \<and> p_user_id p = Some (m_user_id m) \<and> p_enabled p) (principals db)) (memberships db)))"

definition live_session :: "datetime \<Rightarrow> iam_tables \<Rightarrow> digest \<Rightarrow> credentials \<Rightarrow> session_row option" where
  "live_session now db token_hash cr =
     find (\<lambda>s. se_token_hash s = token_hash \<and> se_expires_at s > now \<and> user_is_active db (se_user_id s)) (sessions cr)"

definition session_user_by_token_hash ::
    "datetime \<Rightarrow> iam_tables \<Rightarrow> digest \<Rightarrow> credentials \<Rightarrow> (user_row \<times> membership_row list) option" where
  "session_user_by_token_hash now db token_hash cr =
     (case live_session now db token_hash cr of
        None \<Rightarrow> None
      | Some s \<Rightarrow> session_user db (se_user_id s))"

definition delete_session :: "digest \<Rightarrow> credentials \<Rightarrow> credentials" where
  "delete_session token_hash cr = cr\<lparr>sessions := filter (\<lambda>s. se_token_hash s \<noteq> token_hash) (sessions cr)\<rparr>"

subsection \<open>People\<close>

definition lookup_user_by_email :: "(str \<Rightarrow> str) \<Rightarrow> iam_tables \<Rightarrow> str \<Rightarrow> user_row option" where
  "lookup_user_by_email lower db email = find (\<lambda>u. lower (u_email u) = lower email) (users db)"

definition password_user_by_email :: "(str \<Rightarrow> str) \<Rightarrow> iam_tables \<Rightarrow> str \<Rightarrow> (user_row \<times> str) option" where
  "password_user_by_email lower db email =
     (case find (\<lambda>u. lower (u_email u) = lower email \<and> u_password_hash u \<noteq> None) (users db) of
        None \<Rightarrow> None
      | Some u \<Rightarrow> map_option (Pair u) (u_password_hash u))"

definition insert_user :: "(str \<Rightarrow> str) \<Rightarrow> uuid \<Rightarrow> str \<Rightarrow> str \<Rightarrow> str option \<Rightarrow> iam_tables \<Rightarrow> store_error + iam_tables" where
  "insert_user lower user email display_name password_hash db =
     bindE (fail_if (list_ex (\<lambda>u. lower (u_email u) = lower (lower email)) (users db)) SqlUniqueViolation) (\<lambda>_.
     Inr (db\<lparr>users := users db @ [\<lparr>u_id = user, u_email = lower email, u_display_name = display_name,
                                    u_password_hash = password_hash, u_active = True\<rparr>]\<rparr>))"

definition bootstrap_admin ::
    "(str \<Rightarrow> str) \<Rightarrow> (nat \<Rightarrow> uuid) \<Rightarrow> nat \<Rightarrow> str \<Rightarrow> str \<Rightarrow> str \<Rightarrow> str \<Rightarrow> str \<Rightarrow> iam_tables \<Rightarrow>
     store_error + (user_row \<times> membership_row list) \<times> iam_tables" where
  "bootstrap_admin lower gen number email display_name password_hash slug name db =
     (case lookup_user_by_email lower db email of
        Some u \<Rightarrow>
          bindE (ok_or (session_user db (u_id u))
                   (Invariant ''bootstrap user exists without an organization membership'')) (\<lambda>r. Inr (r, db))
      | None \<Rightarrow>
          bindE (insert_user lower (gen 6) email display_name (Some password_hash) db) (\<lambda>db1.
          bindE (insert_account gen \<lparr>ac_id = gen 3, ac_slug = slug, ac_name = name, ac_number = number\<rparr> db1) (\<lambda>db2.
          bindE (insert_owner (gen 4) (gen 5) (gen 3) display_name (gen 6) db2) (\<lambda>db3.
          bindE (ok_or (session_user db3 (gen 6))
                   (Invariant ''bootstrap transaction did not produce a session user'')) (\<lambda>r. Inr (r, db3))))))"

definition find_or_create_oidc_user ::
    "(str \<Rightarrow> str) \<Rightarrow> (nat \<Rightarrow> uuid) \<Rightarrow> nat \<Rightarrow> str \<Rightarrow> str \<Rightarrow> str \<Rightarrow> str \<Rightarrow> iam_tables \<Rightarrow> credentials \<Rightarrow>
     store_error + (user_row \<times> membership_row list) \<times> iam_tables \<times> credentials" where
  "find_or_create_oidc_user lower gen number issuer subject email display_name db cr =
     (case find (\<lambda>(i, s, _). i = issuer \<and> s = subject) (identities cr) of
        Some (_, _, user) \<Rightarrow>
          bindE (ok_or (session_user db user)
                   (Invariant ''OIDC identity exists without a complete user membership'')) (\<lambda>r. Inr (r, db, cr))
      | None \<Rightarrow>
          bindE (fail_if (lookup_user_by_email lower db email \<noteq> None) AlreadyExists) (\<lambda>_.
          bindE (insert_user lower (gen 6) email display_name None db) (\<lambda>db1.
          bindE (insert_account gen \<lparr>ac_id = gen 3, ac_slug = lit ''user-'' @ uuid_simple (gen 6), ac_name = display_name,
                   ac_number = number\<rparr> db1) (\<lambda>db2.
          bindE (insert_owner (gen 4) (gen 5) (gen 3) display_name (gen 6) db2) (\<lambda>db3.
          bindE (ok_or (session_user db3 (gen 6))
                   (Invariant ''OIDC registration transaction did not produce a session user'')) (\<lambda>r.
          Inr (r, db3, cr\<lparr>identities := identities cr @ [(issuer, subject, gen 6)]\<rparr>)))))))"

subsection \<open>Invitations\<close>

text \<open>Creating a device authorization or an invitation first clears what has expired.\<close>

definition days :: "int \<Rightarrow> int" where
  "days n = seconds (n * 86400)"

definition purge_cli :: "datetime \<Rightarrow> credentials \<Rightarrow> credentials" where
  "purge_cli now cr =
     cr\<lparr>devices := filter (\<lambda>d. \<not> dv_expires_at d \<le> now) (devices cr),
        cli_tokens := filter (\<lambda>t. \<not> (ct_expires_at t \<le> now - days 7
                        \<or> (case ct_revoked_at t of None \<Rightarrow> False | Some r \<Rightarrow> r \<le> now - days 7))) (cli_tokens cr)\<rparr>"

definition create_invitation ::
    "uuid \<Rightarrow> datetime \<Rightarrow> uuid \<Rightarrow> uuid \<Rightarrow> digest \<Rightarrow> datetime \<Rightarrow> iam_tables \<Rightarrow> credentials \<Rightarrow>
     store_error + uuid \<times> credentials" where
  "create_invitation iid now organization created_by code_hash expires_at db cr =
     (let cr1 = purge_cli now cr in
      bindE (fail_if (\<not> list_ex (\<lambda>m. m_organization_id m = organization \<and> m_user_id m = created_by
                                 \<and> m_role m \<in> {lit ''owner'', lit ''admin''}) (memberships db)) NotFound) (\<lambda>_.
      bindE (fail_if (\<not> (expires_at > now \<and> expires_at \<le> now + days 1)) SqlCheckViolation) (\<lambda>_.
      bindE (fail_if (list_ex (\<lambda>i. iv_code_hash i = code_hash) (invitations cr1)) SqlUniqueViolation) (\<lambda>_.
      Inr (iid, cr1\<lparr>invitations := invitations cr1 @ [\<lparr>iv_id = iid, iv_code_hash = code_hash, iv_created_by = created_by,
             iv_organization_id = Some organization, iv_max_uses = 1, iv_used_count = 0, iv_expires_at = expires_at,
             iv_revoked_at = None\<rparr>]\<rparr>)))))"

definition invitation_usable :: "datetime \<Rightarrow> digest \<Rightarrow> invitation_row \<Rightarrow> bool" where
  "invitation_usable now code_hash i \<longleftrightarrow>
     iv_code_hash i = code_hash \<and> iv_revoked_at i = None \<and> iv_expires_at i > now \<and> iv_max_uses i = 1 \<and> iv_used_count i = 0"

definition invitation_available :: "datetime \<Rightarrow> digest \<Rightarrow> credentials \<Rightarrow> bool" where
  "invitation_available now code_hash cr \<longleftrightarrow> list_ex (invitation_usable now code_hash) (invitations cr)"

definition use_invitation :: "uuid \<Rightarrow> credentials \<Rightarrow> credentials" where
  "use_invitation iid cr =
     cr\<lparr>invitations := map (\<lambda>i. if iv_id i = iid then i\<lparr>iv_used_count := 1\<rparr> else i) (invitations cr)\<rparr>"

definition has_membership :: "iam_tables \<Rightarrow> uuid \<Rightarrow> uuid \<Rightarrow> bool" where
  "has_membership db organization user \<longleftrightarrow>
     list_ex (\<lambda>m. m_organization_id m = organization \<and> m_user_id m = user) (memberships db)"

definition insert_member :: "uuid \<Rightarrow> uuid \<Rightarrow> uuid \<Rightarrow> str \<Rightarrow> uuid \<Rightarrow> iam_tables \<Rightarrow> store_error + iam_tables" where
  "insert_member prin membership account name user db =
     bindE (insert_principal (user_principal prin account name user) db) (\<lambda>db1.
     insert_membership \<lparr>m_organization_id = account, m_user_id = user, m_principal_id = prin,
       m_role = lit ''member'', m_membership_id = membership\<rparr> db1)"

definition join_organization_with_invitation ::
    "(nat \<Rightarrow> uuid) \<Rightarrow> datetime \<Rightarrow> uuid \<Rightarrow> digest \<Rightarrow> iam_tables \<Rightarrow> credentials \<Rightarrow>
     store_error + account_row \<times> iam_tables \<times> credentials" where
  "join_organization_with_invitation gen now user code_hash db cr =
     bindE (ok_or (find (\<lambda>i. invitation_usable now code_hash i \<and> iv_organization_id i \<noteq> None) (invitations cr))
              InvitationUnavailable) (\<lambda>i.
     bindE (ok_or (iv_organization_id i) InvitationUnavailable) (\<lambda>organization.
     bindE (fail_if (\<not> user_is_active db user) NotFound) (\<lambda>_.
     bindE (fail_if (has_membership db organization user) Conflict) (\<lambda>_.
     bindE (insert_member (gen 0) (gen 1) organization (lit ''user-'' @ uuid_simple user) user db) (\<lambda>db1.
     bindE (ok_or (find (\<lambda>a. ac_id a = organization) (organizations db1)) NotFound) (\<lambda>account.
     Inr (account, db1, use_invitation (iv_id i) cr)))))))"

definition register_with_invitation ::
    "(str \<Rightarrow> str) \<Rightarrow> (nat \<Rightarrow> uuid) \<Rightarrow> datetime \<Rightarrow> digest \<Rightarrow> str \<Rightarrow> str \<Rightarrow> str \<Rightarrow> iam_tables \<Rightarrow> credentials \<Rightarrow>
     store_error + (user_row \<times> membership_row list) \<times> iam_tables \<times> credentials" where
  "register_with_invitation lower gen now code_hash email display_name password_hash db cr =
     bindE (ok_or (find (invitation_usable now code_hash) (invitations cr)) InvitationUnavailable) (\<lambda>i.
     bindE (ok_or (iv_organization_id i) InvitationUnavailable) (\<lambda>organization.
     (let cr1 = use_invitation (iv_id i) cr in
     bindE (fail_if (lookup_user_by_email lower db email \<noteq> None) AlreadyExists) (\<lambda>_.
     bindE (insert_user lower (gen 2) email display_name (Some password_hash) db) (\<lambda>db1.
     bindE (insert_member (gen 0) (gen 1) organization display_name (gen 2) db1) (\<lambda>db2.
     bindE (ok_or (session_user db2 (gen 2))
              (Invariant ''registration transaction did not produce a session user'')) (\<lambda>r.
     Inr (r, db2, cr1))))))))"

definition rename_user :: "uuid \<Rightarrow> str \<Rightarrow> iam_tables \<Rightarrow> store_error + iam_tables" where
  "rename_user user name db =
     bindE (fail_if (\<not> user_is_active db user) NotFound) (\<lambda>_.
     Inr (db\<lparr>users := map (\<lambda>u. if u_id u = user \<and> u_active u then u\<lparr>u_display_name := name\<rparr> else u) (users db)\<rparr>))"

subsection \<open>The device authorization of the command line client\<close>

datatype device_approval_outcome =
  DA_Approved | DA_NotFound | DA_Expired | DA_InvalidState | DA_Forbidden

datatype device_exchange_outcome =
    DX_Pending
  | DX_SlowDown
  | DX_Expired
  | DX_Denied
  | DX_InvalidDeviceCode
  | DX_Issued uuid uuid uuid datetime

definition create_cli_device_authorization ::
    "uuid \<Rightarrow> datetime \<Rightarrow> digest \<Rightarrow> digest \<Rightarrow> uuid \<Rightarrow> int \<Rightarrow> datetime \<Rightarrow> iam_tables \<Rightarrow> credentials \<Rightarrow>
     store_error + uuid \<times> credentials" where
  "create_cli_device_authorization did now device_code_hash user_code_hash organization interval expires_at db cr =
     (let cr1 = purge_cli now cr in
      bindE (fail_if (\<not> list_ex (\<lambda>a. ac_id a = organization) (organizations db)) NotFound) (\<lambda>_.
      bindE (fail_if (\<not> (1 \<le> interval \<and> interval \<le> 60)) SqlCheckViolation) (\<lambda>_.
      bindE (fail_if (list_ex (\<lambda>d. dv_device_code_hash d = device_code_hash \<or> dv_user_code_hash d = user_code_hash)
                        (devices cr1)) SqlUniqueViolation) (\<lambda>_.
      Inr (did, cr1\<lparr>devices := devices cr1 @ [\<lparr>dv_id = did, dv_device_code_hash = device_code_hash,
             dv_user_code_hash = user_code_hash, dv_organization_id = organization, dv_approved_user_id = None,
             dv_status = DevicePending, dv_interval_seconds = interval, dv_expires_at = expires_at,
             dv_last_polled_at = None\<rparr>]\<rparr>)))))"

definition cli_device_authorization_by_user_code ::
    "iam_tables \<Rightarrow> digest \<Rightarrow> credentials \<Rightarrow> (device_row \<times> account_row) option" where
  "cli_device_authorization_by_user_code db user_code_hash cr =
     (case find (\<lambda>d. dv_user_code_hash d = user_code_hash) (devices cr) of
        None \<Rightarrow> None
      | Some d \<Rightarrow> map_option (Pair d) (find (\<lambda>a. ac_id a = dv_organization_id d) (organizations db)))"

definition update_device :: "uuid \<Rightarrow> (device_row \<Rightarrow> device_row) \<Rightarrow> credentials \<Rightarrow> credentials" where
  "update_device did f cr = cr\<lparr>devices := map (\<lambda>d. if dv_id d = did then f d else d) (devices cr)\<rparr>"

definition approve_cli_device_authorization ::
    "datetime \<Rightarrow> digest \<Rightarrow> uuid \<Rightarrow> iam_tables \<Rightarrow> credentials \<Rightarrow> device_approval_outcome \<times> credentials" where
  "approve_cli_device_authorization now user_code_hash user db cr =
     (case find (\<lambda>d. dv_user_code_hash d = user_code_hash) (devices cr) of
        None \<Rightarrow> (DA_NotFound, cr)
      | Some d \<Rightarrow>
          if dv_expires_at d \<le> now then (DA_Expired, cr)
          else if dv_status d \<noteq> DevicePending then (DA_InvalidState, cr)
          else if \<not> has_membership db (dv_organization_id d) user then (DA_Forbidden, cr)
          else (DA_Approved, update_device (dv_id d) (\<lambda>d. d\<lparr>dv_status := DeviceApproved, dv_approved_user_id := Some user\<rparr>) cr))"

text \<open>The exchange of a device code for an access token, after its guards.\<close>

definition issue_cli_token ::
    "uuid \<Rightarrow> device_row \<Rightarrow> str \<Rightarrow> digest \<Rightarrow> datetime \<Rightarrow> iam_tables \<Rightarrow> credentials \<Rightarrow>
     store_error + device_exchange_outcome \<times> credentials option" where
  "issue_cli_token token d pre token_hash token_expires_at db cr =
     bindE (ok_or (dv_approved_user_id d) (Invariant ''approved CLI device authorization has no user'')) (\<lambda>user.
     if \<not> has_membership db (dv_organization_id d) user then Inr (DX_Denied, None)
     else
       bindE (fail_if (length pre \<noteq> 16) SqlCheckViolation) (\<lambda>_.
       bindE (fail_if (list_ex (\<lambda>t. ct_prefix t = pre \<or> ct_token_hash t = token_hash) (cli_tokens cr))
                SqlUniqueViolation) (\<lambda>_.
       Inr (DX_Issued token user (dv_organization_id d) token_expires_at,
            Some (update_device (dv_id d) (\<lambda>d. d\<lparr>dv_status := DeviceConsumed\<rparr>)
              (cr\<lparr>cli_tokens := cli_tokens cr @ [\<lparr>ct_id = token, ct_user_id = user,
                   ct_organization_id = dv_organization_id d, ct_prefix = pre, ct_token_hash = token_hash,
                   ct_expires_at = token_expires_at, ct_revoked_at = None\<rparr>]\<rparr>))))))"

text \<open>A transaction that is rolled back leaves the tables as they were, the time of the poll included.\<close>

definition exchange_cli_device_authorization ::
    "uuid \<Rightarrow> datetime \<Rightarrow> digest \<Rightarrow> str \<Rightarrow> digest \<Rightarrow> datetime \<Rightarrow> iam_tables \<Rightarrow> credentials \<Rightarrow>
     store_error + device_exchange_outcome \<times> credentials" where
  "exchange_cli_device_authorization token now device_code_hash pre token_hash token_expires_at db cr =
     (case find (\<lambda>d. dv_device_code_hash d = device_code_hash) (devices cr) of
        None \<Rightarrow> Inr (DX_InvalidDeviceCode, cr)
      | Some d \<Rightarrow>
          if dv_expires_at d \<le> now then Inr (DX_Expired, cr)
          else if dv_status d = DeviceDenied then Inr (DX_Denied, cr)
          else if dv_status d = DeviceConsumed then Inr (DX_InvalidDeviceCode, cr)
          else if (case dv_last_polled_at d of None \<Rightarrow> False
                   | Some polled \<Rightarrow> polled + seconds (dv_interval_seconds d) > now) then Inr (DX_SlowDown, cr)
          else
            (let cr1 = update_device (dv_id d) (\<lambda>d. d\<lparr>dv_last_polled_at := Some now\<rparr>) cr in
             if dv_status d = DevicePending then Inr (DX_Pending, cr1)
             else
               bindE (issue_cli_token token d pre token_hash token_expires_at db cr1) (\<lambda>(outcome, committed).
               Inr (outcome, case committed of None \<Rightarrow> cr | Some cr2 \<Rightarrow> cr2))))"

text \<open>The token a command line client presents, with the user and the account it stands for.\<close>

definition cli_token_live :: "datetime \<Rightarrow> iam_tables \<Rightarrow> cli_token_row \<Rightarrow> bool" where
  "cli_token_live now db t \<longleftrightarrow>
     ct_revoked_at t = None \<and> ct_expires_at t > now \<and> user_is_active db (ct_user_id t)
     \<and> list_ex (\<lambda>m. m_user_id m = ct_user_id t \<and> m_organization_id m = ct_organization_id t
         \<and> list_ex (\<lambda>p. p_id p = m_principal_id m \<and> p_organization_id p = m_organization_id m
                        \<and> p_user_id p = Some (m_user_id m) \<and> p_enabled p) (principals db)) (memberships db)"

definition authenticate_cli_access_token ::
    "datetime \<Rightarrow> iam_tables \<Rightarrow> str \<Rightarrow> digest \<Rightarrow> credentials \<Rightarrow>
     store_error + (cli_token_row \<times> user_row \<times> membership_row list) option" where
  "authenticate_cli_access_token now db pre token_hash cr =
     (case find (\<lambda>t. ct_prefix t = pre \<and> ct_token_hash t = token_hash \<and> cli_token_live now db t) (cli_tokens cr) of
        None \<Rightarrow> Inr None
      | Some t \<Rightarrow>
          bindE (ok_or (session_user db (ct_user_id t)) (Invariant ''CLI token refers to a missing user'')) (\<lambda>r.
          Inr (Some (t, r))))"

definition revoke_cli_access_token :: "datetime \<Rightarrow> uuid \<Rightarrow> credentials \<Rightarrow> credentials" where
  "revoke_cli_access_token now token cr =
     cr\<lparr>cli_tokens := map (\<lambda>t. if ct_id t = token \<and> ct_revoked_at t = None then t\<lparr>ct_revoked_at := Some now\<rparr> else t)
                          (cli_tokens cr)\<rparr>"

subsection \<open>Histories\<close>

text \<open>
  A history lists the calls with their outcomes and the tables before and after each. The ids of new
  rows come from \<open>gen\<close> and are new; the tables of other components change between the calls in any way,
  and rows of these tables can be deleted with the users and accounts they refer to.
\<close>

datatype access_call =
    OpenSession uuid digest datetime "str option" str
  | CloseSession digest
  | Invite uuid uuid digest datetime
  | JoinWith uuid digest
  | RegisterWith digest str str str
  | OidcSignIn nat str str str str
  | StartDevice digest digest uuid int datetime
  | ApproveDevice digest uuid
  | ExchangeDevice digest str digest datetime
  | RevokeToken uuid

datatype access_outcome =
    Refused store_error
  | Completed
  | Created uuid
  | Approval device_approval_outcome
  | Exchange device_exchange_outcome

fun outcome_of :: "iam_tables \<times> credentials \<Rightarrow> store_error + access_outcome \<times> iam_tables \<times> credentials \<Rightarrow>
    access_outcome \<times> iam_tables \<times> credentials" where
  "outcome_of s (Inl e) = (Refused e, s)"
| "outcome_of s (Inr r) = r"

fun execute ::
    "(str \<Rightarrow> str) \<Rightarrow> (nat \<Rightarrow> uuid) \<Rightarrow> datetime \<Rightarrow> access_call \<Rightarrow> iam_tables \<Rightarrow> credentials \<Rightarrow>
     access_outcome \<times> iam_tables \<times> credentials" where
  "execute lower gen now (OpenSession user h expires_at ip how) db cr =
     outcome_of (db, cr) (bindE (create_session (gen 0) (gen 1) now user h expires_at ip how db cr) (\<lambda>(i, cr'). Inr (Created i, db, cr')))"
| "execute lower gen now (CloseSession h) db cr = (Completed, db, delete_session h cr)"
| "execute lower gen now (Invite organization created_by h expires_at) db cr =
     outcome_of (db, cr) (bindE (create_invitation (gen 0) now organization created_by h expires_at db cr) (\<lambda>(i, cr'). Inr (Created i, db, cr')))"
| "execute lower gen now (JoinWith user h) db cr =
     outcome_of (db, cr) (bindE (join_organization_with_invitation gen now user h db cr) (\<lambda>(_, s). Inr (Completed, s)))"
| "execute lower gen now (RegisterWith h email display_name password_hash) db cr =
     outcome_of (db, cr) (bindE (register_with_invitation lower gen now h email display_name password_hash db cr) (\<lambda>(_, s). Inr (Completed, s)))"
| "execute lower gen now (OidcSignIn number issuer subject email display_name) db cr =
     outcome_of (db, cr) (bindE (find_or_create_oidc_user lower gen number issuer subject email display_name db cr) (\<lambda>(_, s). Inr (Completed, s)))"
| "execute lower gen now (StartDevice h h' organization interval expires_at) db cr =
     outcome_of (db, cr) (bindE (create_cli_device_authorization (gen 0) now h h' organization interval expires_at db cr)
       (\<lambda>(i, cr'). Inr (Created i, db, cr')))"
| "execute lower gen now (ApproveDevice h user) db cr =
     (case approve_cli_device_authorization now h user db cr of (x, cr') \<Rightarrow> (Approval x, db, cr'))"
| "execute lower gen now (ExchangeDevice h pre h' expires_at) db cr =
     outcome_of (db, cr) (bindE (exchange_cli_device_authorization (gen 0) now h pre h' expires_at db cr)
       (\<lambda>(x, cr'). Inr (Exchange x, db, cr')))"
| "execute lower gen now (RevokeToken token) db cr = (Completed, db, revoke_cli_access_token now token cr)"

record access_entry =
  ae_now :: datetime
  ae_call :: access_call
  ae_outcome :: access_outcome
  ae_before :: "iam_tables \<times> credentials"
  ae_after :: "iam_tables \<times> credentials"

definition no_credentials :: credentials where
  "no_credentials = \<lparr>sessions = [], login_events = [], invitations = [], identities = [], devices = [], cli_tokens = []\<rparr>"

definition seen_ids :: "credentials \<Rightarrow> uuid set" where
  "seen_ids cr = dv_id ` set (devices cr) \<union> iv_id ` set (invitations cr) \<union> ct_id ` set (cli_tokens cr)"

definition history_ids :: "access_entry list \<Rightarrow> uuid set" where
  "history_ids h = (\<Union>e \<in> set h. seen_ids (snd (ae_before e)) \<union> seen_ids (snd (ae_after e)))"

definition rows_deleted :: "credentials \<Rightarrow> credentials \<Rightarrow> bool" where
  "rows_deleted cr cr' \<longleftrightarrow>
     (\<exists>P Q R. devices cr' = filter P (devices cr) \<and> cli_tokens cr' = filter Q (cli_tokens cr)
              \<and> invitations cr' = filter R (invitations cr))"

inductive access_run ::
    "(str \<Rightarrow> str) \<Rightarrow> access_entry list \<Rightarrow> iam_tables \<Rightarrow> credentials \<Rightarrow> bool" for lower where
  run_start: "access_run lower [] db no_credentials"
| run_call: "access_run lower h db cr \<Longrightarrow> execute lower gen now call db cr = (out, db', cr')
    \<Longrightarrow> gen 0 \<notin> history_ids h \<union> seen_ids cr
    \<Longrightarrow> access_run lower (h @ [\<lparr>ae_now = now, ae_call = call, ae_outcome = out, ae_before = (db, cr), ae_after = (db', cr')\<rparr>]) db' cr'"
| run_elsewhere: "access_run lower h db cr \<Longrightarrow> rows_deleted cr cr' \<Longrightarrow> access_run lower h db' cr'"

text \<open>What an entry grants.\<close>

definition approves :: "uuid \<Rightarrow> uuid \<Rightarrow> uuid \<Rightarrow> access_entry \<Rightarrow> bool" where
  "approves device user account e \<longleftrightarrow>
     (\<exists>code d. ae_call e = ApproveDevice code user \<and> ae_outcome e = Approval DA_Approved
       \<and> d \<in> set (devices (snd (ae_before e))) \<and> dv_id d = device \<and> dv_user_code_hash d = code
       \<and> dv_organization_id d = account \<and> has_membership (fst (ae_before e)) account user)"

definition issues :: "uuid \<Rightarrow> uuid \<Rightarrow> access_entry \<Rightarrow> bool" where
  "issues device token e \<longleftrightarrow>
     (\<exists>code pre h x user account d. ae_call e = ExchangeDevice code pre h x
       \<and> ae_outcome e = Exchange (DX_Issued token user account x)
       \<and> d \<in> set (devices (snd (ae_before e))) \<and> dv_id d = device \<and> dv_device_code_hash d = code
       \<and> has_membership (fst (ae_before e)) account user)"

definition traced :: "access_entry list \<Rightarrow> uuid \<Rightarrow> cli_token_row \<Rightarrow> bool" where
  "traced h device t \<longleftrightarrow>
     (\<exists>h1 e1 h2 e2 h3. h = h1 @ e1 # h2 @ e2 # h3
       \<and> approves device (ct_user_id t) (ct_organization_id t) e1 \<and> issues device (ct_id t) e2
       \<and> (\<forall>e \<in> set (h1 @ e1 # h2 @ h3). \<forall>token. \<not> issues device token e))"

definition device_ok :: "access_entry list \<Rightarrow> device_row \<Rightarrow> bool" where
  "device_ok h d \<longleftrightarrow>
     (dv_status d \<in> {DevicePending, DeviceApproved} \<longrightarrow> (\<forall>e \<in> set h. \<forall>token. \<not> issues (dv_id d) token e))
     \<and> (dv_status d = DeviceApproved \<longrightarrow>
         (\<exists>user e. dv_approved_user_id d = Some user \<and> e \<in> set h \<and> approves (dv_id d) user (dv_organization_id d) e))"

definition grants_ok :: "access_entry list \<Rightarrow> credentials \<Rightarrow> bool" where
  "grants_ok h cr \<longleftrightarrow> distinct (map dv_id (devices cr)) \<and> distinct (map dv_device_code_hash (devices cr)) \<and> (\<forall>d \<in> set (devices cr). device_ok h d)
     \<and> (\<forall>t \<in> set (cli_tokens cr). \<exists>device. traced h device t)"

lemma issues_seen: "issues device token e \<Longrightarrow> device \<in> seen_ids (snd (ae_before e))"
  unfolding issues_def seen_ids_def by blast

lemma history_ids_snoc [simp]:
  "history_ids (h @ [e]) = history_ids h \<union> seen_ids (snd (ae_before e)) \<union> seen_ids (snd (ae_after e))"
  unfolding history_ids_def by auto

lemma issues_history: "e \<in> set h \<Longrightarrow> issues device token e \<Longrightarrow> device \<in> history_ids h"
  unfolding history_ids_def using issues_seen by blast

lemma traced_snoc:
  assumes "traced h device t" "\<And>dev token. issues dev token e \<Longrightarrow> \<forall>x \<in> set h. \<forall>token. \<not> issues dev token x"
  shows "traced (h @ [e]) device t"
proof -
  obtain h1 e1 h2 e2 h3 where h: "h = h1 @ e1 # h2 @ e2 # h3"
    and t: "approves device (ct_user_id t) (ct_organization_id t) e1" "issues device (ct_id t) e2"
      "\<forall>e \<in> set (h1 @ e1 # h2 @ h3). \<forall>token. \<not> issues device token e"
    using assms(1) unfolding traced_def by blast
  have "e2 \<in> set h" using h by simp
  then have "\<forall>token. \<not> issues device token e" using assms(2) t(2) by blast
  then have "\<forall>x \<in> set (h1 @ e1 # h2 @ (h3 @ [e])). \<forall>token. \<not> issues device token x" using t(3) by simp
  moreover have "h @ [e] = h1 @ e1 # h2 @ e2 # (h3 @ [e])" using h by simp
  ultimately show ?thesis unfolding traced_def using t(1,2) by blast
qed

lemma device_ok_snoc:
  assumes "device_ok h d" "dv_status d \<in> {DevicePending, DeviceApproved} \<Longrightarrow> \<forall>token. \<not> issues (dv_id d) token e"
  shows "device_ok (h @ [e]) d"
  using assms unfolding device_ok_def by auto

text \<open>An entry that issues no token, and tables with rows deleted and tokens revoked.\<close>

lemma traced_cong:
  "ct_id t = ct_id t' \<Longrightarrow> ct_user_id t = ct_user_id t' \<Longrightarrow> ct_organization_id t = ct_organization_id t'
    \<Longrightarrow> traced h device t = traced h device t'"
  unfolding traced_def by simp

lemma grants_ok_quiet:
  assumes ok: "grants_ok h cr" and quiet: "\<And>dev token. \<not> issues dev token e"
    and devices: "devices cr' = filter P (devices cr)"
    and tokens: "\<And>t'. t' \<in> set (cli_tokens cr') \<Longrightarrow> \<exists>t \<in> set (cli_tokens cr). ct_id t = ct_id t'
      \<and> ct_user_id t = ct_user_id t' \<and> ct_organization_id t = ct_organization_id t'"
  shows "grants_ok (h @ [e]) cr'"
proof -
  have "\<exists>device. traced (h @ [e]) device t'" if row: "t' \<in> set (cli_tokens cr')" for t'
  proof -
    obtain t where t: "t \<in> set (cli_tokens cr)" "ct_id t = ct_id t'" "ct_user_id t = ct_user_id t'"
      "ct_organization_id t = ct_organization_id t'" using tokens [OF row] by blast
    obtain device where "traced h device t" using ok t(1) unfolding grants_ok_def by blast
    then have "traced (h @ [e]) device t" using quiet by (rule_tac traced_snoc) auto
    then show ?thesis using traced_cong [OF t(2-4)] by blast
  qed
  moreover have "\<forall>d \<in> set (devices cr'). device_ok (h @ [e]) d"
    using ok quiet device_ok_snoc unfolding grants_ok_def devices by auto
  ultimately show ?thesis using ok unfolding grants_ok_def devices by (simp add: distinct_map_filter)
qed

lemma grants_ok_deleted: "grants_ok h cr \<Longrightarrow> rows_deleted cr cr' \<Longrightarrow> grants_ok h cr'"
  unfolding grants_ok_def rows_deleted_def by (auto simp: distinct_map_filter)

definition tokens_kept :: "credentials \<Rightarrow> credentials \<Rightarrow> bool" where
  "tokens_kept cr cr' \<longleftrightarrow>
     (\<forall>t' \<in> set (cli_tokens cr'). \<exists>t \<in> set (cli_tokens cr). ct_id t = ct_id t'
        \<and> ct_user_id t = ct_user_id t' \<and> ct_organization_id t = ct_organization_id t')"

lemma tokens_kept_same: "cli_tokens cr' = cli_tokens cr \<Longrightarrow> tokens_kept cr cr'"
  unfolding tokens_kept_def by auto

lemma purge_devices: "\<exists>P. devices (purge_cli now cr) = filter P (devices cr)"
  unfolding purge_cli_def by auto

lemma purge_tokens: "tokens_kept cr (purge_cli now cr)"
  unfolding purge_cli_def tokens_kept_def by auto

lemma purge_invitations [simp]: "invitations (purge_cli now cr) = invitations cr"
  unfolding purge_cli_def by simp

lemma use_invitation_simps [simp]:
  "devices (use_invitation i cr) = devices cr" "cli_tokens (use_invitation i cr) = cli_tokens cr"
  unfolding use_invitation_def by simp_all

lemma update_device_simps [simp]:
  "cli_tokens (update_device i f cr) = cli_tokens cr" "invitations (update_device i f cr) = invitations cr"
  unfolding update_device_def by simp_all

text \<open>The calls that are about neither device authorizations nor invitations.\<close>

lemma session_frame:
  assumes "create_session i j now user h x ip how db cr = Inr (k, cr')"
  shows "devices cr' = devices cr \<and> cli_tokens cr' = cli_tokens cr \<and> invitations cr' = invitations cr"
  using assms unfolding create_session_def Let_def by (auto simp: bindE_Inr_iff)

lemma delete_session_frame:
  "devices (delete_session h cr) = devices cr" "cli_tokens (delete_session h cr) = cli_tokens cr"
  "invitations (delete_session h cr) = invitations cr"
  unfolding delete_session_def by simp_all

lemma oidc_frame:
  assumes "find_or_create_oidc_user lower gen number issuer subject email name db cr = Inr (r, db', cr')"
  shows "devices cr' = devices cr \<and> cli_tokens cr' = cli_tokens cr \<and> invitations cr' = invitations cr"
  using assms unfolding find_or_create_oidc_user_def
  by (auto simp: bindE_Inr_iff split: option.splits)

lemma invite_cases:
  assumes "create_invitation i now organization user h x db cr = Inr (k, cr')"
  obtains "k = i" "x \<le> now + days 1" "list_ex (\<lambda>m. m_organization_id m = organization \<and> m_user_id m = user
        \<and> m_role m \<in> {lit ''owner'', lit ''admin''}) (memberships db)"
    "cr' = (purge_cli now cr)\<lparr>invitations := invitations cr @ [\<lparr>iv_id = i, iv_code_hash = h, iv_created_by = user,
             iv_organization_id = Some organization, iv_max_uses = 1, iv_used_count = 0, iv_expires_at = x,
             iv_revoked_at = None\<rparr>]\<rparr>"
  using assms unfolding create_invitation_def Let_def by (auto simp: bindE_Inr_iff)

lemma insert_member_members:
  assumes "insert_member prin mid account name user db = Inr db'"
  shows "memberships db' = memberships db @ [\<lparr>m_organization_id = account, m_user_id = user, m_principal_id = prin,
           m_role = lit ''member'', m_membership_id = mid\<rparr>]"
  using assms unfolding insert_member_def insert_principal_def insert_membership_def by (auto simp: bindE_Inr_iff)

lemma insert_user_members: "insert_user lower user email name p db = Inr db' \<Longrightarrow> memberships db' = memberships db"
  unfolding insert_user_def by (auto simp: bindE_Inr_iff)

lemma join_cases:
  assumes "join_organization_with_invitation gen now user h db cr = Inr (a, db', cr')"
  obtains i where "i \<in> set (invitations cr)" "invitation_usable now h i" "cr' = use_invitation (iv_id i) cr"
    "iv_organization_id i = Some (ac_id a)"
    "memberships db' = memberships db @ [\<lparr>m_organization_id = ac_id a, m_user_id = user, m_principal_id = gen 0,
       m_role = lit ''member'', m_membership_id = gen 1\<rparr>]"
proof -
  obtain i organization db1 where *:
    "find (\<lambda>i. invitation_usable now h i \<and> iv_organization_id i \<noteq> None) (invitations cr) = Some i"
    "iv_organization_id i = Some organization"
    "insert_member (gen 0) (gen 1) organization (lit ''user-'' @ uuid_simple user) user db = Inr db1"
    "find (\<lambda>a. ac_id a = organization) (organizations db1) = Some a" "db' = db1" "cr' = use_invitation (iv_id i) cr"
    using assms unfolding join_organization_with_invitation_def by (auto simp: bindE_Inr_iff)
  have "ac_id a = organization" using find_eq_Some [OF *(4)] by simp
  then show ?thesis using that [of i] * insert_member_members [OF *(3)] find_eq_Some [OF *(1)] by simp
qed

lemma register_cases:
  assumes "register_with_invitation lower gen now h email name p db cr = Inr (r, db', cr')"
  obtains i organization where "i \<in> set (invitations cr)" "invitation_usable now h i" "cr' = use_invitation (iv_id i) cr"
    "iv_organization_id i = Some organization"
    "memberships db' = memberships db @ [\<lparr>m_organization_id = organization, m_user_id = gen 2, m_principal_id = gen 0,
       m_role = lit ''member'', m_membership_id = gen 1\<rparr>]"
proof -
  obtain i organization db1 where *:
    "find (invitation_usable now h) (invitations cr) = Some i" "iv_organization_id i = Some organization"
    "insert_user lower (gen 2) email name (Some p) db = Inr db1"
    "insert_member (gen 0) (gen 1) organization name (gen 2) db1 = Inr db'" "cr' = use_invitation (iv_id i) cr"
    using assms unfolding register_with_invitation_def Let_def by (auto simp: bindE_Inr_iff)
  show ?thesis
    using that [of i organization] * insert_member_members [OF *(4)] insert_user_members [OF *(3)]
      find_eq_Some [OF *(1)] by simp
qed

lemma start_device_cases:
  assumes "create_cli_device_authorization i now h h' organization interval x db cr = Inr (k, cr')"
  obtains d where "k = i" "dv_id d = i" "dv_status d = DevicePending"
    "dv_device_code_hash d \<notin> dv_device_code_hash ` set (devices (purge_cli now cr))"
    "cr' = (purge_cli now cr)\<lparr>devices := devices (purge_cli now cr) @ [d]\<rparr>"
proof -
  let ?d = "\<lparr>dv_id = i, dv_device_code_hash = h, dv_user_code_hash = h', dv_organization_id = organization,
    dv_approved_user_id = None, dv_status = DevicePending, dv_interval_seconds = interval, dv_expires_at = x,
    dv_last_polled_at = None\<rparr>"
  have "k = i \<and> cr' = (purge_cli now cr)\<lparr>devices := devices (purge_cli now cr) @ [?d]\<rparr>
      \<and> (\<forall>d \<in> set (devices (purge_cli now cr)). dv_device_code_hash d \<noteq> h)"
    using assms unfolding create_cli_device_authorization_def Let_def by (auto simp: bindE_Inr_iff list_ex_iff)
  then show ?thesis using that [of ?d] by auto
qed

lemma approve_cases:
  assumes "approve_cli_device_authorization now h user db cr = (x, cr')"
  obtains "x \<noteq> DA_Approved" "cr' = cr"
  | d where "x = DA_Approved" "d \<in> set (devices cr)" "dv_user_code_hash d = h" "dv_status d = DevicePending"
      "has_membership db (dv_organization_id d) user"
      "cr' = update_device (dv_id d) (\<lambda>d. d\<lparr>dv_status := DeviceApproved, dv_approved_user_id := Some user\<rparr>) cr"
proof (cases "find (\<lambda>d. dv_user_code_hash d = h) (devices cr)")
  case None
  then show ?thesis using assms that(1) unfolding approve_cli_device_authorization_def by simp
next
  case (Some d)
  show ?thesis
  proof (cases "x = DA_Approved")
    case True
    then have "dv_status d = DevicePending" "has_membership db (dv_organization_id d) user"
      "cr' = update_device (dv_id d) (\<lambda>d. d\<lparr>dv_status := DeviceApproved, dv_approved_user_id := Some user\<rparr>) cr"
      using assms Some unfolding approve_cli_device_authorization_def by (simp_all split: if_splits)
    then show ?thesis using that(2) [OF True, of d] find_eq_Some [OF Some] by simp
  next
    case False
    then have "cr' = cr" using assms Some unfolding approve_cli_device_authorization_def by (simp split: if_splits)
    then show ?thesis using that(1) [OF False] by simp
  qed
qed

lemma exchange_cases:
  assumes "exchange_cli_device_authorization i now h pre h' x db cr = Inr (out, cr')"
  obtains "cr' = cr" "\<And>t u a y. out \<noteq> DX_Issued t u a y"
  | j where "cr' = update_device j (\<lambda>d. d\<lparr>dv_last_polled_at := Some now\<rparr>) cr" "out = DX_Pending"
  | d user t where "out = DX_Issued i user (dv_organization_id d) x" "d \<in> set (devices cr)" "dv_device_code_hash d = h"
      "dv_status d = DeviceApproved" "dv_approved_user_id d = Some user" "has_membership db (dv_organization_id d) user"
      "ct_id t = i" "ct_user_id t = user" "ct_organization_id t = dv_organization_id d"
      "cr' = update_device (dv_id d) (\<lambda>d. d\<lparr>dv_status := DeviceConsumed\<rparr>)
          ((update_device (dv_id d) (\<lambda>d. d\<lparr>dv_last_polled_at := Some now\<rparr>) cr)\<lparr>cli_tokens := cli_tokens cr @ [t]\<rparr>)"
proof (cases "find (\<lambda>d. dv_device_code_hash d = h) (devices cr)")
  case None
  then show ?thesis using assms that(1) unfolding exchange_cli_device_authorization_def by simp
next
  case (Some d)
  have d: "d \<in> set (devices cr)" "dv_device_code_hash d = h" using find_eq_Some [OF Some] by auto
  let ?polled = "update_device (dv_id d) (\<lambda>d. d\<lparr>dv_last_polled_at := Some now\<rparr>) cr"
  consider (quiet) "out \<in> {DX_Expired, DX_Denied, DX_InvalidDeviceCode, DX_SlowDown}" "cr' = cr"
    | (pending) "out = DX_Pending" "cr' = ?polled"
    | (issue) committed where "dv_status d = DeviceApproved" "issue_cli_token i d pre h' x db ?polled = Inr (out, committed)"
        "cr' = (case committed of None \<Rightarrow> cr | Some cr2 \<Rightarrow> cr2)"
    using assms Some unfolding exchange_cli_device_authorization_def Let_def
    by (cases "dv_status d") (auto simp: bindE_Inr_iff split: if_splits option.splits)
  then show ?thesis
  proof cases
    case quiet
    then show ?thesis using that(1) by auto
  next
    case pending
    then show ?thesis using that(2) by blast
  next
    case issue
    show ?thesis
    proof (cases committed)
      case None
      then show ?thesis
        using issue that(1) unfolding issue_cli_token_def by (auto simp: bindE_Inr_iff split: if_splits)
    next
      case (Some cr2)
      then obtain user where "dv_approved_user_id d = Some user" "has_membership db (dv_organization_id d) user"
        "out = DX_Issued i user (dv_organization_id d) x"
        "cr' = update_device (dv_id d) (\<lambda>d. d\<lparr>dv_status := DeviceConsumed\<rparr>)
            (?polled\<lparr>cli_tokens := cli_tokens ?polled @ [\<lparr>ct_id = i, ct_user_id = user,
               ct_organization_id = dv_organization_id d, ct_prefix = pre, ct_token_hash = h',
               ct_expires_at = x, ct_revoked_at = None\<rparr>]\<rparr>)"
        using issue unfolding issue_cli_token_def by (auto simp: bindE_Inr_iff split: if_splits)
      then show ?thesis
        using that(3) [of user d "\<lparr>ct_id = i, ct_user_id = user, ct_organization_id = dv_organization_id d,
          ct_prefix = pre, ct_token_hash = h', ct_expires_at = x, ct_revoked_at = None\<rparr>"] issue(1) d by simp
    qed
  qed
qed

lemma grants_ok_update:
  assumes ok: "grants_ok h cr" and ids: "\<And>d. dv_id (f d) = dv_id d" "\<And>d. dv_device_code_hash (f d) = dv_device_code_hash d"
    and quiet: "\<And>dev token. issues dev token e \<Longrightarrow> dev = j \<and> (\<forall>x \<in> set h. \<forall>token. \<not> issues j token x)"
    and new: "\<And>d. d \<in> set (devices cr) \<Longrightarrow> dv_id d = j \<Longrightarrow> device_ok (h @ [e]) (f d)"
  shows "grants_ok (h @ [e]) (update_device j f cr)"
proof -
  have "map dv_id (devices (update_device j f cr)) = map dv_id (devices cr)"
    "map dv_device_code_hash (devices (update_device j f cr)) = map dv_device_code_hash (devices cr)"
    unfolding update_device_def by (simp_all add: ids)
  moreover have "device_ok (h @ [e]) d'" if row: "d' \<in> set (devices (update_device j f cr))" for d'
  proof -
    obtain d where d: "d \<in> set (devices cr)" "d' = (if dv_id d = j then f d else d)"
      using row unfolding update_device_def by auto
    have "device_ok h d" using ok d(1) unfolding grants_ok_def by blast
    then have "device_ok (h @ [e]) d" if "dv_id d \<noteq> j"
      using device_ok_snoc [of h d e] quiet that by blast
    then show ?thesis using d new by (cases "dv_id d = j") simp_all
  qed
  moreover have "\<exists>device. traced (h @ [e]) device t" if row: "t \<in> set (cli_tokens cr)" for t
  proof -
    obtain device where "traced h device t" using ok row unfolding grants_ok_def by blast
    then show ?thesis using traced_snoc [of h device t e] quiet by blast
  qed
  ultimately show ?thesis using ok unfolding grants_ok_def by simp
qed

lemma device_unique:
  "grants_ok h cr \<Longrightarrow> d \<in> set (devices cr) \<Longrightarrow> d' \<in> set (devices cr) \<Longrightarrow> dv_id d' = dv_id d \<Longrightarrow> d' = d"
  unfolding grants_ok_def by (auto dest: inj_onD [OF distinct_map [THEN iffD1, THEN conjunct2]])

lemma approve_grants:
  assumes ok: "grants_ok h cr" and d: "d \<in> set (devices cr)" "dv_status d = DevicePending"
    and e: "approves (dv_id d) user (dv_organization_id d) e" "\<And>dev token. \<not> issues dev token e"
  shows "grants_ok (h @ [e])
    (update_device (dv_id d) (\<lambda>d. d\<lparr>dv_status := DeviceApproved, dv_approved_user_id := Some user\<rparr>) cr)"
proof (rule grants_ok_update [OF ok])
  fix d' assume "d' \<in> set (devices cr)" "dv_id d' = dv_id d"
  then have "d' = d" using device_unique [OF ok d(1)] by blast
  moreover have "\<forall>x \<in> set h. \<forall>token. \<not> issues (dv_id d) token x"
    using ok d unfolding grants_ok_def device_ok_def by blast
  ultimately show "device_ok (h @ [e]) (d'\<lparr>dv_status := DeviceApproved, dv_approved_user_id := Some user\<rparr>)"
    using e unfolding device_ok_def by auto
qed (use e in \<open>auto\<close>)

lemma poll_grants:
  assumes ok: "grants_ok h cr" and e: "\<And>dev token. \<not> issues dev token e"
  shows "grants_ok (h @ [e]) (update_device j (\<lambda>d. d\<lparr>dv_last_polled_at := Some now\<rparr>) cr)"
proof (rule grants_ok_update [OF ok])
  fix d assume "d \<in> set (devices cr)"
  then have "device_ok (h @ [e]) d" using ok e device_ok_snoc unfolding grants_ok_def by blast
  then show "device_ok (h @ [e]) (d\<lparr>dv_last_polled_at := Some now\<rparr>)" unfolding device_ok_def by simp
qed (use e in \<open>auto\<close>)

lemma issue_traced:
  assumes ok: "grants_ok h cr" and d: "d \<in> set (devices cr)" "dv_status d = DeviceApproved" "dv_approved_user_id d = Some user"
    and t: "ct_user_id t = user" "ct_organization_id t = dv_organization_id d" and e: "issues (dv_id d) (ct_id t) e"
  shows "traced (h @ [e]) (dv_id d) t"
proof -
  have dev: "device_ok h d" using ok d(1) unfolding grants_ok_def by blast
  obtain e1 where e1: "e1 \<in> set h" "approves (dv_id d) user (dv_organization_id d) e1"
    using dev d(2,3) unfolding device_ok_def by auto
  obtain h1 h2 where h: "h = h1 @ e1 # h2" using e1(1) by (meson split_list)
  have "\<forall>x \<in> set h. \<forall>token. \<not> issues (dv_id d) token x" using dev d(2) unfolding device_ok_def by blast
  then show ?thesis
    unfolding traced_def using h e1(2) e t
    by (intro exI [of _ h1] exI [of _ e1] exI [of _ h2] exI [of _ e] exI [of _ "[]"]) simp
qed

lemma issue_grants:
  assumes ok: "grants_ok h cr" and d: "d \<in> set (devices cr)" "dv_status d = DeviceApproved" "dv_approved_user_id d = Some user"
    and t: "ct_user_id t = user" "ct_organization_id t = dv_organization_id d" and e: "issues (dv_id d) (ct_id t) e"
    and only: "\<And>dev token. issues dev token e \<Longrightarrow> dev = dv_id d"
  shows "grants_ok (h @ [e]) (update_device (dv_id d) (\<lambda>d. d\<lparr>dv_status := DeviceConsumed\<rparr>)
    ((update_device (dv_id d) (\<lambda>d. d\<lparr>dv_last_polled_at := x\<rparr>) cr)\<lparr>cli_tokens := cli_tokens cr @ [t]\<rparr>))"
proof -
  let ?f = "\<lambda>d. d\<lparr>dv_last_polled_at := x, dv_status := DeviceConsumed\<rparr>"
  have unused: "\<forall>x \<in> set h. \<forall>token. \<not> issues (dv_id d) token x"
    using ok d(1,2) unfolding grants_ok_def device_ok_def by blast
  have "grants_ok (h @ [e]) (update_device (dv_id d) ?f cr)"
    by (rule grants_ok_update [OF ok]) (use only unused in \<open>auto simp: device_ok_def\<close>)
  moreover have "traced (h @ [e]) (dv_id d) t" by (rule issue_traced [OF ok d t e])
  ultimately show ?thesis unfolding grants_ok_def update_device_def by (auto simp: comp_def if_distrib cong: if_cong)
qed

lemma start_grants:
  assumes ok: "grants_ok h cr" and d: "dv_status d = DevicePending" "dv_id d \<notin> history_ids h \<union> seen_ids cr"
      "dv_device_code_hash d \<notin> dv_device_code_hash ` set (devices (purge_cli now cr))"
    and e: "\<And>dev token. \<not> issues dev token e"
  shows "grants_ok (h @ [e]) ((purge_cli now cr)\<lparr>devices := devices (purge_cli now cr) @ [d]\<rparr>)"
proof -
  obtain P where P: "devices (purge_cli now cr) = filter P (devices cr)" using purge_devices by blast
  have "grants_ok (h @ [e]) (purge_cli now cr)"
    by (rule grants_ok_quiet [OF ok e P]) (use purge_tokens in \<open>auto simp: tokens_kept_def\<close>)
  moreover have "dv_id d \<notin> dv_id ` set (devices (purge_cli now cr))" using d(2) P unfolding seen_ids_def by auto
  moreover have "device_ok (h @ [e]) d" using d e issues_history unfolding device_ok_def by auto
  ultimately show ?thesis using d(3) unfolding grants_ok_def by auto
qed

lemma outcome_of_cases:
  assumes "outcome_of s r = (out, s')"
  obtains e where "r = Inl e" "out = Refused e" "s' = s" | "r = Inr (out, s')"
  using assms by (cases r) auto

definition devices_kept :: "credentials \<Rightarrow> credentials \<Rightarrow> bool" where
  "devices_kept cr cr' \<longleftrightarrow> (\<exists>P. devices cr' = filter P (devices cr)) \<and> tokens_kept cr cr'"

lemma devices_kept_same: "devices cr' = devices cr \<Longrightarrow> cli_tokens cr' = cli_tokens cr \<Longrightarrow> devices_kept cr cr'"
  unfolding devices_kept_def by (auto intro: exI [of _ "\<lambda>_. True"] tokens_kept_same)

lemma devices_kept_purge:
  "devices cr' = devices (purge_cli now cr) \<Longrightarrow> cli_tokens cr' = cli_tokens (purge_cli now cr) \<Longrightarrow> devices_kept cr cr'"
  using purge_devices [of now cr] purge_tokens [of cr now] unfolding devices_kept_def tokens_kept_def by simp

lemma grants_ok_kept:
  "grants_ok h cr \<Longrightarrow> devices_kept cr cr' \<Longrightarrow> (\<And>dev token. \<not> issues dev token e) \<Longrightarrow> grants_ok (h @ [e]) cr'"
  unfolding devices_kept_def tokens_kept_def using grants_ok_quiet by metis

fun about_devices :: "access_call \<Rightarrow> bool" where
  "about_devices (StartDevice _ _ _ _ _) = True"
| "about_devices (ApproveDevice _ _) = True"
| "about_devices (ExchangeDevice _ _ _ _) = True"
| "about_devices _ = False"

lemma refused_kept: "devices_kept cr cr" by (simp add: devices_kept_same)

lemma execute_kept:
  assumes x: "execute lower gen now call db cr = (out, db', cr')" and "\<not> about_devices call"
  shows "devices_kept cr cr'"
proof (cases call)
  case (OpenSession user h y ip how)
  have "outcome_of (db, cr) (bindE (create_session (gen 0) (gen 1) now user h y ip how db cr)
      (\<lambda>(i, cr'). Inr (Created i, db, cr'))) = (out, db', cr')" using x OpenSession by simp
  then show ?thesis
    by (rule outcome_of_cases) (auto simp: bindE_Inr_iff refused_kept dest!: session_frame intro: devices_kept_same)
next
  case (CloseSession h)
  then show ?thesis using x delete_session_frame by (auto intro: devices_kept_same)
next
  case (Invite organization user h y)
  have "outcome_of (db, cr) (bindE (create_invitation (gen 0) now organization user h y db cr)
      (\<lambda>(i, cr'). Inr (Created i, db, cr'))) = (out, db', cr')" using x Invite by simp
  then show ?thesis
    by (rule outcome_of_cases) (auto simp: bindE_Inr_iff refused_kept elim!: invite_cases intro: devices_kept_purge)
next
  case (JoinWith user h)
  have "outcome_of (db, cr) (bindE (join_organization_with_invitation gen now user h db cr)
      (\<lambda>(_, s). Inr (Completed, s))) = (out, db', cr')" using x JoinWith by simp
  then show ?thesis
    by (rule outcome_of_cases) (auto simp: bindE_Inr_iff refused_kept elim!: join_cases intro: devices_kept_same)
next
  case (RegisterWith h email name p)
  have "outcome_of (db, cr) (bindE (register_with_invitation lower gen now h email name p db cr)
      (\<lambda>(_, s). Inr (Completed, s))) = (out, db', cr')" using x RegisterWith by simp
  then show ?thesis
    by (rule outcome_of_cases) (auto simp: bindE_Inr_iff refused_kept elim!: register_cases intro: devices_kept_same)
next
  case (OidcSignIn number issuer subject email name)
  have "outcome_of (db, cr) (bindE (find_or_create_oidc_user lower gen number issuer subject email name db cr)
      (\<lambda>(_, s). Inr (Completed, s))) = (out, db', cr')" using x OidcSignIn by simp
  then show ?thesis
    by (rule outcome_of_cases) (auto simp: bindE_Inr_iff refused_kept dest!: oidc_frame intro: devices_kept_same)
next
  case (RevokeToken token)
  then have "cr' = revoke_cli_access_token now token cr" using x by simp
  then show ?thesis
    unfolding devices_kept_def tokens_kept_def revoke_cli_access_token_def
    by (auto intro: exI [of _ "\<lambda>_. True"])
qed (use assms(2) in simp_all)

lemma not_issues_call: "(\<And>code pre h x. ae_call e \<noteq> ExchangeDevice code pre h x) \<Longrightarrow> \<not> issues dev token e"
  unfolding issues_def by blast

lemma not_issues_outcome:
  "(\<And>t user account x. ae_outcome e \<noteq> Exchange (DX_Issued t user account x)) \<Longrightarrow> \<not> issues dev token e"
  unfolding issues_def by blast

lemma started_grants:
  assumes ok: "grants_ok h cr" and new: "gen 0 \<notin> history_ids h \<union> seen_ids cr" and e: "ae_call e = StartDevice a b organization interval y"
    and x: "execute lower gen now (StartDevice a b organization interval y) db cr = (out, db', cr')"
  shows "grants_ok (h @ [e]) cr'"
proof -
  have quiet: "\<not> issues dev token e" for dev token by (rule not_issues_call) (simp add: e)
  have "outcome_of (db, cr) (bindE (create_cli_device_authorization (gen 0) now a b organization interval y db cr)
      (\<lambda>(i, cr'). Inr (Created i, db, cr'))) = (out, db', cr')" using x by simp
  then show ?thesis
  proof (rule outcome_of_cases)
    fix err assume "(db', cr') = (db, cr)"
    then show ?thesis using grants_ok_kept [OF ok refused_kept quiet] by simp
  next
    assume "bindE (create_cli_device_authorization (gen 0) now a b organization interval y db cr)
        (\<lambda>(i, cr'). Inr (Created i, db, cr')) = Inr (out, db', cr')"
    then obtain k where "create_cli_device_authorization (gen 0) now a b organization interval y db cr = Inr (k, cr')"
      by (auto simp: bindE_Inr_iff)
    then show ?thesis by (rule start_device_cases) (use start_grants [OF ok _ _ _ quiet] new in simp)
  qed
qed

lemma approved_grants:
  assumes ok: "grants_ok h cr"
    and e: "ae_call e = ApproveDevice code user" "ae_outcome e = out" "ae_before e = (db, cr)"
    and x: "execute lower gen now (ApproveDevice code user) db cr = (out, db', cr')"
  shows "grants_ok (h @ [e]) cr'"
proof -
  have quiet: "\<not> issues dev token e" for dev token by (rule not_issues_call) (simp add: e)
  obtain y where y: "approve_cli_device_authorization now code user db cr = (y, cr')" "out = Approval y"
    using x by (auto split: prod.splits)
  show ?thesis using y(1)
  proof (cases rule: approve_cases)
    case 1
    then show ?thesis using grants_ok_kept [OF ok refused_kept quiet] by simp
  next
    case (2 d)
    have "approves (dv_id d) user (dv_organization_id d) e" unfolding approves_def using e y(2) 2 by auto
    then show ?thesis using approve_grants [OF ok 2(2,4) _ quiet] 2(6) by simp
  qed
qed

lemma device_code_unique:
  "grants_ok h cr \<Longrightarrow> d \<in> set (devices cr) \<Longrightarrow> d' \<in> set (devices cr)
    \<Longrightarrow> dv_device_code_hash d = dv_device_code_hash d' \<Longrightarrow> d = d'"
  unfolding grants_ok_def distinct_map by (meson inj_onD)

lemma exchanged_grants:
  assumes ok: "grants_ok h cr"
    and e: "ae_call e = ExchangeDevice code pre b y" "ae_outcome e = out" "ae_before e = (db, cr)"
    and x: "execute lower gen now (ExchangeDevice code pre b y) db cr = (out, db', cr')"
  shows "grants_ok (h @ [e]) cr'"
proof -
  have "outcome_of (db, cr) (bindE (exchange_cli_device_authorization (gen 0) now code pre b y db cr)
      (\<lambda>(z, cr'). Inr (Exchange z, db, cr'))) = (out, db', cr')" using x by simp
  then show ?thesis
  proof (rule outcome_of_cases)
    fix err assume r: "out = Refused err" "(db', cr') = (db, cr)"
    have "\<not> issues dev token e" for dev token by (rule not_issues_outcome) (simp add: e r)
    then show ?thesis using grants_ok_kept [OF ok refused_kept] r(2) by simp
  next
    assume "bindE (exchange_cli_device_authorization (gen 0) now code pre b y db cr)
        (\<lambda>(z, cr'). Inr (Exchange z, db, cr')) = Inr (out, db', cr')"
    then obtain z where z: "exchange_cli_device_authorization (gen 0) now code pre b y db cr = Inr (z, cr')"
      and out: "out = Exchange z" by (auto simp: bindE_Inr_iff)
    show ?thesis using z
    proof (cases rule: exchange_cases)
      case 1
      have "\<not> issues dev token e" for dev token by (rule not_issues_outcome) (simp add: e out 1(2))
      then show ?thesis using grants_ok_kept [OF ok refused_kept] 1(1) by simp
    next
      case (2 j)
      have "\<not> issues dev token e" for dev token by (rule not_issues_outcome) (simp add: e out 2(2))
      then show ?thesis using poll_grants [OF ok] 2(1) by simp
    next
      case (3 d user t)
      have i: "issues (dv_id d) (ct_id t) e" unfolding issues_def using e out 3 by auto
      have "dev = dv_id d" if "issues dev token e" for dev token
        using that e(1,3) device_code_unique [OF ok _ 3(2)] 3(3) unfolding issues_def by auto
      then show ?thesis using issue_grants [OF ok 3(2,4,5,8,9) i] 3(10) by simp
    qed
  qed
qed

lemma execute_grants:
  assumes ok: "grants_ok h cr" and new: "gen 0 \<notin> history_ids h \<union> seen_ids cr"
    and x: "execute lower gen now call db cr = (out, db', cr')"
    and e: "ae_call e = call" "ae_outcome e = out" "ae_before e = (db, cr)"
  shows "grants_ok (h @ [e]) cr'"
proof (cases "about_devices call")
  case False
  have "\<not> issues dev token e" for dev token by (rule not_issues_call) (use False e in auto)
  then show ?thesis using grants_ok_kept [OF ok execute_kept [OF x False]] by blast
next
  case True
  then show ?thesis
    using started_grants [of h cr gen, OF ok new] approved_grants [OF ok _ e(2,3)] exchanged_grants [OF ok _ e(2,3)] e(1) x
    by (cases call) simp_all
qed

lemma run_grants: "access_run lower h db cr \<Longrightarrow> grants_ok h cr"
proof (induction rule: access_run.induct)
  case (run_start db)
  show ?case by (simp add: grants_ok_def no_credentials_def)
next
  case (run_call h db cr gen now call out db' cr')
  show ?case by (rule execute_grants [OF run_call.IH run_call.hyps(3,2)]) simp_all
next
  case (run_elsewhere h db cr cr' db')
  then show ?case using grants_ok_deleted by blast
qed

subsection \<open>Invitations over a history\<close>

definition invites :: "uuid \<Rightarrow> uuid \<Rightarrow> access_entry \<Rightarrow> bool" where
  "invites i account e \<longleftrightarrow>
     (\<exists>inviter code x. ae_call e = Invite account inviter code x \<and> ae_outcome e = Created i
       \<and> list_ex (\<lambda>m. m_organization_id m = account \<and> m_user_id m = inviter \<and> m_role m \<in> {lit ''owner'', lit ''admin''})
           (memberships (fst (ae_before e))))"

definition uses_code :: "digest \<Rightarrow> access_call \<Rightarrow> bool" where
  "uses_code code call \<longleftrightarrow> (\<exists>user. call = JoinWith user code) \<or> (\<exists>email name p. call = RegisterWith code email name p)"

definition admits :: "uuid \<Rightarrow> access_entry \<Rightarrow> bool" where
  "admits i e \<longleftrightarrow> ae_outcome e = Completed
     \<and> (\<exists>row \<in> set (invitations (snd (ae_before e))). iv_id row = i \<and> uses_code (iv_code_hash row) (ae_call e))"

definition adds_member :: "uuid \<Rightarrow> access_entry \<Rightarrow> bool" where
  "adds_member account e \<longleftrightarrow>
     (\<exists>user prin mid. memberships (fst (ae_after e)) = memberships (fst (ae_before e)) @
        [\<lparr>m_organization_id = account, m_user_id = user, m_principal_id = prin, m_role = lit ''member'', m_membership_id = mid\<rparr>])"

definition invited :: "access_entry list \<Rightarrow> uuid \<Rightarrow> uuid \<Rightarrow> datetime \<Rightarrow> bool" where
  "invited h i account x \<longleftrightarrow> (\<exists>e \<in> set h. invites i account e \<and> x \<le> ae_now e + days 1)"

definition invitation_ok :: "access_entry list \<Rightarrow> invitation_row \<Rightarrow> bool" where
  "invitation_ok h row \<longleftrightarrow> (iv_used_count row = 0 \<longrightarrow> (\<forall>e \<in> set h. \<not> admits (iv_id row) e))
     \<and> (\<exists>account. iv_organization_id row = Some account \<and> invited h (iv_id row) account (iv_expires_at row))"

definition invitations_ok :: "access_entry list \<Rightarrow> credentials \<Rightarrow> bool" where
  "invitations_ok h cr \<longleftrightarrow> distinct (map iv_id (invitations cr)) \<and> distinct (map iv_code_hash (invitations cr))
     \<and> (\<forall>row \<in> set (invitations cr). invitation_ok h row)"

text \<open>Each admission goes back to an invitation of the last day and is the only one of its invitation.\<close>

definition admission_ok :: "access_entry list \<Rightarrow> access_entry \<Rightarrow> access_entry list \<Rightarrow> uuid \<Rightarrow> bool" where
  "admission_ok h1 e h2 i \<longleftrightarrow> (\<forall>e' \<in> set (h1 @ h2). \<not> admits i e')
     \<and> (\<exists>account. adds_member account e \<and> (\<exists>e0 \<in> set h1. invites i account e0 \<and> ae_now e < ae_now e0 + days 1))"

definition admissions_ok :: "access_entry list \<Rightarrow> bool" where
  "admissions_ok h \<longleftrightarrow> (\<forall>h1 e h2 i. h = h1 @ e # h2 \<longrightarrow> admits i e \<longrightarrow> admission_ok h1 e h2 i)"

lemma admits_seen: "admits i e \<Longrightarrow> i \<in> seen_ids (snd (ae_before e))"
  unfolding admits_def seen_ids_def by auto

lemma admits_history: "e \<in> set h \<Longrightarrow> admits i e \<Longrightarrow> i \<in> history_ids h"
  unfolding history_ids_def using admits_seen by blast

lemma invited_snoc: "invited h i account x \<Longrightarrow> invited (h @ [e]) i account x"
  unfolding invited_def by auto

lemma invitation_ok_snoc: "invitation_ok h row \<Longrightarrow> (iv_used_count row = 0 \<Longrightarrow> \<not> admits (iv_id row) e) \<Longrightarrow> invitation_ok (h @ [e]) row"
  unfolding invitation_ok_def using invited_snoc by auto

lemma invitations_ok_quiet:
  assumes "invitations_ok h cr" "invitations cr' = invitations cr" "\<And>i. \<not> admits i e"
  shows "invitations_ok (h @ [e]) cr'"
  using assms invitation_ok_snoc unfolding invitations_ok_def by simp

lemma invitations_ok_deleted: "invitations_ok h cr \<Longrightarrow> rows_deleted cr cr' \<Longrightarrow> invitations_ok h cr'"
  unfolding invitations_ok_def rows_deleted_def by (auto simp: distinct_map_filter)

lemma admissions_ok_quiet:
  assumes ok: "admissions_ok h" and new: "\<And>i. admits i e \<Longrightarrow> admission_ok h e [] i"
  shows "admissions_ok (h @ [e])"
  unfolding admissions_ok_def
proof (intro allI impI)
  fix h1 x h2 i assume h: "h @ [e] = h1 @ x # h2" and x: "admits i x"
  show "admission_ok h1 x h2 i"
  proof (cases h2 rule: rev_cases)
    case Nil
    then show ?thesis using h x new by simp
  next
    case (snoc h2' y)
    then have "h = h1 @ x # h2'" "y = e" using h by simp_all
    moreover from this have old: "admission_ok h1 x h2' i" using ok x unfolding admissions_ok_def by blast
    moreover have "\<not> admits i e"
    proof
      assume "admits i e"
      then have "\<forall>e' \<in> set h. \<not> admits i e'" using new unfolding admission_ok_def by simp
      then show False using x \<open>h = h1 @ x # h2'\<close> by simp
    qed
    ultimately show ?thesis using snoc unfolding admission_ok_def by auto
  qed
qed

text \<open>Redeeming an invitation, by either call.\<close>

lemma redeemed:
  assumes ok: "invitations_ok h cr" "admissions_ok h"
    and row: "row \<in> set (invitations cr)" "invitation_usable now code row" "iv_organization_id row = Some account"
    and e: "ae_before e = (db, cr)" "ae_now e = now" "uses_code code (ae_call e)" "adds_member account e"
  shows "invitations_ok (h @ [e]) (use_invitation (iv_id row) cr) \<and> admissions_ok (h @ [e])"
proof
  have code: "iv_code_hash row = code" "iv_used_count row = 0" "now < iv_expires_at row"
    using row(2) unfolding invitation_usable_def by simp_all
  have only: "i = iv_id row" if adm: "admits i e" for i
  proof -
    obtain row' where row': "row' \<in> set (invitations cr)" "iv_id row' = i" "uses_code (iv_code_hash row') (ae_call e)"
      using adm e(1) unfolding admits_def by auto
    have "iv_code_hash row' = iv_code_hash row" using row'(3) e(3) code(1) unfolding uses_code_def by auto
    then have "row' = row" using ok(1) row(1) row'(1) unfolding invitations_ok_def distinct_map by (meson inj_onD)
    then show ?thesis using row'(2) by simp
  qed
  have good: "invitation_ok h row" using ok(1) row(1) unfolding invitations_ok_def by blast
  have "invitation_ok (h @ [e]) x" if x: "x \<in> set (invitations (use_invitation (iv_id row) cr))" for x
  proof -
    obtain y where y: "y \<in> set (invitations cr)" "x = (if iv_id y = iv_id row then y\<lparr>iv_used_count := 1\<rparr> else y)"
      using x unfolding use_invitation_def by auto
    have "invitation_ok h y" using ok(1) y(1) unfolding invitations_ok_def by blast
    then show ?thesis
      using y(2) only invited_snoc invitation_ok_snoc [of h y e] unfolding invitation_ok_def by (cases "iv_id y = iv_id row") auto
  qed
  moreover have "map iv_id (invitations (use_invitation (iv_id row) cr)) = map iv_id (invitations cr)"
    "map iv_code_hash (invitations (use_invitation (iv_id row) cr)) = map iv_code_hash (invitations cr)"
    unfolding use_invitation_def by simp_all
  ultimately show "invitations_ok (h @ [e]) (use_invitation (iv_id row) cr)"
    using ok(1) unfolding invitations_ok_def by simp
  obtain e0 where e0: "e0 \<in> set h" "invites (iv_id row) account e0" "iv_expires_at row \<le> ae_now e0 + days 1"
    using good row(3) unfolding invitation_ok_def invited_def by auto
  have unused: "\<forall>e' \<in> set h. \<not> admits (iv_id row) e'" using good code(2) unfolding invitation_ok_def by blast
  have "now < ae_now e0 + days 1" using e0(3) code(3) by simp
  then have "admission_ok h e [] (iv_id row)"
    using unused e0 e(2,4) unfolding admission_ok_def by auto
  then show "admissions_ok (h @ [e])" using admissions_ok_quiet [OF ok(2)] only by blast
qed

definition keeps_invitations :: "access_call \<Rightarrow> bool" where
  "keeps_invitations call \<longleftrightarrow> (\<forall>code. \<not> uses_code code call) \<and> (\<forall>a u h x. call \<noteq> Invite a u h x)"

lemma execute_invitations:
  assumes x: "execute lower gen now call db cr = (out, db', cr')" and "keeps_invitations call"
  shows "invitations cr' = invitations cr"
proof (cases call)
  case (OpenSession user h y ip how)
  have "outcome_of (db, cr) (bindE (create_session (gen 0) (gen 1) now user h y ip how db cr)
      (\<lambda>(i, cr'). Inr (Created i, db, cr'))) = (out, db', cr')" using x OpenSession by simp
  then show ?thesis by (rule outcome_of_cases) (auto simp: bindE_Inr_iff dest!: session_frame)
next
  case (CloseSession h)
  then show ?thesis using x delete_session_frame by auto
next
  case (OidcSignIn number issuer subject email name)
  have "outcome_of (db, cr) (bindE (find_or_create_oidc_user lower gen number issuer subject email name db cr)
      (\<lambda>(_, s). Inr (Completed, s))) = (out, db', cr')" using x OidcSignIn by simp
  then show ?thesis by (rule outcome_of_cases) (auto simp: bindE_Inr_iff dest!: oidc_frame)
next
  case (StartDevice a b organization interval y)
  have "outcome_of (db, cr) (bindE (create_cli_device_authorization (gen 0) now a b organization interval y db cr)
      (\<lambda>(i, cr'). Inr (Created i, db, cr'))) = (out, db', cr')" using x StartDevice by simp
  then show ?thesis by (rule outcome_of_cases) (auto simp: bindE_Inr_iff elim!: start_device_cases)
next
  case (ApproveDevice code user)
  then obtain y where "approve_cli_device_authorization now code user db cr = (y, cr')"
    using x by (auto split: prod.splits)
  then show ?thesis by (cases rule: approve_cases) simp_all
next
  case (ExchangeDevice code pre b y)
  have "outcome_of (db, cr) (bindE (exchange_cli_device_authorization (gen 0) now code pre b y db cr)
      (\<lambda>(z, cr'). Inr (Exchange z, db, cr'))) = (out, db', cr')" using x ExchangeDevice by simp
  then show ?thesis by (rule outcome_of_cases) (auto simp: bindE_Inr_iff elim!: exchange_cases)
next
  case (RevokeToken token)
  then show ?thesis using x by (auto simp: revoke_cli_access_token_def)
qed (use assms(2) in \<open>auto simp: keeps_invitations_def uses_code_def\<close>)

lemma not_admits_outcome: "ae_outcome e \<noteq> Completed \<Longrightarrow> \<not> admits i e"
  unfolding admits_def by blast

lemma not_admits_call: "(\<And>code. \<not> uses_code code (ae_call e)) \<Longrightarrow> \<not> admits i e"
  unfolding admits_def by blast

lemma invited_step:
  assumes ok: "invitations_ok h cr" and new: "gen 0 \<notin> history_ids h \<union> seen_ids cr"
    and e: "ae_call e = Invite organization user code y" "ae_outcome e = out" "ae_before e = (db, cr)" "ae_now e = now"
    and x: "execute lower gen now (Invite organization user code y) db cr = (out, db', cr')"
  shows "invitations_ok (h @ [e]) cr'"
proof -
  have quiet: "\<not> admits i e" for i by (rule not_admits_call) (simp add: e uses_code_def)
  have "outcome_of (db, cr) (bindE (create_invitation (gen 0) now organization user code y db cr)
      (\<lambda>(i, cr'). Inr (Created i, db, cr'))) = (out, db', cr')" using x by simp
  then show ?thesis
  proof (rule outcome_of_cases)
    fix err assume "(db', cr') = (db, cr)"
    then show ?thesis using invitations_ok_quiet [OF ok _ quiet] by simp
  next
    assume "bindE (create_invitation (gen 0) now organization user code y db cr)
        (\<lambda>(i, cr'). Inr (Created i, db, cr')) = Inr (out, db', cr')"
    then obtain k where k: "create_invitation (gen 0) now organization user code y db cr = Inr (k, cr')" "out = Created k"
      by (auto simp: bindE_Inr_iff)
    show ?thesis using k(1)
    proof (rule invite_cases)
      let ?row = "\<lparr>iv_id = gen 0, iv_code_hash = code, iv_created_by = user, iv_organization_id = Some organization,
        iv_max_uses = 1, iv_used_count = 0, iv_expires_at = y, iv_revoked_at = None\<rparr>"
      assume c: "k = gen 0" "y \<le> now + days 1" "list_ex (\<lambda>m. m_organization_id m = organization \<and> m_user_id m = user
          \<and> m_role m \<in> {lit ''owner'', lit ''admin''}) (memberships db)"
        "cr' = (purge_cli now cr)\<lparr>invitations := invitations cr @ [?row]\<rparr>"
      have "invites (gen 0) organization e" unfolding invites_def using e k(2) c(1,3) by auto
      then have "invited (h @ [e]) (gen 0) organization y" unfolding invited_def using e(4) c(2) by auto
      moreover have "\<forall>x \<in> set (h @ [e]). \<not> admits (gen 0) x" using new quiet admits_history by auto
      ultimately have "invitation_ok (h @ [e]) ?row" unfolding invitation_ok_def by simp
      moreover have "iv_code_hash ?row \<notin> iv_code_hash ` set (invitations cr)"
        using k(1) unfolding create_invitation_def Let_def by (auto simp: bindE_Inr_iff list_ex_iff)
      moreover have "gen 0 \<notin> iv_id ` set (invitations cr)" using new unfolding seen_ids_def by blast
      moreover have "invitations_ok (h @ [e]) cr" by (rule invitations_ok_quiet [OF ok refl quiet])
      ultimately show ?thesis unfolding invitations_ok_def c(4) by auto
    qed
  qed
qed

lemma quiet_entry:
  assumes "invitations_ok h cr" "admissions_ok h" "invitations cr' = invitations cr" "\<And>i. \<not> admits i e"
  shows "invitations_ok (h @ [e]) cr' \<and> admissions_ok (h @ [e])"
  using invitations_ok_quiet [OF assms(1,3,4)] admissions_ok_quiet [OF assms(2)] assms(4) by blast

lemma redeemed_step:
  assumes ok: "invitations_ok h cr" "admissions_ok h"
    and e: "uses_code code (ae_call e)" "ae_outcome e = out" "ae_before e = (db, cr)" "ae_now e = now"
    and x: "outcome_of (db, cr) (bindE result (\<lambda>(_, s). Inr (Completed, s))) = (out, db', cr')"
    and row: "\<And>a. result = Inr (a, db', cr') \<Longrightarrow> \<exists>row account. row \<in> set (invitations cr)
      \<and> invitation_usable now code row \<and> cr' = use_invitation (iv_id row) cr
      \<and> iv_organization_id row = Some account \<and> adds_member account e"
  shows "invitations_ok (h @ [e]) cr' \<and> admissions_ok (h @ [e])"
  using x
proof (rule outcome_of_cases)
  fix err assume r: "out = Refused err" "(db', cr') = (db, cr)"
  have quiet: "\<not> admits i e" for i by (rule not_admits_outcome) (simp add: e r)
  show ?thesis by (rule quiet_entry [OF ok _ quiet]) (use r in simp)
next
  assume "bindE result (\<lambda>(_, s). Inr (Completed, s)) = Inr (out, db', cr')"
  then obtain a where "result = Inr (a, db', cr')" by (auto simp: bindE_Inr_iff)
  then obtain r account where r: "r \<in> set (invitations cr)" "invitation_usable now code r"
    "cr' = use_invitation (iv_id r) cr" "iv_organization_id r = Some account" "adds_member account e"
    using row by blast
  show ?thesis using redeemed [OF ok r(1,2,4) e(3,4,1) r(5)] r(3) by simp
qed

lemma joined_step:
  assumes ok: "invitations_ok h cr" "admissions_ok h"
    and e: "ae_call e = JoinWith user code" "ae_outcome e = out" "ae_before e = (db, cr)" "ae_now e = now" "ae_after e = (db', cr')"
    and x: "execute lower gen now (JoinWith user code) db cr = (out, db', cr')"
  shows "invitations_ok (h @ [e]) cr' \<and> admissions_ok (h @ [e])"
proof (rule redeemed_step [OF ok _ e(2,3,4)])
  show "outcome_of (db, cr) (bindE (join_organization_with_invitation gen now user code db cr)
      (\<lambda>(_, s). Inr (Completed, s))) = (out, db', cr')" using x by simp
  fix a assume "join_organization_with_invitation gen now user code db cr = Inr (a, db', cr')"
  then show "\<exists>row account. row \<in> set (invitations cr) \<and> invitation_usable now code row
      \<and> cr' = use_invitation (iv_id row) cr \<and> iv_organization_id row = Some account \<and> adds_member account e"
    by (rule join_cases) (auto simp: adds_member_def e)
qed (simp add: e uses_code_def)

lemma registered_step:
  assumes ok: "invitations_ok h cr" "admissions_ok h"
    and e: "ae_call e = RegisterWith code email name p" "ae_outcome e = out" "ae_before e = (db, cr)" "ae_now e = now"
      "ae_after e = (db', cr')"
    and x: "execute lower gen now (RegisterWith code email name p) db cr = (out, db', cr')"
  shows "invitations_ok (h @ [e]) cr' \<and> admissions_ok (h @ [e])"
proof (rule redeemed_step [OF ok _ e(2,3,4)])
  show "outcome_of (db, cr) (bindE (register_with_invitation lower gen now code email name p db cr)
      (\<lambda>(_, s). Inr (Completed, s))) = (out, db', cr')" using x by simp
  fix a assume "register_with_invitation lower gen now code email name p db cr = Inr (a, db', cr')"
  then show "\<exists>row account. row \<in> set (invitations cr) \<and> invitation_usable now code row
      \<and> cr' = use_invitation (iv_id row) cr \<and> iv_organization_id row = Some account \<and> adds_member account e"
    by (rule register_cases) (auto simp: adds_member_def e)
qed (simp add: e uses_code_def)

lemma execute_admissions:
  assumes ok: "invitations_ok h cr" "admissions_ok h" and new: "gen 0 \<notin> history_ids h \<union> seen_ids cr"
    and x: "execute lower gen now call db cr = (out, db', cr')"
    and e: "e = \<lparr>ae_now = now, ae_call = call, ae_outcome = out, ae_before = (db, cr), ae_after = (db', cr')\<rparr>"
  shows "invitations_ok (h @ [e]) cr' \<and> admissions_ok (h @ [e])"
proof (cases "keeps_invitations call")
  case True
  have quiet: "\<not> admits i e" for i by (rule not_admits_call) (use True e in \<open>simp add: keeps_invitations_def\<close>)
  show ?thesis by (rule quiet_entry [OF ok execute_invitations [OF x True] quiet])
next
  case False
  then consider (invite) a u c y where "call = Invite a u c y" | (join) u c where "call = JoinWith u c"
    | (register) c em n p where "call = RegisterWith c em n p"
    unfolding keeps_invitations_def uses_code_def by blast
  then show ?thesis
  proof cases
    case invite
    have quiet: "\<not> admits i e" for i by (rule not_admits_call) (use invite e in \<open>simp add: uses_code_def\<close>)
    have "admissions_ok (h @ [e])" by (rule admissions_ok_quiet [OF ok(2)]) (use quiet in blast)
    then show ?thesis using invited_step [of h cr gen e a u c y, OF ok(1) new] invite x e by auto
  next
    case join
    then show ?thesis using joined_step [OF ok, of e u c] x e by auto
  next
    case register
    then show ?thesis using registered_step [OF ok, of e c em n p] x e by auto
  qed
qed

lemma run_admissions: "access_run lower h db cr \<Longrightarrow> invitations_ok h cr \<and> admissions_ok h"
proof (induction rule: access_run.induct)
  case (run_start db)
  show ?case by (simp add: invitations_ok_def admissions_ok_def no_credentials_def)
next
  case (run_call h db cr gen now call out db' cr')
  then show ?case using execute_admissions by blast
next
  case (run_elsewhere h db cr cr' db')
  then show ?case using invitations_ok_deleted by blast
qed

subsection \<open>What a history shows\<close>

text \<open>Calls in sequence, each with fresh ids.\<close>

fun replay :: "(str \<Rightarrow> str) \<Rightarrow> ((nat \<Rightarrow> uuid) \<times> datetime \<times> access_call) list \<Rightarrow>
    access_entry list \<times> iam_tables \<times> credentials \<Rightarrow> access_entry list \<times> iam_tables \<times> credentials" where
  "replay lower [] s = s"
| "replay lower ((gen, now, call) # calls) (h, db, cr) =
     (case execute lower gen now call db cr of (out, db', cr') \<Rightarrow>
        replay lower calls
          (h @ [\<lparr>ae_now = now, ae_call = call, ae_outcome = out, ae_before = (db, cr), ae_after = (db', cr')\<rparr>], db', cr'))"

fun replay_fresh :: "(str \<Rightarrow> str) \<Rightarrow> ((nat \<Rightarrow> uuid) \<times> datetime \<times> access_call) list \<Rightarrow>
    access_entry list \<times> iam_tables \<times> credentials \<Rightarrow> bool" where
  "replay_fresh lower [] s = True"
| "replay_fresh lower ((gen, now, call) # calls) (h, db, cr) =
     (gen 0 \<notin> history_ids h \<union> seen_ids cr \<and>
      replay_fresh lower calls (replay lower [(gen, now, call)] (h, db, cr)))"

lemma replay_run:
  "access_run lower h db cr \<Longrightarrow> replay_fresh lower calls (h, db, cr) \<Longrightarrow> replay lower calls (h, db, cr) = (h', db', cr')
    \<Longrightarrow> access_run lower h' db' cr'"
proof (induction calls arbitrary: h db cr)
  case (Cons c calls)
  obtain gen now call where c: "c = (gen, now, call)" by (cases c) auto
  obtain out db1 cr1 where x: "execute lower gen now call db cr = (out, db1, cr1)"
    by (cases "execute lower gen now call db cr") auto
  have "access_run lower (h @ [\<lparr>ae_now = now, ae_call = call, ae_outcome = out, ae_before = (db, cr),
      ae_after = (db1, cr1)\<rparr>]) db1 cr1"
    using run_call [OF Cons.prems(1) x] Cons.prems(2) c by simp
  then show ?case using Cons.IH Cons.prems(2,3) c x by simp
qed simp

definition demo_calls :: "((nat \<Rightarrow> uuid) \<times> datetime \<times> access_call) list" where
  "demo_calls =
     [(\<lambda>i. 300 + i, seconds 0, StartDevice [1] [2] 103 5 (seconds 600)),
      (\<lambda>i. 310 + i, seconds 10, ApproveDevice [2] 7),
      (\<lambda>i. 320 + i, seconds 20, ExchangeDevice [1] (lit ''0123456789abcdef'') [3] (seconds 9000)),
      (\<lambda>i. 330 + i, seconds 30, Invite 103 7 [4] (seconds 3600)),
      (\<lambda>i. 340 + i, seconds 40, RegisterWith [4] (lit ''a@b'') (lit ''Ann'') (lit ''hash''))]"

definition demo_access :: "access_entry list \<times> iam_tables \<times> credentials" where
  "demo_access = replay (\<lambda>s. s) demo_calls ([], demo_one_account, no_credentials)"

lemma demo_access_run:
  "access_run (\<lambda>s. s) (fst demo_access) (fst (snd demo_access)) (snd (snd demo_access))"
proof -
  have "replay_fresh (\<lambda>s. s) demo_calls ([], demo_one_account, no_credentials)" by code_simp
  then show ?thesis by (rule replay_run [OF run_start]) (simp add: demo_access_def)
qed

text \<open>
  C21: Every access token of the command line client goes back, in any history, to an approval of one
  device authorization by the user of the token, a member of its account at that time, and to a
  later exchange of the device code of that same authorization; no other call of the history obtains
  a token from it.
\<close>

theorem cli_token_was_approved:
  assumes "access_run lower h db cr" "t \<in> set (cli_tokens cr)"
  shows "\<exists>device h1 e1 h2 e2 h3. h = h1 @ e1 # h2 @ e2 # h3
    \<and> approves device (ct_user_id t) (ct_organization_id t) e1 \<and> issues device (ct_id t) e2
    \<and> (\<forall>e \<in> set (h1 @ e1 # h2 @ h3). \<forall>token. \<not> issues device token e)"
  using run_grants [OF assms(1)] assms(2) unfolding grants_ok_def traced_def by blast

theorem cli_token_was_approved_witness:
  "\<exists>t \<in> set (cli_tokens (snd (snd demo_access))). \<exists>device e1 e2. e1 \<in> set (fst demo_access)
     \<and> e2 \<in> set (fst demo_access) \<and> approves device (ct_user_id t) (ct_organization_id t) e1 \<and> issues device (ct_id t) e2"
proof -
  have "cli_tokens (snd (snd demo_access)) \<noteq> []" by code_simp
  then obtain t where t: "t \<in> set (cli_tokens (snd (snd demo_access)))" by (meson hd_in_set)
  from cli_token_was_approved [OF demo_access_run t] obtain device h1 e1 h2 e2 h3 where
    "fst demo_access = h1 @ e1 # h2 @ e2 # h3" "approves device (ct_user_id t) (ct_organization_id t) e1"
    "issues device (ct_id t) e2" by blast
  moreover from this(1) have "e1 \<in> set (fst demo_access)" "e2 \<in> set (fst demo_access)" by simp_all
  ultimately show ?thesis using t by blast
qed

text \<open>
  C22: An invitation admits at most one person, whether by joining or by registering: in any history
  the call that redeems it adds one member to the account whose owner or administrator created the
  invitation less than a day before, and no other call redeems it.
\<close>

theorem invitation_admits_one:
  assumes "access_run lower h db cr" "h = h1 @ e # h2" "admits i e"
  shows "(\<forall>e' \<in> set (h1 @ h2). \<not> admits i e')
    \<and> (\<exists>account. adds_member account e \<and> (\<exists>e0 \<in> set h1. invites i account e0 \<and> ae_now e < ae_now e0 + days 1))"
  using run_admissions [OF assms(1)] assms(2,3) unfolding admissions_ok_def admission_ok_def by blast

lemma demo_admission:
  "ae_outcome (fst demo_access ! 4) = Completed"
  "\<exists>row \<in> set (invitations (snd (ae_before (fst demo_access ! 4)))). iv_id row = 330 \<and> iv_code_hash row = [4]"
  "ae_call (fst demo_access ! 4) = RegisterWith [4] (lit ''a@b'') (lit ''Ann'') (lit ''hash'')"
  by code_simp+

theorem invitation_admits_one_witness:
  "admits 330 (fst demo_access ! 4) \<and> (\<exists>account. adds_member account (fst demo_access ! 4))"
proof -
  have "length (fst demo_access) = 5" by code_simp
  then have split: "fst demo_access = take 4 (fst demo_access) @ (fst demo_access ! 4) # drop 5 (fst demo_access)"
    using id_take_nth_drop [of 4 "fst demo_access"] by simp
  have "uses_code [4] (ae_call (fst demo_access ! 4))" unfolding demo_admission(3) uses_code_def by blast
  then have "admits 330 (fst demo_access ! 4)" unfolding admits_def using demo_admission(1,2) by metis
  with invitation_admits_one [OF demo_access_run split this] show ?thesis by blast
qed

end
