(* ===== verification/Role_Trust.thy ===== *)
theory Role_Trust
  imports Wildcard Policy_Domain
begin

section \<open>Role trust policies\<close>

text \<open>
  The restricted AWS trust grammar of \<open>src/crates/heterocloud-iam/src/role_trust.rs\<close>: who may
  assume a role. The document is the value the deserializer produces, which rejects unknown fields.
\<close>

subsection \<open>Documents\<close>

definition items :: "'a one_or_many \<Rightarrow> 'a list" where
  "items x = (case x of One item \<Rightarrow> [item] | Many xs \<Rightarrow> xs)"

datatype trust_principal = TrustWildcard str | TrustAccounts "str one_or_many"

record trust_statement =
  ts_sid :: "str option"
  ts_effect :: policy_effect
  ts_action :: "str one_or_many"
  ts_principal :: trust_principal

record role_trust_document =
  td_version :: "str option"
  td_statements :: "trust_statement one_or_many"

datatype role_trust_error = InvalidTrust string

definition valid_principal :: "str \<Rightarrow> bool" where
  "valid_principal v =
     (if v = lit ''*'' then True
      else if str_len v = 12 \<and> list_all is_ascii_digit (as_bytes v) then True
      else
        (case strip_prefix (lit ''arn:aws:iam::'') v of
           None \<Rightarrow> False
         | Some rest \<Rightarrow>
             (case split_once 58 rest of
                None \<Rightarrow> False
              | Some (account, path) \<Rightarrow>
                  if str_len account \<noteq> 12 \<or> \<not> list_all is_ascii_digit (as_bytes account) then False
                  else if path = lit ''root'' then True
                  else
                    (case (case strip_prefix (lit ''user/'') path of
                             Some name \<Rightarrow> Some name
                           | None \<Rightarrow> strip_prefix (lit ''role/'') path) of
                       None \<Rightarrow> False
                     | Some name \<Rightarrow>
                         name \<noteq> [] \<and> str_len name \<le> 256
                         \<and> list_all (\<lambda>b. is_ascii_alphanumeric b \<or> b \<in> set (lit ''+=,.@_-/''))
                             (as_bytes name)))))"

definition validate_trust_statement :: "trust_statement \<Rightarrow> role_trust_error + unit" where
  "validate_trust_statement st =
     bindE (fail_if (items (ts_action st) = [] \<or> length (items (ts_action st)) > 128
              \<or> list_ex (\<lambda>action. action = [] \<or> str_len action > 128 \<or> list_ex is_whitespace action)
                  (items (ts_action st)))
             (InvalidTrust ''invalid Action'')) (\<lambda>_.
       case ts_principal st of
         TrustWildcard v \<Rightarrow>
           if v = lit ''*'' then Inr () else Inl (InvalidTrust ''Principal string must be *'')
       | TrustAccounts accounts \<Rightarrow>
           fail_if (items accounts = [] \<or> length (items accounts) > 128
                    \<or> list_ex (\<lambda>p. \<not> valid_principal p) (items accounts))
             (InvalidTrust ''unsupported AWS Principal''))"

definition validate_trust :: "role_trust_document \<Rightarrow> role_trust_error + unit" where
  "validate_trust doc =
     first_error
       [fail_if (case td_version doc of None \<Rightarrow> False
                 | Some v \<Rightarrow> v \<noteq> lit ''2012-10-17'' \<and> v \<noteq> lit ''2008-10-17'')
          (InvalidTrust ''unsupported Version''),
        fail_if (items (td_statements doc) = [] \<or> length (items (td_statements doc)) > 128)
          (InvalidTrust ''expected 1..128 statements''),
        for_each validate_trust_statement (items (td_statements doc))]"

subsection \<open>Who may assume the role\<close>

definition account_root :: "str \<Rightarrow> str" where
  "account_root account = lit ''arn:aws:iam::'' @ account @ lit '':root''"

definition principal_matches :: "trust_principal \<Rightarrow> str \<Rightarrow> str \<Rightarrow> bool" where
  "principal_matches prin caller_account caller_arn =
     (case prin of
        TrustWildcard v \<Rightarrow> v = lit ''*''
      | TrustAccounts accounts \<Rightarrow>
          list_ex (\<lambda>v. v = lit ''*'' \<or> v = caller_arn \<or> v = caller_account
                       \<or> v = account_root caller_account) (items accounts))"

primrec permits_loop :: "trust_statement list \<Rightarrow> str \<Rightarrow> str \<Rightarrow> bool \<Rightarrow> bool" where
  "permits_loop [] caller_account caller_arn allowed = allowed"
| "permits_loop (st # sts) caller_account caller_arn allowed =
     (if \<not> list_ex (\<lambda>action. action_pattern_matches action (lit ''sts:AssumeRole''))
           (items (ts_action st))
      then permits_loop sts caller_account caller_arn allowed
      else if principal_matches (ts_principal st) caller_account caller_arn
      then (case ts_effect st of
              Effect_Deny \<Rightarrow> False
            | Effect_Allow \<Rightarrow> permits_loop sts caller_account caller_arn True)
      else permits_loop sts caller_account caller_arn allowed)"

definition permits :: "role_trust_document \<Rightarrow> str \<Rightarrow> str \<Rightarrow> role_trust_error + bool" where
  "permits doc caller_account caller_arn =
     bindE (validate_trust doc) (\<lambda>_.
       Inr (permits_loop (items (td_statements doc)) caller_account caller_arn False))"

subsection \<open>What a trust policy grants\<close>

text \<open>The statement is about assuming roles and names the caller.\<close>

definition trusts :: "trust_statement \<Rightarrow> str \<Rightarrow> str \<Rightarrow> bool" where
  "trusts st caller_account caller_arn \<longleftrightarrow>
     (\<exists>action \<in> set (items (ts_action st)).
        wildcard (to_ascii_lowercase action) (lit ''sts:assumerole''))
     \<and> (ts_principal st = TrustWildcard (lit ''*'')
        \<or> (\<exists>accounts. ts_principal st = TrustAccounts accounts
             \<and> {lit ''*'', caller_arn, caller_account, account_root caller_account}
                 \<inter> set (items accounts) \<noteq> {}))"

lemma assume_role_pattern:
  "action_pattern_matches action (lit ''sts:AssumeRole'') \<longleftrightarrow>
     wildcard (to_ascii_lowercase action) (lit ''sts:assumerole'')"
proof -
  have "to_ascii_lowercase (lit ''sts:AssumeRole'') = lit ''sts:assumerole''" by code_simp
  moreover have "42 \<notin> set (lit ''sts:assumerole'')" by code_simp
  ultimately show ?thesis by (simp add: action_pattern_matches_def pattern_matches_starless)
qed

lemma trusts_iff:
  "trusts st acct arn \<longleftrightarrow>
     list_ex (\<lambda>action. action_pattern_matches action (lit ''sts:AssumeRole'')) (items (ts_action st))
     \<and> principal_matches (ts_principal st) acct arn"
  by (cases "ts_principal st")
     (auto simp: trusts_def principal_matches_def list_ex_iff assume_role_pattern)

lemma permits_loop_iff:
  "permits_loop sts acct arn allowed \<longleftrightarrow>
     (allowed \<or> (\<exists>st \<in> set sts. ts_effect st = Effect_Allow \<and> trusts st acct arn))
     \<and> \<not> (\<exists>st \<in> set sts. ts_effect st = Effect_Deny \<and> trusts st acct arn)"
proof (induction sts arbitrary: allowed)
  case (Cons st sts)
  show ?case by (cases "ts_effect st") (auto simp: Cons.IH trusts_iff)
qed simp

text \<open>The account a principal of the grammar belongs to.\<close>

definition principal_account :: "str \<Rightarrow> str option" where
  "principal_account v =
     (case strip_prefix (lit ''arn:aws:iam::'') v of
        None \<Rightarrow> if str_len v = 12 \<and> list_all is_ascii_digit (as_bytes v) then Some v else None
      | Some rest \<Rightarrow> map_option fst (split_once 58 rest))"

lemma digits_no_colon: "list_all is_ascii_digit (as_bytes v) \<Longrightarrow> 58 \<notin> set v"
  by (auto simp: list_all_iff as_bytes_def is_ascii_digit_def dest!: bspec split: if_splits)

lemma principal_account_arn:
  "58 \<notin> set account \<Longrightarrow>
   principal_account (lit ''arn:aws:iam::'' @ account @ 58 # path) = Some account"
proof -
  assume "58 \<notin> set account"
  then have "split_once 58 (account @ 58 # path) = Some (account, path)"
    by (simp add: split_once_Some_iff)
  then show ?thesis by (simp add: principal_account_def)
qed

lemma principal_account_number:
  assumes "str_len v = 12" "list_all is_ascii_digit (as_bytes v)"
  shows "principal_account v = Some v"
proof -
  have "strip_prefix (lit ''arn:aws:iam::'') v = None"
  proof (rule ccontr)
    assume "strip_prefix (lit ''arn:aws:iam::'') v \<noteq> None"
    then obtain r where "v = lit ''arn:aws:iam::'' @ r" by (auto simp: strip_prefix_Some_iff)
    then have "58 \<in> set v" by (simp add: lit_def)
    with digits_no_colon [OF assms(2)] show False by simp
  qed
  with assms show ?thesis by (simp add: principal_account_def)
qed

subsection \<open>Properties\<close>

definition demo_trust :: role_trust_document where
  "demo_trust = \<lparr>td_version = Some (lit ''2012-10-17''), td_statements = Many
     [\<lparr>ts_sid = None, ts_effect = Effect_Allow, ts_action = One (lit ''sts:*''),
       ts_principal = TrustAccounts (One (lit ''123456789012''))\<rparr>,
      \<lparr>ts_sid = None, ts_effect = Effect_Deny, ts_action = Many [lit ''sts:AssumeRole''],
       ts_principal = TrustAccounts (Many [lit ''arn:aws:iam::123456789012:user/mallory''])\<rparr>]\<rparr>"

text \<open>
  C13: A trust policy answers a caller exactly when it is valid, and it answers yes exactly when some
  Allow statement whose actions denote assuming a role names the caller (anyone, the caller's
  principal, its account or the account root) and no such Deny statement does, wherever the
  statements stand in the document.
\<close>

theorem permits_iff:
  "permits doc acct arn = Inr answer \<longleftrightarrow>
     validate_trust doc = Inr ()
     \<and> (answer \<longleftrightarrow>
          (\<exists>st \<in> set (items (td_statements doc)). ts_effect st = Effect_Allow \<and> trusts st acct arn)
          \<and> \<not> (\<exists>st \<in> set (items (td_statements doc)). ts_effect st = Effect_Deny \<and> trusts st acct arn))"
  by (auto simp: permits_def bindE_Inr_iff permits_loop_iff)

text \<open>
  C29: A role can be assumed from an account only if its trust policy allows everyone or names a
  principal of that very account: no valid principal string of another account, however it is
  written, admits the caller.
\<close>

theorem trust_needs_account:
  assumes "permits doc acct arn = Inr True"
    and "str_len acct = 12" "list_all is_ascii_digit (as_bytes acct)"
    and "arn = lit ''arn:aws:iam::'' @ acct @ 58 # path"
  shows "\<exists>st \<in> set (items (td_statements doc)). ts_effect st = Effect_Allow
    \<and> (ts_principal st = TrustWildcard (lit ''*'')
       \<or> (\<exists>accounts. ts_principal st = TrustAccounts accounts
            \<and> (\<exists>p \<in> set (items accounts). p = lit ''*'' \<or> principal_account p = Some acct)))"
proof -
  from assms(1) obtain st where st: "st \<in> set (items (td_statements doc))"
    "ts_effect st = Effect_Allow" "trusts st acct arn"
    by (auto simp: permits_def bindE_Inr_iff permits_loop_iff)
  have "account_root acct = lit ''arn:aws:iam::'' @ acct @ 58 # lit ''root''"
    by (simp add: account_root_def lit_def)
  with digits_no_colon [OF assms(3)] have
    "principal_account arn = Some acct" "principal_account (account_root acct) = Some acct"
    "principal_account acct = Some acct"
    using principal_account_number [OF assms(2,3)] by (simp_all add: principal_account_arn assms(4))
  with st show ?thesis unfolding trusts_def by blast
qed

theorem trust_needs_account_witness:
  "\<exists>st \<in> set (items (td_statements demo_trust)). ts_effect st = Effect_Allow
    \<and> (ts_principal st = TrustWildcard (lit ''*'')
       \<or> (\<exists>accounts. ts_principal st = TrustAccounts accounts
            \<and> (\<exists>p \<in> set (items accounts).
                 p = lit ''*'' \<or> principal_account p = Some (lit ''123456789012''))))"
proof (rule trust_needs_account)
  show "permits demo_trust (lit ''123456789012'') (lit ''arn:aws:iam::123456789012:role/ops'')
    = Inr True" by code_simp
  show "lit ''arn:aws:iam::123456789012:role/ops''
    = lit ''arn:aws:iam::'' @ lit ''123456789012'' @ 58 # lit ''role/ops''" by code_simp
qed code_simp+

end
