(* ===== verification/Role_Sessions.thy ===== *)
theory Role_Sessions
  imports Sign_In Role_Trust
begin

text \<open>
  Roles and the credentials of service principals: role sessions, the role of a browser session, API
  keys, workload tokens, and the policies, bindings, groups and boundaries of an account
  (\<open>src/crates/heterocloud-store/src/iam_roles.rs\<close>, \<open>iam_groups.rs\<close>, \<open>workload_identity.rs\<close>, the
  principals of \<open>lib.rs\<close>, and the function \<open>identity_center_session_is_active\<close> of migration 0033).
  The references from browser sessions to role sessions, roles, principals and accounts are kept by
  every operation.
\<close>

subsection \<open>Tables\<close>

record role_row =
  ro_principal_id :: uuid
  ro_organization_id :: uuid
  ro_name :: str
  ro_trust_policy :: role_trust_document
  ro_max_session_seconds :: int

text \<open>What a role session records of the assignment it was created from.\<close>

record center_link =
  cl_assignment_id :: uuid
  cl_generation :: int
  cl_user_id :: uuid
  cl_group_membership_id :: "uuid option"
  cl_target_principal_id :: "uuid option"
  cl_source_membership_id :: "uuid option"
  cl_target_membership_id :: "uuid option"

record role_session =
  rs_id :: uuid
  rs_organization_id :: uuid
  rs_role_principal_id :: uuid
  rs_source_organization_id :: uuid
  rs_source_principal_id :: uuid
  rs_source_arn :: str
  rs_session_name :: str
  rs_session_policy :: "policy_document option"
  rs_token_hash :: digest
  rs_expires_at :: datetime
  rs_revoked_at :: "datetime option"
  rs_link :: "center_link option"

record permission_set =
  ps_id :: uuid
  ps_organization_id :: uuid
  ps_name :: str
  ps_document :: policy_document
  ps_session_duration_seconds :: int
  ps_deleted_at :: "datetime option"

record center_group =
  cg_id :: uuid
  cg_organization_id :: uuid
  cg_name :: str
  cg_deleted_at :: "datetime option"

record center_member =
  cm_id :: uuid
  cm_organization_id :: uuid
  cm_group_id :: uuid
  cm_user_id :: uuid

record center_account_role =
  cr_organization_id :: uuid
  cr_permission_set_id :: uuid
  cr_account_id :: uuid
  cr_role_principal_id :: uuid
  cr_policy_id :: uuid

datatype center_subject = SubjectUser | SubjectGroup

record center_assignment =
  as_id :: uuid
  as_organization_id :: uuid
  as_permission_set_id :: uuid
  as_account_id :: uuid
  as_role_principal_id :: uuid
  as_subject_type :: center_subject
  as_subject_id :: uuid
  as_generation :: int
  as_revoked_at :: "datetime option"

record api_key =
  key_id :: uuid
  key_organization_id :: uuid
  key_principal_id :: uuid
  key_name :: str
  key_prefix :: str
  key_secret_hash :: digest
  key_expires_at :: "datetime option"
  key_revoked_at :: "datetime option"

record role_tables =
  iam_roles :: "role_row list"
  role_sessions :: "role_session list"
  permission_sets :: "permission_set list"
  center_groups :: "center_group list"
  center_members :: "center_member list"
  center_account_roles :: "center_account_role list"
  center_assignments :: "center_assignment list"
  api_keys :: "api_key list"

subsection \<open>Is a session still backed by its assignment\<close>

definition enabled_principal :: "iam_tables \<Rightarrow> uuid \<Rightarrow> uuid \<Rightarrow> bool" where
  "enabled_principal db prin account \<longleftrightarrow>
     list_ex (\<lambda>p. p_id p = prin \<and> p_organization_id p = account \<and> p_enabled p) (principals db)"

definition member_with :: "iam_tables \<Rightarrow> uuid \<Rightarrow> uuid \<Rightarrow> uuid option \<Rightarrow> uuid option \<Rightarrow> bool" where
  "member_with db account user prin membership \<longleftrightarrow>
     list_ex (\<lambda>m. m_organization_id m = account \<and> m_user_id m = user \<and> Some (m_principal_id m) = prin
       \<and> Some (m_membership_id m) = membership \<and> enabled_principal db (m_principal_id m) account) (memberships db)"

definition live_group :: "role_tables \<Rightarrow> uuid \<Rightarrow> uuid \<Rightarrow> bool" where
  "live_group rt organization gid \<longleftrightarrow>
     list_ex (\<lambda>g. cg_id g = gid \<and> cg_organization_id g = organization \<and> cg_deleted_at g = None) (center_groups rt)"

definition live_permission_set :: "role_tables \<Rightarrow> uuid \<Rightarrow> uuid \<Rightarrow> permission_set option" where
  "live_permission_set rt organization ps =
     find (\<lambda>p. ps_id p = ps \<and> ps_organization_id p = organization \<and> ps_deleted_at p = None) (permission_sets rt)"

definition subject_holds :: "role_tables \<Rightarrow> center_assignment \<Rightarrow> uuid \<Rightarrow> uuid option \<Rightarrow> bool" where
  "subject_holds rt a user group_membership \<longleftrightarrow>
     (case as_subject_type a of
        SubjectUser \<Rightarrow> as_subject_id a = user \<and> group_membership = None
      | SubjectGroup \<Rightarrow> live_group rt (as_organization_id a) (as_subject_id a)
          \<and> list_ex (\<lambda>m. cm_group_id m = as_subject_id a \<and> cm_organization_id m = as_organization_id a
                \<and> Some (cm_id m) = group_membership \<and> cm_user_id m = user) (center_members rt))"

definition assignment_backs :: "iam_tables \<Rightarrow> role_tables \<Rightarrow> role_session \<Rightarrow> center_link \<Rightarrow> center_assignment \<Rightarrow> bool" where
  "assignment_backs db rt s l a \<longleftrightarrow>
     as_id a = cl_assignment_id l \<and> as_revoked_at a = None \<and> as_generation a = cl_generation l
     \<and> live_permission_set rt (as_organization_id a) (as_permission_set_id a) \<noteq> None
     \<and> as_account_id a = rs_organization_id s \<and> as_role_principal_id a = rs_role_principal_id s
     \<and> user_is_active db (cl_user_id l)
     \<and> list_ex (\<lambda>(org, management). org = as_organization_id a \<and> management = rs_source_organization_id s
          \<and> member_with db management (cl_user_id l) (Some (rs_source_principal_id s)) (cl_source_membership_id l))
          (cloud_organizations db)
     \<and> member_with db (as_account_id a) (cl_user_id l) (cl_target_principal_id l) (cl_target_membership_id l)
     \<and> subject_holds rt a (cl_user_id l) (cl_group_membership_id l)"

definition identity_center_session_is_active :: "iam_tables \<Rightarrow> role_tables \<Rightarrow> role_session \<Rightarrow> bool" where
  "identity_center_session_is_active db rt s \<longleftrightarrow>
     (case rs_link s of None \<Rightarrow> True | Some l \<Rightarrow> list_ex (assignment_backs db rt s l) (center_assignments rt))"

subsection \<open>Authentication with a role session\<close>

definition role_session_live :: "datetime \<Rightarrow> iam_tables \<Rightarrow> role_tables \<Rightarrow> role_session \<Rightarrow> bool" where
  "role_session_live now db rt s \<longleftrightarrow>
     rs_revoked_at s = None \<and> rs_expires_at s > now
     \<and> enabled_principal db (rs_role_principal_id s) (rs_organization_id s)
     \<and> identity_center_session_is_active db rt s"

definition authenticate_iam_role_session ::
    "datetime \<Rightarrow> iam_tables \<Rightarrow> role_tables \<Rightarrow> digest \<Rightarrow> role_session option" where
  "authenticate_iam_role_session now db rt token_hash =
     find (\<lambda>s. rs_token_hash s = token_hash \<and> role_session_live now db rt s) (role_sessions rt)"

definition authenticate_browser_role_session ::
    "datetime \<Rightarrow> iam_tables \<Rightarrow> role_tables \<Rightarrow> uuid \<Rightarrow> role_session option" where
  "authenticate_browser_role_session now db rt sid =
     find (\<lambda>s. rs_id s = sid \<and> role_session_live now db rt s) (role_sessions rt)"

text \<open>The joins of the query on the role of a browser session.\<close>

definition role_of_session :: "iam_tables \<Rightarrow> role_tables \<Rightarrow> role_session \<Rightarrow> (role_row \<times> account_row) option" where
  "role_of_session db rt s =
     (case find (\<lambda>r. ro_principal_id r = rs_role_principal_id s \<and> ro_organization_id r = rs_organization_id s
              \<and> list_ex (\<lambda>p. p_id p = ro_principal_id r \<and> p_organization_id p = ro_organization_id r) (principals db))
            (iam_roles rt) of
        None \<Rightarrow> None
      | Some r \<Rightarrow> map_option (Pair r) (find (\<lambda>a. ac_id a = rs_organization_id s) (organizations db)))"

definition browser_active_role ::
    "datetime \<Rightarrow> iam_tables \<Rightarrow> role_tables \<Rightarrow> digest \<Rightarrow> credentials \<Rightarrow> (role_session \<times> role_row \<times> account_row \<times> bool) option" where
  "browser_active_role now db rt browser_hash cr =
     (case find (\<lambda>s. se_token_hash s = browser_hash \<and> se_expires_at s > now) (sessions cr) of
        None \<Rightarrow> None
      | Some s \<Rightarrow>
          (case find (\<lambda>x. Some (rs_id x) = se_active_role s) (role_sessions rt) of
             None \<Rightarrow> None
           | Some x \<Rightarrow> map_option (\<lambda>(r, a). (x, r, a, role_session_live now db rt x)) (role_of_session db rt x)))"

subsection \<open>The role of a browser session\<close>

definition assumable :: "datetime \<Rightarrow> iam_tables \<Rightarrow> role_tables \<Rightarrow> uuid \<Rightarrow> bool" where
  "assumable now db rt sid \<longleftrightarrow>
     list_ex (\<lambda>s. rs_id s = sid \<and> rs_revoked_at s = None \<and> rs_expires_at s > now
       \<and> enabled_principal db (rs_role_principal_id s) (rs_organization_id s)) (role_sessions rt)"

definition revoke_sessions :: "datetime \<Rightarrow> (role_session \<Rightarrow> bool) \<Rightarrow> role_tables \<Rightarrow> role_tables" where
  "revoke_sessions now P rt =
     rt\<lparr>role_sessions := map (\<lambda>s. if P s \<and> rs_revoked_at s = None then s\<lparr>rs_revoked_at := Some now\<rparr> else s)
                             (role_sessions rt)\<rparr>"

definition switch_browser_role ::
    "datetime \<Rightarrow> digest \<Rightarrow> uuid option \<Rightarrow> uuid \<Rightarrow> iam_tables \<Rightarrow> role_tables \<Rightarrow> credentials \<Rightarrow>
     store_error + role_tables \<times> credentials" where
  "switch_browser_role now browser_hash expected new_role_session db rt cr =
     (let changes = (\<lambda>s. se_token_hash s = browser_hash \<and> se_expires_at s > now \<and> se_active_role s = expected
            \<and> (case expected of None \<Rightarrow> True | Some previous \<Rightarrow> assumable now db rt previous)
            \<and> assumable now db rt new_role_session) in
      bindE (fail_if (\<not> list_ex changes (sessions cr)) Conflict) (\<lambda>_.
      bindE (fail_if (list_ex (\<lambda>s. \<not> changes s \<and> se_active_role s = Some new_role_session) (sessions cr)) SqlUniqueViolation) (\<lambda>_.
      Inr (case expected of None \<Rightarrow> rt | Some previous \<Rightarrow> revoke_sessions now (\<lambda>s. rs_id s = previous) rt,
           cr\<lparr>sessions := map (\<lambda>s. if changes s then s\<lparr>se_active_role := Some new_role_session\<rparr> else s) (sessions cr)\<rparr>))))"

definition clear_browser_role ::
    "datetime \<Rightarrow> digest \<Rightarrow> role_tables \<Rightarrow> credentials \<Rightarrow> store_error + role_tables \<times> credentials" where
  "clear_browser_role now browser_hash rt cr =
     bindE (ok_or (find (\<lambda>s. se_token_hash s = browser_hash \<and> se_expires_at s > now) (sessions cr)) NotFound) (\<lambda>current.
     Inr (case se_active_role current of None \<Rightarrow> rt | Some i \<Rightarrow> revoke_sessions now (\<lambda>s. rs_id s = i) rt,
          cr\<lparr>sessions := map (\<lambda>s. if se_token_hash s = browser_hash then s\<lparr>se_active_role := None\<rparr> else s) (sessions cr)\<rparr>))"

subsection \<open>Roles\<close>

definition role_arn :: "account_row \<Rightarrow> role_row \<Rightarrow> str" where
  "role_arn a r = lit ''arn:aws:iam::'' @ nat_to_string (ac_number a) @ lit '':role/'' @ ro_name r"

definition is_identity_center_role :: "role_tables \<Rightarrow> uuid \<Rightarrow> uuid \<Rightarrow> bool" where
  "is_identity_center_role rt account prin \<longleftrightarrow>
     list_ex (\<lambda>r. cr_account_id r = account \<and> cr_role_principal_id r = prin) (center_account_roles rt)"

definition is_iam_role_principal :: "role_tables \<Rightarrow> uuid \<Rightarrow> uuid \<Rightarrow> bool" where
  "is_iam_role_principal rt account prin \<longleftrightarrow>
     list_ex (\<lambda>r. ro_organization_id r = account \<and> ro_principal_id r = prin) (iam_roles rt)"

definition is_role :: "role_tables \<Rightarrow> uuid \<Rightarrow> bool" where
  "is_role rt prin \<longleftrightarrow> list_ex (\<lambda>r. ro_principal_id r = prin) (iam_roles rt)"

definition service_account :: "uuid \<Rightarrow> uuid \<Rightarrow> str \<Rightarrow> uuid option \<Rightarrow> principal_row" where
  "service_account prin account name quota_user =
     \<lparr>p_id = prin, p_organization_id = account, p_kind = Kind_ServiceAccount, p_name = name, p_user_id = None,
      p_quota_user_id = quota_user, p_enabled = True, p_boundary_policy_id = None\<rparr>"

definition insert_role :: "role_row \<Rightarrow> role_tables \<Rightarrow> store_error + role_tables" where
  "insert_role r rt =
     bindE (fail_if (\<not> (1 \<le> length (ro_name r) \<and> length (ro_name r) \<le> 64
              \<and> 3600 \<le> ro_max_session_seconds r \<and> ro_max_session_seconds r \<le> 43200)) SqlCheckViolation) (\<lambda>_.
     bindE (fail_if (list_ex (\<lambda>x. ro_organization_id x = ro_organization_id r \<and> ro_name x = ro_name r) (iam_roles rt))
              SqlUniqueViolation) (\<lambda>_.
     Inr (rt\<lparr>iam_roles := iam_roles rt @ [r]\<rparr>)))"

definition create_iam_role ::
    "uuid \<Rightarrow> uuid \<Rightarrow> str \<Rightarrow> role_trust_document \<Rightarrow> int \<Rightarrow> uuid option \<Rightarrow> iam_tables \<Rightarrow> role_tables \<Rightarrow>
     store_error + role_row \<times> iam_tables \<times> role_tables" where
  "create_iam_role prin account name trust max_session_seconds quota_user db rt =
     bindE (fail_if (\<not> (case quota_user of None \<Rightarrow> True | Some u \<Rightarrow> has_membership db account u)) NotFound) (\<lambda>_.
     bindE (fail_if (\<not> list_ex (\<lambda>a. ac_id a = account) (organizations db)) SqlCheckViolation) (\<lambda>_.
     bindE (insert_principal (service_account prin account name quota_user) db) (\<lambda>db1.
     (let role = \<lparr>ro_principal_id = prin, ro_organization_id = account, ro_name = name, ro_trust_policy = trust,
                  ro_max_session_seconds = max_session_seconds\<rparr> in
     bindE (insert_role role rt) (\<lambda>rt1. Inr (role, db1, rt1))))))"

definition find_iam_role :: "iam_tables \<Rightarrow> role_tables \<Rightarrow> str \<Rightarrow> str \<Rightarrow> (role_row \<times> str) option" where
  "find_iam_role db rt account_number name =
     (case find (\<lambda>r. ro_name r = name \<and> list_ex (\<lambda>a. ac_id a = ro_organization_id r
                  \<and> nat_to_string (ac_number a) = account_number) (organizations db)) (iam_roles rt) of
        None \<Rightarrow> None
      | Some r \<Rightarrow> map_option (\<lambda>a. (r, role_arn a r)) (find (\<lambda>a. ac_id a = ro_organization_id r) (organizations db)))"

definition update_iam_role_trust ::
    "uuid \<Rightarrow> uuid \<Rightarrow> role_trust_document \<Rightarrow> role_tables \<Rightarrow> store_error + role_tables" where
  "update_iam_role_trust account prin trust rt =
     bindE (fail_if (\<not> (is_iam_role_principal rt account prin \<and> \<not> is_identity_center_role rt account prin)) NotFound) (\<lambda>_.
     Inr (rt\<lparr>iam_roles := map (\<lambda>r. if ro_organization_id r = account \<and> ro_principal_id r = prin
                               then r\<lparr>ro_trust_policy := trust\<rparr> else r) (iam_roles rt)\<rparr>))"

text \<open>Deleting the principal of a role deletes the role and its sessions with it.\<close>

definition role_in_use :: "datetime \<Rightarrow> uuid \<Rightarrow> uuid \<Rightarrow> iam_tables \<Rightarrow> role_tables \<Rightarrow> credentials \<Rightarrow> bool" where
  "role_in_use now account role db rt cr \<longleftrightarrow>
     list_ex (\<lambda>(_, org, prin, _). org = account \<and> prin = role) (iam_bindings db)
     \<or> list_ex (\<lambda>s. rs_organization_id s = account \<and> rs_role_principal_id s = role
                    \<and> rs_revoked_at s = None \<and> rs_expires_at s > now) (role_sessions rt)
     \<or> list_ex (\<lambda>b. list_ex (\<lambda>s. Some (rs_id s) = se_active_role b \<and> rs_organization_id s = account
                    \<and> rs_role_principal_id s = role) (role_sessions rt)) (sessions cr)"

definition delete_iam_role ::
    "datetime \<Rightarrow> uuid \<Rightarrow> uuid \<Rightarrow> iam_tables \<Rightarrow> role_tables \<Rightarrow> credentials \<Rightarrow> store_error + iam_tables \<times> role_tables" where
  "delete_iam_role now account role db rt cr =
     bindE (fail_if (\<not> (is_iam_role_principal rt account role
              \<and> list_ex (\<lambda>p. p_id p = role \<and> p_organization_id p = account) (principals db))) NotFound) (\<lambda>_.
     bindE (fail_if (is_identity_center_role rt account role)
              (RequestRejected ''Identity Center roles are managed by their permission sets.'')) (\<lambda>_.
     bindE (fail_if (role_in_use now account role db rt cr)
              (RequestRejected ''Detach role policies and revoke active sessions before deleting the role.'')) (\<lambda>_.
     Inr (db\<lparr>principals := filter (\<lambda>p. \<not> (p_organization_id p = account \<and> p_id p = role)) (principals db)\<rparr>,
          rt\<lparr>iam_roles := filter (\<lambda>r. \<not> (ro_organization_id r = account \<and> ro_principal_id r = role)) (iam_roles rt),
             role_sessions := filter (\<lambda>s. \<not> (rs_organization_id s = account \<and> rs_role_principal_id s = role))
                                (role_sessions rt),
             api_keys := filter (\<lambda>k. key_principal_id k \<noteq> role) (api_keys rt)\<rparr>))))"

definition iam_principal_arn :: "iam_tables \<Rightarrow> role_tables \<Rightarrow> uuid \<Rightarrow> uuid \<Rightarrow> (str \<times> str) option" where
  "iam_principal_arn db rt account prin =
     (if enabled_principal db prin account
      then (case find (\<lambda>a. ac_id a = account) (organizations db) of
              None \<Rightarrow> None
            | Some a \<Rightarrow>
                Some (nat_to_string (ac_number a),
                  case find (\<lambda>r. ro_principal_id r = prin \<and> ro_organization_id r = account) (iam_roles rt) of
                    Some r \<Rightarrow> role_arn a r
                  | None \<Rightarrow> lit ''arn:aws:iam::'' @ nat_to_string (ac_number a) @ lit '':user/'' @ uuid_string prin))
      else None)"

subsection \<open>Assuming a role\<close>

definition purge_role_sessions :: "datetime \<Rightarrow> uuid \<Rightarrow> credentials \<Rightarrow> role_tables \<Rightarrow> role_tables" where
  "purge_role_sessions now role cr rt =
     rt\<lparr>role_sessions := filter (\<lambda>s. \<not> (rs_role_principal_id s = role
          \<and> (rs_expires_at s < now - days 7 \<or> (case rs_revoked_at s of None \<Rightarrow> False | Some r \<Rightarrow> r < now - days 7))
          \<and> \<not> list_ex (\<lambda>b. se_active_role b = Some (rs_id s)) (sessions cr))) (role_sessions rt)\<rparr>"

definition active_role_sessions :: "datetime \<Rightarrow> uuid \<Rightarrow> role_tables \<Rightarrow> nat" where
  "active_role_sessions now role rt =
     length (filter (\<lambda>s. rs_role_principal_id s = role \<and> rs_revoked_at s = None \<and> rs_expires_at s > now) (role_sessions rt))"

definition insert_role_session :: "datetime \<Rightarrow> role_session \<Rightarrow> credentials \<Rightarrow> role_tables \<Rightarrow> store_error + role_tables" where
  "insert_role_session now s cr rt =
     (let rt1 = purge_role_sessions now (rs_role_principal_id s) cr rt in
     bindE (fail_if (active_role_sessions now (rs_role_principal_id s) rt1 \<ge> 1000)
              (RequestRejected ''Too many active role sessions.'')) (\<lambda>_.
     bindE (fail_if (\<not> (2 \<le> length (rs_session_name s) \<and> length (rs_session_name s) \<le> 64)) SqlCheckViolation) (\<lambda>_.
     bindE (fail_if (list_ex (\<lambda>x. rs_token_hash x = rs_token_hash s) (role_sessions rt1)) SqlUniqueViolation) (\<lambda>_.
     Inr (rt1\<lparr>role_sessions := role_sessions rt1 @ [s]\<rparr>)))))"

record new_role_session =
  nr_organization_id :: uuid
  nr_role_principal_id :: uuid
  nr_source_organization_id :: uuid
  nr_source_principal_id :: uuid
  nr_source_arn :: str
  nr_session_name :: str
  nr_session_policy :: "policy_document option"
  nr_token_hash :: digest
  nr_expires_at :: datetime
  nr_duration_seconds :: int
  nr_expected_trust_policy :: role_trust_document

definition create_iam_role_session ::
    "uuid \<Rightarrow> datetime \<Rightarrow> new_role_session \<Rightarrow> iam_tables \<Rightarrow> credentials \<Rightarrow> role_tables \<Rightarrow> store_error + uuid \<times> role_tables" where
  "create_iam_role_session sid now n db cr rt =
     bindE (ok_or (find (\<lambda>r. ro_organization_id r = nr_organization_id n \<and> ro_principal_id r = nr_role_principal_id n
              \<and> enabled_principal db (ro_principal_id r) (ro_organization_id r)) (iam_roles rt)) NotFound) (\<lambda>role.
     bindE (fail_if (ro_trust_policy role \<noteq> nr_expected_trust_policy n) Conflict) (\<lambda>_.
     bindE (fail_if (nr_duration_seconds n > ro_max_session_seconds role)
              (RequestRejected ''Session duration exceeds the role maximum.'')) (\<lambda>_.
     bindE (insert_role_session now \<lparr>rs_id = sid, rs_organization_id = nr_organization_id n,
              rs_role_principal_id = nr_role_principal_id n, rs_source_organization_id = nr_source_organization_id n,
              rs_source_principal_id = nr_source_principal_id n, rs_source_arn = nr_source_arn n,
              rs_session_name = nr_session_name n, rs_session_policy = nr_session_policy n,
              rs_token_hash = nr_token_hash n, rs_expires_at = nr_expires_at n, rs_revoked_at = None, rs_link = None\<rparr> cr rt)
       (\<lambda>rt1. Inr (sid, rt1)))))"

definition revoke_iam_role_session ::
    "datetime \<Rightarrow> uuid \<Rightarrow> uuid \<Rightarrow> uuid \<Rightarrow> role_tables \<Rightarrow> store_error + role_tables" where
  "revoke_iam_role_session now account role session rt =
     (let P = (\<lambda>s. rs_organization_id s = account \<and> rs_role_principal_id s = role \<and> rs_id s = session) in
      bindE (fail_if (\<not> list_ex (\<lambda>s. P s \<and> rs_revoked_at s = None) (role_sessions rt)) NotFound) (\<lambda>_.
      Inr (revoke_sessions now P rt)))"

subsection \<open>API keys\<close>

definition create_service_account_owned ::
    "uuid \<Rightarrow> uuid \<Rightarrow> str \<Rightarrow> uuid option \<Rightarrow> iam_tables \<Rightarrow> store_error + principal_row \<times> iam_tables" where
  "create_service_account_owned prin account name quota_user db =
     bindE (fail_if (\<not> (case quota_user of None \<Rightarrow> True | Some u \<Rightarrow> has_membership db account u)) NotFound) (\<lambda>_.
     bindE (insert_principal (service_account prin account name quota_user) db) (\<lambda>db1.
     Inr (service_account prin account name quota_user, db1)))"

definition plain_service_account :: "iam_tables \<Rightarrow> role_tables \<Rightarrow> uuid \<Rightarrow> uuid \<Rightarrow> bool" where
  "plain_service_account db rt prin account \<longleftrightarrow>
     list_ex (\<lambda>p. p_id p = prin \<and> p_organization_id p = account \<and> p_kind p = Kind_ServiceAccount \<and> p_enabled p) (principals db)
     \<and> \<not> is_role rt prin"

definition create_api_key ::
    "uuid \<Rightarrow> uuid \<Rightarrow> uuid \<Rightarrow> str \<Rightarrow> str \<Rightarrow> digest \<Rightarrow> datetime option \<Rightarrow> iam_tables \<Rightarrow> role_tables \<Rightarrow>
     store_error + uuid \<times> role_tables" where
  "create_api_key kid account prin name pre secret_hash expires_at db rt =
     bindE (fail_if (\<not> plain_service_account db rt prin account) NotFound) (\<lambda>_.
     bindE (fail_if (\<not> (1 \<le> length name \<and> length name \<le> 120)) SqlCheckViolation) (\<lambda>_.
     bindE (fail_if (list_ex (\<lambda>k. key_prefix k = pre \<or> key_organization_id k = account \<and> key_principal_id k = prin
                        \<and> key_name k = name) (api_keys rt)) SqlUniqueViolation) (\<lambda>_.
     Inr (kid, rt\<lparr>api_keys := api_keys rt @ [\<lparr>key_id = kid, key_organization_id = account, key_principal_id = prin,
            key_name = name, key_prefix = pre, key_secret_hash = secret_hash, key_expires_at = expires_at,
            key_revoked_at = None\<rparr>]\<rparr>))))"

definition api_key_live :: "datetime \<Rightarrow> iam_tables \<Rightarrow> api_key \<Rightarrow> bool" where
  "api_key_live now db k \<longleftrightarrow>
     key_revoked_at k = None \<and> (case key_expires_at k of None \<Rightarrow> True | Some x \<Rightarrow> x > now)
     \<and> enabled_principal db (key_principal_id k) (key_organization_id k)"

definition authenticate_api_key :: "datetime \<Rightarrow> iam_tables \<Rightarrow> role_tables \<Rightarrow> str \<Rightarrow> digest \<Rightarrow> api_key option" where
  "authenticate_api_key now db rt pre secret_hash =
     find (\<lambda>k. key_prefix k = pre \<and> key_secret_hash k = secret_hash \<and> api_key_live now db k) (api_keys rt)"

definition revoke_iam_api_key :: "datetime \<Rightarrow> uuid \<Rightarrow> uuid \<Rightarrow> uuid \<Rightarrow> role_tables \<Rightarrow> store_error + role_tables" where
  "revoke_iam_api_key now account prin kid rt =
     (let P = (\<lambda>k. key_id k = kid \<and> key_principal_id k = prin \<and> key_organization_id k = account) in
      bindE (fail_if (\<not> list_ex P (api_keys rt)) NotFound) (\<lambda>_.
      Inr (rt\<lparr>api_keys := map (\<lambda>k. if P k then k\<lparr>key_revoked_at := Some (case key_revoked_at k of None \<Rightarrow> now | Some x \<Rightarrow> x)\<rparr> else k)
                            (api_keys rt)\<rparr>)))"

subsection \<open>Workload identities\<close>

definition enabled_task_role :: "iam_tables \<Rightarrow> role_tables \<Rightarrow> uuid \<Rightarrow> uuid \<Rightarrow> bool" where
  "enabled_task_role db rt account role \<longleftrightarrow> plain_service_account db rt role account"

definition runs_as :: "service_row \<Rightarrow> uuid \<Rightarrow> bool" where
  "runs_as row role \<longleftrightarrow> s_provider row = Flash \<and> s_state row \<noteq> Deleting
     \<and> (case s_spec row of FlashSpec spec \<Rightarrow> task_role spec = Some role \<and> \<not> stopped spec | _ \<Rightarrow> False)"

definition mint_workload_token ::
    "uuid \<Rightarrow> datetime \<Rightarrow> uuid \<Rightarrow> uuid \<Rightarrow> uuid \<Rightarrow> digest \<Rightarrow> datetime \<Rightarrow> role_tables \<Rightarrow> store \<Rightarrow>
     store_error + workload_token \<times> store" where
  "mint_workload_token tid now service role pod_uid token_hash expires_at rt st =
     bindE (ok_or (find (\<lambda>s. s_id s = service \<and> runs_as s role
              \<and> plain_service_account (iam st) rt role (s_organization_id s)) (services st)) NotFound) (\<lambda>s.
     (let live = filter (\<lambda>t. \<not> wt_expires_at t \<le> now) (workload_tokens st) in
      bindE (fail_if (length (filter (\<lambda>t. wt_service_instance_id t = service \<and> wt_pod_uid t = pod_uid) live) \<ge> 4096)
               (RequestRejected ''Too many active workload sessions for this Pod'')) (\<lambda>_.
      bindE (fail_if (list_ex (\<lambda>t. wt_token_hash t = token_hash) live) SqlUniqueViolation) (\<lambda>_.
      (let t = \<lparr>wt_id = tid, wt_organization_id = s_organization_id s, wt_service_instance_id = service,
                wt_principal_id = role, wt_pod_uid = pod_uid, wt_token_hash = token_hash, wt_expires_at = expires_at\<rparr> in
       Inr (t, st\<lparr>workload_tokens := live @ [t]\<rparr>))))))"

definition workload_token_live :: "datetime \<Rightarrow> store \<Rightarrow> workload_token \<Rightarrow> bool" where
  "workload_token_live now st t \<longleftrightarrow>
     wt_expires_at t > now
     \<and> list_ex (\<lambda>s. s_id s = wt_service_instance_id t \<and> s_organization_id s = wt_organization_id t
                    \<and> runs_as s (wt_principal_id t)) (services st)
     \<and> list_ex (\<lambda>p. p_id p = wt_principal_id t \<and> p_organization_id p = wt_organization_id t
                    \<and> p_kind p = Kind_ServiceAccount \<and> p_enabled p) (principals (iam st))"

definition authenticate_workload_token :: "datetime \<Rightarrow> store \<Rightarrow> digest \<Rightarrow> workload_token option" where
  "authenticate_workload_token now st token_hash =
     find (\<lambda>t. wt_token_hash t = token_hash \<and> workload_token_live now st t) (workload_tokens st)"

definition set_service_account_enabled :: "uuid \<Rightarrow> uuid \<Rightarrow> bool \<Rightarrow> store \<Rightarrow> store_error + store" where
  "set_service_account_enabled account role enabled st =
     (let P = (\<lambda>p. p_id p = role \<and> p_organization_id p = account \<and> p_kind p = Kind_ServiceAccount) in
      bindE (fail_if (\<not> list_ex P (principals (iam st))) NotFound) (\<lambda>_.
      Inr (st\<lparr>iam := (iam st)\<lparr>principals := map (\<lambda>p. if P p then p\<lparr>p_enabled := enabled\<rparr> else p) (principals (iam st))\<rparr>,
              workload_tokens := (if enabled then workload_tokens st
                else filter (\<lambda>t. \<not> (wt_organization_id t = account \<and> wt_principal_id t = role)) (workload_tokens st))\<rparr>)))"

subsection \<open>Policies, bindings, groups and boundaries\<close>

definition create_policy ::
    "uuid \<Rightarrow> uuid \<Rightarrow> str \<Rightarrow> policy_document \<Rightarrow> iam_tables \<Rightarrow> store_error + policy_row \<times> iam_tables" where
  "create_policy pid account name document db =
     bindE (fail_if (\<not> (1 \<le> length name \<and> length name \<le> 120)) SqlCheckViolation) (\<lambda>_.
     bindE (fail_if (list_ex (\<lambda>p. pol_organization_id p = account \<and> pol_name p = name) (iam_policies db)) SqlUniqueViolation) (\<lambda>_.
     (let p = \<lparr>pol_id = pid, pol_organization_id = account, pol_name = name, pol_document = document\<rparr> in
      Inr (p, db\<lparr>iam_policies := iam_policies db @ [p]\<rparr>))))"

definition policy_in :: "iam_tables \<Rightarrow> uuid \<Rightarrow> uuid \<Rightarrow> bool" where
  "policy_in db account policy \<longleftrightarrow> list_ex (\<lambda>p. pol_id p = policy \<and> pol_organization_id p = account) (iam_policies db)"

definition create_binding ::
    "uuid \<Rightarrow> uuid \<Rightarrow> uuid \<Rightarrow> uuid \<Rightarrow> role_tables \<Rightarrow> iam_tables \<Rightarrow> store_error + uuid \<times> iam_tables" where
  "create_binding bid account prin policy rt db =
     bindE (fail_if (\<not> (list_ex (\<lambda>p. p_id p = prin \<and> p_organization_id p = account) (principals db)
              \<and> policy_in db account policy \<and> \<not> is_identity_center_role rt account prin)) NotFound) (\<lambda>_.
     bindE (fail_if (list_ex (\<lambda>(_, b). b = (account, prin, policy)) (iam_bindings db)) SqlUniqueViolation) (\<lambda>_.
     Inr (bid, db\<lparr>iam_bindings := iam_bindings db @ [(bid, account, prin, policy)]\<rparr>)))"

definition delete_binding :: "uuid \<Rightarrow> uuid \<Rightarrow> role_tables \<Rightarrow> iam_tables \<Rightarrow> store_error + iam_tables" where
  "delete_binding account bid rt db =
     (let P = (\<lambda>(b, org, prin, policy). b = bid \<and> org = account \<and> \<not> is_identity_center_role rt org prin) in
      bindE (fail_if (\<not> list_ex P (iam_bindings db)) NotFound) (\<lambda>_.
      Inr (db\<lparr>iam_bindings := filter (\<lambda>b. \<not> P b) (iam_bindings db)\<rparr>)))"

definition set_permissions_boundary ::
    "uuid \<Rightarrow> uuid \<Rightarrow> uuid option \<Rightarrow> role_tables \<Rightarrow> iam_tables \<Rightarrow> store_error + iam_tables" where
  "set_permissions_boundary account prin policy rt db =
     bindE (fail_if (\<not> (list_ex (\<lambda>p. p_organization_id p = account \<and> p_id p = prin) (principals db)
              \<and> \<not> is_identity_center_role rt account prin
              \<and> (case policy of None \<Rightarrow> True | Some i \<Rightarrow> policy_in db account i))) NotFound) (\<lambda>_.
     Inr (db\<lparr>principals := map (\<lambda>p. if p_organization_id p = account \<and> p_id p = prin
                                 then p\<lparr>p_boundary_policy_id := policy\<rparr> else p) (principals db)\<rparr>))"

definition create_iam_group :: "uuid \<Rightarrow> uuid \<Rightarrow> str \<Rightarrow> iam_tables \<Rightarrow> store_error + uuid \<times> iam_tables" where
  "create_iam_group gid account name db =
     bindE (fail_if (\<not> (1 \<le> length name \<and> length name \<le> 120)) SqlCheckViolation) (\<lambda>_.
     bindE (fail_if (list_ex (\<lambda>(_, org, n). org = account \<and> n = name) (iam_groups db)) SqlUniqueViolation) (\<lambda>_.
     Inr (gid, db\<lparr>iam_groups := iam_groups db @ [(gid, account, name)]\<rparr>)))"

definition delete_iam_group :: "uuid \<Rightarrow> uuid \<Rightarrow> iam_tables \<Rightarrow> store_error + iam_tables" where
  "delete_iam_group account gid db =
     bindE (fail_if (\<not> list_ex (\<lambda>(g, org, _). g = gid \<and> org = account) (iam_groups db)) NotFound) (\<lambda>_.
     bindE (fail_if (list_ex (\<lambda>(_, g, _). g = gid) (iam_group_members db) \<or> list_ex (\<lambda>(_, g, _). g = gid) (iam_group_policies db))
              (RequestRejected ''Remove group users and policies before deleting the group.'')) (\<lambda>_.
     Inr (db\<lparr>iam_groups := filter (\<lambda>(g, org, _). \<not> (g = gid \<and> org = account)) (iam_groups db)\<rparr>)))"

definition change_iam_group_member :: "uuid \<Rightarrow> uuid \<Rightarrow> uuid \<Rightarrow> bool \<Rightarrow> iam_tables \<Rightarrow> store_error + iam_tables" where
  "change_iam_group_member account gid prin add db =
     (if add
      then bindE (fail_if (\<not> (list_ex (\<lambda>(g, org, _). g = gid \<and> org = account) (iam_groups db)
                    \<and> list_ex (\<lambda>p. p_id p = prin \<and> p_organization_id p = account \<and> p_kind p = Kind_User \<and> p_enabled p) (principals db)
                    \<and> (account, gid, prin) \<notin> set (iam_group_members db))) NotFound) (\<lambda>_.
           Inr (db\<lparr>iam_group_members := iam_group_members db @ [(account, gid, prin)]\<rparr>))
      else bindE (fail_if ((account, gid, prin) \<notin> set (iam_group_members db)) NotFound) (\<lambda>_.
           Inr (db\<lparr>iam_group_members := filter (\<lambda>m. m \<noteq> (account, gid, prin)) (iam_group_members db)\<rparr>)))"

definition change_iam_group_policy :: "uuid \<Rightarrow> uuid \<Rightarrow> uuid \<Rightarrow> bool \<Rightarrow> iam_tables \<Rightarrow> store_error + iam_tables" where
  "change_iam_group_policy account gid policy attach db =
     (if attach
      then bindE (fail_if (\<not> (list_ex (\<lambda>(g, org, _). g = gid \<and> org = account) (iam_groups db)
                    \<and> policy_in db account policy \<and> (account, gid, policy) \<notin> set (iam_group_policies db))) NotFound) (\<lambda>_.
           Inr (db\<lparr>iam_group_policies := iam_group_policies db @ [(account, gid, policy)]\<rparr>))
      else bindE (fail_if ((account, gid, policy) \<notin> set (iam_group_policies db)) NotFound) (\<lambda>_.
           Inr (db\<lparr>iam_group_policies := filter (\<lambda>m. m \<noteq> (account, gid, policy)) (iam_group_policies db)\<rparr>)))"

subsection \<open>References between the tables\<close>

text \<open>
  A browser session keeps the reference to its role session, a role session the one to its role, a
  role those to its principal and account.
\<close>

definition role_keys :: "role_tables \<Rightarrow> (uuid \<times> uuid) set" where
  "role_keys rt = (\<lambda>r. (ro_principal_id r, ro_organization_id r)) ` set (iam_roles rt)"

definition session_keys :: "role_tables \<Rightarrow> (uuid \<times> uuid) set" where
  "session_keys rt = (\<lambda>s. (rs_role_principal_id s, rs_organization_id s)) ` set (role_sessions rt)"

definition principal_keys :: "iam_tables \<Rightarrow> (uuid \<times> uuid) set" where
  "principal_keys db = (\<lambda>p. (p_id p, p_organization_id p)) ` set (principals db)"

definition role_refs :: "iam_tables \<Rightarrow> role_tables \<Rightarrow> bool" where
  "role_refs db rt \<longleftrightarrow> session_keys rt \<subseteq> role_keys rt \<and> role_keys rt \<subseteq> principal_keys db
     \<and> snd ` role_keys rt \<subseteq> ac_id ` set (organizations db)"

definition browser_refs :: "role_tables \<Rightarrow> credentials \<Rightarrow> bool" where
  "browser_refs rt cr \<longleftrightarrow> (\<forall>s \<in> set (sessions cr). \<forall>i. se_active_role s = Some i \<longrightarrow> i \<in> rs_id ` set (role_sessions rt))"

definition refs_ok :: "iam_tables \<Rightarrow> role_tables \<Rightarrow> credentials \<Rightarrow> bool" where
  "refs_ok db rt cr \<longleftrightarrow> role_refs db rt \<and> browser_refs rt cr"

lemma find_exists: "x \<in> set xs \<Longrightarrow> P x \<Longrightarrow> \<exists>y. find P xs = Some y"
  by (cases "find P xs") (auto simp: find_None_iff)

lemma role_of_session_found:
  assumes "role_refs db rt" "x \<in> set (role_sessions rt)"
  shows "role_of_session db rt x \<noteq> None"
proof -
  have "(rs_role_principal_id x, rs_organization_id x) \<in> role_keys rt"
    using assms unfolding role_refs_def session_keys_def by blast
  then obtain r where r: "r \<in> set (iam_roles rt)" "ro_principal_id r = rs_role_principal_id x" "ro_organization_id r = rs_organization_id x"
    unfolding role_keys_def by auto
  have "(ro_principal_id r, ro_organization_id r) \<in> principal_keys db" "ro_organization_id r \<in> ac_id ` set (organizations db)"
    using assms(1) r(1) unfolding role_refs_def role_keys_def by (auto simp: image_subset_iff)
  then obtain p a where pa: "p \<in> set (principals db)" "p_id p = ro_principal_id r" "p_organization_id p = ro_organization_id r"
    "a \<in> set (organizations db)" "ac_id a = rs_organization_id x"
    unfolding principal_keys_def using r(3) by auto
  have "list_ex (\<lambda>p. p_id p = ro_principal_id r \<and> p_organization_id p = ro_organization_id r) (principals db)"
    using pa unfolding list_ex_iff by blast
  then obtain r' where "find (\<lambda>r. ro_principal_id r = rs_role_principal_id x \<and> ro_organization_id r = rs_organization_id x
      \<and> list_ex (\<lambda>p. p_id p = ro_principal_id r \<and> p_organization_id p = ro_organization_id r) (principals db)) (iam_roles rt) = Some r'"
    using find_exists [OF r(1), of "\<lambda>r. ro_principal_id r = rs_role_principal_id x \<and> ro_organization_id r = rs_organization_id x
      \<and> list_ex (\<lambda>p. p_id p = ro_principal_id r \<and> p_organization_id p = ro_organization_id r) (principals db)"] r by auto
  moreover obtain a' where "find (\<lambda>a. ac_id a = rs_organization_id x) (organizations db) = Some a'"
    using find_exists [OF pa(4), of "\<lambda>a. ac_id a = rs_organization_id x"] pa(5) by blast
  ultimately show ?thesis unfolding role_of_session_def by simp
qed

lemma browser_role_found:
  assumes ok: "refs_ok db rt cr"
    and s: "find (\<lambda>s. se_token_hash s = h \<and> se_expires_at s > now) (sessions cr) = Some s" "se_active_role s = Some i"
  shows "\<exists>x r a. browser_active_role now db rt h cr = Some (x, r, a, role_session_live now db rt x) \<and> rs_id x = i"
proof -
  have "i \<in> rs_id ` set (role_sessions rt)"
    using ok find_eq_Some [OF s(1)] s(2) unfolding refs_ok_def browser_refs_def by blast
  then obtain y where y: "y \<in> set (role_sessions rt)" "Some (rs_id y) = se_active_role s" using s(2) by auto
  from find_exists [OF y(1), of "\<lambda>x. Some (rs_id x) = se_active_role s"] y(2) obtain x
    where x: "find (\<lambda>x. Some (rs_id x) = se_active_role s) (role_sessions rt) = Some x" by blast
  have "role_of_session db rt x \<noteq> None"
    using role_of_session_found find_eq_Some [OF x] ok unfolding refs_ok_def by blast
  then obtain r a where "role_of_session db rt x = Some (r, a)" by auto
  then show ?thesis unfolding browser_active_role_def using s x find_eq_Some [OF x] by auto
qed

text \<open>The operations of this theory keep the references.\<close>

lemma role_refs_grow:
  assumes "role_refs db rt" "principal_keys db \<subseteq> principal_keys db'" "ac_id ` set (organizations db) \<subseteq> ac_id ` set (organizations db')"
  shows "role_refs db' rt"
  using assms unfolding role_refs_def by blast

lemma role_refs_cong:
  "role_refs db rt \<Longrightarrow> iam_roles rt' = iam_roles rt \<Longrightarrow> session_keys rt' \<subseteq> session_keys rt \<Longrightarrow> role_refs db rt'"
  unfolding role_refs_def role_keys_def by auto

lemma browser_refs_cong:
  "browser_refs rt cr \<Longrightarrow> rs_id ` set (role_sessions rt) \<subseteq> rs_id ` set (role_sessions rt') \<Longrightarrow> browser_refs rt' cr"
  unfolding browser_refs_def by blast

lemma map_image_same: "(\<And>x. k (f x) = k x) \<Longrightarrow> k ` set (map f xs) = k ` set xs"
  by (simp add: image_image)

lemma revoke_sessions_simps [simp]:
  "iam_roles (revoke_sessions now P rt) = iam_roles rt" "session_keys (revoke_sessions now P rt) = session_keys rt"
  "rs_id ` set (role_sessions (revoke_sessions now P rt)) = rs_id ` set (role_sessions rt)"
  "center_assignments (revoke_sessions now P rt) = center_assignments rt"
  "center_members (revoke_sessions now P rt) = center_members rt"
proof -
  have rows: "role_sessions (revoke_sessions now P rt) = map (\<lambda>s. if P s \<and> rs_revoked_at s = None
      then s\<lparr>rs_revoked_at := Some now\<rparr> else s) (role_sessions rt)" by (simp add: revoke_sessions_def)
  show "session_keys (revoke_sessions now P rt) = session_keys rt"
    unfolding session_keys_def rows by (rule map_image_same) simp
  show "rs_id ` set (role_sessions (revoke_sessions now P rt)) = rs_id ` set (role_sessions rt)"
    unfolding rows by (rule map_image_same) simp
qed (simp_all add: revoke_sessions_def)

lemma revoked_refs: "refs_ok db rt cr \<Longrightarrow> refs_ok db (revoke_sessions now P rt) cr"
  unfolding refs_ok_def by (auto intro: role_refs_cong browser_refs_cong)

lemma list_ex_image: "list_ex (\<lambda>x. k x = y) xs \<longleftrightarrow> y \<in> k ` set xs"
  by (auto simp: list_ex_iff)

lemma insert_principal_keys:
  "insert_principal p db = Inr db' \<Longrightarrow> principal_keys db' = insert (p_id p, p_organization_id p) (principal_keys db)
     \<and> organizations db' = organizations db \<and> memberships db' = memberships db \<and> cloud_organizations db' = cloud_organizations db"
  unfolding insert_principal_def principal_keys_def by (auto simp: bindE_Inr_iff)

lemma insert_role_keys:
  "insert_role r rt = Inr rt' \<Longrightarrow> rt' = rt\<lparr>iam_roles := iam_roles rt @ [r]\<rparr>"
  unfolding insert_role_def by (auto simp: bindE_Inr_iff)

lemma added_role_refs:
  assumes "refs_ok db rt cr" "(ro_principal_id r, ro_organization_id r) \<in> principal_keys db"
    "ro_organization_id r \<in> ac_id ` set (organizations db)"
  shows "refs_ok db (rt\<lparr>iam_roles := iam_roles rt @ [r]\<rparr>) cr"
  using assms unfolding refs_ok_def role_refs_def role_keys_def session_keys_def browser_refs_def by auto

lemma refs_ok_grow:
  "refs_ok db rt cr \<Longrightarrow> principal_keys db \<subseteq> principal_keys db' \<Longrightarrow> ac_id ` set (organizations db) \<subseteq> ac_id ` set (organizations db')
    \<Longrightarrow> refs_ok db' rt cr"
  unfolding refs_ok_def using role_refs_grow by blast

lemma create_role_refs:
  assumes "refs_ok db rt cr" "create_iam_role prin account name trust m q db rt = Inr (r, db', rt')"
  shows "refs_ok db' rt' cr"
proof -
  obtain r' where p: "insert_principal (service_account prin account name q) db = Inr db'" and
    r: "insert_role r' rt = Inr rt'" "ro_principal_id r' = prin" "ro_organization_id r' = account" and
    a: "account \<in> ac_id ` set (organizations db)"
    using assms(2) unfolding create_iam_role_def Let_def by (auto simp: bindE_Inr_iff list_ex_image)
  have "refs_ok db' rt cr" by (rule refs_ok_grow [OF assms(1)]) (use insert_principal_keys [OF p] in auto)
  then show ?thesis unfolding insert_role_keys [OF r(1)]
    by (rule added_role_refs) (use insert_principal_keys [OF p] r a in \<open>auto simp: service_account_def\<close>)
qed

lemma role_trust_refs:
  assumes "refs_ok db rt cr" "update_iam_role_trust account prin trust rt = Inr rt'"
  shows "refs_ok db rt' cr"
proof -
  have rt': "rt' = rt\<lparr>iam_roles := map (\<lambda>r. if ro_organization_id r = account \<and> ro_principal_id r = prin
                               then r\<lparr>ro_trust_policy := trust\<rparr> else r) (iam_roles rt)\<rparr>"
    using assms(2) unfolding update_iam_role_trust_def by (auto simp: bindE_Inr_iff)
  have rows: "iam_roles rt' = map (\<lambda>r. if ro_organization_id r = account \<and> ro_principal_id r = prin
      then r\<lparr>ro_trust_policy := trust\<rparr> else r) (iam_roles rt)" by (simp add: rt')
  have "role_keys rt' = role_keys rt" unfolding role_keys_def rows by (rule map_image_same) simp
  moreover have "session_keys rt' = session_keys rt" "role_sessions rt' = role_sessions rt" unfolding session_keys_def rt' by simp_all
  ultimately show ?thesis using assms(1) unfolding refs_ok_def role_refs_def browser_refs_def by simp
qed

lemma delete_role_refs:
  assumes ok: "refs_ok db rt cr" and x: "delete_iam_role now account role db rt cr = Inr (db', rt')"
  shows "refs_ok db' rt' cr"
proof -
  have idle: "\<not> role_in_use now account role db rt cr"
    and db': "db' = db\<lparr>principals := filter (\<lambda>p. \<not> (p_organization_id p = account \<and> p_id p = role)) (principals db)\<rparr>"
    and rt': "rt' = rt\<lparr>iam_roles := filter (\<lambda>r. \<not> (ro_organization_id r = account \<and> ro_principal_id r = role)) (iam_roles rt),
             role_sessions := filter (\<lambda>s. \<not> (rs_organization_id s = account \<and> rs_role_principal_id s = role)) (role_sessions rt),
             api_keys := filter (\<lambda>k. key_principal_id k \<noteq> role) (api_keys rt)\<rparr>"
    using x unfolding delete_iam_role_def by (auto simp: bindE_Inr_iff)
  have keys: "role_keys rt' = role_keys rt - {(role, account)}" "session_keys rt' = session_keys rt - {(role, account)}"
    "principal_keys db' = principal_keys db - {(role, account)}" "organizations db' = organizations db"
    unfolding role_keys_def session_keys_def principal_keys_def db' rt' by auto
  have "role_refs db' rt'" using ok keys unfolding refs_ok_def role_refs_def by auto
  moreover have "browser_refs rt' cr"
    unfolding browser_refs_def
  proof (intro ballI allI impI)
    fix b i assume b: "b \<in> set (sessions cr)" "se_active_role b = Some i"
    then obtain s where s: "s \<in> set (role_sessions rt)" "rs_id s = i" using ok unfolding refs_ok_def browser_refs_def by blast
    then have "\<not> (rs_organization_id s = account \<and> rs_role_principal_id s = role)"
      using idle b unfolding role_in_use_def list_ex_iff by fastforce
    then show "i \<in> rs_id ` set (role_sessions rt')" using s unfolding rt' by auto
  qed
  ultimately show ?thesis unfolding refs_ok_def by blast
qed

lemma purge_keeps:
  assumes "browser_refs rt cr"
  shows "browser_refs (purge_role_sessions now role cr rt) cr"
  unfolding browser_refs_def
proof (intro ballI allI impI)
  fix b i assume b: "b \<in> set (sessions cr)" "se_active_role b = Some i"
  then obtain s where s: "s \<in> set (role_sessions rt)" "rs_id s = i" using assms unfolding browser_refs_def by blast
  moreover have "list_ex (\<lambda>b. se_active_role b = Some (rs_id s)) (sessions cr)" using b s(2) unfolding list_ex_iff by blast
  ultimately have "s \<in> set (role_sessions (purge_role_sessions now role cr rt))" unfolding purge_role_sessions_def by simp
  then show "i \<in> rs_id ` set (role_sessions (purge_role_sessions now role cr rt))" using s(2) by blast
qed

lemma inserted_session_cases:
  assumes "insert_role_session now s cr rt = Inr rt'"
  shows "rt' = (purge_role_sessions now (rs_role_principal_id s) cr rt)\<lparr>role_sessions :=
    role_sessions (purge_role_sessions now (rs_role_principal_id s) cr rt) @ [s]\<rparr>"
  using assms unfolding insert_role_session_def Let_def by (auto simp: bindE_Inr_iff)

lemma inserted_session_refs:
  assumes ok: "refs_ok db rt cr" and x: "insert_role_session now s cr rt = Inr rt'"
    and role: "(rs_role_principal_id s, rs_organization_id s) \<in> role_keys rt"
  shows "refs_ok db rt' cr"
proof -
  let ?p = "purge_role_sessions now (rs_role_principal_id s) cr rt"
  have "session_keys ?p \<subseteq> session_keys rt" "iam_roles ?p = iam_roles rt"
    unfolding purge_role_sessions_def session_keys_def by auto
  then have "role_refs db ?p" using ok role_refs_cong unfolding refs_ok_def by blast
  moreover have "browser_refs ?p cr" using ok purge_keeps unfolding refs_ok_def by blast
  ultimately show ?thesis
    using role unfolding inserted_session_cases [OF x] refs_ok_def role_refs_def browser_refs_def session_keys_def role_keys_def
      purge_role_sessions_def by auto
qed

lemma create_session_refs:
  assumes "refs_ok db rt cr" "create_iam_role_session i now n db cr rt = Inr (j, rt')"
  shows "refs_ok db rt' cr"
proof -
  obtain r s where r: "find (\<lambda>r. ro_organization_id r = nr_organization_id n \<and> ro_principal_id r = nr_role_principal_id n
       \<and> enabled_principal db (ro_principal_id r) (ro_organization_id r)) (iam_roles rt) = Some r"
    and s: "insert_role_session now s cr rt = Inr rt'" "rs_organization_id s = nr_organization_id n"
      "rs_role_principal_id s = nr_role_principal_id n"
    using assms(2) unfolding create_iam_role_session_def by (auto simp: bindE_Inr_iff)
  have "(rs_role_principal_id s, rs_organization_id s) \<in> role_keys rt"
    using find_eq_Some [OF r] s(2,3) unfolding role_keys_def by force
  then show ?thesis by (rule inserted_session_refs [OF assms(1) s(1)])
qed

lemma switch_refs:
  assumes ok: "refs_ok db rt cr" and x: "switch_browser_role now h expected new db rt cr = Inr (rt', cr')"
  shows "refs_ok db rt' cr'"
proof -
  define changes :: "session_row \<Rightarrow> bool" where "changes = (\<lambda>s. se_token_hash s = h \<and> se_expires_at s > now \<and> se_active_role s = expected
            \<and> (case expected of None \<Rightarrow> True | Some previous \<Rightarrow> assumable now db rt previous)
            \<and> assumable now db rt new)"
  have any: "list_ex changes (sessions cr)"
    and rt': "rt' = (case expected of None \<Rightarrow> rt | Some previous \<Rightarrow> revoke_sessions now (\<lambda>s. rs_id s = previous) rt)"
    and cr': "cr' = cr\<lparr>sessions := map (\<lambda>s. if changes s then s\<lparr>se_active_role := Some new\<rparr> else s) (sessions cr)\<rparr>"
    using x unfolding switch_browser_role_def Let_def changes_def by (auto simp: bindE_Inr_iff)
  have "new \<in> rs_id ` set (role_sessions rt)"
    using any unfolding list_ex_iff changes_def assumable_def by auto
  then have "browser_refs rt cr'" using ok unfolding refs_ok_def browser_refs_def cr' by auto
  then have "refs_ok db rt cr'" using ok unfolding refs_ok_def by blast
  then show ?thesis unfolding rt' using revoked_refs by (cases expected) simp_all
qed

lemma clear_refs:
  assumes ok: "refs_ok db rt cr" and x: "clear_browser_role now h rt cr = Inr (rt', cr')"
  shows "refs_ok db rt' cr'"
proof -
  obtain s :: session_row where rt': "rt' = (case se_active_role s of None \<Rightarrow> rt | Some i \<Rightarrow> revoke_sessions now (\<lambda>s. rs_id s = i) rt)"
    and cr': "cr' = cr\<lparr>sessions := map (\<lambda>s. if se_token_hash s = h then s\<lparr>se_active_role := None\<rparr> else s) (sessions cr)\<rparr>"
    using x unfolding clear_browser_role_def by (auto simp: bindE_Inr_iff)
  have "browser_refs rt cr'" using ok unfolding refs_ok_def browser_refs_def cr' by auto
  then have "refs_ok db rt cr'" using ok unfolding refs_ok_def by blast
  then show ?thesis unfolding rt' using revoked_refs by (cases "se_active_role s") simp_all
qed

end
