(* ===== verification/Identity_Center.thy ===== *)
theory Identity_Center
  imports Role_Sessions
begin

text \<open>
  The identity center: permission sets, groups, assignments of accounts to people and the role
  sessions they open (\<open>src/crates/heterocloud-store/src/identity_center.rs\<close>, migration 0033). Over
  the runs of all operations on roles, browser roles and the identity center, references between the
  tables hold, and a session whose backing has ended never authenticates again.
\<close>

subsection \<open>The directory\<close>

definition management_organization :: "iam_tables \<Rightarrow> uuid \<Rightarrow> store_error + uuid \<times> str" where
  "management_organization db management =
     bindE (ok_or (find (\<lambda>(_, m). m = management) (cloud_organizations db)) NotFound) (\<lambda>(organization, _).
     bindE (ok_or (find (\<lambda>a. ac_id a = management) (organizations db)) NotFound) (\<lambda>a.
     Inr (organization, nat_to_string (ac_number a))))"

definition require_directory_user :: "iam_tables \<Rightarrow> uuid \<Rightarrow> uuid \<Rightarrow> store_error + uuid" where
  "require_directory_user db management user =
     bindE (ok_or (find (\<lambda>m. m_organization_id m = management \<and> m_user_id m = user
              \<and> enabled_principal db (m_principal_id m) (m_organization_id m) \<and> user_is_active db user) (memberships db)) NotFound)
       (\<lambda>m. Inr (m_principal_id m))"

definition ensure_account_user :: "uuid \<Rightarrow> uuid \<Rightarrow> uuid \<Rightarrow> uuid \<Rightarrow> iam_tables \<Rightarrow> store_error + iam_tables" where
  "ensure_account_user prin membership account user db =
     bindE (fail_if (\<not> list_ex (\<lambda>a. ac_id a = account) (organizations db)) NotFound) (\<lambda>_.
     if has_membership db account user then Inr db
     else
       bindE (fail_if (list_ex (\<lambda>p. p_organization_id p = account \<and> p_user_id p = Some user) (principals db))
                (RequestRejected ''The account has a detached principal for this user; reconcile it before assigning access.'')) (\<lambda>_.
       insert_member prin membership account (lit ''IdentityCenter-'' @ uuid_simple user) user db))"

text \<open>The identifiers of the \<open>i\<close>-th new principal and membership are \<open>gen (2 * i)\<close> and \<open>gen (2 * i + 1)\<close>.\<close>

fun ensure_accounts :: "(nat \<Rightarrow> uuid) \<Rightarrow> uuid list \<Rightarrow> uuid \<Rightarrow> iam_tables \<Rightarrow> store_error + iam_tables" where
  "ensure_accounts gen [] user db = Inr db"
| "ensure_accounts gen (account # rest) user db =
     bindE (ensure_account_user (gen 0) (gen 1) account user db) (ensure_accounts (\<lambda>i. gen (i + 2)) rest user)"

fun ensure_users :: "(nat \<Rightarrow> uuid) \<Rightarrow> uuid \<Rightarrow> uuid \<Rightarrow> uuid list \<Rightarrow> iam_tables \<Rightarrow> store_error + iam_tables" where
  "ensure_users gen management account [] db = Inr db"
| "ensure_users gen management account (user # rest) db =
     bindE (require_directory_user db management user) (\<lambda>_.
     bindE (ensure_account_user (gen 0) (gen 1) account user db) (ensure_users (\<lambda>i. gen (i + 2)) management account rest))"

subsection \<open>Permission sets\<close>

definition permission_set_name_ok :: "str \<Rightarrow> bool" where
  "permission_set_name_ok name \<longleftrightarrow> 1 \<le> length name \<and> length name \<le> 32
     \<and> list_all (\<lambda>c. is_ascii_alphanumeric c \<or> c \<in> set (lit ''+=,.@_-'')) name"

definition create_identity_center_permission_set ::
    "(str \<Rightarrow> str) \<Rightarrow> uuid \<Rightarrow> uuid \<Rightarrow> str \<Rightarrow> policy_document \<Rightarrow> int \<Rightarrow> iam_tables \<Rightarrow> role_tables \<Rightarrow>
     store_error + permission_set \<times> role_tables" where
  "create_identity_center_permission_set lower pid management name document duration db rt =
     bindE (management_organization db management) (\<lambda>(organization, _).
     bindE (fail_if (\<not> (permission_set_name_ok name \<and> 3600 \<le> duration \<and> duration \<le> 43200)) SqlCheckViolation) (\<lambda>_.
     bindE (fail_if (list_ex (\<lambda>p. ps_organization_id p = organization \<and> ps_deleted_at p = None
              \<and> lower (ps_name p) = lower name) (permission_sets rt)) SqlUniqueViolation) (\<lambda>_.
     (let p = \<lparr>ps_id = pid, ps_organization_id = organization, ps_name = name, ps_document = document,
               ps_session_duration_seconds = duration, ps_deleted_at = None\<rparr> in
      Inr (p, rt\<lparr>permission_sets := permission_sets rt @ [p]\<rparr>)))))"

definition update_identity_center_permission_set ::
    "uuid \<Rightarrow> uuid \<Rightarrow> policy_document \<Rightarrow> int \<Rightarrow> iam_tables \<Rightarrow> role_tables \<Rightarrow> store_error + iam_tables \<times> role_tables" where
  "update_identity_center_permission_set management pid document duration db rt =
     bindE (management_organization db management) (\<lambda>(organization, _).
     bindE (fail_if (live_permission_set rt organization pid = None) NotFound) (\<lambda>_.
     bindE (fail_if (\<not> (3600 \<le> duration \<and> duration \<le> 43200)) SqlCheckViolation) (\<lambda>_.
     Inr (db\<lparr>iam_policies := map (\<lambda>p. if list_ex (\<lambda>r. cr_organization_id r = organization \<and> cr_permission_set_id r = pid
                \<and> cr_policy_id r = pol_id p \<and> cr_account_id r = pol_organization_id p) (center_account_roles rt)
              then p\<lparr>pol_document := document\<rparr> else p) (iam_policies db)\<rparr>,
          rt\<lparr>permission_sets := map (\<lambda>p. if ps_organization_id p = organization \<and> ps_id p = pid \<and> ps_deleted_at p = None
              then p\<lparr>ps_document := document, ps_session_duration_seconds := duration\<rparr> else p) (permission_sets rt)\<rparr>))))"

definition delete_identity_center_permission_set ::
    "datetime \<Rightarrow> uuid \<Rightarrow> uuid \<Rightarrow> iam_tables \<Rightarrow> role_tables \<Rightarrow> store_error + role_tables" where
  "delete_identity_center_permission_set now management pid db rt =
     bindE (management_organization db management) (\<lambda>(organization, _).
     bindE (fail_if (live_permission_set rt organization pid = None) NotFound) (\<lambda>_.
     bindE (fail_if (list_ex (\<lambda>a. as_organization_id a = organization \<and> as_permission_set_id a = pid
              \<and> as_revoked_at a = None) (center_assignments rt))
              (RequestRejected ''Remove all account assignments before deleting the permission set.'')) (\<lambda>_.
     Inr (rt\<lparr>permission_sets := map (\<lambda>p. if ps_id p = pid then p\<lparr>ps_deleted_at := Some now\<rparr> else p) (permission_sets rt)\<rparr>))))"

subsection \<open>Groups\<close>

definition create_identity_center_group ::
    "(str \<Rightarrow> str) \<Rightarrow> uuid \<Rightarrow> uuid \<Rightarrow> str \<Rightarrow> iam_tables \<Rightarrow> role_tables \<Rightarrow> store_error + uuid \<times> role_tables" where
  "create_identity_center_group lower gid management name db rt =
     bindE (management_organization db management) (\<lambda>(organization, _).
     bindE (fail_if (\<not> (1 \<le> length name \<and> length name \<le> 120)) SqlCheckViolation) (\<lambda>_.
     bindE (fail_if (list_ex (\<lambda>g. cg_organization_id g = organization \<and> cg_deleted_at g = None
              \<and> lower (cg_name g) = lower name) (center_groups rt)) SqlUniqueViolation) (\<lambda>_.
     Inr (gid, rt\<lparr>center_groups := center_groups rt @ [\<lparr>cg_id = gid, cg_organization_id = organization, cg_name = name,
                    cg_deleted_at = None\<rparr>]\<rparr>))))"

definition group_accounts :: "role_tables \<Rightarrow> uuid \<Rightarrow> uuid \<Rightarrow> uuid list" where
  "group_accounts rt organization gid =
     sort (remdups (map as_account_id (filter (\<lambda>a. as_organization_id a = organization \<and> as_subject_type a = SubjectGroup
       \<and> as_subject_id a = gid \<and> as_revoked_at a = None) (center_assignments rt))))"

definition change_identity_center_group_member ::
    "(nat \<Rightarrow> uuid) \<Rightarrow> uuid \<Rightarrow> uuid \<Rightarrow> uuid \<Rightarrow> bool \<Rightarrow> iam_tables \<Rightarrow> role_tables \<Rightarrow> store_error + iam_tables \<times> role_tables" where
  "change_identity_center_group_member gen management gid user add db rt =
     bindE (management_organization db management) (\<lambda>(organization, _).
     bindE (fail_if (\<not> live_group rt organization gid) NotFound) (\<lambda>_.
     if add then
       bindE (require_directory_user db management user) (\<lambda>_.
       bindE (ensure_accounts (\<lambda>i. gen (i + 1)) (group_accounts rt organization gid) user db) (\<lambda>db1.
       bindE (fail_if (list_ex (\<lambda>m. cm_group_id m = gid \<and> cm_user_id m = user) (center_members rt)) AlreadyExists) (\<lambda>_.
       Inr (db1, rt\<lparr>center_members := center_members rt @ [\<lparr>cm_id = gen 0, cm_organization_id = organization,
                     cm_group_id = gid, cm_user_id = user\<rparr>]\<rparr>))))
     else
       (let P = (\<lambda>m. cm_organization_id m = organization \<and> cm_group_id m = gid \<and> cm_user_id m = user) in
        bindE (fail_if (\<not> list_ex P (center_members rt)) NotFound) (\<lambda>_.
        Inr (db, rt\<lparr>center_members := filter (\<lambda>m. \<not> P m) (center_members rt)\<rparr>)))))"

definition delete_identity_center_group ::
    "datetime \<Rightarrow> uuid \<Rightarrow> uuid \<Rightarrow> iam_tables \<Rightarrow> role_tables \<Rightarrow> store_error + role_tables" where
  "delete_identity_center_group now management gid db rt =
     bindE (management_organization db management) (\<lambda>(organization, _).
     bindE (fail_if (\<not> live_group rt organization gid) NotFound) (\<lambda>_.
     bindE (fail_if (list_ex (\<lambda>a. as_organization_id a = organization \<and> as_subject_type a = SubjectGroup
              \<and> as_subject_id a = gid \<and> as_revoked_at a = None) (center_assignments rt))
              (RequestRejected ''Remove all account assignments before deleting the group.'')) (\<lambda>_.
     Inr (rt\<lparr>center_members := filter (\<lambda>m. \<not> (cm_organization_id m = organization \<and> cm_group_id m = gid)) (center_members rt),
             center_groups := map (\<lambda>g. if cg_organization_id g = organization \<and> cg_id g = gid
                                then g\<lparr>cg_deleted_at := Some now\<rparr> else g) (center_groups rt)\<rparr>))))"

subsection \<open>Assignments\<close>

definition center_trust :: "str \<Rightarrow> role_trust_document" where
  "center_trust management_number =
     \<lparr>td_version = Some (lit ''2012-10-17''),
      td_statements = One \<lparr>ts_sid = None, ts_effect = Effect_Allow, ts_action = One (lit ''sts:AssumeRole''),
        ts_principal = TrustAccounts (One (account_root management_number))\<rparr>\<rparr>"

text \<open>The role of a permission set in an account, created by its first assignment there.\<close>

definition provision_role ::
    "(nat \<Rightarrow> uuid) \<Rightarrow> uuid \<Rightarrow> str \<Rightarrow> permission_set \<Rightarrow> uuid \<Rightarrow> iam_tables \<Rightarrow> role_tables \<Rightarrow>
     store_error + uuid \<times> iam_tables \<times> role_tables" where
  "provision_role gen organization management_number ps account db rt =
     (case find (\<lambda>r. cr_organization_id r = organization \<and> cr_permission_set_id r = ps_id ps \<and> cr_account_id r = account)
             (center_account_roles rt) of
        Some r \<Rightarrow> Inr (cr_role_principal_id r, db, rt)
      | None \<Rightarrow>
          (let name = lit ''HCIdentityCenter_'' @ uuid_simple (ps_id ps) in
           bindE (fail_if (\<not> list_ex (\<lambda>a. ac_id a = account) (organizations db)) SqlCheckViolation) (\<lambda>_.
           bindE (insert_principal (service_account (gen 0) account name None) db) (\<lambda>db1.
           bindE (insert_role \<lparr>ro_principal_id = gen 0, ro_organization_id = account, ro_name = name,
                    ro_trust_policy = center_trust management_number, ro_max_session_seconds = 43200\<rparr> rt) (\<lambda>rt1.
           bindE (create_policy (gen 1) account name (ps_document ps) db1) (\<lambda>(_, db2).
           Inr (gen 0, db2\<lparr>iam_bindings := iam_bindings db2 @ [(gen 2, account, gen 0, gen 1)]\<rparr>,
                rt1\<lparr>center_account_roles := center_account_roles rt1 @ [\<lparr>cr_organization_id = organization,
                  cr_permission_set_id = ps_id ps, cr_account_id = account, cr_role_principal_id = gen 0,
                  cr_policy_id = gen 1\<rparr>]\<rparr>)))))))"

definition same_assignment :: "uuid \<Rightarrow> uuid \<Rightarrow> uuid \<Rightarrow> center_subject \<Rightarrow> uuid \<Rightarrow> center_assignment \<Rightarrow> bool" where
  "same_assignment organization ps account subject_type subject a \<longleftrightarrow>
     as_organization_id a = organization \<and> as_permission_set_id a = ps \<and> as_account_id a = account
     \<and> as_subject_type a = subject_type \<and> as_subject_id a = subject"

definition upsert_assignment ::
    "uuid \<Rightarrow> uuid \<Rightarrow> uuid \<Rightarrow> uuid \<Rightarrow> uuid \<Rightarrow> center_subject \<Rightarrow> uuid \<Rightarrow> role_tables \<Rightarrow> store_error + uuid \<times> role_tables" where
  "upsert_assignment aid organization ps account role subject_type subject rt =
     (let P = same_assignment organization ps account subject_type subject in
      case find P (center_assignments rt) of
        None \<Rightarrow>
          Inr (aid, rt\<lparr>center_assignments := center_assignments rt @ [\<lparr>as_id = aid, as_organization_id = organization,
            as_permission_set_id = ps, as_account_id = account, as_role_principal_id = role,
            as_subject_type = subject_type, as_subject_id = subject, as_generation = 1, as_revoked_at = None\<rparr>]\<rparr>)
      | Some a \<Rightarrow>
          bindE (fail_if (as_revoked_at a = None) AlreadyExists) (\<lambda>_.
          Inr (as_id a, rt\<lparr>center_assignments := map (\<lambda>x. if P x then x\<lparr>as_revoked_at := None,
                 as_generation := as_generation x + 1\<rparr> else x) (center_assignments rt)\<rparr>)))"

definition group_users :: "role_tables \<Rightarrow> uuid \<Rightarrow> uuid \<Rightarrow> uuid list" where
  "group_users rt organization gid =
     sort (map cm_user_id (filter (\<lambda>m. cm_organization_id m = organization \<and> cm_group_id m = gid) (center_members rt)))"

text \<open>The identifiers: \<open>gen 0\<close> the assignment, \<open>gen 1\<close> to \<open>gen 3\<close> role, policy and binding, then principals and memberships.\<close>

definition create_identity_center_assignment ::
    "(nat \<Rightarrow> uuid) \<Rightarrow> uuid \<Rightarrow> uuid \<Rightarrow> uuid \<Rightarrow> center_subject \<Rightarrow> uuid \<Rightarrow> iam_tables \<Rightarrow> role_tables \<Rightarrow>
     store_error + uuid \<times> iam_tables \<times> role_tables" where
  "create_identity_center_assignment gen management pid account subject_type subject db rt =
     bindE (management_organization db management) (\<lambda>(organization, management_number).
     bindE (ok_or (live_permission_set rt organization pid) NotFound) (\<lambda>ps.
     bindE (fail_if (\<not> list_ex (\<lambda>a. ca_organization_id a = organization \<and> ca_account_id a = account) (cloud_accounts db)) NotFound) (\<lambda>_.
     bindE (case subject_type of
              SubjectUser \<Rightarrow>
                bindE (require_directory_user db management subject) (\<lambda>_.
                ensure_account_user (gen 4) (gen 5) account subject db)
            | SubjectGroup \<Rightarrow>
                bindE (fail_if (\<not> live_group rt organization subject) NotFound) (\<lambda>_.
                ensure_users (\<lambda>i. gen (i + 4)) management account (group_users rt organization subject) db)) (\<lambda>db1.
     bindE (provision_role (\<lambda>i. gen (i + 1)) organization management_number ps account db1 rt) (\<lambda>(role, db2, rt1).
     bindE (upsert_assignment (gen 0) organization pid account role subject_type subject rt1) (\<lambda>(aid, rt2).
     Inr (aid, db2, rt2)))))))"

definition revoke_identity_center_assignment ::
    "datetime \<Rightarrow> uuid \<Rightarrow> uuid \<Rightarrow> iam_tables \<Rightarrow> role_tables \<Rightarrow> store_error + role_tables" where
  "revoke_identity_center_assignment now management aid db rt =
     (let P = (\<lambda>a. as_id a = aid \<and> as_revoked_at a = None
                   \<and> (as_organization_id a, management) \<in> set (cloud_organizations db)) in
      bindE (fail_if (\<not> list_ex P (center_assignments rt)) NotFound) (\<lambda>_.
      Inr (rt\<lparr>center_assignments := map (\<lambda>a. if P a then a\<lparr>as_revoked_at := Some now\<rparr> else a) (center_assignments rt)\<rparr>)))"

subsection \<open>Sessions of an assignment\<close>

definition session_group_membership ::
    "role_tables \<Rightarrow> center_assignment \<Rightarrow> uuid \<Rightarrow> store_error + uuid option" where
  "session_group_membership rt a user =
     (case as_subject_type a of
        SubjectUser \<Rightarrow> if as_subject_id a = user then Inr None else Inl NotFound
      | SubjectGroup \<Rightarrow>
          bindE (ok_or (find (\<lambda>m. cm_organization_id m = as_organization_id a \<and> cm_group_id m = as_subject_id a
                    \<and> cm_user_id m = user \<and> live_group rt (as_organization_id a) (as_subject_id a)) (center_members rt)) NotFound)
            (\<lambda>m. Inr (Some (cm_id m))))"

definition create_identity_center_session ::
    "uuid \<Rightarrow> datetime \<Rightarrow> uuid \<Rightarrow> uuid \<Rightarrow> uuid \<Rightarrow> digest \<Rightarrow> iam_tables \<Rightarrow> credentials \<Rightarrow> role_tables \<Rightarrow>
     store_error + role_session \<times> role_tables" where
  "create_identity_center_session sid now management aid user token_hash db cr rt =
     bindE (management_organization db management) (\<lambda>(organization, source_number).
     bindE (require_directory_user db management user) (\<lambda>source.
     bindE (ok_or (find (\<lambda>a. as_organization_id a = organization \<and> as_id a = aid \<and> as_revoked_at a = None
              \<and> live_permission_set rt organization (as_permission_set_id a) \<noteq> None
              \<and> is_iam_role_principal rt (as_account_id a) (as_role_principal_id a)
              \<and> list_ex (\<lambda>p. p_id p = as_role_principal_id a \<and> p_enabled p) (principals db)
              \<and> list_ex (\<lambda>x. ac_id x = as_account_id a) (organizations db)) (center_assignments rt)) NotFound) (\<lambda>a.
     bindE (ok_or (live_permission_set rt organization (as_permission_set_id a)) NotFound) (\<lambda>ps.
     bindE (session_group_membership rt a user) (\<lambda>group_membership.
     bindE (ok_or (find (\<lambda>m. m_organization_id m = as_account_id a \<and> m_user_id m = user
              \<and> enabled_principal db (m_principal_id m) (m_organization_id m)) (memberships db)) NotFound) (\<lambda>target.
     bindE (ok_or (find (\<lambda>m. m_organization_id m = management \<and> m_user_id m = user \<and> m_principal_id m = source)
              (memberships db)) NotFound) (\<lambda>membership.
     (let s = \<lparr>rs_id = sid, rs_organization_id = as_account_id a, rs_role_principal_id = as_role_principal_id a,
               rs_source_organization_id = management, rs_source_principal_id = source,
               rs_source_arn = lit ''arn:aws:iam::'' @ source_number @ lit '':user/'' @ uuid_string source,
               rs_session_name = lit ''identity-center-'' @ uuid_simple user, rs_session_policy = None,
               rs_token_hash = token_hash, rs_expires_at = now + seconds (ps_session_duration_seconds ps), rs_revoked_at = None,
               rs_link = Some \<lparr>cl_assignment_id = aid, cl_generation = as_generation a, cl_user_id = user,
                 cl_group_membership_id = group_membership, cl_target_principal_id = Some (m_principal_id target),
                 cl_source_membership_id = Some (m_membership_id membership),
                 cl_target_membership_id = Some (m_membership_id target)\<rparr>\<rparr> in
     bindE (insert_role_session now s cr rt) (\<lambda>rt1. Inr (s, rt1))))))))))"

subsection \<open>Runs\<close>

text \<open>
  The steps of roles, browser roles and the identity center. \<open>K\<close> are identifiers that are not given to
  new rows any more. Other operations change accounts, people and sessions; they keep what roles refer
  to, give new memberships new identifiers, and start sessions without a role.
\<close>

type_synonym center_state = "iam_tables \<times> role_tables \<times> credentials"

definition new_ids :: "uuid set \<Rightarrow> (nat \<Rightarrow> uuid) \<Rightarrow> role_tables \<Rightarrow> bool" where
  "new_ids K gen rt \<longleftrightarrow> gen 0 \<notin> K \<union> as_id ` set (center_assignments rt) \<union> cm_id ` set (center_members rt)
     \<and> (\<forall>i. gen i \<notin> K)"

definition membership_ids :: "iam_tables \<Rightarrow> uuid set" where
  "membership_ids db = m_membership_id ` set (memberships db)"

definition other_change :: "uuid set \<Rightarrow> iam_tables \<Rightarrow> iam_tables \<Rightarrow> role_tables \<Rightarrow> bool" where
  "other_change K db db' rt \<longleftrightarrow> role_keys rt \<subseteq> principal_keys db'
     \<and> snd ` role_keys rt \<subseteq> ac_id ` set (organizations db') \<and> membership_ids db' \<subseteq> membership_ids db \<union> - K"

definition sessions_started :: "credentials \<Rightarrow> credentials \<Rightarrow> bool" where
  "sessions_started cr cr' \<longleftrightarrow> (\<forall>s \<in> set (sessions cr'). s \<in> set (sessions cr) \<or> se_active_role s = None)"

inductive center_step :: "uuid set \<Rightarrow> center_state \<Rightarrow> center_state \<Rightarrow> bool" for K where
  make_role: "create_iam_role prin account name trust m q db rt = Inr (r, db', rt') \<Longrightarrow> center_step K (db, rt, cr) (db', rt', cr)"
| set_trust: "update_iam_role_trust account prin trust rt = Inr rt' \<Longrightarrow> center_step K (db, rt, cr) (db, rt', cr)"
| drop_role: "delete_iam_role now account role db rt cr = Inr (db', rt') \<Longrightarrow> center_step K (db, rt, cr) (db', rt', cr)"
| assume_role: "create_iam_role_session i now n db cr rt = Inr (j, rt') \<Longrightarrow> center_step K (db, rt, cr) (db, rt', cr)"
| end_session: "revoke_iam_role_session now account role i rt = Inr rt' \<Longrightarrow> center_step K (db, rt, cr) (db, rt', cr)"
| switch_role: "switch_browser_role now h expected i db rt cr = Inr (rt', cr') \<Longrightarrow> center_step K (db, rt, cr) (db, rt', cr')"
| leave_role: "clear_browser_role now h rt cr = Inr (rt', cr') \<Longrightarrow> center_step K (db, rt, cr) (db, rt', cr')"
| make_key: "create_api_key i account prin name pre h x db rt = Inr (j, rt') \<Longrightarrow> center_step K (db, rt, cr) (db, rt', cr)"
| end_key: "revoke_iam_api_key now account prin i rt = Inr rt' \<Longrightarrow> center_step K (db, rt, cr) (db, rt', cr)"
| make_set: "create_identity_center_permission_set lower i m name doc x db rt = Inr (ps, rt') \<Longrightarrow> center_step K (db, rt, cr) (db, rt', cr)"
| set_set: "update_identity_center_permission_set m i doc x db rt = Inr (db', rt') \<Longrightarrow> center_step K (db, rt, cr) (db', rt', cr)"
| drop_set: "delete_identity_center_permission_set now m i db rt = Inr rt' \<Longrightarrow> center_step K (db, rt, cr) (db, rt', cr)"
| make_group: "create_identity_center_group lower i m name db rt = Inr (j, rt') \<Longrightarrow> center_step K (db, rt, cr) (db, rt', cr)"
| set_member: "change_identity_center_group_member gen m g u add db rt = Inr (db', rt') \<Longrightarrow> new_ids K gen rt
    \<Longrightarrow> center_step K (db, rt, cr) (db', rt', cr)"
| drop_group: "delete_identity_center_group now m g db rt = Inr rt' \<Longrightarrow> center_step K (db, rt, cr) (db, rt', cr)"
| assign: "create_identity_center_assignment gen m i account ty subject db rt = Inr (j, db', rt') \<Longrightarrow> new_ids K gen rt
    \<Longrightarrow> center_step K (db, rt, cr) (db', rt', cr)"
| unassign: "revoke_identity_center_assignment now m i db rt = Inr rt' \<Longrightarrow> center_step K (db, rt, cr) (db, rt', cr)"
| center_sign_in: "create_identity_center_session i now m a u h db cr rt = Inr (s, rt') \<Longrightarrow> center_step K (db, rt, cr) (db, rt', cr)"
| elsewhere: "other_change K db db' rt \<Longrightarrow> sessions_started cr cr' \<Longrightarrow> center_step K (db, rt, cr) (db', rt, cr')"

definition no_role_tables :: role_tables where
  "no_role_tables = \<lparr>iam_roles = [], role_sessions = [], permission_sets = [], center_groups = [], center_members = [],
     center_account_roles = [], center_assignments = [], api_keys = []\<rparr>"

definition browser_start :: "center_state \<Rightarrow> bool" where
  "browser_start s \<longleftrightarrow> (\<exists>db. s = (db, no_role_tables, no_credentials))"

text \<open>Frames of the operations of the identity center.\<close>

definition same_roles :: "role_tables \<Rightarrow> role_tables \<Rightarrow> bool" where
  "same_roles rt rt' \<longleftrightarrow> iam_roles rt' = iam_roles rt \<and> role_sessions rt' = role_sessions rt"

lemma same_roles_refs: "refs_ok db rt cr \<Longrightarrow> same_roles rt rt' \<Longrightarrow> refs_ok db rt' cr"
  unfolding refs_ok_def role_refs_def browser_refs_def role_keys_def session_keys_def same_roles_def by simp

lemma ensure_account_user_cases:
  assumes "ensure_account_user prin mid account user db = Inr db'"
  shows "principal_keys db \<subseteq> principal_keys db' \<and> organizations db' = organizations db
    \<and> membership_ids db' \<subseteq> insert mid (membership_ids db)"
proof (cases "has_membership db account user")
  case True
  then show ?thesis using assms unfolding ensure_account_user_def by (auto simp: bindE_Inr_iff)
next
  case False
  then obtain db1 where p: "insert_principal (user_principal prin account (lit ''IdentityCenter-'' @ uuid_simple user) user) db = Inr db1"
    and m: "insert_membership \<lparr>m_organization_id = account, m_user_id = user, m_principal_id = prin,
       m_role = lit ''member'', m_membership_id = mid\<rparr> db1 = Inr db'"
    using assms unfolding ensure_account_user_def insert_member_def by (auto simp: bindE_Inr_iff)
  have "db' = db1\<lparr>memberships := memberships db1 @ [\<lparr>m_organization_id = account, m_user_id = user, m_principal_id = prin,
       m_role = lit ''member'', m_membership_id = mid\<rparr>]\<rparr>"
    using m unfolding insert_membership_def by (auto simp: bindE_Inr_iff)
  then show ?thesis using insert_principal_keys [OF p] unfolding membership_ids_def principal_keys_def by auto
qed

definition grown :: "uuid set \<Rightarrow> iam_tables \<Rightarrow> iam_tables \<Rightarrow> bool" where
  "grown K db db' \<longleftrightarrow> principal_keys db \<subseteq> principal_keys db' \<and> ac_id ` set (organizations db) \<subseteq> ac_id ` set (organizations db')
     \<and> membership_ids db' \<subseteq> membership_ids db \<union> - K"

lemma grown_refl: "grown K db db"
  unfolding grown_def by blast

lemma grown_trans:
  assumes "grown K db db1" "grown K db1 db2"
  shows "grown K db db2"
proof -
  have "membership_ids db2 \<subseteq> (membership_ids db \<union> - K) \<union> - K"
    using assms unfolding grown_def by (meson Un_mono order_refl order_trans)
  then show ?thesis using assms unfolding grown_def by (metis order_trans Un_assoc Un_absorb)
qed

lemma ensure_account_user_grown: "ensure_account_user prin mid account user db = Inr db' \<Longrightarrow> mid \<notin> K \<Longrightarrow> grown K db db'"
  unfolding grown_def by (drule ensure_account_user_cases) auto

lemma ensure_accounts_grown:
  "ensure_accounts gen as user db = Inr db' \<Longrightarrow> (\<And>i. gen i \<notin> K) \<Longrightarrow> grown K db db'"
proof (induction gen as user db rule: ensure_accounts.induct)
  case (2 gen account rest user db)
  then obtain db1 where "ensure_account_user (gen 0) (gen 1) account user db = Inr db1"
    "ensure_accounts (\<lambda>i. gen (i + 2)) rest user db1 = Inr db'" by (auto simp: bindE_Inr_iff)
  then show ?case using 2 ensure_account_user_grown grown_trans by blast
qed (simp add: grown_refl)

lemma ensure_users_grown:
  "ensure_users gen management account us db = Inr db' \<Longrightarrow> (\<And>i. gen i \<notin> K) \<Longrightarrow> grown K db db'"
proof (induction gen management account us db rule: ensure_users.induct)
  case (2 gen management account user rest db)
  then obtain p db1 where "require_directory_user db management user = Inr p"
    "ensure_account_user (gen 0) (gen 1) account user db = Inr db1"
    "ensure_users (\<lambda>i. gen (i + 2)) management account rest db1 = Inr db'" by (auto simp: bindE_Inr_iff)
  then show ?case using 2 ensure_account_user_grown grown_trans by blast
qed (simp add: grown_refl)

text \<open>How assignments, group members, memberships and role sessions evolve.\<close>

definition assignment_later :: "center_assignment \<Rightarrow> center_assignment \<Rightarrow> bool" where
  "assignment_later a a' \<longleftrightarrow> as_id a' = as_id a
     \<and> (as_generation a < as_generation a' \<or> as_generation a = as_generation a' \<and> (as_revoked_at a \<noteq> None \<longrightarrow> as_revoked_at a' \<noteq> None))"

definition assignments_evolve :: "uuid set \<Rightarrow> role_tables \<Rightarrow> role_tables \<Rightarrow> bool" where
  "assignments_evolve K rt rt' \<longleftrightarrow>
     (distinct (map as_id (center_assignments rt)) \<longrightarrow> distinct (map as_id (center_assignments rt')))
     \<and> as_id ` set (center_assignments rt) \<subseteq> as_id ` set (center_assignments rt')
     \<and> (\<forall>a' \<in> set (center_assignments rt'). as_id a' \<notin> K \<union> as_id ` set (center_assignments rt)
          \<or> (\<exists>a \<in> set (center_assignments rt). assignment_later a a'))"

definition linked_session :: "role_tables \<Rightarrow> role_session \<Rightarrow> bool" where
  "linked_session rt x \<longleftrightarrow>
     (\<exists>l a. rs_link x = Some l \<and> a \<in> set (center_assignments rt) \<and> as_id a = cl_assignment_id l \<and> as_generation a = cl_generation l)"

definition sessions_evolve :: "role_tables \<Rightarrow> role_tables \<Rightarrow> bool" where
  "sessions_evolve rt rt' \<longleftrightarrow>
     (\<forall>x \<in> set (role_sessions rt'). rs_link x = None \<or> (\<exists>y \<in> set (role_sessions rt). rs_link y = rs_link x) \<or> linked_session rt' x)"

definition members_evolve :: "uuid set \<Rightarrow> role_tables \<Rightarrow> role_tables \<Rightarrow> bool" where
  "members_evolve K rt rt' \<longleftrightarrow> cm_id ` set (center_members rt') \<subseteq> cm_id ` set (center_members rt) \<union> - K"

definition center_effect :: "uuid set \<Rightarrow> center_state \<Rightarrow> center_state \<Rightarrow> bool" where
  "center_effect K = (\<lambda>(db, rt, cr) (db', rt', cr').
     assignments_evolve K rt rt' \<and> members_evolve K rt rt' \<and> sessions_evolve rt rt'
     \<and> membership_ids db' \<subseteq> membership_ids db \<union> - K)"

lemma assignment_later_refl [simp]: "assignment_later a a"
  unfolding assignment_later_def by simp

lemma assignments_evolve_same: "center_assignments rt' = center_assignments rt \<Longrightarrow> assignments_evolve K rt rt'"
  unfolding assignments_evolve_def by (auto intro: assignment_later_refl)

lemma assignments_evolve_map:
  assumes "center_assignments rt' = map f (center_assignments rt)" "\<And>a. a \<in> set (center_assignments rt) \<Longrightarrow> assignment_later a (f a)"
  shows "assignments_evolve K rt rt'"
proof -
  have ids: "map as_id (center_assignments rt') = map as_id (center_assignments rt)"
    using assms unfolding assignment_later_def by simp
  then have "as_id ` set (center_assignments rt') = as_id ` set (center_assignments rt)" by (metis set_map)
  then show ?thesis unfolding assignments_evolve_def ids using assms by auto
qed

lemma sessions_evolve_same: "role_sessions rt' = role_sessions rt \<Longrightarrow> sessions_evolve rt rt'"
  unfolding sessions_evolve_def by auto

lemma members_evolve_same: "center_members rt' = center_members rt \<Longrightarrow> members_evolve K rt rt'"
  unfolding members_evolve_def by simp

definition same_center :: "role_tables \<Rightarrow> role_tables \<Rightarrow> bool" where
  "same_center rt rt' \<longleftrightarrow> center_assignments rt' = center_assignments rt \<and> center_members rt' = center_members rt"

lemma effect_same:
  assumes "same_center rt rt'" "sessions_evolve rt rt'" "membership_ids db' \<subseteq> membership_ids db \<union> - K"
  shows "center_effect K (db, rt, cr) (db', rt', cr')"
  using assms assignments_evolve_same members_evolve_same unfolding center_effect_def same_center_def by simp

lemma create_role_effect:
  assumes "create_iam_role prin account name trust m q db rt = Inr (r, db', rt')"
  shows "center_effect K (db, rt, cr) (db', rt', cr)"
proof -
  obtain r' where p: "insert_principal (service_account prin account name q) db = Inr db'" and r: "insert_role r' rt = Inr rt'"
    using assms unfolding create_iam_role_def Let_def by (auto simp: bindE_Inr_iff)
  show ?thesis
    by (rule effect_same) (use insert_principal_keys [OF p] insert_role_keys [OF r] in
      \<open>auto simp: same_center_def membership_ids_def intro: sessions_evolve_same\<close>)
qed

lemma role_trust_effect:
  assumes "update_iam_role_trust account prin trust rt = Inr rt'"
  shows "center_effect K (db, rt, cr) (db, rt', cr)"
  by (rule effect_same) (use assms in \<open>auto simp: update_iam_role_trust_def bindE_Inr_iff same_center_def intro: sessions_evolve_same\<close>)

lemma delete_role_effect:
  assumes "delete_iam_role now account role db rt cr = Inr (db', rt')"
  shows "center_effect K (db, rt, cr) (db', rt', cr)"
  by (rule effect_same) (use assms in \<open>auto simp: delete_iam_role_def bindE_Inr_iff same_center_def membership_ids_def sessions_evolve_def\<close>)

lemma inserted_session_effect:
  assumes x: "insert_role_session now s cr rt = Inr rt'" and link: "rs_link s = None \<or> linked_session rt s"
  shows "center_effect K (db, rt, cr) (db, rt', cr)"
proof (rule effect_same)
  show "same_center rt rt'" unfolding inserted_session_cases [OF x] same_center_def purge_role_sessions_def by simp
  then show "sessions_evolve rt rt'"
    using link unfolding inserted_session_cases [OF x] sessions_evolve_def linked_session_def same_center_def purge_role_sessions_def
    by auto
qed simp

lemma create_session_effect:
  assumes "create_iam_role_session i now n db cr rt = Inr (j, rt')"
  shows "center_effect K (db, rt, cr) (db, rt', cr)"
proof -
  obtain s where "insert_role_session now s cr rt = Inr rt'" "rs_link s = None"
    using assms unfolding create_iam_role_session_def by (auto simp: bindE_Inr_iff)
  then show ?thesis using inserted_session_effect by blast
qed

lemma revoked_effect: "center_effect K (db, rt, cr) (db, revoke_sessions now P rt, cr')"
proof (rule effect_same)
  show "sessions_evolve rt (revoke_sessions now P rt)"
    unfolding sessions_evolve_def revoke_sessions_def by (auto split: if_splits)
qed (simp_all add: same_center_def)

lemma same_effect: "center_effect K (db, rt, cr) (db, rt, cr')"
  by (rule effect_same) (auto simp: same_center_def intro: sessions_evolve_same)

lemma switch_effect:
  assumes "switch_browser_role now h expected new db rt cr = Inr (rt', cr')"
  shows "center_effect K (db, rt, cr) (db, rt', cr')"
proof -
  have "rt' = (case expected of None \<Rightarrow> rt | Some previous \<Rightarrow> revoke_sessions now (\<lambda>s. rs_id s = previous) rt)"
    using assms unfolding switch_browser_role_def Let_def by (auto simp: bindE_Inr_iff)
  then show ?thesis using same_effect revoked_effect by (cases expected) auto
qed

lemma clear_effect:
  assumes "clear_browser_role now h rt cr = Inr (rt', cr')"
  shows "center_effect K (db, rt, cr) (db, rt', cr')"
proof -
  obtain s :: session_row where "rt' = (case se_active_role s of None \<Rightarrow> rt | Some i \<Rightarrow> revoke_sessions now (\<lambda>s. rs_id s = i) rt)"
    using assms unfolding clear_browser_role_def by (auto simp: bindE_Inr_iff)
  then show ?thesis using same_effect revoked_effect by (cases "se_active_role s") auto
qed

text \<open>The operations that leave roles, sessions, assignments and members as they are.\<close>

lemma quiet_step:
  assumes "same_roles rt rt'" "same_center rt rt'" "refs_ok db rt cr"
  shows "refs_ok db rt' cr \<and> center_effect K (db, rt, cr) (db, rt', cr)"
proof
  show "refs_ok db rt' cr" by (rule same_roles_refs [OF assms(3,1)])
  show "center_effect K (db, rt, cr) (db, rt', cr)"
    by (rule effect_same [OF assms(2)]) (use assms(1) in \<open>auto simp: same_roles_def intro: sessions_evolve_same\<close>)
qed

lemma quiet_operations:
  "create_api_key i account prin name pre h x db rt = Inr (j, rt') \<Longrightarrow> same_roles rt rt' \<and> same_center rt rt'"
  "revoke_iam_api_key now account prin i rt = Inr rt' \<Longrightarrow> same_roles rt rt' \<and> same_center rt rt'"
  "create_identity_center_permission_set lower i m name doc y db rt = Inr (ps, rt') \<Longrightarrow> same_roles rt rt' \<and> same_center rt rt'"
  "delete_identity_center_permission_set now m i db rt = Inr rt' \<Longrightarrow> same_roles rt rt' \<and> same_center rt rt'"
  "create_identity_center_group lower i m name db rt = Inr (j, rt') \<Longrightarrow> same_roles rt rt' \<and> same_center rt rt'"
  unfolding create_api_key_def revoke_iam_api_key_def Let_def create_identity_center_permission_set_def
    delete_identity_center_permission_set_def create_identity_center_group_def same_roles_def same_center_def
  by (auto simp: bindE_Inr_iff)

lemma set_set_step:
  assumes "update_identity_center_permission_set m i doc x db rt = Inr (db', rt')" "refs_ok db rt cr"
  shows "refs_ok db' rt' cr \<and> center_effect K (db, rt, cr) (db', rt', cr)"
proof -
  have rt: "same_roles rt rt'" "same_center rt rt'"
    and db: "principals db' = principals db" "organizations db' = organizations db" "memberships db' = memberships db"
    using assms(1) unfolding update_identity_center_permission_set_def same_roles_def same_center_def
    by (auto simp: bindE_Inr_iff)
  have "refs_ok db' rt cr" by (rule refs_ok_grow [OF assms(2)]) (simp_all add: db principal_keys_def)
  then have "refs_ok db' rt' cr" using same_roles_refs rt(1) by blast
  moreover have "center_effect K (db, rt, cr) (db', rt', cr)"
    by (rule effect_same [OF rt(2)]) (use rt(1) db in \<open>auto simp: same_roles_def membership_ids_def intro: sessions_evolve_same\<close>)
  ultimately show ?thesis by blast
qed

lemma drop_group_step:
  assumes "delete_identity_center_group now m g db rt = Inr rt'" "refs_ok db rt cr"
  shows "refs_ok db rt' cr \<and> center_effect K (db, rt, cr) (db, rt', cr)"
proof -
  obtain organization where "same_roles rt rt'" "center_assignments rt' = center_assignments rt"
    "center_members rt' = filter (\<lambda>m. \<not> (cm_organization_id m = organization \<and> cm_group_id m = g)) (center_members rt)"
    using assms(1) unfolding delete_identity_center_group_def same_roles_def by (auto simp: bindE_Inr_iff)
  then show ?thesis
    using same_roles_refs [OF assms(2)] assignments_evolve_same
    unfolding center_effect_def members_evolve_def same_roles_def by (auto intro: sessions_evolve_same)
qed

lemma set_member_step:
  assumes x: "change_identity_center_group_member gen m g u add db rt = Inr (db', rt')" and new: "new_ids K gen rt"
    and ok: "refs_ok db rt cr"
  shows "refs_ok db' rt' cr \<and> center_effect K (db, rt, cr) (db', rt', cr)"
proof -
  have fresh: "gen i \<notin> K" for i using new unfolding new_ids_def by blast
  have rt: "same_roles rt rt'" "center_assignments rt' = center_assignments rt"
    using x unfolding change_identity_center_group_member_def same_roles_def Let_def
    by (auto simp: bindE_Inr_iff split: if_splits)
  have "cm_id ` set (center_members rt') \<subseteq> insert (gen 0) (cm_id ` set (center_members rt))"
    using x unfolding change_identity_center_group_member_def Let_def by (auto simp: bindE_Inr_iff split: if_splits)
  then have members: "members_evolve K rt rt'" using fresh unfolding members_evolve_def by auto
  have grown: "grown K db db'"
  proof (cases add)
    case True
    then obtain organization where "ensure_accounts (\<lambda>i. gen (i + 1)) (group_accounts rt organization g) u db = Inr db'"
      using x unfolding change_identity_center_group_member_def by (auto simp: bindE_Inr_iff)
    then show ?thesis by (rule ensure_accounts_grown) (rule fresh)
  next
    case False
    then show ?thesis using x grown_refl unfolding change_identity_center_group_member_def Let_def by (auto simp: bindE_Inr_iff)
  qed
  then have "refs_ok db' rt cr" using refs_ok_grow [OF ok] unfolding grown_def by blast
  then show ?thesis
    using same_roles_refs rt grown members assignments_evolve_same
    unfolding center_effect_def grown_def same_roles_def by (auto intro: sessions_evolve_same)
qed

lemma create_policy_frame:
  "create_policy i account name doc db = Inr (p, db') \<Longrightarrow> principals db' = principals db \<and> organizations db' = organizations db
    \<and> memberships db' = memberships db"
  unfolding create_policy_def Let_def by (auto simp: bindE_Inr_iff)

lemma provision_role_cases:
  assumes "provision_role gen organization number ps account db rt = Inr (role, db', rt')"
  obtains "db' = db" "rt' = rt"
  | db1 r where "insert_principal (service_account (gen 0) account (ro_name r) None) db = Inr db1"
      "ro_principal_id r = gen 0" "ro_organization_id r = account" "account \<in> ac_id ` set (organizations db)"
      "principals db' = principals db1" "organizations db' = organizations db1" "memberships db' = memberships db1"
      "iam_roles rt' = iam_roles rt @ [r]" "role_sessions rt' = role_sessions rt" "same_center rt rt'"
proof (cases "find (\<lambda>r. cr_organization_id r = organization \<and> cr_permission_set_id r = ps_id ps \<and> cr_account_id r = account)
             (center_account_roles rt)")
  case (Some r)
  then show ?thesis using assms that(1) unfolding provision_role_def by simp
next
  case None
  let ?name = "lit ''HCIdentityCenter_'' @ uuid_simple (ps_id ps)"
  let ?r = "\<lparr>ro_principal_id = gen 0, ro_organization_id = account, ro_name = ?name,
     ro_trust_policy = center_trust number, ro_max_session_seconds = 43200\<rparr>"
  obtain db1 rt1 p db2 where x: "insert_principal (service_account (gen 0) account ?name None) db = Inr db1"
    "insert_role ?r rt = Inr rt1" "create_policy (gen 1) account ?name (ps_document ps) db1 = Inr (p, db2)"
    "db' = db2\<lparr>iam_bindings := iam_bindings db2 @ [(gen 2, account, gen 0, gen 1)]\<rparr>"
    "rt' = rt1\<lparr>center_account_roles := center_account_roles rt1 @ [\<lparr>cr_organization_id = organization,
        cr_permission_set_id = ps_id ps, cr_account_id = account, cr_role_principal_id = gen 0, cr_policy_id = gen 1\<rparr>]\<rparr>"
    "account \<in> ac_id ` set (organizations db)"
    using assms None unfolding provision_role_def Let_def by (auto simp: bindE_Inr_iff list_ex_image)
  show ?thesis
    by (rule that(2) [of ?r db1]) (use x create_policy_frame [OF x(3)] insert_role_keys [OF x(2)] in \<open>simp_all add: same_center_def\<close>)
qed

lemma provision_role_step:
  assumes x: "provision_role gen organization number ps account db rt = Inr (role, db', rt')" and ok: "refs_ok db rt cr"
  shows "refs_ok db' rt' cr \<and> same_center rt rt' \<and> role_sessions rt' = role_sessions rt \<and> memberships db' = memberships db"
  using x
proof (cases rule: provision_role_cases)
  case 1
  then show ?thesis using ok by (simp add: same_center_def)
next
  case (2 db1 r)
  note p = insert_principal_keys [OF 2(1)]
  have keys: "principal_keys db' = insert (gen 0, account) (principal_keys db)" "organizations db' = organizations db"
    using p 2(5,6) unfolding principal_keys_def service_account_def by simp_all
  have "refs_ok db' rt cr" by (rule refs_ok_grow [OF ok]) (auto simp: keys)
  then have "refs_ok db' (rt\<lparr>iam_roles := iam_roles rt @ [r]\<rparr>) cr"
    by (rule added_role_refs) (use 2(2,3,4) keys in auto)
  moreover have "same_roles (rt\<lparr>iam_roles := iam_roles rt @ [r]\<rparr>) rt'" using 2(8,9) unfolding same_roles_def by simp
  ultimately show ?thesis using same_roles_refs 2(7,9,10) p by simp
qed

lemma upsert_cases:
  assumes "upsert_assignment aid organization ps account role ty subject rt = Inr (j, rt')" "aid \<notin> K \<union> as_id ` set (center_assignments rt)"
  shows "same_roles rt rt' \<and> center_members rt' = center_members rt \<and> assignments_evolve K rt rt'"
proof (cases "find (same_assignment organization ps account ty subject) (center_assignments rt)")
  case None
  then have rt': "rt' = rt\<lparr>center_assignments := center_assignments rt @ [\<lparr>as_id = aid, as_organization_id = organization,
            as_permission_set_id = ps, as_account_id = account, as_role_principal_id = role,
            as_subject_type = ty, as_subject_id = subject, as_generation = 1, as_revoked_at = None\<rparr>]\<rparr>"
    using assms(1) unfolding upsert_assignment_def Let_def by auto
  then show ?thesis using assms(2) unfolding assignments_evolve_def same_roles_def by (auto intro: assignment_later_refl)
next
  case (Some a)
  define f :: "center_assignment \<Rightarrow> center_assignment" where "f = (\<lambda>x. if same_assignment organization ps account ty subject x then x\<lparr>as_revoked_at := None,
                 as_generation := as_generation x + 1\<rparr> else x)"
  have rt': "rt' = rt\<lparr>center_assignments := map f (center_assignments rt)\<rparr>"
    using assms(1) Some unfolding upsert_assignment_def Let_def f_def by (auto simp: bindE_Inr_iff)
  have "assignments_evolve K rt rt'"
    by (rule assignments_evolve_map [of _ f]) (simp_all add: rt' f_def assignment_later_def)
  then show ?thesis unfolding same_roles_def rt' by simp
qed

lemma assign_step:
  assumes x: "create_identity_center_assignment gen m i account ty subject db rt = Inr (j, db', rt')" and new: "new_ids K gen rt"
    and ok: "refs_ok db rt cr"
  shows "refs_ok db' rt' cr \<and> center_effect K (db, rt, cr) (db', rt', cr)"
proof -
  have fresh: "gen i \<notin> K" for i using new unfolding new_ids_def by blast
  obtain organization number ps db1 role rt1 where
    who: "(case ty of SubjectUser \<Rightarrow> bindE (require_directory_user db m subject) (\<lambda>_. ensure_account_user (gen 4) (gen 5) account subject db)
            | SubjectGroup \<Rightarrow> bindE (fail_if (\<not> live_group rt organization subject) NotFound) (\<lambda>_.
                ensure_users (\<lambda>i. gen (i + 4)) m account (group_users rt organization subject) db)) = Inr db1"
    and role: "provision_role (\<lambda>i. gen (i + 1)) organization number ps account db1 rt = Inr (role, db', rt1)"
    and up: "upsert_assignment (gen 0) organization i account role ty subject rt1 = Inr (j, rt')"
    using x unfolding create_identity_center_assignment_def by (auto simp: bindE_Inr_iff)
  have grown: "grown K db db1"
    using who ensure_account_user_grown [OF _ fresh] ensure_users_grown fresh
    by (cases ty) (auto simp: bindE_Inr_iff)
  have "refs_ok db1 rt cr" using refs_ok_grow [OF ok] grown unfolding grown_def by blast
  note p = provision_role_step [OF role this]
  have "gen 0 \<notin> K \<union> as_id ` set (center_assignments rt1)" using new p unfolding new_ids_def same_center_def by simp
  note u = upsert_cases [OF up this]
  have "refs_ok db' rt' cr" using same_roles_refs p u by blast
  moreover have "assignments_evolve K rt rt'" using u p unfolding assignments_evolve_def same_center_def by simp
  moreover have "sessions_evolve rt rt'" using u p unfolding same_roles_def by (simp add: sessions_evolve_same)
  moreover have "members_evolve K rt rt'" using u p unfolding same_center_def by (simp add: members_evolve_same)
  moreover have "membership_ids db' \<subseteq> membership_ids db \<union> - K" using grown p unfolding grown_def membership_ids_def by simp
  ultimately show ?thesis unfolding center_effect_def by simp
qed

lemma unassign_step:
  assumes "revoke_identity_center_assignment now m i db rt = Inr rt'" "refs_ok db rt cr"
  shows "refs_ok db rt' cr \<and> center_effect K (db, rt, cr) (db, rt', cr)"
proof -
  define f :: "center_assignment \<Rightarrow> center_assignment" where "f = (\<lambda>a. if as_id a = i \<and> as_revoked_at a = None \<and> (as_organization_id a, m) \<in> set (cloud_organizations db)
    then a\<lparr>as_revoked_at := Some now\<rparr> else a)"
  have rt': "rt' = rt\<lparr>center_assignments := map f (center_assignments rt)\<rparr>"
    using assms(1) unfolding revoke_identity_center_assignment_def Let_def f_def by (auto simp: bindE_Inr_iff)
  have "assignments_evolve K rt rt'"
    by (rule assignments_evolve_map [of _ f]) (simp_all add: rt' f_def assignment_later_def)
  moreover have "same_roles rt rt'" "center_members rt' = center_members rt" unfolding same_roles_def rt' by simp_all
  ultimately show ?thesis
    using same_roles_refs [OF assms(2)] unfolding center_effect_def same_roles_def
    by (simp add: sessions_evolve_same members_evolve_same)
qed

lemma center_sign_in_step:
  assumes x: "create_identity_center_session i now m aid u h db cr rt = Inr (s, rt')" and ok: "refs_ok db rt cr"
  shows "refs_ok db rt' cr \<and> center_effect K (db, rt, cr) (db, rt', cr)"
proof -
  obtain a where a: "a \<in> set (center_assignments rt)" "as_id a = aid" "is_iam_role_principal rt (as_account_id a) (as_role_principal_id a)"
    and ins: "insert_role_session now s cr rt = Inr rt'"
    and s: "rs_organization_id s = as_account_id a" "rs_role_principal_id s = as_role_principal_id a"
      "\<exists>l. rs_link s = Some l \<and> cl_assignment_id l = aid \<and> cl_generation l = as_generation a"
    using x unfolding create_identity_center_session_def Let_def by (auto simp: bindE_Inr_iff dest!: find_eq_Some)
  have "(rs_role_principal_id s, rs_organization_id s) \<in> role_keys rt"
    using a(3) unfolding s is_iam_role_principal_def list_ex_iff role_keys_def by force
  then have "refs_ok db rt' cr" by (rule inserted_session_refs [OF ok ins])
  moreover have "linked_session rt s" unfolding linked_session_def using a s(3) by auto
  ultimately show ?thesis using inserted_session_effect [OF ins] by blast
qed

lemma elsewhere_step:
  assumes "other_change K db db' rt" "sessions_started cr cr'" "refs_ok db rt cr"
  shows "refs_ok db' rt cr' \<and> center_effect K (db, rt, cr) (db', rt, cr')"
proof
  show "refs_ok db' rt cr'"
    using assms unfolding refs_ok_def role_refs_def browser_refs_def other_change_def sessions_started_def by fastforce
  show "center_effect K (db, rt, cr) (db', rt, cr')"
    by (rule effect_same) (use assms(1) in \<open>auto simp: same_center_def other_change_def intro: sessions_evolve_same\<close>)
qed

subsection \<open>What every run keeps\<close>

definition links_ok :: "role_tables \<Rightarrow> bool" where
  "links_ok rt \<longleftrightarrow> distinct (map as_id (center_assignments rt))
     \<and> (\<forall>x \<in> set (role_sessions rt). \<forall>l. rs_link x = Some l \<longrightarrow>
          (\<exists>a \<in> set (center_assignments rt). as_id a = cl_assignment_id l \<and> cl_generation l \<le> as_generation a))"

definition center_inv :: "center_state \<Rightarrow> bool" where
  "center_inv = (\<lambda>(db, rt, cr). refs_ok db rt cr \<and> links_ok rt)"

lemma center_step_effect:
  "center_step K (db, rt, cr) (db', rt', cr') \<Longrightarrow> refs_ok db rt cr
    \<Longrightarrow> refs_ok db' rt' cr' \<and> center_effect K (db, rt, cr) (db', rt', cr')"
proof (induction "(db, rt, cr)" "(db', rt', cr')" rule: center_step.induct)
  case (end_session now account role i)
  then have "\<exists>P. rt' = revoke_sessions now P rt" unfolding revoke_iam_role_session_def Let_def by (auto simp: bindE_Inr_iff)
  then show ?case using end_session revoked_refs revoked_effect by auto
next
  case (make_key i account prin name pre h x j)
  then show ?case using quiet_step quiet_operations(1) by metis
next
  case (end_key now account prin i)
  then show ?case using quiet_step quiet_operations(2) by metis
next
  case (make_set lower i m name doc x ps)
  then show ?case using quiet_step quiet_operations(3) by metis
next
  case (drop_set now m i)
  then show ?case using quiet_step quiet_operations(4) by metis
next
  case (make_group lower i m name j)
  then show ?case using quiet_step quiet_operations(5) by metis
next
  case make_role
  then show ?case by (auto intro: create_role_refs create_role_effect)
next
  case set_trust
  then show ?case by (auto intro: role_trust_refs role_trust_effect)
next
  case drop_role
  then show ?case by (auto intro: delete_role_refs delete_role_effect)
next
  case assume_role
  then show ?case by (auto intro: create_session_refs create_session_effect)
next
  case switch_role
  then show ?case by (auto intro: switch_refs switch_effect)
next
  case leave_role
  then show ?case by (auto intro: clear_refs clear_effect)
next
  case set_set
  then show ?case using set_set_step by metis
next
  case set_member
  then show ?case using set_member_step by metis
next
  case drop_group
  then show ?case using drop_group_step by metis
next
  case assign
  then show ?case using assign_step by metis
next
  case unassign
  then show ?case using unassign_step by metis
next
  case center_sign_in
  then show ?case using center_sign_in_step by metis
next
  case elsewhere
  then show ?case using elsewhere_step by metis
qed

lemma links_ok_evolve:
  assumes ok: "links_ok rt" and e: "center_effect K (db, rt, cr) (db', rt', cr')"
  shows "links_ok rt'"
proof -
  have a: "assignments_evolve K rt rt'" and s: "sessions_evolve rt rt'" using e unfolding center_effect_def by auto
  have distinct: "distinct (map as_id (center_assignments rt'))" using ok a unfolding links_ok_def assignments_evolve_def by blast
  have "\<exists>a' \<in> set (center_assignments rt'). as_id a' = cl_assignment_id l \<and> cl_generation l \<le> as_generation a'"
    if x: "x \<in> set (role_sessions rt')" "rs_link x = Some l" for x l
  proof (cases "linked_session rt' x")
    case True
    then show ?thesis using x(2) unfolding linked_session_def by force
  next
    case False
    then obtain y where "y \<in> set (role_sessions rt)" "rs_link y = Some l" using s x unfolding sessions_evolve_def by fastforce
    then obtain b where b: "b \<in> set (center_assignments rt)" "as_id b = cl_assignment_id l" "cl_generation l \<le> as_generation b"
      using ok unfolding links_ok_def by blast
    then obtain a' where a': "a' \<in> set (center_assignments rt')" "as_id a' = as_id b"
      using a unfolding assignments_evolve_def by (metis imageE image_eqI subsetD)
    then obtain b' where b': "b' \<in> set (center_assignments rt)" "assignment_later b' a'"
      using a b(1) unfolding assignments_evolve_def by fastforce
    then have "as_id b' = as_id b" using a'(2) unfolding assignment_later_def by simp
    then have "b' = b" using ok b(1) b'(1) unfolding links_ok_def distinct_map by (meson inj_onD)
    then show ?thesis using a' b b'(2) unfolding assignment_later_def by force
  qed
  then show ?thesis using distinct unfolding links_ok_def by blast
qed

lemma center_step_inv: "center_step K s s' \<Longrightarrow> center_inv s \<Longrightarrow> center_inv s'"
  unfolding center_inv_def using center_step_effect links_ok_evolve by (cases s; cases s') blast

lemma center_run_inv: "(center_step K)\<^sup>*\<^sup>* s s' \<Longrightarrow> center_inv s \<Longrightarrow> center_inv s'"
  by (induction rule: rtranclp_induct) (auto intro: center_step_inv)

lemma browser_start_inv: "browser_start s \<Longrightarrow> center_inv s"
  unfolding browser_start_def center_inv_def refs_ok_def role_refs_def browser_refs_def links_ok_def role_keys_def session_keys_def
    no_role_tables_def no_credentials_def by auto

text \<open>The backing of a session that has ended.\<close>

definition assignment_ended :: "role_tables \<Rightarrow> center_link \<Rightarrow> bool" where
  "assignment_ended rt l \<longleftrightarrow> (\<forall>a \<in> set (center_assignments rt). as_id a = cl_assignment_id l \<longrightarrow>
     cl_generation l < as_generation a \<or> cl_generation l = as_generation a \<and> as_revoked_at a \<noteq> None)"

definition gone :: "uuid option \<Rightarrow> uuid set \<Rightarrow> bool" where
  "gone i ids \<longleftrightarrow> (\<exists>x. i = Some x \<and> x \<notin> ids)"

definition backing_ended :: "iam_tables \<Rightarrow> role_tables \<Rightarrow> center_link \<Rightarrow> bool" where
  "backing_ended db rt l \<longleftrightarrow> assignment_ended rt l \<or> gone (cl_group_membership_id l) (cm_id ` set (center_members rt))
     \<or> gone (cl_source_membership_id l) (membership_ids db) \<or> gone (cl_target_membership_id l) (membership_ids db)"

definition link_ids :: "center_link \<Rightarrow> uuid set" where
  "link_ids l = {cl_assignment_id l} \<union> set_option (cl_group_membership_id l) \<union> set_option (cl_source_membership_id l)
     \<union> set_option (cl_target_membership_id l)"

lemma gone_later: "gone i ids \<Longrightarrow> set_option i \<subseteq> K \<Longrightarrow> ids' \<subseteq> ids \<union> - K \<Longrightarrow> gone i ids'"
  unfolding gone_def by auto

lemma member_with_id: "member_with db account user prin i \<Longrightarrow> \<not> gone i (membership_ids db)"
  unfolding member_with_def gone_def membership_ids_def list_ex_iff by force

lemma subject_holds_id: "subject_holds rt a user i \<Longrightarrow> \<not> gone i (cm_id ` set (center_members rt))"
  unfolding subject_holds_def gone_def list_ex_iff by (auto split: center_subject.splits)

lemma ended_inactive:
  assumes "backing_ended db rt l" "rs_link x = Some l"
  shows "\<not> identity_center_session_is_active db rt x"
proof
  assume "identity_center_session_is_active db rt x"
  then obtain a where a: "a \<in> set (center_assignments rt)" "assignment_backs db rt x l a"
    using assms(2) unfolding identity_center_session_is_active_def by (auto simp: list_ex_iff)
  then have "\<not> assignment_ended rt l" unfolding assignment_ended_def assignment_backs_def by force
  moreover have "\<not> gone (cl_source_membership_id l) (membership_ids db)" "\<not> gone (cl_target_membership_id l) (membership_ids db)"
    "\<not> gone (cl_group_membership_id l) (cm_id ` set (center_members rt))"
    using a(2) member_with_id subject_holds_id unfolding assignment_backs_def by (auto simp: list_ex_iff)
  ultimately show False using assms(1) unfolding backing_ended_def by blast
qed

lemma assignment_ended_later:
  assumes "assignment_ended rt l" "assignments_evolve K rt rt'" "cl_assignment_id l \<in> K"
  shows "assignment_ended rt' l"
  unfolding assignment_ended_def
proof (intro ballI impI)
  fix a' assume a': "a' \<in> set (center_assignments rt')" "as_id a' = cl_assignment_id l"
  then obtain a where a: "a \<in> set (center_assignments rt)" "assignment_later a a'"
    using assms(2,3) unfolding assignments_evolve_def by auto
  then have "cl_generation l < as_generation a \<or> cl_generation l = as_generation a \<and> as_revoked_at a \<noteq> None"
    using assms(1) a'(2) unfolding assignment_ended_def assignment_later_def by auto
  then show "cl_generation l < as_generation a' \<or> cl_generation l = as_generation a' \<and> as_revoked_at a' \<noteq> None"
    using a(2) unfolding assignment_later_def by auto
qed

lemma ended_step:
  assumes "center_effect K (db, rt, cr) (db', rt', cr')" "backing_ended db rt l" "link_ids l \<subseteq> K"
  shows "backing_ended db' rt' l"
proof -
  have e: "assignments_evolve K rt rt'" "cm_id ` set (center_members rt') \<subseteq> cm_id ` set (center_members rt) \<union> - K"
    "membership_ids db' \<subseteq> membership_ids db \<union> - K"
    using assms(1) unfolding center_effect_def members_evolve_def by auto
  have k: "cl_assignment_id l \<in> K" "set_option (cl_group_membership_id l) \<subseteq> K" "set_option (cl_source_membership_id l) \<subseteq> K"
    "set_option (cl_target_membership_id l) \<subseteq> K" using assms(3) unfolding link_ids_def by auto
  show ?thesis
    using assms(2) assignment_ended_later [OF _ e(1) k(1)] gone_later [OF _ k(2) e(2)] gone_later [OF _ k(3) e(3)]
      gone_later [OF _ k(4) e(3)] unfolding backing_ended_def by blast
qed

lemma ended_run:
  "(center_step K)\<^sup>*\<^sup>* s s' \<Longrightarrow> center_inv s \<Longrightarrow> backing_ended (fst s) (fst (snd s)) l \<Longrightarrow> link_ids l \<subseteq> K
    \<Longrightarrow> backing_ended (fst s') (fst (snd s')) l"
proof (induction rule: rtranclp_induct)
  case (step y z)
  obtain db rt cr where y: "y = (db, rt, cr)" by (cases y) auto
  obtain db' rt' cr' where z: "z = (db', rt', cr')" by (cases z) auto
  have "refs_ok db rt cr" using center_run_inv [OF step(1)] step(4) y unfolding center_inv_def by simp
  then have "center_effect K (db, rt, cr) (db', rt', cr')" using center_step_effect step(2) y z by blast
  then show ?case using ended_step step y z by simp
qed

lemma revoked_ends:
  assumes ok: "links_ok rt" and x: "x \<in> set (role_sessions rt)" "rs_link x = Some l"
    and r: "revoke_identity_center_assignment now m (cl_assignment_id l) db rt = Inr rt'"
  shows "backing_ended db rt' l"
proof -
  define P :: "center_assignment \<Rightarrow> bool" where "P = (\<lambda>a. as_id a = cl_assignment_id l \<and> as_revoked_at a = None
    \<and> (as_organization_id a, m) \<in> set (cloud_organizations db))"
  have any: "list_ex P (center_assignments rt)"
    and rt': "rt' = rt\<lparr>center_assignments := map (\<lambda>a. if P a then a\<lparr>as_revoked_at := Some now\<rparr> else a) (center_assignments rt)\<rparr>"
    using r unfolding revoke_identity_center_assignment_def Let_def P_def by (auto simp: bindE_Inr_iff)
  obtain a where a: "a \<in> set (center_assignments rt)" "as_id a = cl_assignment_id l" "cl_generation l \<le> as_generation a"
    using ok x unfolding links_ok_def by blast
  have only: "b = a" if "b \<in> set (center_assignments rt)" "as_id b = cl_assignment_id l" for b
    using ok a(1,2) that unfolding links_ok_def distinct_map by (metis inj_onD)
  then have "P a" using any unfolding list_ex_iff P_def by auto
  then have "assignment_ended rt' l"
    using only a(3) unfolding assignment_ended_def rt' P_def by auto
  then show ?thesis unfolding backing_ended_def by blast
qed

lemma role_session_live_link: "role_session_live now db rt y \<Longrightarrow> identity_center_session_is_active db rt y"
  unfolding role_session_live_def by blast

text \<open>
  C20: A role session of the identity center ends with its assignment, and with the group membership
  and the account memberships it was created from, for good: in no later run, whatever is assigned,
  added or joined again, does a token or a browser authenticate with a session created then. New rows
  have new identifiers.
\<close>

theorem ended_access_never_returns:
  assumes start: "browser_start s0" "(center_step K0)\<^sup>*\<^sup>* s0 (db, rt, cr)"
    and x: "x \<in> set (role_sessions rt)" "rs_link x = Some l"
    and ends: "revoke_identity_center_assignment now m (cl_assignment_id l) db rt = Inr rt1 \<or> rt1 = rt \<and> backing_ended db rt l"
    and run: "(center_step K)\<^sup>*\<^sup>* (db, rt1, cr) (db2, rt2, cr2)" "link_ids l \<subseteq> K"
  shows "(\<forall>t h y. authenticate_iam_role_session t db2 rt2 h = Some y \<longrightarrow> rs_link y \<noteq> Some l)
    \<and> (\<forall>t i y. authenticate_browser_role_session t db2 rt2 i = Some y \<longrightarrow> rs_link y \<noteq> Some l)"
proof -
  have inv: "center_inv (db, rt, cr)" using center_run_inv [OF start(2) browser_start_inv [OF start(1)]] .
  have "center_inv (db, rt1, cr)"
    using ends
  proof
    assume "revoke_identity_center_assignment now m (cl_assignment_id l) db rt = Inr rt1"
    then show ?thesis using center_step_inv [OF unassign inv] by blast
  qed (use inv in simp)
  moreover have "backing_ended db rt1 l" using ends revoked_ends [OF _ x] inv unfolding center_inv_def by auto
  ultimately have ended: "backing_ended db2 rt2 l" using ended_run [OF run(1)] run(2) by simp
  have "\<not> role_session_live t db2 rt2 y" if "rs_link y = Some l" for t y
    using ended_inactive [OF ended that] role_session_live_link by blast
  then show ?thesis
    unfolding authenticate_iam_role_session_def authenticate_browser_role_session_def by (blast dest: find_eq_Some)
qed

subsection \<open>Example\<close>

definition demo_directory :: iam_tables where
  "demo_directory =
     \<lparr>organizations = [\<lparr>ac_id = 3, ac_slug = [], ac_name = [], ac_number = 2\<rparr>],
      users = [\<lparr>u_id = 7, u_email = [], u_display_name = [], u_password_hash = None, u_active = True\<rparr>],
      principals = [\<lparr>p_id = 4, p_organization_id = 3, p_kind = Kind_User, p_name = [], p_user_id = Some 7,
        p_quota_user_id = Some 7, p_enabled = True, p_boundary_policy_id = None\<rparr>],
      memberships = [\<lparr>m_organization_id = 3, m_user_id = 7, m_principal_id = 4, m_role = [], m_membership_id = 5\<rparr>],
      iam_policies = [], iam_bindings = [], iam_groups = [], iam_group_members = [], iam_group_policies = [],
      scp_enabled = False, cloud_organizations = [(9, 3)], cloud_units = [],
      cloud_accounts = [\<lparr>ca_account_id = 3, ca_organization_id = 9, ca_parent_id = 2\<rparr>], cloud_scps = [],
      scp_unit_attachments = [], scp_account_attachments = []\<rparr>"

definition demo_center_policy :: policy_document where
  "demo_center_policy = \<lparr>doc_version = [], doc_statements = []\<rparr>"

definition demo_permission_set :: permission_set where
  "demo_permission_set = \<lparr>ps_id = 40, ps_organization_id = 9, ps_name = [65], ps_document = demo_center_policy,
     ps_session_duration_seconds = 3600, ps_deleted_at = None\<rparr>"

definition demo_role_name :: str where
  "demo_role_name = lit ''HCIdentityCenter_'' @ uuid_simple 40"

definition demo_assigned_directory :: iam_tables where
  "demo_assigned_directory = demo_directory\<lparr>principals := principals demo_directory @ [service_account 51 3 demo_role_name None],
     iam_policies := [\<lparr>pol_id = 52, pol_organization_id = 3, pol_name = demo_role_name, pol_document = demo_center_policy\<rparr>],
     iam_bindings := [(53, 3, 51, 52)]\<rparr>"

definition demo_assignment :: "int \<Rightarrow> datetime option \<Rightarrow> center_assignment" where
  "demo_assignment generation revoked = \<lparr>as_id = 50, as_organization_id = 9, as_permission_set_id = 40, as_account_id = 3,
     as_role_principal_id = 51, as_subject_type = SubjectUser, as_subject_id = 7, as_generation = generation, as_revoked_at = revoked\<rparr>"

definition demo_provisioned :: role_tables where
  "demo_provisioned = no_role_tables\<lparr>permission_sets := [demo_permission_set],
     iam_roles := [\<lparr>ro_principal_id = 51, ro_organization_id = 3, ro_name = demo_role_name,
       ro_trust_policy = center_trust [50], ro_max_session_seconds = 43200\<rparr>],
     center_account_roles := [\<lparr>cr_organization_id = 9, cr_permission_set_id = 40, cr_account_id = 3,
       cr_role_principal_id = 51, cr_policy_id = 52\<rparr>]\<rparr>"

definition demo_center_session :: role_session where
  "demo_center_session = \<lparr>rs_id = 60, rs_organization_id = 3, rs_role_principal_id = 51, rs_source_organization_id = 3,
     rs_source_principal_id = 4, rs_source_arn = lit ''arn:aws:iam::'' @ [50] @ lit '':user/'' @ uuid_string 4,
     rs_session_name = lit ''identity-center-'' @ uuid_simple 7, rs_session_policy = None, rs_token_hash = [1],
     rs_expires_at = 0 + seconds 3600, rs_revoked_at = None,
     rs_link = Some \<lparr>cl_assignment_id = 50, cl_generation = 1, cl_user_id = 7, cl_group_membership_id = None,
       cl_target_principal_id = Some 4, cl_source_membership_id = Some 5, cl_target_membership_id = Some 5\<rparr>\<rparr>"

lemmas demo_defs = demo_directory_def demo_permission_set_def demo_assigned_directory_def demo_assignment_def demo_provisioned_def
  no_role_tables_def demo_center_session_def

lemma demo_name_ok: "permission_set_name_ok [65]" by code_simp

lemma demo_lengths: "length (uuid_simple 40) = 32" "length (uuid_simple 7) = 32" "length (lit ''HCIdentityCenter_'') = 17"
  "length (lit ''identity-center-'') = 16" "nat_to_string 2 = [50]"
  by code_simp+

lemma demo_role_name_length: "length demo_role_name = 49" "demo_role_name \<noteq> []"
  unfolding demo_role_name_def using demo_lengths by (simp, force)

lemma demo_management: "management_organization demo_directory 3 = Inr (9, [50])" "management_organization demo_assigned_directory 3 = Inr (9, [50])"
  unfolding management_organization_def by (simp_all add: demo_defs demo_lengths)

lemma demo_user: "require_directory_user demo_directory 3 7 = Inr 4" "require_directory_user demo_assigned_directory 3 7 = Inr 4"
  unfolding require_directory_user_def by (simp_all add: demo_defs enabled_principal_def user_is_active_def)

lemma demo_member: "ensure_account_user i j 3 7 demo_directory = Inr demo_directory"
    "ensure_account_user i j 3 7 demo_assigned_directory = Inr demo_assigned_directory"
  unfolding ensure_account_user_def by (simp_all add: demo_defs has_membership_def)

lemma demo_set_made:
  "create_identity_center_permission_set (\<lambda>s. s) 40 3 [65] demo_center_policy 3600 demo_directory no_role_tables
     = Inr (demo_permission_set, no_role_tables\<lparr>permission_sets := [demo_permission_set]\<rparr>)"
  unfolding create_identity_center_permission_set_def demo_management
  by (simp add: demo_defs demo_name_ok Let_def)

lemma demo_provisioning:
  "provision_role (\<lambda>i. 50 + (i + 1)) 9 [50] demo_permission_set 3 demo_directory (no_role_tables\<lparr>permission_sets := [demo_permission_set]\<rparr>)
     = Inr (51, demo_assigned_directory, demo_provisioned)"
  using demo_role_name_length
  unfolding provision_role_def insert_principal_def insert_role_def create_policy_def Let_def
  by (simp add: demo_defs service_account_def demo_role_name_def [symmetric])

lemma demo_provisioned_again:
  "center_account_roles rt = center_account_roles demo_provisioned \<Longrightarrow>
     provision_role gen 9 [50] demo_permission_set 3 db rt = Inr (51, db, rt)"
  unfolding provision_role_def by (simp add: demo_defs)

lemma demo_assigned:
  "create_identity_center_assignment (\<lambda>i. 50 + i) 3 40 3 SubjectUser 7 demo_directory (no_role_tables\<lparr>permission_sets := [demo_permission_set]\<rparr>)
     = Inr (50, demo_assigned_directory, demo_provisioned\<lparr>center_assignments := [demo_assignment 1 None]\<rparr>)"
proof -
  have "live_permission_set (no_role_tables\<lparr>permission_sets := [demo_permission_set]\<rparr>) 9 40 = Some demo_permission_set"
    unfolding live_permission_set_def by (simp add: demo_defs)
  moreover have "list_ex (\<lambda>a. ca_organization_id a = 9 \<and> ca_account_id a = 3) (cloud_accounts demo_directory)" by (simp add: demo_defs)
  moreover have "upsert_assignment 50 9 40 3 51 SubjectUser 7 demo_provisioned
      = Inr (50, demo_provisioned\<lparr>center_assignments := [demo_assignment 1 None]\<rparr>)"
    unfolding upsert_assignment_def Let_def by (simp add: demo_defs)
  ultimately show ?thesis
    unfolding create_identity_center_assignment_def demo_management bindE_simps prod.case
    by (simp add: demo_user demo_member demo_provisioning [simplified])
qed

lemma demo_signed_in:
  "create_identity_center_session 60 0 3 50 7 [1] demo_assigned_directory no_credentials
     (demo_provisioned\<lparr>center_assignments := [demo_assignment 1 None]\<rparr>)
   = Inr (demo_center_session, demo_provisioned\<lparr>center_assignments := [demo_assignment 1 None], role_sessions := [demo_center_session]\<rparr>)"
proof -
  let ?rt = "demo_provisioned\<lparr>center_assignments := [demo_assignment 1 None]\<rparr>"
  have ps: "live_permission_set ?rt 9 40 = Some demo_permission_set" unfolding live_permission_set_def by (simp add: demo_defs)
  have "insert_role_session 0 demo_center_session no_credentials ?rt
      = Inr (demo_provisioned\<lparr>center_assignments := [demo_assignment 1 None], role_sessions := [demo_center_session]\<rparr>)"
    using demo_lengths unfolding insert_role_session_def Let_def purge_role_sessions_def active_role_sessions_def
    by (simp add: demo_defs)
  then show ?thesis
    using ps unfolding create_identity_center_session_def demo_management bindE_simps prod.case demo_user Let_def
    by (simp add: session_group_membership_def demo_assignment_def demo_assigned_directory_def demo_directory_def
        demo_provisioned_def no_role_tables_def is_iam_role_principal_def enabled_principal_def service_account_def
        demo_permission_set_def demo_center_session_def)
qed

lemma demo_unassigned:
  "revoke_identity_center_assignment 1 3 50 demo_assigned_directory
     (demo_provisioned\<lparr>center_assignments := [demo_assignment 1 None], role_sessions := [demo_center_session]\<rparr>)
   = Inr (demo_provisioned\<lparr>center_assignments := [demo_assignment 1 (Some 1)], role_sessions := [demo_center_session]\<rparr>)"
  unfolding revoke_identity_center_assignment_def Let_def by (simp add: demo_defs)

lemma demo_reassigned:
  "create_identity_center_assignment (\<lambda>i. 70 + i) 3 40 3 SubjectUser 7 demo_assigned_directory
     (demo_provisioned\<lparr>center_assignments := [demo_assignment 1 (Some 1)], role_sessions := [demo_center_session]\<rparr>)
   = Inr (50, demo_assigned_directory,
       demo_provisioned\<lparr>center_assignments := [demo_assignment 2 None], role_sessions := [demo_center_session]\<rparr>)"
proof -
  let ?rt = "demo_provisioned\<lparr>center_assignments := [demo_assignment 1 (Some 1)], role_sessions := [demo_center_session]\<rparr>"
  have "live_permission_set ?rt 9 40 = Some demo_permission_set" unfolding live_permission_set_def by (simp add: demo_defs)
  moreover have "list_ex (\<lambda>a. ca_organization_id a = 9 \<and> ca_account_id a = 3) (cloud_accounts demo_assigned_directory)" by (simp add: demo_defs)
  moreover have "provision_role gen 9 [50] demo_permission_set 3 demo_assigned_directory ?rt
      = Inr (51, demo_assigned_directory, ?rt)" for gen by (rule demo_provisioned_again) simp
  moreover have "upsert_assignment 70 9 40 3 51 SubjectUser 7 ?rt
      = Inr (50, demo_provisioned\<lparr>center_assignments := [demo_assignment 2 None], role_sessions := [demo_center_session]\<rparr>)"
    unfolding upsert_assignment_def Let_def by (simp add: demo_defs same_assignment_def)
  ultimately show ?thesis
    unfolding create_identity_center_assignment_def demo_management bindE_simps prod.case
    by (simp add: demo_user demo_member)
qed

theorem ended_access_never_returns_witness:
  "\<exists>rt2. (center_step {50, 5})\<^sup>*\<^sup>*
      (demo_assigned_directory, demo_provisioned\<lparr>center_assignments := [demo_assignment 1 (Some 1)], role_sessions := [demo_center_session]\<rparr>, no_credentials)
      (demo_assigned_directory, rt2, no_credentials)
    \<and> center_assignments rt2 = [demo_assignment 2 None] \<and> demo_center_session \<in> set (role_sessions rt2)
    \<and> authenticate_iam_role_session 1 demo_assigned_directory rt2 [1] \<noteq> Some demo_center_session"
proof -
  let ?rt = "demo_provisioned\<lparr>center_assignments := [demo_assignment 1 None], role_sessions := [demo_center_session]\<rparr>"
  let ?rt1 = "demo_provisioned\<lparr>center_assignments := [demo_assignment 1 (Some 1)], role_sessions := [demo_center_session]\<rparr>"
  let ?rt2 = "demo_provisioned\<lparr>center_assignments := [demo_assignment 2 None], role_sessions := [demo_center_session]\<rparr>"
  let ?l = "the (rs_link demo_center_session)"
  have new: "new_ids {} (\<lambda>i. 50 + i) (no_role_tables\<lparr>permission_sets := [demo_permission_set]\<rparr>)" "new_ids {50, 5} (\<lambda>i. 70 + i) ?rt1"
    unfolding new_ids_def by (simp_all add: demo_defs)
  have "browser_start (demo_directory, no_role_tables, no_credentials)" unfolding browser_start_def by blast
  moreover have "(center_step {})\<^sup>*\<^sup>* (demo_directory, no_role_tables, no_credentials) (demo_assigned_directory, ?rt, no_credentials)"
    using make_set [OF demo_set_made] assign [OF demo_assigned new(1)] center_sign_in [OF demo_signed_in]
    by (meson converse_rtranclp_into_rtranclp r_into_rtranclp)
  moreover have "demo_center_session \<in> set (role_sessions ?rt)" "rs_link demo_center_session = Some ?l" by (simp_all add: demo_center_session_def)
  moreover have "revoke_identity_center_assignment 1 3 (cl_assignment_id ?l) demo_assigned_directory ?rt = Inr ?rt1"
    using demo_unassigned by (simp add: demo_center_session_def)
  moreover have run: "(center_step {50, 5})\<^sup>*\<^sup>* (demo_assigned_directory, ?rt1, no_credentials) (demo_assigned_directory, ?rt2, no_credentials)"
    using assign [OF demo_reassigned new(2)] by blast
  moreover have "link_ids ?l \<subseteq> {50, 5}" unfolding link_ids_def by (simp add: demo_center_session_def)
  ultimately have "\<forall>t h y. authenticate_iam_role_session t demo_assigned_directory ?rt2 h = Some y \<longrightarrow> rs_link y \<noteq> Some ?l"
    using ended_access_never_returns by blast
  then have "authenticate_iam_role_session 1 demo_assigned_directory ?rt2 [1] \<noteq> Some demo_center_session"
    by (metis \<open>rs_link demo_center_session = Some ?l\<close>)
  then show ?thesis using run by (intro exI [of _ ?rt2]) simp
qed

end
