(* ===== verification/Authentication.thy ===== *)
theory Authentication
  imports Identity_Center
begin

text \<open>
  Who makes a request: the tokens and passwords of \<open>src/crates/heterocloud-auth/src/lib.rs\<close> and the
  functions of \<open>src/crates/heterocloud-api/src/routes.rs\<close> that find the caller behind the headers and
  the cookie of a request. SHA-256, HMAC, Argon2, base64, the entropy of the system, the clock, new
  identifiers and account numbers, address prefixes, the check of e-mail addresses and the conversions of JSON values are
  fields of an environment; one request reads the clock once.
\<close>

subsection \<open>Environment, configuration and state\<close>

record 'n runtime_config =
  allowed_origins :: "str list"
  trusted_proxy_networks :: "'n list"
  csrf_key :: str
  session_ttl :: int
  cli_token_ttl :: int
  owner_origin :: "(str option \<times> nat option) option"
  owner_email :: "str option"
  owner_console_mode :: bool
  owner_allowed_networks :: "'n list"

record 'n api_env =
  en_sha256 :: "nat list \<Rightarrow> digest"
  en_hmac_sha256 :: "nat list \<Rightarrow> nat list \<Rightarrow> nat list option"
  en_base64url :: "nat list \<Rightarrow> str"
  en_argon2_hash :: "nat list \<Rightarrow> nat list \<Rightarrow> str option"
  en_argon2_verify :: "str \<Rightarrow> nat list \<Rightarrow> bool"
  en_entropy :: "nat \<Rightarrow> nat list option"
  en_contains :: "'n \<Rightarrow> ip_addr \<Rightarrow> bool"
  en_is_email :: "str \<Rightarrow> bool"
  en_lower :: "str \<Rightarrow> str"
  en_json_size :: "json \<Rightarrow> nat"
  en_decode_aws_policy :: "json \<Rightarrow> string + aws_policy"
  en_decode_policy :: "json \<Rightarrow> string + policy_document"
  en_decode_trust :: "json \<Rightarrow> string + role_trust_document"
  en_trust_json :: "role_trust_document \<Rightarrow> json"
  en_chrono :: chrono
  en_now :: datetime
  en_gen :: "nat \<Rightarrow> uuid"
  en_account_number :: nat
  en_config :: "'n runtime_config"

text \<open>
  The state behind the API: the store, roles and role sessions, the credentials of people, and the
  flags of the table \<open>cloud_security_activation\<close> that \<^typ>\<open>store\<close> does not have.
\<close>

record api_state =
  db_store :: store
  db_roles :: role_tables
  db_creds :: credentials
  roles_enabled :: bool
  browser_roles_enabled :: bool
  iam_conditions_enabled :: bool
  identity_center_enabled :: bool

abbreviation db_iam :: "api_state \<Rightarrow> iam_tables" where
  "db_iam s \<equiv> iam (db_store s)"

datatype header_value = HeaderText str | HeaderOpaque

fun to_str :: "header_value \<Rightarrow> str option" where
  "to_str (HeaderText s) = Some s"
| "to_str HeaderOpaque = None"

definition header_text :: "header_value option \<Rightarrow> str option" where
  "header_text h = Option.bind h to_str"

record http_request =
  rq_authorization :: "header_value option"
  rq_origin :: "header_value option"
  rq_csrf :: "header_value option"
  rq_host :: "header_value option"
  rq_envoy_address :: "header_value option"
  rq_session_cookie :: "str option"
  rq_peer :: "ip_addr option"

subsection \<open>Tokens and passwords\<close>

datatype auth_error = EntropyUnavailable | InvalidPassword | PasswordHash | InvalidCsrfKey

fun auth_error_text :: "auth_error \<Rightarrow> string" where
  "auth_error_text EntropyUnavailable = ''cryptographic entropy is unavailable''"
| "auth_error_text InvalidPassword = ''password does not satisfy the password policy''"
| "auth_error_text PasswordHash = ''password hashing failed''"
| "auth_error_text InvalidCsrfKey = ''CSRF key must not be empty''"

definition validate_password :: "str \<Rightarrow> auth_error + unit" where
  "validate_password password =
     bindE (fail_if (\<not> (12 \<le> length password \<and> length password \<le> 128)) InvalidPassword) (\<lambda>_.
     fail_if (list_ex is_control password) InvalidPassword)"

definition hash_password :: "'n api_env \<Rightarrow> nat \<Rightarrow> str \<Rightarrow> auth_error + str" where
  "hash_password E draw password =
     bindE (validate_password password) (\<lambda>_.
     bindE (ok_or (en_entropy E draw) EntropyUnavailable) (\<lambda>salt.
     ok_or (en_argon2_hash E salt (as_bytes password)) PasswordHash))"

definition verify_password :: "'n api_env \<Rightarrow> str \<Rightarrow> str \<Rightarrow> bool" where
  "verify_password E password encoded_hash = en_argon2_verify E encoded_hash (as_bytes password)"

definition generate_token :: "'n api_env \<Rightarrow> nat \<Rightarrow> auth_error + str" where
  "generate_token E draw =
     bindE (ok_or (en_entropy E draw) EntropyUnavailable) (\<lambda>bytes. Inr (en_base64url E bytes))"

definition token_hash :: "'n api_env \<Rightarrow> str \<Rightarrow> digest" where
  "token_hash E token = en_sha256 E (as_bytes token)"

definition csrf_token :: "'n api_env \<Rightarrow> str \<Rightarrow> auth_error + str" where
  "csrf_token E session_token =
     bindE (ok_or (en_hmac_sha256 E (as_bytes (csrf_key (en_config E)))
              (as_bytes (lit ''heterocloud-csrf-v1'') @ [0] @ as_bytes session_token)) InvalidCsrfKey)
       (\<lambda>mac. Inr (en_base64url E mac))"

definition constant_time_token_eq :: "'n api_env \<Rightarrow> str \<Rightarrow> str \<Rightarrow> bool" where
  "constant_time_token_eq E l r \<longleftrightarrow> token_hash E l = token_hash E r"

text \<open>A secret for a new credential; a failure of the entropy source is an internal error.\<close>

definition new_secret :: "'n api_env \<Rightarrow> nat \<Rightarrow> api_error + str" where
  "new_secret E draw = map_err (\<lambda>_. ApiInternal) (generate_token E draw)"

subsection \<open>Formats of bearer tokens\<close>

text \<open>The parts of a string before and after a byte offset, when that is the boundary of a character.\<close>

fun split_at_byte :: "nat \<Rightarrow> str \<Rightarrow> (str \<times> str) option" where
  "split_at_byte n [] = (if n = 0 then Some ([], []) else None)"
| "split_at_byte n (c # s) =
     (if n = 0 then Some ([], c # s)
      else if n < length (utf8 c) then None
      else map_option (\<lambda>(a, b). (c # a, b)) (split_at_byte (n - length (utf8 c)) s))"

definition token_character :: "rchar \<Rightarrow> bool" where
  "token_character c \<longleftrightarrow> is_ascii_alphanumeric c \<or> c = 45 \<or> c = 95"

definition parse_api_key_prefix :: "str \<Rightarrow> api_error + str" where
  "parse_api_key_prefix token =
     bindE (ok_or (split_once 95 token) ApiUnauthorized) (\<lambda>(head, rest).
     bindE (fail_if (head \<noteq> lit ''hc'') ApiUnauthorized) (\<lambda>_.
     bindE (ok_or (split_once 95 rest) ApiUnauthorized) (\<lambda>(pre, secret).
     bindE (fail_if (str_len pre \<noteq> 16 \<or> str_len secret < 32) ApiUnauthorized) (\<lambda>_.
     Inr pre))))"

definition parse_cli_access_token_prefix :: "str \<Rightarrow> api_error + str" where
  "parse_cli_access_token_prefix token =
     bindE (ok_or (strip_prefix (lit ''hcu_'') token) ApiUnauthorized) (\<lambda>value.
     bindE (ok_or (split_at_byte 16 value) ApiUnauthorized) (\<lambda>(pre, rest).
     bindE (ok_or (strip_prefix [95] rest) ApiUnauthorized) (\<lambda>secret.
     bindE (fail_if (str_len secret < 32 \<or> \<not> list_all token_character (pre @ secret)) ApiUnauthorized) (\<lambda>_.
     Inr pre))))"

subsection \<open>Origin, CSRF token and the owner of the platform\<close>

definition require_same_origin :: "'n api_env \<Rightarrow> http_request \<Rightarrow> api_error + unit" where
  "require_same_origin E rq =
     bindE (ok_or (header_text (rq_origin rq)) ApiForbidden) (\<lambda>origin.
     fail_if (origin \<notin> set (allowed_origins (en_config E))) ApiForbidden)"

definition require_csrf :: "'n api_env \<Rightarrow> http_request \<Rightarrow> str \<Rightarrow> api_error + unit" where
  "require_csrf E rq expected =
     bindE (ok_or (header_text (rq_csrf rq)) ApiForbidden) (\<lambda>supplied.
     fail_if (\<not> constant_time_token_eq E supplied expected) ApiForbidden)"

definition owner_network_boundary_allows :: "'n api_env \<Rightarrow> ip_addr option \<Rightarrow> bool" where
  "owner_network_boundary_allows E peer \<longleftrightarrow>
     owner_console_mode (en_config E)
     \<or> (case peer of None \<Rightarrow> False
        | Some ip \<Rightarrow> list_ex (\<lambda>net. en_contains E net ip) (owner_allowed_networks (en_config E)))"

definition owner_request_allowed :: "'n api_env \<Rightarrow> http_request \<Rightarrow> str \<Rightarrow> bool" where
  "owner_request_allowed E rq email \<longleftrightarrow>
     (case (owner_origin (en_config E), owner_email (en_config E)) of
        (Some (host, port), Some owner) \<Rightarrow>
          if \<not> eq_ignore_ascii_case email owner \<or> \<not> owner_network_boundary_allows E (rq_peer rq) then False
          else
            (case (header_text (rq_host rq), host) of
               (Some supplied, Some expected) \<Rightarrow>
                 eq_ignore_ascii_case supplied
                   (case port of Some p \<Rightarrow> expected @ [58] @ nat_to_string p | None \<Rightarrow> expected)
             | _ \<Rightarrow> False)
      | _ \<Rightarrow> False)"

definition request_source_ip :: "'n api_env \<Rightarrow> http_request \<Rightarrow> ip_addr option" where
  "request_source_ip E rq =
     (case rq_peer rq of
        None \<Rightarrow> None
      | Some peer \<Rightarrow>
          if owner_console_mode (en_config E)
             \<or> \<not> list_ex (\<lambda>net. en_contains E net peer) (trusted_proxy_networks (en_config E))
          then Some peer
          else (case Option.bind (header_text (rq_envoy_address rq)) (\<lambda>v. parse_ip_addr (trim v)) of
                  Some ip \<Rightarrow> Some ip
                | None \<Rightarrow> Some peer))"

subsection \<open>The caller behind a request\<close>

record browser_session =
  bs_user :: user_row
  bs_memberships :: "membership_row list"
  bs_csrf :: str
  bs_token_hash :: digest

datatype caller =
    CallerUser browser_session
  | CallerWorkload workload_token
  | CallerCli cli_token_row user_row "membership_row list"
  | CallerRole role_session "browser_session option"
  | CallerKey api_key

text \<open>What the authorization of a request uses of its caller.\<close>

fun actor_of :: "caller \<Rightarrow> authenticated_actor" where
  "actor_of (CallerUser b) = ActorUser (u_id (bs_user b))"
| "actor_of (CallerWorkload t) = ActorWorkload (wt_organization_id t) (wt_principal_id t)"
| "actor_of (CallerCli t u _) = ActorCliToken (ct_organization_id t) (u_id u)"
| "actor_of (CallerRole s b) =
     ActorRoleSession (rs_organization_id s) (rs_role_principal_id s) (rs_session_policy s)
       (map_option (\<lambda>b. u_id (bs_user b)) b) (map_option cl_user_id (rs_link s))"
| "actor_of (CallerKey k) = ActorApiKey (key_organization_id k) (key_principal_id k) (key_id k)"

definition active_role_of ::
    "'n api_env \<Rightarrow> api_state \<Rightarrow> browser_session \<Rightarrow> (role_session \<times> role_row \<times> account_row \<times> bool) option" where
  "active_role_of E s b = browser_active_role (en_now E) (db_iam s) (db_roles s) (bs_token_hash b) (db_creds s)"

definition authenticated_session :: "'n api_env \<Rightarrow> http_request \<Rightarrow> api_state \<Rightarrow> api_error + browser_session" where
  "authenticated_session E rq s =
     bindE (ok_or (rq_session_cookie rq) ApiUnauthorized) (\<lambda>raw_token.
     bindE (ok_or (session_user_by_token_hash (en_now E) (db_iam s) (token_hash E raw_token) (db_creds s)) ApiUnauthorized)
       (\<lambda>(user, ms).
     bindE (map_err (\<lambda>_. ApiInternal) (csrf_token E raw_token)) (\<lambda>csrf.
     Inr \<lparr>bs_user = user, bs_memberships = ms, bs_csrf = csrf, bs_token_hash = token_hash E raw_token\<rparr>)))"

definition authenticated_mutation :: "'n api_env \<Rightarrow> http_request \<Rightarrow> api_state \<Rightarrow> api_error + browser_session" where
  "authenticated_mutation E rq s =
     bindE (fail_if (rq_authorization rq \<noteq> None) ApiForbidden) (\<lambda>_.
     bindE (require_same_origin E rq) (\<lambda>_.
     bindE (authenticated_session E rq s) (\<lambda>b.
     bindE (require_csrf E rq (bs_csrf b)) (\<lambda>_.
     bindE (fail_if (active_role_of E s b \<noteq> None) ApiForbidden) (\<lambda>_.
     Inr b)))))"

definition require_owner :: "'n api_env \<Rightarrow> http_request \<Rightarrow> bool \<Rightarrow> api_state \<Rightarrow> api_error + browser_session" where
  "require_owner E rq mutation s =
     bindE (fail_if (rq_authorization rq \<noteq> None) ApiForbidden) (\<lambda>_.
     bindE (if mutation then authenticated_mutation E rq s else authenticated_session E rq s) (\<lambda>b.
     bindE (fail_if (active_role_of E s b \<noteq> None) ApiForbidden) (\<lambda>_.
     bindE (fail_if (\<not> owner_request_allowed E rq (u_email (bs_user b))) ApiForbidden) (\<lambda>_.
     Inr b))))"

definition authenticated_cli_access_token_value :: "'n api_env \<Rightarrow> str \<Rightarrow> api_state \<Rightarrow>
     api_error + cli_token_row \<times> user_row \<times> membership_row list" where
  "authenticated_cli_access_token_value E token s =
     bindE (parse_cli_access_token_prefix token) (\<lambda>pre.
     bindE (map_err from_store (authenticate_cli_access_token (en_now E) (db_iam s) pre (token_hash E token) (db_creds s)))
       (\<lambda>found. ok_or found ApiUnauthorized))"

definition authenticated_cli_access_token :: "'n api_env \<Rightarrow> http_request \<Rightarrow> api_state \<Rightarrow>
     api_error + cli_token_row \<times> user_row \<times> membership_row list" where
  "authenticated_cli_access_token E rq s =
     bindE (ok_or (header_text (rq_authorization rq)) ApiUnauthorized) (\<lambda>authorization.
     bindE (ok_or (strip_prefix (lit ''Bearer '') authorization) ApiUnauthorized) (\<lambda>token.
     authenticated_cli_access_token_value E token s))"

definition malformed_session_token :: "str \<Rightarrow> bool" where
  "malformed_session_token token \<longleftrightarrow> str_len token > 256 \<or> list_ex is_whitespace token"

definition authenticated_bearer :: "'n api_env \<Rightarrow> header_value \<Rightarrow> api_state \<Rightarrow> api_error + caller" where
  "authenticated_bearer E value s =
     bindE (ok_or (to_str value) ApiUnauthorized) (\<lambda>authorization.
     bindE (ok_or (strip_prefix (lit ''Bearer '') authorization) ApiUnauthorized) (\<lambda>token.
     if strip_prefix (lit ''hcw_'') token \<noteq> None then
       bindE (fail_if (malformed_session_token token) ApiUnauthorized) (\<lambda>_.
       bindE (ok_or (authenticate_workload_token (en_now E) (db_store s) (token_hash E token)) ApiUnauthorized) (\<lambda>identity.
       Inr (CallerWorkload identity)))
     else if strip_prefix (lit ''hcr_'') token \<noteq> None then
       bindE (fail_if (malformed_session_token token) ApiUnauthorized) (\<lambda>_.
       bindE (ok_or (authenticate_iam_role_session (en_now E) (db_iam s) (db_roles s) (token_hash E token)) ApiUnauthorized)
         (\<lambda>session. Inr (CallerRole session None)))
     else if strip_prefix (lit ''hcu_'') token \<noteq> None then
       bindE (authenticated_cli_access_token_value E token s) (\<lambda>(t, user, ms). Inr (CallerCli t user ms))
     else
       bindE (parse_api_key_prefix token) (\<lambda>pre.
       bindE (ok_or (authenticate_api_key (en_now E) (db_iam s) (db_roles s) pre (token_hash E token)) ApiUnauthorized)
         (\<lambda>key. Inr (CallerKey key)))))"

definition authenticated_actor :: "'n api_env \<Rightarrow> http_request \<Rightarrow> api_state \<Rightarrow> api_error + caller" where
  "authenticated_actor E rq s =
     (case rq_authorization rq of
        Some value \<Rightarrow> authenticated_bearer E value s
      | None \<Rightarrow>
          bindE (authenticated_session E rq s) (\<lambda>browser.
          case active_role_of E s browser of
            Some (session, _, _, active) \<Rightarrow>
              bindE (fail_if (\<not> active) ApiBrowserRoleSessionExpired) (\<lambda>_.
              bindE (ok_or (authenticate_browser_role_session (en_now E) (db_iam s) (db_roles s) (rs_id session))
                       ApiBrowserRoleSessionExpired) (\<lambda>found.
              Inr (CallerRole found (Some browser))))
          | None \<Rightarrow> Inr (CallerUser browser)))"

fun browser_of :: "caller \<Rightarrow> browser_session option" where
  "browser_of (CallerUser b) = Some b"
| "browser_of (CallerRole _ b) = b"
| "browser_of _ = None"

definition authenticated_actor_mutation :: "'n api_env \<Rightarrow> http_request \<Rightarrow> api_state \<Rightarrow> api_error + caller" where
  "authenticated_actor_mutation E rq s =
     bindE (authenticated_actor E rq s) (\<lambda>actor.
     case browser_of actor of
       Some b \<Rightarrow> bindE (require_same_origin E rq) (\<lambda>_. bindE (require_csrf E rq (bs_csrf b)) (\<lambda>_. Inr actor))
     | None \<Rightarrow> Inr actor)"

subsection \<open>What an accepted caller holds\<close>

lemma authenticated_session_holds:
  assumes "authenticated_session E rq s = Inr b"
  shows "\<exists>raw row. rq_session_cookie rq = Some raw \<and> bs_token_hash b = token_hash E raw \<and> csrf_token E raw = Inr (bs_csrf b)
    \<and> live_session (en_now E) (db_iam s) (token_hash E raw) (db_creds s) = Some row \<and> u_id (bs_user b) = se_user_id row"
proof -
  obtain raw ms where raw: "rq_session_cookie rq = Some raw" "bs_token_hash b = token_hash E raw" "csrf_token E raw = Inr (bs_csrf b)"
    "session_user_by_token_hash (en_now E) (db_iam s) (token_hash E raw) (db_creds s) = Some (bs_user b, ms)"
    using assms unfolding authenticated_session_def by (auto simp: bindE_Inr_iff)
  then obtain row where "live_session (en_now E) (db_iam s) (token_hash E raw) (db_creds s) = Some row"
    "session_user (db_iam s) (se_user_id row) = Some (bs_user b, ms)"
    unfolding session_user_by_token_hash_def by (auto split: option.splits)
  moreover from this(2) have "u_id (bs_user b) = se_user_id row"
    unfolding session_user_def user_by_id_def by (auto split: option.splits dest!: find_eq_Some)
  ultimately show ?thesis using raw by blast
qed

text \<open>The bearer token of a request.\<close>

definition bearer :: "http_request \<Rightarrow> str option" where
  "bearer rq = Option.bind (header_text (rq_authorization rq)) (strip_prefix (lit ''Bearer ''))"

text \<open>A browser session of the request, live and shown to come from the console.\<close>

definition console_request :: "'n api_env \<Rightarrow> http_request \<Rightarrow> api_state \<Rightarrow> browser_session \<Rightarrow> bool" where
  "console_request E rq s b \<longleftrightarrow> rq_authorization rq = None
     \<and> (\<exists>raw row origin supplied csrf. rq_session_cookie rq = Some raw
          \<and> row \<in> set (sessions (db_creds s)) \<and> se_token_hash row = token_hash E raw \<and> se_expires_at row > en_now E
          \<and> user_is_active (db_iam s) (se_user_id row) \<and> u_id (bs_user b) = se_user_id row
          \<and> bs_token_hash b = token_hash E raw
          \<and> rq_origin rq = Some (HeaderText origin) \<and> origin \<in> set (allowed_origins (en_config E))
          \<and> rq_csrf rq = Some (HeaderText supplied) \<and> csrf_token E raw = Inr csrf \<and> token_hash E supplied = token_hash E csrf)"

definition has_bearer :: "'n api_env \<Rightarrow> http_request \<Rightarrow> digest \<Rightarrow> bool" where
  "has_bearer E rq h \<longleftrightarrow> (\<exists>token. bearer rq = Some token \<and> token_hash E token = h)"

fun caller_holds :: "'n api_env \<Rightarrow> http_request \<Rightarrow> api_state \<Rightarrow> caller \<Rightarrow> bool" where
  "caller_holds E rq s (CallerUser b) \<longleftrightarrow> console_request E rq s b \<and> active_role_of E s b = None"
| "caller_holds E rq s (CallerRole x (Some b)) \<longleftrightarrow> console_request E rq s b
     \<and> x \<in> set (role_sessions (db_roles s)) \<and> role_session_live (en_now E) (db_iam s) (db_roles s) x
     \<and> (\<exists>y r a. active_role_of E s b = Some (y, r, a, True) \<and> rs_id y = rs_id x)"
| "caller_holds E rq s (CallerRole x None) \<longleftrightarrow> has_bearer E rq (rs_token_hash x)
     \<and> x \<in> set (role_sessions (db_roles s)) \<and> role_session_live (en_now E) (db_iam s) (db_roles s) x"
| "caller_holds E rq s (CallerCli t u ms) \<longleftrightarrow> has_bearer E rq (ct_token_hash t)
     \<and> t \<in> set (cli_tokens (db_creds s)) \<and> cli_token_live (en_now E) (db_iam s) t \<and> u_id u = ct_user_id t"
| "caller_holds E rq s (CallerKey k) \<longleftrightarrow> has_bearer E rq (key_secret_hash k)
     \<and> k \<in> set (api_keys (db_roles s)) \<and> api_key_live (en_now E) (db_iam s) k"
| "caller_holds E rq s (CallerWorkload t) \<longleftrightarrow> has_bearer E rq (wt_token_hash t)
     \<and> t \<in> set (workload_tokens (db_store s)) \<and> workload_token_live (en_now E) (db_store s) t"

lemma header_text_eq: "header_text h = Some x \<longleftrightarrow> h = Some (HeaderText x)"
  unfolding header_text_def by (cases h; cases "the h") auto

lemma console_request_intro:
  assumes "rq_authorization rq = None" "authenticated_session E rq s = Inr b"
    "require_same_origin E rq = Inr ()" "require_csrf E rq (bs_csrf b) = Inr ()"
  shows "console_request E rq s b"
proof -
  obtain raw row where raw: "rq_session_cookie rq = Some raw" "bs_token_hash b = token_hash E raw"
    "csrf_token E raw = Inr (bs_csrf b)" "u_id (bs_user b) = se_user_id row"
    and row: "live_session (en_now E) (db_iam s) (token_hash E raw) (db_creds s) = Some row"
    using authenticated_session_holds [OF assms(2)] by blast
  obtain origin where origin: "rq_origin rq = Some (HeaderText origin)" "origin \<in> set (allowed_origins (en_config E))"
    using assms(3) unfolding require_same_origin_def by (auto simp: bindE_Inr_iff header_text_eq)
  obtain supplied where "rq_csrf rq = Some (HeaderText supplied)" "token_hash E supplied = token_hash E (bs_csrf b)"
    using assms(4) unfolding require_csrf_def constant_time_token_eq_def
    by (auto simp: bindE_Inr_iff header_text_eq)
  then show ?thesis
    using assms(1) raw origin find_eq_Some [OF row [unfolded live_session_def]] unfolding console_request_def by blast
qed

lemma cli_token_value_holds:
  assumes "authenticated_cli_access_token_value E token s = Inr (t, u, ms)"
  shows "ct_token_hash t = token_hash E token \<and> t \<in> set (cli_tokens (db_creds s)) \<and> cli_token_live (en_now E) (db_iam s) t
    \<and> u_id u = ct_user_id t"
proof -
  obtain pre where a: "authenticate_cli_access_token (en_now E) (db_iam s) pre (token_hash E token) (db_creds s) = Inr (Some (t, u, ms))"
    using assms unfolding authenticated_cli_access_token_value_def by (auto simp: bindE_Inr_iff)
  then obtain t' where f: "find (\<lambda>t. ct_prefix t = pre \<and> ct_token_hash t = token_hash E token \<and> cli_token_live (en_now E) (db_iam s) t)
      (cli_tokens (db_creds s)) = Some t'"
    unfolding authenticate_cli_access_token_def by (auto split: option.splits)
  have "t' = t \<and> session_user (db_iam s) (ct_user_id t) = Some (u, ms)"
    using a unfolding authenticate_cli_access_token_def f by (auto simp: bindE_Inr_iff)
  then show ?thesis
    using find_eq_Some [OF f] unfolding session_user_def user_by_id_def by (auto split: option.splits dest!: find_eq_Some)
qed

lemma authenticated_bearer_holds:
  assumes "rq_authorization rq = Some value" "authenticated_bearer E value s = Inr c"
  shows "browser_of c = None \<and> caller_holds E rq s c"
proof -
  obtain heading token where heading: "to_str value = Some heading" "strip_prefix (lit ''Bearer '') heading = Some token"
    using assms(2) unfolding authenticated_bearer_def by (auto simp: bindE_Inr_iff)
  have hb: "has_bearer E rq h \<longleftrightarrow> token_hash E token = h" for h
    using assms(1) heading unfolding has_bearer_def bearer_def header_text_def by simp
  show ?thesis
    using assms(2) heading unfolding authenticated_bearer_def authenticate_workload_token_def authenticate_iam_role_session_def
      authenticate_api_key_def
    by (auto simp: bindE_Inr_iff hb split: if_splits dest!: find_eq_Some cli_token_value_holds)
qed

lemma authenticated_actor_mutation_holds:
  assumes "authenticated_actor_mutation E rq s = Inr c"
  shows "caller_holds E rq s c"
proof (cases "rq_authorization rq")
  case (Some v)
  then have "authenticated_bearer E v s = Inr c"
    using assms unfolding authenticated_actor_mutation_def authenticated_actor_def
    by (auto simp: bindE_Inr_iff split: option.splits)
  then show ?thesis using authenticated_bearer_holds [OF Some] by blast
next
  case None
  have actor: "authenticated_actor E rq s = Inr c"
    using assms unfolding authenticated_actor_mutation_def by (auto simp: bindE_Inr_iff split: option.splits)
  then obtain b where b: "authenticated_session E rq s = Inr b" "authenticated_actor E rq s = Inr c"
    using None unfolding authenticated_actor_def by (auto simp: bindE_Inr_iff)
  show ?thesis
  proof (cases "active_role_of E s b")
    case None
    then have "c = CallerUser b" using b \<open>rq_authorization rq = None\<close> unfolding authenticated_actor_def by simp
    then show ?thesis using assms b \<open>rq_authorization rq = None\<close> None console_request_intro [OF _ b(1)]
      unfolding authenticated_actor_mutation_def by (auto simp: bindE_Inr_iff)
  next
    case (Some role)
    obtain y r a active where role: "role = (y, r, a, active)" by (cases role) auto
    then have active: active and c: "\<exists>x. authenticate_browser_role_session (en_now E) (db_iam s) (db_roles s) (rs_id y) = Some x
        \<and> c = CallerRole x (Some b)"
      using b Some \<open>rq_authorization rq = None\<close> unfolding authenticated_actor_def
      by (auto simp: bindE_Inr_iff split: option.splits)
    then obtain x where x: "c = CallerRole x (Some b)" "x \<in> set (role_sessions (db_roles s))" "rs_id x = rs_id y"
      "role_session_live (en_now E) (db_iam s) (db_roles s) x"
      unfolding authenticate_browser_role_session_def by (auto dest!: find_eq_Some)
    then show ?thesis using assms b \<open>rq_authorization rq = None\<close> Some role active console_request_intro [OF _ b(1)]
      unfolding authenticated_actor_mutation_def by (auto simp: bindE_Inr_iff)
  qed
qed

text \<open>C18: Every request that may change something and is accepted carries a live credential of its caller.
  A bearer token is one of an unrevoked, unexpired row of an enabled principal, with the token's digest.
  A request on behalf of a browser session comes without an authorization header, from an allowed
  origin, with the CSRF token of that session, and acts as the role of the session when it has one.\<close>

theorem mutating_caller_is_authentic:
  assumes "authenticated_actor_mutation E rq s = Inr c"
  shows "caller_holds E rq s c"
  by (rule authenticated_actor_mutation_holds [OF assms])

text \<open>C19: A browser session that was switched to a role never acts as its user. In every run of the
  operations on roles and sessions, as long as the session refers to a role session, a request with its
  cookie is refused or acts as that role session, which is then live; and the requests that only a user
  or the owner of the platform may make are refused, also after the role session has ended.\<close>

theorem browser_role_fails_closed:
  assumes run: "(center_step K)\<^sup>*\<^sup>* (db, no_role_tables, no_credentials) (db_iam s, db_roles s, db_creds s)"
    and rq: "rq_authorization rq = None" "rq_session_cookie rq = Some raw"
    and row: "find (\<lambda>x. se_token_hash x = token_hash E raw \<and> se_expires_at x > en_now E) (sessions (db_creds s)) = Some row"
    and role: "se_active_role row = Some i"
  shows "(\<forall>c. authenticated_actor E rq s = Inr c \<longrightarrow>
             (\<exists>x b. c = CallerRole x (Some b) \<and> rs_id x = i \<and> role_session_live (en_now E) (db_iam s) (db_roles s) x))
    \<and> (\<forall>b. authenticated_mutation E rq s \<noteq> Inr b) \<and> (\<forall>mutation b. require_owner E rq mutation s \<noteq> Inr b)"
proof -
  have "center_inv (db_iam s, db_roles s, db_creds s)"
    using center_run_inv [OF run] browser_start_inv unfolding browser_start_def by blast
  then have refs: "refs_ok (db_iam s) (db_roles s) (db_creds s)" unfolding center_inv_def by simp
  obtain y r a where y: "browser_active_role (en_now E) (db_iam s) (db_roles s) (token_hash E raw) (db_creds s)
      = Some (y, r, a, role_session_live (en_now E) (db_iam s) (db_roles s) y)" "rs_id y = i"
    using browser_role_found [OF refs row role] by blast
  have active: "active_role_of E s b = Some (y, r, a, role_session_live (en_now E) (db_iam s) (db_roles s) y)"
    if "authenticated_session E rq s = Inr b" for b
    using authenticated_session_holds [OF that] rq(2) y(1) unfolding active_role_of_def by auto
  have "\<exists>x b. c = CallerRole x (Some b) \<and> rs_id x = i \<and> role_session_live (en_now E) (db_iam s) (db_roles s) x"
    if "authenticated_actor E rq s = Inr c" for c
    using that rq(1) y(2) active unfolding authenticated_actor_def authenticate_browser_role_session_def
    by (auto simp: bindE_Inr_iff split: option.splits dest!: find_eq_Some)
  moreover have "authenticated_mutation E rq s \<noteq> Inr b" for b
    using active unfolding authenticated_mutation_def by (auto simp: bindE_Inr_iff)
  moreover have "require_owner E rq mutation s \<noteq> Inr b" for mutation b
    using active unfolding require_owner_def authenticated_mutation_def by (auto simp: bindE_Inr_iff split: if_splits)
  ultimately show ?thesis by blast
qed

subsection \<open>Example\<close>

definition demo_config :: "nat runtime_config" where
  "demo_config = \<lparr>allowed_origins = [[111]], trusted_proxy_networks = [], csrf_key = [107], session_ttl = 3600, cli_token_ttl = 3600,
     owner_origin = None, owner_email = None, owner_console_mode = False, owner_allowed_networks = []\<rparr>"

definition demo_env :: "nat api_env" where
  "demo_env = \<lparr>en_sha256 = (\<lambda>b. b), en_hmac_sha256 = (\<lambda>k m. Some m), en_base64url = (\<lambda>b. b), en_argon2_hash = (\<lambda>s p. Some p),
     en_argon2_verify = (\<lambda>h p. h = p), en_entropy = (\<lambda>n. Some [n]), en_contains = (\<lambda>n ip. False), en_is_email = (\<lambda>s. True),
     en_lower = (\<lambda>s. s), en_json_size = (\<lambda>v. 0), en_decode_aws_policy = (\<lambda>v. Inl []),
     en_decode_policy = (\<lambda>v. Inr demo_center_policy), en_decode_trust = (\<lambda>v. Inr demo_trust), en_trust_json = (\<lambda>d. JNull), en_chrono = demo_chrono, en_now = 1, en_gen = (\<lambda>i. 100 + i), en_account_number = 4, en_config = demo_config\<rparr>"

definition no_headers :: http_request where
  "no_headers = \<lparr>rq_authorization = None, rq_origin = None, rq_csrf = None, rq_host = None, rq_envoy_address = None,
     rq_session_cookie = None, rq_peer = None\<rparr>"

definition demo_key_token :: str where
  "demo_key_token = lit ''hc_0123456789abcdef_0123456789abcdef0123456789abcdef''"

definition demo_key :: api_key where
  "demo_key = \<lparr>key_id = 8, key_organization_id = 3, key_principal_id = 4, key_name = [97], key_prefix = lit ''0123456789abcdef'',
     key_secret_hash = demo_key_token, key_expires_at = None, key_revoked_at = None\<rparr>"

definition demo_api :: "role_tables \<Rightarrow> credentials \<Rightarrow> api_state" where
  "demo_api rt cr = \<lparr>db_store = demo_store\<lparr>iam := demo_assigned_directory\<rparr>, db_roles = rt, db_creds = cr, roles_enabled = True,
     browser_roles_enabled = True, iam_conditions_enabled = True, identity_center_enabled = True\<rparr>"

lemma demo_key_accepted:
  "authenticated_actor_mutation demo_env (no_headers\<lparr>rq_authorization := Some (HeaderText (lit ''Bearer '' @ demo_key_token))\<rparr>)
     (demo_api (no_role_tables\<lparr>api_keys := [demo_key]\<rparr>) no_credentials) = Inr (CallerKey demo_key)"
  by code_simp

theorem mutating_caller_is_authentic_witness:
  "caller_holds demo_env (no_headers\<lparr>rq_authorization := Some (HeaderText (lit ''Bearer '' @ demo_key_token))\<rparr>)
     (demo_api (no_role_tables\<lparr>api_keys := [demo_key]\<rparr>) no_credentials) (CallerKey demo_key)"
  using mutating_caller_is_authentic [OF demo_key_accepted] .

definition demo_browser :: "uuid option \<Rightarrow> session_row" where
  "demo_browser role = \<lparr>se_id = 30, se_user_id = 7, se_token_hash = [120], se_expires_at = 9, se_active_role = role\<rparr>"

definition demo_signed_in_roles :: role_tables where
  "demo_signed_in_roles = demo_provisioned\<lparr>center_assignments := [demo_assignment 1 None], role_sessions := [demo_center_session]\<rparr>"

lemma demo_switched:
  "switch_browser_role 1 [120] None 60 demo_assigned_directory demo_signed_in_roles (no_credentials\<lparr>sessions := [demo_browser None]\<rparr>)
     = Inr (demo_signed_in_roles, no_credentials\<lparr>sessions := [demo_browser (Some 60)]\<rparr>)"
  unfolding switch_browser_role_def Let_def assumable_def enabled_principal_def demo_browser_def demo_signed_in_roles_def
  by (simp add: demo_defs service_account_def no_credentials_def seconds_def)

lemma demo_browser_run:
  "(center_step {})\<^sup>*\<^sup>* (demo_directory, no_role_tables, no_credentials)
     (demo_assigned_directory, demo_signed_in_roles, no_credentials\<lparr>sessions := [demo_browser (Some 60)]\<rparr>)"
proof -
  have "new_ids {} (\<lambda>i. 50 + i) (no_role_tables\<lparr>permission_sets := [demo_permission_set]\<rparr>)"
    unfolding new_ids_def by (simp add: demo_defs)
  moreover have "other_change {} demo_assigned_directory demo_assigned_directory demo_signed_in_roles"
    "sessions_started no_credentials (no_credentials\<lparr>sessions := [demo_browser None]\<rparr>)"
    unfolding other_change_def sessions_started_def role_keys_def principal_keys_def demo_browser_def demo_signed_in_roles_def
    by (auto simp: demo_defs service_account_def)
  ultimately show ?thesis
    using make_set [OF demo_set_made] assign [OF demo_assigned] center_sign_in [OF demo_signed_in, folded demo_signed_in_roles_def]
      elsewhere switch_role [OF demo_switched]
    by (meson converse_rtranclp_into_rtranclp r_into_rtranclp)
qed

lemma demo_browser_acts:
  "authenticated_actor demo_env (no_headers\<lparr>rq_session_cookie := Some [120]\<rparr>)
     (demo_api demo_signed_in_roles (no_credentials\<lparr>sessions := [demo_browser (Some 60)]\<rparr>))
   = Inr (CallerRole demo_center_session (Some \<lparr>bs_user = \<lparr>u_id = 7, u_email = [], u_display_name = [], u_password_hash = None,
       u_active = True\<rparr>, bs_memberships = memberships demo_directory, bs_csrf = lit ''heterocloud-csrf-v1'' @ [0, 120],
       bs_token_hash = [120]\<rparr>))"
  by code_simp

theorem browser_role_fails_closed_witness:
  "role_session_live 1 demo_assigned_directory demo_signed_in_roles demo_center_session
   \<and> (\<forall>b. authenticated_mutation demo_env (no_headers\<lparr>rq_session_cookie := Some [120]\<rparr>)
        (demo_api demo_signed_in_roles (no_credentials\<lparr>sessions := [demo_browser (Some 60)]\<rparr>)) \<noteq> Inr b)"
proof -
  let ?s = "demo_api demo_signed_in_roles (no_credentials\<lparr>sessions := [demo_browser (Some 60)]\<rparr>)"
  let ?rq = "no_headers\<lparr>rq_session_cookie := Some [120]\<rparr>"
  have run: "(center_step {})\<^sup>*\<^sup>* (demo_directory, no_role_tables, no_credentials) (db_iam ?s, db_roles ?s, db_creds ?s)"
    using demo_browser_run by (simp add: demo_api_def)
  have row: "find (\<lambda>x. se_token_hash x = token_hash demo_env [120] \<and> se_expires_at x > en_now demo_env) (sessions (db_creds ?s))
      = Some (demo_browser (Some 60))"
    by (simp add: demo_api_def demo_browser_def demo_env_def token_hash_def)
  have "rq_authorization ?rq = None" "rq_session_cookie ?rq = Some [120]" "se_active_role (demo_browser (Some 60)) = Some 60"
    by (simp_all add: no_headers_def demo_browser_def)
  from browser_role_fails_closed [OF run this(1,2) row this(3)]
  show ?thesis using demo_browser_acts by (auto simp: demo_env_def demo_api_def)
qed

end
