(* ===== verification/IAM_Routes.thy ===== *)
theory IAM_Routes
  imports Authentication
begin

text \<open>
  The request handlers of IAM (\<open>src/crates/heterocloud-api/src/routes.rs\<close>): roles and their
  assumption, boundaries, groups, service accounts, policies, bindings, API keys and workload tokens.
  Every change is made for an authenticated caller and after the authorization of its action on its
  account, and stays within that account.
\<close>

subsection \<open>Handlers\<close>

text \<open>
  A handler returns an error or a result, with the state after it: what it wrote before an error
  stays, and a call of the store that fails is rolled back.
\<close>

type_synonym 'a handler = "api_state \<Rightarrow> (api_error + 'a) \<times> api_state"

definition bindA :: "'a handler \<Rightarrow> ('a \<Rightarrow> 'b handler) \<Rightarrow> 'b handler" where
  "bindA m f s = (case m s of (Inl e, s1) \<Rightarrow> (Inl e, s1) | (Inr x, s1) \<Rightarrow> f x s1)"

definition returnA :: "'a \<Rightarrow> 'a handler" where
  "returnA x s = (Inr x, s)"

definition reading :: "(api_state \<Rightarrow> api_error + 'a) \<Rightarrow> 'a handler" where
  "reading f s = (f s, s)"

definition store_call :: "(api_state \<Rightarrow> store_error + 'a \<times> api_state) \<Rightarrow> 'a handler" where
  "store_call f s = (case f s of Inl e \<Rightarrow> (Inl (from_store e), s) | Inr (x, s1) \<Rightarrow> (Inr x, s1))"

definition set_iam :: "iam_tables \<Rightarrow> api_state \<Rightarrow> api_state" where
  "set_iam db s = s\<lparr>db_store := (db_store s)\<lparr>iam := db\<rparr>\<rparr>"

definition iam_call :: "(iam_tables \<Rightarrow> store_error + 'a \<times> iam_tables) \<Rightarrow> 'a handler" where
  "iam_call f = store_call (\<lambda>s. bindE (f (db_iam s)) (\<lambda>(x, db). Inr (x, set_iam db s)))"

definition iam_change :: "(iam_tables \<Rightarrow> store_error + iam_tables) \<Rightarrow> unit handler" where
  "iam_change f = iam_call (\<lambda>db. bindE (f db) (\<lambda>db1. Inr ((), db1)))"

definition append_audit :: "audit_event \<Rightarrow> unit handler" where
  "append_audit event s = (Inr (), s\<lparr>db_store := (db_store s)\<lparr>audit_events := audit_events (db_store s) @ [event]\<rparr>\<rparr>)"

definition authorize_actor_with_implicit ::
    "'n api_env \<Rightarrow> caller \<Rightarrow> uuid \<Rightarrow> str \<Rightarrow> str \<Rightarrow> bool \<Rightarrow> authorization_context handler" where
  "authorize_actor_with_implicit E actor account action resource implicit s =
     (case authorize_actor_with_implicit_allow (en_chrono E) (db_iam s) (actor_of actor) account action resource implicit
             (en_now E) (audit_events (db_store s)) of
        (result, events) \<Rightarrow> (result, s\<lparr>db_store := (db_store s)\<lparr>audit_events := events\<rparr>\<rparr>))"

definition authorize_actor :: "'n api_env \<Rightarrow> caller \<Rightarrow> uuid \<Rightarrow> str \<Rightarrow> str \<Rightarrow> authorization_context handler" where
  "authorize_actor E actor account action resource = authorize_actor_with_implicit E actor account action resource False"

definition organization_resource :: "uuid \<Rightarrow> str \<Rightarrow> str" where
  "organization_resource account path = lit ''hc:org:'' @ uuid_string account @ [58] @ path"

definition require_flag :: "(api_state \<Rightarrow> bool) \<Rightarrow> unit handler" where
  "require_flag flag = reading (\<lambda>s. fail_if (\<not> flag s) ApiServiceControlUnavailable)"

definition require_roles_enabled :: "unit handler" where
  "require_roles_enabled = require_flag roles_enabled"

definition require_service_control_enabled :: "unit handler" where
  "require_service_control_enabled = require_flag (\<lambda>s. scp_enabled (db_iam s))"

subsection \<open>Checks of the input\<close>

definition validate_name :: "str \<Rightarrow> api_error + unit" where
  "validate_name name =
     fail_if (\<not> (1 \<le> length (trim name) \<and> length (trim name) \<le> 120))
       (ApiBadRequest ''name must contain between 1 and 120 characters'')"

definition iam_name_byte :: "nat \<Rightarrow> bool" where
  "iam_name_byte b \<longleftrightarrow> is_ascii_alphanumeric b \<or> b \<in> set (lit ''+=,.@_-'')"

definition validate_iam_role_name :: "str \<Rightarrow> api_error + unit" where
  "validate_iam_role_name name =
     fail_if (name = [] \<or> str_len name > 64 \<or> \<not> list_all iam_name_byte (as_bytes name))
       (ApiBadRequest ''Role names must use 1 to 64 ASCII letters, numbers, or +=,.@_-'')"

text \<open>The texts of errors of other crates are not kept in the messages that quote them.\<close>

definition trust_error_text :: "role_trust_error \<Rightarrow> string" where
  "trust_error_text e = (case e of InvalidTrust m \<Rightarrow> ''invalid role trust policy: '' @ m)"

definition validate_role_trust :: "'n api_env \<Rightarrow> json \<Rightarrow> api_error + role_trust_document" where
  "validate_role_trust E v =
     bindE (fail_if (en_json_size E v > 4096) (ApiBadRequest ''Role trust policies are limited to 4,096 characters.'')) (\<lambda>_.
     bindE (map_err (\<lambda>_. ApiBadRequest ''Invalid role trust policy: {error}'') (en_decode_trust E v)) (\<lambda>trust.
     bindE (map_err (\<lambda>e. ApiBadRequest (trust_error_text e)) (validate_trust trust)) (\<lambda>_.
     Inr trust)))"

fun domain_error_text :: "domain_error \<Rightarrow> string" where
  "domain_error_text (InvalidVpcSpec m) = ''invalid VPC spec: '' @ m"
| "domain_error_text (InvalidResourceQuota m) = ''invalid resource quota: '' @ m"
| "domain_error_text (InvalidFlashSpec m) = ''invalid Flash spec: '' @ m"
| "domain_error_text (InvalidSyouyuSpec m) = ''invalid Syouyu spec: '' @ m"
| "domain_error_text (InvalidPolicy m) = ''invalid policy: '' @ m"
| "domain_error_text (UnsupportedPolicyVersion v) = ''unsupported policy version: {0}''"

definition parse_policy_document :: "'n api_env \<Rightarrow> json \<Rightarrow> api_error + policy_document" where
  "parse_policy_document E v =
     bindE (if json_get (lit ''Statement'') v \<noteq> None
            then map_err (\<lambda>e. ApiBadRequest (domain_error_text e)) (from_aws_json (en_chrono E) (en_decode_aws_policy E) v)
            else map_err (\<lambda>_. ApiBadRequest ''Invalid policy: {error}'') (en_decode_policy E v)) (\<lambda>document.
     bindE (map_err (\<lambda>e. ApiBadRequest (domain_error_text e)) (validate_policy (en_chrono E) document)) (\<lambda>_.
     Inr document))"

definition require_policy_conditions_enabled :: "policy_document \<Rightarrow> unit handler" where
  "require_policy_conditions_enabled document =
     reading (\<lambda>s. fail_if (list_ex (\<lambda>st. st_conditions st \<noteq> []) (doc_statements document) \<and> \<not> iam_conditions_enabled s)
                    (ApiBadRequest ''IAM policy conditions are not enabled yet.''))"

fun split_on :: "str \<Rightarrow> str \<Rightarrow> (str \<times> str) option" where
  "split_on sep [] = (if sep = [] then Some ([], []) else None)"
| "split_on sep (c # s) =
     (case strip_prefix sep (c # s) of
        Some rest \<Rightarrow> Some ([], rest)
      | None \<Rightarrow> map_option (\<lambda>(a, b). (c # a, b)) (split_on sep s))"

definition parse_iam_role_arn :: "str \<Rightarrow> api_error + str \<times> str" where
  "parse_iam_role_arn arn =
     bindE (ok_or (strip_prefix (lit ''arn:aws:iam::'') arn) (ApiBadRequest ''Invalid role ARN.'')) (\<lambda>rest.
     bindE (ok_or (split_on (lit '':role/'') rest) (ApiBadRequest ''Invalid role ARN.'')) (\<lambda>(account, name).
     bindE (fail_if (str_len account \<noteq> 12 \<or> \<not> list_all is_ascii_digit (as_bytes account))
              (ApiBadRequest ''Invalid role ARN.'')) (\<lambda>_.
     bindE (validate_iam_role_name name) (\<lambda>_. Inr (account, name)))))"

text \<open>The person whose quota a new principal counts against.\<close>

fun quota_user_for_actor :: "caller \<Rightarrow> uuid \<Rightarrow> api_state \<Rightarrow> api_error + uuid option" where
  "quota_user_for_actor (CallerUser b) account s = Inr (Some (u_id (bs_user b)))"
| "quota_user_for_actor (CallerCli t u _) account s =
     (if ct_organization_id t = account then Inr (Some (u_id u)) else Inl ApiForbidden)"
| "quota_user_for_actor (CallerWorkload t) account s =
     (if wt_organization_id t = account
      then map_err from_store (service_quota_user (db_store s) account (wt_service_instance_id t)) else Inl ApiForbidden)"
| "quota_user_for_actor (CallerKey k) account s =
     (if key_organization_id k = account
      then map_err from_store (principal_quota_user (db_store s) account (key_principal_id k)) else Inl ApiForbidden)"
| "quota_user_for_actor (CallerRole x _) account s =
     (if rs_organization_id x = account
      then (case rs_link x of
              Some l \<Rightarrow> Inr (Some (cl_user_id l))
            | None \<Rightarrow> map_err from_store (principal_quota_user (db_store s) account (rs_role_principal_id x)))
      else Inl ApiForbidden)"

subsection \<open>Roles\<close>

definition iam_path :: "string \<Rightarrow> uuid \<Rightarrow> str" where
  "iam_path kind i = lit kind @ uuid_string i"

definition roles_call :: "(iam_tables \<Rightarrow> role_tables \<Rightarrow> store_error + 'a \<times> role_tables) \<Rightarrow> 'a handler" where
  "roles_call f = store_call (\<lambda>s. bindE (f (db_iam s) (db_roles s)) (\<lambda>(x, rt). Inr (x, s\<lparr>db_roles := rt\<rparr>)))"

definition create_iam_role_route :: "'n api_env \<Rightarrow> http_request \<Rightarrow> uuid \<Rightarrow> str \<Rightarrow> json \<Rightarrow> int \<Rightarrow> role_row handler" where
  "create_iam_role_route E rq account name trust_policy max_session_seconds =
     bindA (reading (authenticated_actor_mutation E rq)) (\<lambda>actor.
     bindA (reading (\<lambda>_. validate_iam_role_name name)) (\<lambda>_.
     bindA (reading (\<lambda>_. validate_role_trust E trust_policy)) (\<lambda>trust.
     bindA (reading (\<lambda>_. fail_if (\<not> (3600 \<le> max_session_seconds \<and> max_session_seconds \<le> 43200))
              (ApiBadRequest ''Maximum session duration must be between one and twelve hours.''))) (\<lambda>_.
     bindA (authorize_actor E actor account (lit ''iam:CreateRole'') (organization_resource account (lit ''iam/role/*''))) (\<lambda>_.
     bindA require_roles_enabled (\<lambda>_.
     bindA (reading (quota_user_for_actor actor account)) (\<lambda>quota_user.
     store_call (\<lambda>s. bindE (create_iam_role (en_gen E 0) account name trust max_session_seconds quota_user (db_iam s) (db_roles s))
       (\<lambda>(role, db, rt). Inr (role, (set_iam db s)\<lparr>db_roles := rt\<rparr>))))))))))"

definition update_iam_role_trust_route :: "'n api_env \<Rightarrow> http_request \<Rightarrow> uuid \<Rightarrow> uuid \<Rightarrow> json \<Rightarrow> unit handler" where
  "update_iam_role_trust_route E rq account prin trust_policy =
     bindA (reading (authenticated_actor_mutation E rq)) (\<lambda>actor.
     bindA (reading (\<lambda>_. validate_role_trust E trust_policy)) (\<lambda>trust.
     bindA (authorize_actor E actor account (lit ''iam:UpdateAssumeRolePolicy'')
              (organization_resource account (iam_path ''iam/role/'' prin))) (\<lambda>_.
     bindA require_roles_enabled (\<lambda>_.
     roles_call (\<lambda>db rt. bindE (update_iam_role_trust account prin trust rt) (\<lambda>rt1. Inr ((), rt1)))))))"

definition delete_iam_role_route :: "'n api_env \<Rightarrow> http_request \<Rightarrow> uuid \<Rightarrow> uuid \<Rightarrow> unit handler" where
  "delete_iam_role_route E rq account prin =
     bindA (reading (authenticated_actor_mutation E rq)) (\<lambda>actor.
     bindA (authorize_actor E actor account (lit ''iam:DeleteRole'') (organization_resource account (iam_path ''iam/role/'' prin))) (\<lambda>_.
     bindA require_roles_enabled (\<lambda>_.
     store_call (\<lambda>s. bindE (delete_iam_role (en_now E) account prin (db_iam s) (db_roles s) (db_creds s))
       (\<lambda>(db, rt). Inr ((), (set_iam db s)\<lparr>db_roles := rt\<rparr>))))))"

definition revoke_iam_role_session_route :: "'n api_env \<Rightarrow> http_request \<Rightarrow> uuid \<Rightarrow> uuid \<Rightarrow> uuid \<Rightarrow> unit handler" where
  "revoke_iam_role_session_route E rq account prin session =
     bindA (reading (authenticated_actor_mutation E rq)) (\<lambda>actor.
     bindA (authorize_actor E actor account (lit ''iam:RevokeRoleSession'')
              (organization_resource account (iam_path ''iam/role/'' prin))) (\<lambda>_.
     bindA require_roles_enabled (\<lambda>_.
     roles_call (\<lambda>db rt. bindE (revoke_iam_role_session (en_now E) account prin session rt) (\<lambda>rt1. Inr ((), rt1))))))"

subsection \<open>Assuming a role\<close>

record assume_input =
  ai_role_arn :: str
  ai_session_name :: str
  ai_duration_seconds :: int
  ai_session_policy :: "json option"
  ai_switch_console :: bool

text \<open>The browser session to switch, with the role session it leaves.\<close>

definition browser_switch_of :: "assume_input \<Rightarrow> caller \<Rightarrow> api_state \<Rightarrow> api_error + (browser_session \<times> uuid option) option" where
  "browser_switch_of input actor s =
     (if \<not> ai_switch_console input then Inr None
      else bindE (fail_if (\<not> browser_roles_enabled s) ApiServiceControlUnavailable) (\<lambda>_.
        case actor of
          CallerUser b \<Rightarrow> Inr (Some (b, None))
        | CallerRole x (Some b) \<Rightarrow> Inr (Some (b, Some (rs_id x)))
        | _ \<Rightarrow> Inl ApiForbidden))"

definition check_assume_input :: "assume_input \<Rightarrow> caller \<Rightarrow> api_error + unit" where
  "check_assume_input input actor =
     bindE (fail_if (str_len (ai_session_name input) < 2 \<or> str_len (ai_session_name input) > 64
                     \<or> \<not> list_all iam_name_byte (as_bytes (ai_session_name input)))
              (ApiBadRequest ''Session names must use 2 to 64 ASCII letters, numbers, or +=,.@_-'')) (\<lambda>_.
     fail_if (\<not> (900 \<le> ai_duration_seconds input \<and> ai_duration_seconds input \<le> 43200)
              \<or> (case actor of CallerRole _ _ \<Rightarrow> ai_duration_seconds input > 3600 | _ \<Rightarrow> False))
       (ApiBadRequest ''Invalid role session duration.''))"

definition parse_session_policy :: "'n api_env \<Rightarrow> json option \<Rightarrow> api_error + policy_document option" where
  "parse_session_policy E v =
     (case v of
        None \<Rightarrow> Inr None
      | Some j \<Rightarrow>
          bindE (fail_if (en_json_size E j > 2048) (ApiBadRequest ''Session policies are limited to 2,048 characters.'')) (\<lambda>_.
          bindE (parse_policy_document E j) (\<lambda>document. Inr (Some document))))"

definition trust_event :: "uuid \<Rightarrow> uuid \<Rightarrow> str \<Rightarrow> bool \<Rightarrow> audit_event" where
  "trust_event source prin arn trusted =
     \<lparr>audit_organization_id = Some source, audit_principal_id = Some prin, audit_user_id = None,
      audit_action = lit ''sts:AssumeRole'', audit_resource = arn,
      audit_decision = (if trusted then ''allow'' else ''deny''),
      audit_reason = (if trusted then ''role_trust_allow'' else ''role_trust_deny'')\<rparr>"

text \<open>The new session takes the browser over; if that fails, it is revoked.\<close>

definition switch_console ::
    "'n api_env \<Rightarrow> (browser_session \<times> uuid option) option \<Rightarrow> uuid \<Rightarrow> uuid \<Rightarrow> uuid \<Rightarrow> unit handler" where
  "switch_console E switch account role session s =
     (case switch of
        None \<Rightarrow> (Inr (), s)
      | Some (b, previous) \<Rightarrow>
          (case switch_browser_role (en_now E) (bs_token_hash b) previous session (db_iam s) (db_roles s) (db_creds s) of
             Inr (rt, cr) \<Rightarrow> (Inr (), s\<lparr>db_roles := rt, db_creds := cr\<rparr>)
           | Inl e \<Rightarrow>
               (Inl (from_store e),
                case revoke_iam_role_session (en_now E) account role session (db_roles s) of
                  Inr rt \<Rightarrow> s\<lparr>db_roles := rt\<rparr> | Inl _ \<Rightarrow> s)))"

definition assumed_row ::
    "'n api_env \<Rightarrow> uuid \<Rightarrow> authorization_context \<Rightarrow> role_row \<Rightarrow> str \<Rightarrow> assume_input \<Rightarrow> policy_document option \<Rightarrow> str \<Rightarrow> new_role_session" where
  "assumed_row E source cx role source_arn input session_policy token =
     \<lparr>nr_organization_id = ro_organization_id role, nr_role_principal_id = ro_principal_id role,
      nr_source_organization_id = source, nr_source_principal_id = ctx_principal_id cx, nr_source_arn = source_arn,
      nr_session_name = ai_session_name input, nr_session_policy = session_policy, nr_token_hash = token_hash E token,
      nr_expires_at = en_now E + seconds (ai_duration_seconds input), nr_duration_seconds = ai_duration_seconds input,
      nr_expected_trust_policy = ro_trust_policy role\<rparr>"

definition assume_iam_role_route :: "'n api_env \<Rightarrow> http_request \<Rightarrow> uuid \<Rightarrow> assume_input \<Rightarrow> (uuid \<times> str option) handler" where
  "assume_iam_role_route E rq source input =
     bindA (reading (authenticated_actor_mutation E rq)) (\<lambda>actor.
     bindA (reading (\<lambda>_. fail_if (case actor of CallerRole x _ \<Rightarrow> rs_link x \<noteq> None | _ \<Rightarrow> False) ApiForbidden)) (\<lambda>_.
     bindA require_roles_enabled (\<lambda>_.
     bindA (reading (browser_switch_of input actor)) (\<lambda>switch.
     bindA (reading (\<lambda>_. parse_iam_role_arn (ai_role_arn input))) (\<lambda>(target_number, role_name).
     bindA (reading (\<lambda>_. check_assume_input input actor)) (\<lambda>_.
     bindA (reading (\<lambda>_. parse_session_policy E (ai_session_policy input))) (\<lambda>session_policy.
     bindA (case session_policy of None \<Rightarrow> returnA () | Some document \<Rightarrow> require_policy_conditions_enabled document) (\<lambda>_.
     bindA (authorize_actor E actor source (lit ''sts:AssumeRole'') (ai_role_arn input)) (\<lambda>cx.
     bindA (reading (\<lambda>s. ok_or (iam_principal_arn (db_iam s) (db_roles s) source (ctx_principal_id cx)) ApiForbidden))
       (\<lambda>(source_number, source_arn).
     bindA (reading (\<lambda>s. ok_or (find_iam_role (db_iam s) (db_roles s) target_number role_name) ApiNotFound)) (\<lambda>(role, arn).
     bindA (reading (\<lambda>s. fail_if (is_identity_center_role (db_roles s) (ro_organization_id role) (ro_principal_id role)) ApiForbidden)) (\<lambda>_.
     bindA (reading (\<lambda>_. validate_role_trust E (en_trust_json E (ro_trust_policy role)))) (\<lambda>trust.
     bindA (reading (\<lambda>_. map_err (\<lambda>_. ApiInternal) (permits trust source_number source_arn))) (\<lambda>trusted.
     bindA (append_audit (trust_event source (ctx_principal_id cx) (ai_role_arn input) trusted)) (\<lambda>_.
     bindA (reading (\<lambda>_. fail_if (\<not> trusted) ApiForbidden)) (\<lambda>_.
     bindA (reading (\<lambda>_. new_secret E 0)) (\<lambda>secret.
     (let token = lit ''hcr_'' @ secret in
     bindA (store_call (\<lambda>s. bindE (create_iam_role_session (en_gen E 0) (en_now E)
              (assumed_row E source cx role source_arn input session_policy token) (db_iam s) (db_creds s) (db_roles s))
              (\<lambda>(sid, rt). Inr (sid, s\<lparr>db_roles := rt\<rparr>)))) (\<lambda>sid.
     bindA (switch_console E switch (ro_organization_id role) (ro_principal_id role) sid) (\<lambda>_.
     returnA (sid, if switch = None then Some token else None)))))))))))))))))))))"

subsection \<open>Boundaries and groups\<close>

definition change_permissions_boundary_route :: "'n api_env \<Rightarrow> http_request \<Rightarrow> uuid \<Rightarrow> uuid \<Rightarrow> uuid option \<Rightarrow> unit handler" where
  "change_permissions_boundary_route E rq account prin policy =
     bindA (reading (authenticated_actor_mutation E rq)) (\<lambda>actor.
     bindA (authorize_actor E actor account
              (if policy \<noteq> None then lit ''iam:PutPermissionsBoundary'' else lit ''iam:DeletePermissionsBoundary'')
              (organization_resource account (iam_path ''iam/principal/'' prin))) (\<lambda>_.
     bindA require_service_control_enabled (\<lambda>_.
     store_call (\<lambda>s. bindE (set_permissions_boundary account prin policy (db_roles s) (db_iam s)) (\<lambda>db. Inr ((), set_iam db s))))))"

definition create_iam_group_route :: "'n api_env \<Rightarrow> http_request \<Rightarrow> uuid \<Rightarrow> str \<Rightarrow> uuid handler" where
  "create_iam_group_route E rq account name =
     bindA (reading (authenticated_actor_mutation E rq)) (\<lambda>actor.
     bindA (reading (\<lambda>_. validate_name name)) (\<lambda>_.
     bindA (authorize_actor E actor account (lit ''iam:CreateGroup'') (organization_resource account (lit ''iam/group/*''))) (\<lambda>_.
     bindA require_service_control_enabled (\<lambda>_.
     iam_call (create_iam_group (en_gen E 0) account name)))))"

definition delete_iam_group_route :: "'n api_env \<Rightarrow> http_request \<Rightarrow> uuid \<Rightarrow> uuid \<Rightarrow> unit handler" where
  "delete_iam_group_route E rq account gid =
     bindA (reading (authenticated_actor_mutation E rq)) (\<lambda>actor.
     bindA (authorize_actor E actor account (lit ''iam:DeleteGroup'') (organization_resource account (iam_path ''iam/group/'' gid))) (\<lambda>_.
     bindA require_service_control_enabled (\<lambda>_.
     iam_change (delete_iam_group account gid))))"

definition change_iam_group_member_route :: "'n api_env \<Rightarrow> http_request \<Rightarrow> uuid \<Rightarrow> uuid \<Rightarrow> uuid \<Rightarrow> bool \<Rightarrow> unit handler" where
  "change_iam_group_member_route E rq account gid prin add =
     bindA (reading (authenticated_actor_mutation E rq)) (\<lambda>actor.
     bindA (authorize_actor E actor account (if add then lit ''iam:AddUserToGroup'' else lit ''iam:RemoveUserFromGroup'')
              (organization_resource account (iam_path ''iam/group/'' gid))) (\<lambda>_.
     bindA require_service_control_enabled (\<lambda>_.
     iam_change (change_iam_group_member account gid prin add))))"

definition change_iam_group_policy_route :: "'n api_env \<Rightarrow> http_request \<Rightarrow> uuid \<Rightarrow> uuid \<Rightarrow> uuid \<Rightarrow> bool \<Rightarrow> unit handler" where
  "change_iam_group_policy_route E rq account gid policy attach =
     bindA (reading (authenticated_actor_mutation E rq)) (\<lambda>actor.
     bindA (authorize_actor E actor account (if attach then lit ''iam:AttachGroupPolicy'' else lit ''iam:DetachGroupPolicy'')
              (organization_resource account (iam_path ''iam/group/'' gid))) (\<lambda>_.
     bindA require_service_control_enabled (\<lambda>_.
     iam_change (change_iam_group_policy account gid policy attach))))"

subsection \<open>Service accounts, policies and bindings\<close>

definition create_service_account_route :: "'n api_env \<Rightarrow> http_request \<Rightarrow> uuid \<Rightarrow> str \<Rightarrow> principal_row handler" where
  "create_service_account_route E rq account name =
     bindA (reading (authenticated_actor_mutation E rq)) (\<lambda>actor.
     bindA (reading (\<lambda>_. validate_name name)) (\<lambda>_.
     bindA (authorize_actor E actor account (lit ''iam:CreatePrincipal'') (organization_resource account (lit ''iam/principal/*''))) (\<lambda>_.
     bindA (reading (quota_user_for_actor actor account)) (\<lambda>quota_user.
     iam_call (create_service_account_owned (en_gen E 0) account name quota_user)))))"

definition set_service_account_enabled_route :: "'n api_env \<Rightarrow> http_request \<Rightarrow> uuid \<Rightarrow> uuid \<Rightarrow> bool \<Rightarrow> unit handler" where
  "set_service_account_enabled_route E rq account prin enabled =
     bindA (reading (authenticated_actor_mutation E rq)) (\<lambda>actor.
     bindA (authorize_actor E actor account (lit ''iam:UpdatePrincipal'')
              (organization_resource account (iam_path ''iam/principal/'' prin))) (\<lambda>_.
     store_call (\<lambda>s. bindE (set_service_account_enabled account prin enabled (db_store s)) (\<lambda>st. Inr ((), s\<lparr>db_store := st\<rparr>)))))"

definition create_policy_route :: "'n api_env \<Rightarrow> http_request \<Rightarrow> uuid \<Rightarrow> str \<Rightarrow> json \<Rightarrow> policy_row handler" where
  "create_policy_route E rq account name v =
     bindA (reading (authenticated_actor_mutation E rq)) (\<lambda>actor.
     bindA (reading (\<lambda>_. validate_name name)) (\<lambda>_.
     bindA (reading (\<lambda>_. parse_policy_document E v)) (\<lambda>document.
     bindA (require_policy_conditions_enabled document) (\<lambda>_.
     bindA (authorize_actor E actor account (lit ''iam:CreatePolicy'') (organization_resource account (lit ''iam/policy/*''))) (\<lambda>_.
     iam_call (create_policy (en_gen E 0) account name document))))))"

definition create_binding_route :: "'n api_env \<Rightarrow> http_request \<Rightarrow> uuid \<Rightarrow> uuid \<Rightarrow> uuid \<Rightarrow> uuid handler" where
  "create_binding_route E rq account prin policy =
     bindA (reading (authenticated_actor_mutation E rq)) (\<lambda>actor.
     bindA (authorize_actor E actor account (lit ''iam:CreateBinding'') (organization_resource account (lit ''iam/binding/*''))) (\<lambda>_.
     store_call (\<lambda>s. bindE (create_binding (en_gen E 0) account prin policy (db_roles s) (db_iam s)) (\<lambda>(bid, db). Inr (bid, set_iam db s)))))"

definition delete_iam_binding_route :: "'n api_env \<Rightarrow> http_request \<Rightarrow> uuid \<Rightarrow> uuid \<Rightarrow> unit handler" where
  "delete_iam_binding_route E rq account bid =
     bindA (reading (authenticated_actor_mutation E rq)) (\<lambda>actor.
     bindA (authorize_actor E actor account (lit ''iam:DeleteBinding'') (organization_resource account (iam_path ''iam/binding/'' bid))) (\<lambda>_.
     store_call (\<lambda>s. bindE (delete_binding account bid (db_roles s) (db_iam s)) (\<lambda>db. Inr ((), set_iam db s)))))"

subsection \<open>API keys and workload tokens\<close>

definition authorize_task_role :: "'n api_env \<Rightarrow> caller \<Rightarrow> uuid \<Rightarrow> uuid option \<Rightarrow> unit handler" where
  "authorize_task_role E actor account role =
     (case role of
        None \<Rightarrow> returnA ()
      | Some prin \<Rightarrow>
          bindA (authorize_actor E actor account (lit ''iam:PassRole'') (organization_resource account (iam_path ''iam/principal/'' prin))) (\<lambda>_.
          reading (\<lambda>s. fail_if (\<not> enabled_task_role (db_iam s) (db_roles s) account prin)
                         (ApiBadRequest ''task_role must be an enabled service account in this organization''))))"

definition create_api_key_route ::
    "'n api_env \<Rightarrow> http_request \<Rightarrow> uuid \<Rightarrow> uuid \<Rightarrow> str \<Rightarrow> int option \<Rightarrow> (uuid \<times> str) handler" where
  "create_api_key_route E rq account prin name expires_in_days =
     bindA (reading (authenticated_actor_mutation E rq)) (\<lambda>actor.
     bindA (reading (\<lambda>_. validate_name name)) (\<lambda>_.
     bindA (reading (\<lambda>_. fail_if (case expires_in_days of None \<Rightarrow> False | Some d \<Rightarrow> \<not> (1 \<le> d \<and> d \<le> 365))
              (ApiBadRequest ''expires_in_days must be between 1 and 365''))) (\<lambda>_.
     bindA (authorize_actor E actor account (lit ''iam:CreateApiKey'') (organization_resource account (lit ''iam/api-key/*''))) (\<lambda>_.
     bindA (authorize_task_role E actor account (Some prin)) (\<lambda>_.
     bindA (reading (\<lambda>_. new_secret E 0)) (\<lambda>secret.
     (let pre = take 16 (uuid_simple (en_gen E 1));
          key = lit ''hc_'' @ pre @ [95] @ secret in
     bindA (roles_call (create_api_key (en_gen E 0) account prin name pre (token_hash E key)
              (map_option (\<lambda>d. en_now E + days d) expires_in_days))) (\<lambda>kid.
     returnA (kid, key)))))))))"

definition revoke_iam_api_key_route :: "'n api_env \<Rightarrow> http_request \<Rightarrow> uuid \<Rightarrow> uuid \<Rightarrow> uuid \<Rightarrow> unit handler" where
  "revoke_iam_api_key_route E rq account prin kid =
     bindA (reading (authenticated_actor_mutation E rq)) (\<lambda>actor.
     bindA (authorize_actor E actor account (lit ''iam:RevokeApiKey'') (organization_resource account (iam_path ''iam/api-key/'' kid))) (\<lambda>_.
     roles_call (\<lambda>db rt. bindE (revoke_iam_api_key (en_now E) account prin kid rt) (\<lambda>rt1. Inr ((), rt1)))))"

text \<open>
  A pod exchanges its signed identity for a token of its role. The verifier, which asks the cluster
  about the pod, is a parameter: it returns the service, the role and the pod.
\<close>

definition exchange_workload_identity ::
    "'n api_env \<Rightarrow> (str \<Rightarrow> (uuid \<times> uuid \<times> uuid) option) option \<Rightarrow> str \<Rightarrow> str \<Rightarrow> str \<Rightarrow> (workload_token \<times> str) handler" where
  "exchange_workload_identity E verifier grant_type subject_token_type subject_token =
     bindA (reading (\<lambda>_. fail_if (grant_type \<noteq> lit ''urn:ietf:params:oauth:grant-type:token-exchange''
                \<or> subject_token_type \<noteq> lit ''urn:ietf:params:oauth:token-type:jwt'')
              (ApiBadRequest ''Use a workload JWT with the token-exchange grant''))) (\<lambda>_.
     bindA (reading (\<lambda>_. ok_or verifier ApiUnauthorized)) (\<lambda>verify.
     bindA (reading (\<lambda>_. ok_or (verify subject_token) ApiUnauthorized)) (\<lambda>(service, task_role, pod_uid).
     bindA (reading (\<lambda>_. new_secret E 0)) (\<lambda>secret.
     (let access_token = lit ''hcw_'' @ secret in
     bindA (store_call (\<lambda>s. bindE (mint_workload_token (en_gen E 0) (en_now E) service task_role pod_uid (token_hash E access_token)
              (en_now E + seconds 900) (db_roles s) (db_store s)) (\<lambda>(t, st). Inr (t, s\<lparr>db_store := st\<rparr>)))) (\<lambda>t.
     bindA (append_audit \<lparr>audit_organization_id = Some (wt_organization_id t), audit_principal_id = Some (wt_principal_id t),
              audit_user_id = None, audit_action = lit ''iam:AssumeTaskRole'',
              audit_resource = organization_resource (wt_organization_id t) (iam_path ''flash/instance/'' (wt_service_instance_id t)),
              audit_decision = ''allow'', audit_reason = ''verified_pod_bound_identity''\<rparr>) (\<lambda>_.
     returnA (t, access_token))))))))"

lemmas route_defs = authorize_actor_def require_flag_def require_roles_enabled_def require_service_control_enabled_def
  require_policy_conditions_enabled_def

subsection \<open>What a successful handler did\<close>

lemma bindA_done: "bindA m f s = (Inr y, s') \<longleftrightarrow> (\<exists>x s1. m s = (Inr x, s1) \<and> f x s1 = (Inr y, s'))"
  unfolding bindA_def by (auto split: prod.splits sum.splits)

lemma reading_done: "reading f s = (Inr x, s') \<longleftrightarrow> f s = Inr x \<and> s' = s"
  unfolding reading_def by auto

lemma returnA_done: "returnA x s = (Inr y, s') \<longleftrightarrow> x = y \<and> s' = s"
  unfolding returnA_def by auto

lemma store_call_done: "store_call f s = (Inr x, s') \<longleftrightarrow> f s = Inr (x, s')"
  unfolding store_call_def by (auto split: sum.splits)

lemma authorize_done:
  "authorize_actor_with_implicit E c account action resource i s = (Inr cx, s') \<longleftrightarrow>
     (\<exists>events. authorize_actor_with_implicit_allow (en_chrono E) (db_iam s) (actor_of c) account action resource i (en_now E)
         (audit_events (db_store s)) = (Inr cx, events) \<and> s' = s\<lparr>db_store := (db_store s)\<lparr>audit_events := events\<rparr>\<rparr>)"
  unfolding authorize_actor_with_implicit_def by (auto split: prod.splits)

lemma append_audit_done:
  "append_audit e s = (Inr x, s') \<longleftrightarrow> s' = s\<lparr>db_store := (db_store s)\<lparr>audit_events := audit_events (db_store s) @ [e]\<rparr>\<rparr>"
  unfolding append_audit_def by auto

lemma optional_check_done:
  "(case p of None \<Rightarrow> returnA () | Some d \<Rightarrow> reading (g d)) s = (Inr u, s') \<longleftrightarrow> s' = s \<and> (\<forall>d. p = Some d \<longrightarrow> g d s = Inr u)"
  by (cases p) (auto simp: returnA_done reading_done)

lemmas handler_done = bindA_done reading_done returnA_done store_call_done authorize_done append_audit_done optional_check_done

text \<open>The rows of role sessions but for the time of their revocation.\<close>

definition session_grant :: "role_session \<Rightarrow> uuid \<times> uuid \<times> uuid \<times> uuid \<times> uuid \<times> str \<times> datetime \<times> digest \<times> center_link option" where
  "session_grant x = (rs_id x, rs_organization_id x, rs_role_principal_id x, rs_source_organization_id x, rs_source_principal_id x,
     rs_source_arn x, rs_expires_at x, rs_token_hash x, rs_link x)"

lemma revoke_sessions_grants: "session_grant ` set (role_sessions (revoke_sessions now P rt)) = session_grant ` set (role_sessions rt)"
proof -
  have "role_sessions (revoke_sessions now P rt) = map (\<lambda>s. if P s \<and> rs_revoked_at s = None then s\<lparr>rs_revoked_at := Some now\<rparr> else s)
      (role_sessions rt)" by (simp add: revoke_sessions_def)
  then show ?thesis by (simp only:) (rule map_image_same, simp add: session_grant_def)
qed

lemma switch_console_grants:
  assumes "switch_console E switch account role i s = (Inr u, s')"
  shows "session_grant ` set (role_sessions (db_roles s')) = session_grant ` set (role_sessions (db_roles s))"
proof (cases switch)
  case None
  then show ?thesis using assms unfolding switch_console_def by simp
next
  case (Some p)
  obtain b previous where p: "p = (b, previous)" by (cases p)
  obtain rt cr where x: "switch_browser_role (en_now E) (bs_token_hash b) previous i (db_iam s) (db_roles s) (db_creds s) = Inr (rt, cr)"
    "s' = s\<lparr>db_roles := rt, db_creds := cr\<rparr>"
    using assms Some p unfolding switch_console_def by (auto split: sum.splits)
  then have "rt = (case previous of None \<Rightarrow> db_roles s | Some i \<Rightarrow> revoke_sessions (en_now E) (\<lambda>s. rs_id s = i) (db_roles s))"
    unfolding switch_browser_role_def Let_def by (auto simp: bindE_Inr_iff)
  then show ?thesis using x(2) by (cases previous) (simp_all add: revoke_sessions_grants)
qed

definition assumed :: "'n api_env \<Rightarrow> uuid \<Rightarrow> authorization_context \<Rightarrow> role_row \<Rightarrow> str \<Rightarrow> int \<Rightarrow> str \<Rightarrow> uuid \<Rightarrow> role_session \<Rightarrow> bool" where
  "assumed E source cx role arn duration token sid x \<longleftrightarrow>
     rs_id x = sid \<and> rs_organization_id x = ro_organization_id role \<and> rs_role_principal_id x = ro_principal_id role
     \<and> rs_source_organization_id x = source \<and> rs_source_principal_id x = ctx_principal_id cx \<and> rs_source_arn x = arn
     \<and> rs_expires_at x = en_now E + seconds duration \<and> rs_token_hash x = token_hash E token \<and> rs_link x = None"

lemma created_session_row:
  assumes "create_iam_role_session i now n db cr rt = Inr (sid, rt')"
  shows "\<exists>x role. x \<in> set (role_sessions rt') \<and> session_grant x = (i, nr_organization_id n, nr_role_principal_id n, nr_source_organization_id n,
      nr_source_principal_id n, nr_source_arn n, nr_expires_at n, nr_token_hash n, None) \<and> sid = i \<and> role \<in> set (iam_roles rt)
    \<and> ro_organization_id role = nr_organization_id n \<and> ro_principal_id role = nr_role_principal_id n
    \<and> ro_trust_policy role = nr_expected_trust_policy n \<and> nr_duration_seconds n \<le> ro_max_session_seconds role"
proof -
  obtain role x where role: "find (\<lambda>r. ro_organization_id r = nr_organization_id n \<and> ro_principal_id r = nr_role_principal_id n
       \<and> enabled_principal db (ro_principal_id r) (ro_organization_id r)) (iam_roles rt) = Some role"
    and r: "ro_trust_policy role = nr_expected_trust_policy n" "nr_duration_seconds n \<le> ro_max_session_seconds role" "sid = i"
    and x: "insert_role_session now x cr rt = Inr rt'" "session_grant x = (i, nr_organization_id n, nr_role_principal_id n,
      nr_source_organization_id n, nr_source_principal_id n, nr_source_arn n, nr_expires_at n, nr_token_hash n, None)"
    using assms unfolding create_iam_role_session_def session_grant_def by (fastforce simp: bindE_Inr_iff)
  have "x \<in> set (role_sessions rt')" unfolding inserted_session_cases [OF x(1)] by simp
  then show ?thesis using find_eq_Some [OF role] r x(2) by blast
qed

lemma validated_stored_trust:
  assumes "validate_role_trust E (en_trust_json E doc) = Inr trust" "en_decode_trust E (en_trust_json E doc) = Inr doc"
  shows "trust = doc"
  using assms unfolding validate_role_trust_def by (auto simp: bindE_Inr_iff)

lemma found_role:
  assumes "find_iam_role db rt number name = Some (role, arn)"
  shows "role \<in> set (iam_roles rt) \<and> ro_name role = name
    \<and> (\<exists>a \<in> set (organizations db). ac_id a = ro_organization_id role \<and> nat_to_string (ac_number a) = number)"
proof -
  obtain r where r: "find (\<lambda>r. ro_name r = name \<and> list_ex (\<lambda>a. ac_id a = ro_organization_id r
      \<and> nat_to_string (ac_number a) = number) (organizations db)) (iam_roles rt) = Some r" "role = r"
    using assms unfolding find_iam_role_def by (auto split: option.splits)
  show ?thesis using find_eq_Some [OF r(1)] r(2) unfolding list_ex_iff by auto
qed

text \<open>What the handler checked and did when it returns a session.\<close>

lemma assume_route_done:
  assumes run: "assume_iam_role_route E rq source input s = (Inr (sid, token), s')"
  obtains c cx events role number arn secret switch target name policy trust rarn s1 where
    "authenticated_actor_mutation E rq s = Inr c"
    "\<not> (case c of CallerRole x _ \<Rightarrow> rs_link x \<noteq> None | _ \<Rightarrow> False)"
    "parse_iam_role_arn (ai_role_arn input) = Inr (target, name)"
    "check_assume_input input c = Inr ()"
    "authorize_actor_with_implicit_allow (en_chrono E) (db_iam s) (actor_of c) source (lit ''sts:AssumeRole'') (ai_role_arn input)
        False (en_now E) (audit_events (db_store s)) = (Inr cx, events)"
    "iam_principal_arn (db_iam s) (db_roles s) source (ctx_principal_id cx) = Some (number, arn)"
    "find_iam_role (db_iam s) (db_roles s) target name = Some (role, rarn)"
    "\<not> is_identity_center_role (db_roles s) (ro_organization_id role) (ro_principal_id role)"
    "validate_role_trust E (en_trust_json E (ro_trust_policy role)) = Inr trust" "permits trust number arn = Inr True"
    "create_iam_role_session (en_gen E 0) (en_now E) (assumed_row E source cx role arn input policy (lit ''hcr_'' @ secret))
      (db_iam s) (db_creds s) (db_roles s) = Inr (sid, db_roles s1)"
    "switch_console E switch (ro_organization_id role) (ro_principal_id role) sid s1 = (Inr (), s')"
    "token = (if switch = None then Some (lit ''hcr_'' @ secret) else None)"
  using run unfolding assume_iam_role_route_def route_defs Let_def
  apply (auto simp: handler_done bindE_Inr_iff simp del: split_paired_Ex)
  apply (rule that)
             apply assumption+
   apply simp_all
  done

text \<open>C17: A role is only ever assumed by a caller that is authenticated, is not itself a session of the identity center, is allowed
  \<open>sts:AssumeRole\<close> on the role in its own account, and is permitted by the trust policy of the role; the role is not one that the
  identity center manages. The session that comes into being is of this role and this caller, carries only the digest of the
  token, ends within the maximum duration of the role and within twelve hours, and within one hour when a session assumes it.\<close>

theorem assumed_session_is_trusted:
  assumes run: "assume_iam_role_route E rq source input s = (Inr (sid, token), s')"
    and stored: "\<And>r. r \<in> set (iam_roles (db_roles s)) \<Longrightarrow> en_decode_trust E (en_trust_json E (ro_trust_policy r)) = Inr (ro_trust_policy r)"
  shows "\<exists>c cx events role number arn secret x.
    authenticated_actor_mutation E rq s = Inr c \<and> caller_holds E rq s c
    \<and> (\<forall>y b. c = CallerRole y b \<longrightarrow> rs_link y = None \<and> ai_duration_seconds input \<le> 3600)
    \<and> authorize_actor_with_implicit_allow (en_chrono E) (db_iam s) (actor_of c) source (lit ''sts:AssumeRole'') (ai_role_arn input)
        False (en_now E) (audit_events (db_store s)) = (Inr cx, events)
    \<and> role \<in> set (iam_roles (db_roles s))
    \<and> \<not> is_identity_center_role (db_roles s) (ro_organization_id role) (ro_principal_id role)
    \<and> (\<exists>a \<in> set (organizations (db_iam s)). ac_id a = ro_organization_id role
         \<and> parse_iam_role_arn (ai_role_arn input) = Inr (nat_to_string (ac_number a), ro_name role))
    \<and> iam_principal_arn (db_iam s) (db_roles s) source (ctx_principal_id cx) = Some (number, arn)
    \<and> permits (ro_trust_policy role) number arn = Inr True
    \<and> x \<in> set (role_sessions (db_roles s'))
    \<and> assumed E source cx role arn (ai_duration_seconds input) (lit ''hcr_'' @ secret) sid x
    \<and> (token = None \<or> token = Some (lit ''hcr_'' @ secret))
    \<and> (\<exists>role' \<in> set (iam_roles (db_roles s)). ro_principal_id role' = ro_principal_id role
         \<and> ro_organization_id role' = ro_organization_id role \<and> ai_duration_seconds input \<le> ro_max_session_seconds role')
    \<and> ai_duration_seconds input \<le> 43200"
proof -
  obtain c cx events role number arn secret switch target name policy trust rarn s1 where
    c: "authenticated_actor_mutation E rq s = Inr c" and
    plain: "\<not> (case c of CallerRole x _ \<Rightarrow> rs_link x \<noteq> None | _ \<Rightarrow> False)" and
    target: "parse_iam_role_arn (ai_role_arn input) = Inr (target, name)" and
    input: "check_assume_input input c = Inr ()" and
    auth: "authorize_actor_with_implicit_allow (en_chrono E) (db_iam s) (actor_of c) source (lit ''sts:AssumeRole'') (ai_role_arn input)
        False (en_now E) (audit_events (db_store s)) = (Inr cx, events)" and
    arn: "iam_principal_arn (db_iam s) (db_roles s) source (ctx_principal_id cx) = Some (number, arn)" and
    role: "find_iam_role (db_iam s) (db_roles s) target name = Some (role, rarn)" and
    plain_role: "\<not> is_identity_center_role (db_roles s) (ro_organization_id role) (ro_principal_id role)" and
    trust: "validate_role_trust E (en_trust_json E (ro_trust_policy role)) = Inr trust" "permits trust number arn = Inr True" and
    made: "create_iam_role_session (en_gen E 0) (en_now E) (assumed_row E source cx role arn input policy (lit ''hcr_'' @ secret))
      (db_iam s) (db_creds s) (db_roles s) = Inr (sid, db_roles s1)" and
    switch: "switch_console E switch (ro_organization_id role) (ro_principal_id role) sid s1 = (Inr (), s')" and
    token: "token = (if switch = None then Some (lit ''hcr_'' @ secret) else None)"
    by (rule assume_route_done [OF run])
  obtain x role' where x: "x \<in> set (role_sessions (db_roles s1))" "assumed E source cx role arn (ai_duration_seconds input) (lit ''hcr_'' @ secret) sid x"
    and role': "role' \<in> set (iam_roles (db_roles s))" "ro_principal_id role' = ro_principal_id role"
      "ro_organization_id role' = ro_organization_id role" "ai_duration_seconds input \<le> ro_max_session_seconds role'"
    using created_session_row [OF made] unfolding assumed_def assumed_row_def session_grant_def by auto
  have "session_grant x \<in> session_grant ` set (role_sessions (db_roles s'))"
    unfolding switch_console_grants [OF switch] using x(1) by (rule imageI)
  then obtain y where y: "y \<in> set (role_sessions (db_roles s'))" "session_grant y = session_grant x" by force
  have "assumed E source cx role arn (ai_duration_seconds input) (lit ''hcr_'' @ secret) sid y"
    using x(2) y(2) unfolding assumed_def session_grant_def by simp
  moreover have "ro_trust_policy role = trust" 
    using validated_stored_trust [OF trust(1)] stored found_role [OF role] by blast
  moreover have "ai_duration_seconds input \<le> 43200" "\<forall>y b. c = CallerRole y b \<longrightarrow> rs_link y = None \<and> ai_duration_seconds input \<le> 3600"
    using input plain unfolding check_assume_input_def by (auto simp: bindE_Inr_iff)
  moreover have "token = None \<or> token = Some (lit ''hcr_'' @ secret)" using token by simp
  moreover have "\<exists>a \<in> set (organizations (db_iam s)). ac_id a = ro_organization_id role
      \<and> parse_iam_role_arn (ai_role_arn input) = Inr (nat_to_string (ac_number a), ro_name role)"
    using found_role [OF role] target by auto
  ultimately show ?thesis
    using c auth plain_role arn trust(2) role' y(1) found_role [OF role] authenticated_actor_mutation_holds [OF c]
    by (intro exI [of _ c] exI [of _ cx] exI [of _ events] exI [of _ role] exI [of _ number] exI [of _ arn] exI [of _ secret]
        exI [of _ y] conjI) (simp_all, blast+)
qed

subsection \<open>Example\<close>

definition demo_console :: "role_tables \<Rightarrow> api_state" where
  "demo_console rt = demo_api rt (no_credentials\<lparr>sessions := [demo_browser None]\<rparr>)
     \<lparr>db_store := demo_store\<lparr>iam := demo_directory
       \<lparr>organizations := [\<lparr>ac_id = 3, ac_slug = [], ac_name = [], ac_number = 123456789012\<rparr>],
        principals := principals demo_directory @ [service_account 51 3 (lit ''ops'') None],
        memberships := [\<lparr>m_organization_id = 3, m_user_id = 7, m_principal_id = 4, m_role = lit ''owner'', m_membership_id = 5\<rparr>]\<rparr>\<rparr>\<rparr>"

definition demo_ops :: role_row where
  "demo_ops = \<lparr>ro_principal_id = 51, ro_organization_id = 3, ro_name = lit ''ops'', ro_trust_policy = demo_trust,
     ro_max_session_seconds = 3600\<rparr>"

definition demo_console_request :: http_request where
  "demo_console_request = no_headers\<lparr>rq_origin := Some (HeaderText [111]),
     rq_csrf := Some (HeaderText (lit ''heterocloud-csrf-v1'' @ [0, 120])), rq_session_cookie := Some [120]\<rparr>"

definition demo_assume :: assume_input where
  "demo_assume = \<lparr>ai_role_arn = lit ''arn:aws:iam::123456789012:role/ops'', ai_session_name = lit ''deploy'',
     ai_duration_seconds = 900, ai_session_policy = None, ai_switch_console = False\<rparr>"

lemma demo_assumes:
  "fst (assume_iam_role_route demo_env demo_console_request 3 demo_assume (demo_console (no_role_tables\<lparr>iam_roles := [demo_ops]\<rparr>)))
     = Inr (100, Some (lit ''hcr_'' @ [0]))"
  by code_simp

theorem assumed_session_is_trusted_witness:
  "\<exists>s' x. assume_iam_role_route demo_env demo_console_request 3 demo_assume (demo_console (no_role_tables\<lparr>iam_roles := [demo_ops]\<rparr>))
       = (Inr (100, Some (lit ''hcr_'' @ [0])), s')
     \<and> x \<in> set (role_sessions (db_roles s')) \<and> rs_id x = 100 \<and> rs_role_principal_id x = 51 \<and> rs_link x = None
     \<and> rs_expires_at x = 1 + seconds 900"
proof -
  let ?s = "demo_console (no_role_tables\<lparr>iam_roles := [demo_ops]\<rparr>)"
  obtain s' where run: "assume_iam_role_route demo_env demo_console_request 3 demo_assume ?s = (Inr (100, Some (lit ''hcr_'' @ [0])), s')"
    using demo_assumes by (metis prod.collapse)
  have roles: "iam_roles (db_roles ?s) = [demo_ops]" by (simp add: demo_console_def demo_api_def)
  have "en_decode_trust demo_env (en_trust_json demo_env (ro_trust_policy r)) = Inr (ro_trust_policy r)" if "r \<in> set (iam_roles (db_roles ?s))" for r
    using that roles by (simp add: demo_ops_def demo_env_def)
  from assumed_session_is_trusted [OF run this] obtain cx role arn token x where
    "role \<in> set (iam_roles (db_roles ?s))" "x \<in> set (role_sessions (db_roles s'))"
    "assumed demo_env 3 cx role arn (ai_duration_seconds demo_assume) token 100 x" by blast
  then show ?thesis using run roles unfolding assumed_def by (auto simp: demo_ops_def demo_assume_def demo_env_def)
qed

end
