(* ===== verification/Organization_Routes.thy ===== *)
theory Organization_Routes
  imports IAM_Routes
begin

text \<open>
  The request handlers of the identity center (\<open>src/crates/heterocloud-api/src/identity_center_routes.rs\<close>)
  and of accounts and cloud organizations (\<open>routes.rs\<close>), and one dispatcher over these and the handlers
  of IAM: whatever such a request changes, it changes for a caller that was authenticated and authorized.
\<close>

subsection \<open>The identity center\<close>

definition require_management_at :: "'n api_env \<Rightarrow> caller \<Rightarrow> uuid \<Rightarrow> str \<Rightarrow> str \<Rightarrow> unit handler" where
  "require_management_at E actor account action path =
     bindA (reading (\<lambda>s. ok_or (cloud_organization_for_account (db_iam s) account) ApiNotFound)) (\<lambda>(_, management).
     bindA (reading (\<lambda>_. fail_if (management \<noteq> account) ApiForbidden)) (\<lambda>_.
     bindA (authorize_actor E actor account action (organization_resource account path)) (\<lambda>_.
     require_flag identity_center_enabled)))"

fun human_of :: "caller \<Rightarrow> uuid \<Rightarrow> uuid option" where
  "human_of (CallerUser b) account = Some (u_id (bs_user b))"
| "human_of (CallerCli t u _) account = (if ct_organization_id t = account then Some (u_id u) else None)"
| "human_of _ account = None"

definition require_human :: "'n api_env \<Rightarrow> caller \<Rightarrow> uuid \<Rightarrow> str \<Rightarrow> str \<Rightarrow> uuid handler" where
  "require_human E actor account action path =
     bindA (reading (\<lambda>_. ok_or (human_of actor account) ApiForbidden)) (\<lambda>user.
     bindA (reading (\<lambda>s. ok_or (cloud_organization_for_account (db_iam s) account) ApiNotFound)) (\<lambda>(_, management).
     bindA (reading (\<lambda>_. fail_if (management \<noteq> account) ApiForbidden)) (\<lambda>_.
     bindA (authorize_actor_with_implicit E actor account action (organization_resource account path) True) (\<lambda>_.
     bindA (require_flag identity_center_enabled) (\<lambda>_.
     returnA user)))))"

definition validate_duration :: "int \<Rightarrow> api_error + unit" where
  "validate_duration duration =
     fail_if (\<not> (3600 \<le> duration \<and> duration \<le> 43200))
       (ApiBadRequest ''Session duration must be between one and twelve hours.'')"

definition validate_set_name :: "str \<Rightarrow> api_error + unit" where
  "validate_set_name name =
     fail_if (name = [] \<or> str_len name > 32 \<or> \<not> list_all iam_name_byte (as_bytes name))
       (ApiBadRequest ''Permission set names must use 1 to 32 ASCII letters, numbers, or +=,.@_-.'')"

definition create_permission_set_route ::
    "'n api_env \<Rightarrow> http_request \<Rightarrow> uuid \<Rightarrow> str \<Rightarrow> json \<Rightarrow> int \<Rightarrow> permission_set handler" where
  "create_permission_set_route E rq account name v duration =
     bindA (reading (authenticated_actor_mutation E rq)) (\<lambda>actor.
     bindA (reading (\<lambda>_. validate_set_name name)) (\<lambda>_.
     bindA (require_management_at E actor account (lit ''sso:CreatePermissionSet'') (lit ''identity-center/permission-set/'' @ name)) (\<lambda>_.
     bindA (reading (\<lambda>_. validate_duration duration)) (\<lambda>_.
     bindA (reading (\<lambda>_. parse_policy_document E v)) (\<lambda>document.
     bindA (require_policy_conditions_enabled document) (\<lambda>_.
     roles_call (create_identity_center_permission_set (en_lower E) (en_gen E 0) account name document duration)))))))"

definition update_permission_set_route :: "'n api_env \<Rightarrow> http_request \<Rightarrow> uuid \<Rightarrow> uuid \<Rightarrow> json \<Rightarrow> int \<Rightarrow> unit handler" where
  "update_permission_set_route E rq account ps v duration =
     bindA (reading (authenticated_actor_mutation E rq)) (\<lambda>actor.
     bindA (require_management_at E actor account (lit ''sso:UpdatePermissionSet'') (iam_path ''identity-center/permission-set/'' ps)) (\<lambda>_.
     bindA (reading (\<lambda>_. validate_duration duration)) (\<lambda>_.
     bindA (reading (\<lambda>_. parse_policy_document E v)) (\<lambda>document.
     bindA (require_policy_conditions_enabled document) (\<lambda>_.
     store_call (\<lambda>s. bindE (update_identity_center_permission_set account ps document duration (db_iam s) (db_roles s))
       (\<lambda>(db, rt). Inr ((), (set_iam db s)\<lparr>db_roles := rt\<rparr>))))))))"

definition delete_permission_set_route :: "'n api_env \<Rightarrow> http_request \<Rightarrow> uuid \<Rightarrow> uuid \<Rightarrow> unit handler" where
  "delete_permission_set_route E rq account ps =
     bindA (reading (authenticated_actor_mutation E rq)) (\<lambda>actor.
     bindA (require_management_at E actor account (lit ''sso:DeletePermissionSet'') (iam_path ''identity-center/permission-set/'' ps)) (\<lambda>_.
     roles_call (\<lambda>db rt. bindE (delete_identity_center_permission_set (en_now E) account ps db rt) (\<lambda>rt1. Inr ((), rt1)))))"

definition create_center_group_route :: "'n api_env \<Rightarrow> http_request \<Rightarrow> uuid \<Rightarrow> str \<Rightarrow> uuid handler" where
  "create_center_group_route E rq account name =
     bindA (reading (authenticated_actor_mutation E rq)) (\<lambda>actor.
     bindA (reading (\<lambda>_. validate_name name)) (\<lambda>_.
     bindA (require_management_at E actor account (lit ''identitystore:CreateGroup'') (lit ''identity-center/group/*'')) (\<lambda>_.
     roles_call (create_identity_center_group (en_lower E) (en_gen E 0) account name))))"

definition delete_center_group_route :: "'n api_env \<Rightarrow> http_request \<Rightarrow> uuid \<Rightarrow> uuid \<Rightarrow> unit handler" where
  "delete_center_group_route E rq account gid =
     bindA (reading (authenticated_actor_mutation E rq)) (\<lambda>actor.
     bindA (require_management_at E actor account (lit ''identitystore:DeleteGroup'') (iam_path ''identity-center/group/'' gid)) (\<lambda>_.
     roles_call (\<lambda>db rt. bindE (delete_identity_center_group (en_now E) account gid db rt) (\<lambda>rt1. Inr ((), rt1)))))"

definition group_user_route :: "'n api_env \<Rightarrow> http_request \<Rightarrow> uuid \<Rightarrow> uuid \<Rightarrow> uuid \<Rightarrow> bool \<Rightarrow> unit handler" where
  "group_user_route E rq account gid user add =
     bindA (reading (authenticated_actor_mutation E rq)) (\<lambda>actor.
     bindA (require_management_at E actor account
              (if add then lit ''identitystore:CreateGroupMembership'' else lit ''identitystore:DeleteGroupMembership'')
              (iam_path ''identity-center/group/'' gid @ iam_path ''/user/'' user)) (\<lambda>_.
     store_call (\<lambda>s. bindE (change_identity_center_group_member (en_gen E) account gid user add (db_iam s) (db_roles s))
       (\<lambda>(db, rt). Inr ((), (set_iam db s)\<lparr>db_roles := rt\<rparr>)))))"

definition parse_subject_type :: "str \<Rightarrow> api_error + center_subject" where
  "parse_subject_type t =
     (if t = lit ''user'' then Inr SubjectUser
      else if t = lit ''group'' then Inr SubjectGroup
      else Inl (ApiBadRequest ''Subject type must be user or group.''))"

definition create_assignment_route ::
    "'n api_env \<Rightarrow> http_request \<Rightarrow> uuid \<Rightarrow> uuid \<Rightarrow> uuid \<Rightarrow> str \<Rightarrow> uuid \<Rightarrow> uuid handler" where
  "create_assignment_route E rq account ps target subject_type subject =
     bindA (reading (authenticated_actor_mutation E rq)) (\<lambda>actor.
     bindA (require_management_at E actor account (lit ''sso:CreateAccountAssignment'')
              (iam_path ''identity-center/account/'' target @ iam_path ''/permission-set/'' ps @ iam_path ''/subject/'' subject)) (\<lambda>_.
     bindA (reading (\<lambda>_. parse_subject_type subject_type)) (\<lambda>ty.
     store_call (\<lambda>s. bindE (create_identity_center_assignment (en_gen E) account ps target ty subject (db_iam s) (db_roles s))
       (\<lambda>(aid, db, rt). Inr (aid, (set_iam db s)\<lparr>db_roles := rt\<rparr>))))))"

definition revoke_assignment_route :: "'n api_env \<Rightarrow> http_request \<Rightarrow> uuid \<Rightarrow> uuid \<Rightarrow> unit handler" where
  "revoke_assignment_route E rq account aid =
     bindA (reading (authenticated_actor_mutation E rq)) (\<lambda>actor.
     bindA (require_management_at E actor account (lit ''sso:DeleteAccountAssignment'') (iam_path ''identity-center/assignment/'' aid)) (\<lambda>_.
     roles_call (\<lambda>db rt. bindE (revoke_identity_center_assignment (en_now E) account aid db rt) (\<lambda>rt1. Inr ((), rt1)))))"

definition start_identity_center_session_route ::
    "'n api_env \<Rightarrow> http_request \<Rightarrow> uuid \<Rightarrow> uuid \<Rightarrow> bool \<Rightarrow> (role_session \<times> str option) handler" where
  "start_identity_center_session_route E rq account aid to_console =
     bindA (reading (authenticated_actor_mutation E rq)) (\<lambda>actor.
     bindA (require_human E actor account (lit ''sso:StartAccountSession'') (iam_path ''identity-center/self/assignment/'' aid)) (\<lambda>user.
     bindA (reading (\<lambda>_. if to_console then (case actor of CallerUser b \<Rightarrow> Inr (Some (b, None)) | _ \<Rightarrow> Inl ApiForbidden) else Inr None)) (\<lambda>switch.
     bindA (reading (\<lambda>_. new_secret E 0)) (\<lambda>secret.
     (let token = lit ''hcr_'' @ secret in
     bindA (store_call (\<lambda>s. bindE (create_identity_center_session (en_gen E 0) (en_now E) account aid user (token_hash E token)
              (db_iam s) (db_creds s) (db_roles s)) (\<lambda>(x, rt). Inr (x, s\<lparr>db_roles := rt\<rparr>)))) (\<lambda>x.
     bindA (switch_console E switch (rs_organization_id x) (rs_role_principal_id x) (rs_id x)) (\<lambda>_.
     returnA (x, if switch = None then Some token else None))))))))"

subsection \<open>Accounts and cloud organizations\<close>

definition validate_slug :: "str \<Rightarrow> api_error + unit" where
  "validate_slug slug =
     (let bytes = as_bytes slug in
      fail_if (\<not> (3 \<le> length bytes \<and> length bytes \<le> 63) \<or> \<not> first_is is_ascii_lowercase bytes
               \<or> \<not> last_is (\<lambda>b. is_ascii_lowercase b \<or> is_ascii_digit b) bytes
               \<or> \<not> list_all (\<lambda>b. is_ascii_lowercase b \<or> is_ascii_digit b \<or> b = 45) bytes)
        (ApiBadRequest ''slug must be a 3..63 character lowercase DNS label''))"

definition rename_account :: "uuid \<Rightarrow> str \<Rightarrow> iam_tables \<Rightarrow> store_error + account_row \<times> iam_tables" where
  "rename_account account name db =
     bindE (ok_or (find (\<lambda>a. ac_id a = account) (organizations db)) NotFound) (\<lambda>a.
     Inr (a\<lparr>ac_name := name\<rparr>, db\<lparr>organizations := map (\<lambda>a. if ac_id a = account then a\<lparr>ac_name := name\<rparr> else a) (organizations db)\<rparr>))"

definition rename_account_route :: "'n api_env \<Rightarrow> http_request \<Rightarrow> uuid \<Rightarrow> str \<Rightarrow> account_row handler" where
  "rename_account_route E rq account name =
     bindA (reading (authenticated_actor_mutation E rq)) (\<lambda>actor.
     bindA (reading (\<lambda>_. validate_name (trim name))) (\<lambda>_.
     bindA (authorize_actor E actor account (lit ''account:PutAccountName'') (organization_resource account (lit ''account/*''))) (\<lambda>_.
     iam_call (rename_account account (trim name)))))"

definition rename_cloud_account_route :: "'n api_env \<Rightarrow> http_request \<Rightarrow> uuid \<Rightarrow> uuid \<Rightarrow> str \<Rightarrow> unit handler" where
  "rename_cloud_account_route E rq management account name =
     bindA (reading (authenticated_actor_mutation E rq)) (\<lambda>actor.
     bindA (reading (\<lambda>_. validate_name (trim name))) (\<lambda>_.
     bindA (authorize_actor E actor management (lit ''account:PutAccountName'')
              (organization_resource management (iam_path ''organization/accounts/'' account))) (\<lambda>_.
     iam_change (rename_cloud_account management account (trim name)))))"

definition rename_cloud_unit_route :: "'n api_env \<Rightarrow> http_request \<Rightarrow> uuid \<Rightarrow> uuid \<Rightarrow> str \<Rightarrow> unit handler" where
  "rename_cloud_unit_route E rq management unit name =
     bindA (reading (authenticated_actor_mutation E rq)) (\<lambda>actor.
     bindA (reading (\<lambda>_. validate_name (trim name))) (\<lambda>_.
     bindA (authorize_actor E actor management (lit ''organizations:UpdateOrganizationalUnit'')
              (organization_resource management (iam_path ''organization/units/'' unit))) (\<lambda>_.
     iam_change (rename_cloud_unit (en_lower E) management unit (trim name)))))"

definition create_service_control_policy_route :: "'n api_env \<Rightarrow> http_request \<Rightarrow> uuid \<Rightarrow> str \<Rightarrow> json \<Rightarrow> scp_policy handler" where
  "create_service_control_policy_route E rq account name v =
     bindA (reading (authenticated_actor_mutation E rq)) (\<lambda>actor.
     bindA (reading (\<lambda>_. validate_name name)) (\<lambda>_.
     bindA (reading (\<lambda>_. fail_if (en_json_size E v > 10240)
              (ApiBadRequest ''Service control policies are limited to 10,240 characters.''))) (\<lambda>_.
     bindA (reading (\<lambda>_. parse_policy_document E v)) (\<lambda>document.
     bindA (require_policy_conditions_enabled document) (\<lambda>_.
     bindA (authorize_actor E actor account (lit ''organizations:CreatePolicy'') (organization_resource account (lit ''organization/*''))) (\<lambda>_.
     bindA require_service_control_enabled (\<lambda>_.
     iam_call (create_service_control_policy (en_gen E 0) account name document))))))))"

definition modify_service_control_policy_attachment_route ::
    "'n api_env \<Rightarrow> http_request \<Rightarrow> uuid \<Rightarrow> uuid \<Rightarrow> str \<Rightarrow> uuid \<Rightarrow> bool \<Rightarrow> unit handler" where
  "modify_service_control_policy_attachment_route E rq account policy target_type target_id attach =
     bindA (reading (authenticated_actor_mutation E rq)) (\<lambda>actor.
     bindA (authorize_actor E actor account (if attach then lit ''organizations:AttachPolicy'' else lit ''organizations:DetachPolicy'')
              (organization_resource account (lit ''organization/*''))) (\<lambda>_.
     bindA require_service_control_enabled (\<lambda>_.
     iam_change (change_service_control_attachment account target_type target_id policy attach))))"

definition create_cloud_organizational_unit_route :: "'n api_env \<Rightarrow> http_request \<Rightarrow> uuid \<Rightarrow> uuid \<Rightarrow> str \<Rightarrow> unit_row handler" where
  "create_cloud_organizational_unit_route E rq account parent name =
     bindA (reading (authenticated_actor_mutation E rq)) (\<lambda>actor.
     bindA (reading (\<lambda>_. validate_name name)) (\<lambda>_.
     bindA (authorize_actor E actor account (lit ''organizations:CreateOrganizationalUnit'')
              (organization_resource account (lit ''organization/*''))) (\<lambda>_.
     iam_call (create_cloud_organizational_unit (en_lower E) (en_gen E 0) account parent name))))"

fun person_of :: "caller \<Rightarrow> uuid option" where
  "person_of (CallerUser b) = Some (u_id (bs_user b))"
| "person_of (CallerCli _ u _) = Some (u_id u)"
| "person_of _ = None"

definition create_cloud_member_account_route :: "'n api_env \<Rightarrow> http_request \<Rightarrow> uuid \<Rightarrow> uuid \<Rightarrow> str \<Rightarrow> str \<Rightarrow> account_row handler" where
  "create_cloud_member_account_route E rq account parent name slug =
     bindA (reading (authenticated_actor_mutation E rq)) (\<lambda>actor.
     bindA (reading (\<lambda>_. validate_slug slug)) (\<lambda>_.
     bindA (reading (\<lambda>_. validate_name name)) (\<lambda>_.
     bindA (authorize_actor E actor account (lit ''organizations:CreateAccount'') (organization_resource account (lit ''organization/*''))) (\<lambda>_.
     bindA (reading (\<lambda>_. ok_or (person_of actor) ApiForbidden)) (\<lambda>user.
     store_call (\<lambda>s. bindE (create_cloud_member_account (en_gen E) (en_now E) (en_account_number E) account parent user slug name (db_store s))
       (\<lambda>(a, st). Inr (a, s\<lparr>db_store := st\<rparr>))))))))"

definition move_cloud_member_account_route :: "'n api_env \<Rightarrow> http_request \<Rightarrow> uuid \<Rightarrow> uuid \<Rightarrow> uuid \<Rightarrow> unit handler" where
  "move_cloud_member_account_route E rq management account parent =
     bindA (reading (authenticated_actor_mutation E rq)) (\<lambda>actor.
     bindA (authorize_actor E actor management (lit ''organizations:MoveAccount'') (organization_resource management (lit ''organization/*''))) (\<lambda>_.
     iam_change (move_cloud_member_account management account parent)))"

text \<open>Only a person in the console creates an account outside the organization of their credential.\<close>

definition create_organization_route :: "'n api_env \<Rightarrow> http_request \<Rightarrow> str \<Rightarrow> str \<Rightarrow> account_row handler" where
  "create_organization_route E rq slug name =
     bindA (reading (authenticated_actor_mutation E rq)) (\<lambda>actor.
     bindA (reading (\<lambda>_. validate_slug slug)) (\<lambda>_.
     bindA (reading (\<lambda>_. validate_name name)) (\<lambda>_.
     bindA (reading (\<lambda>_. case actor of CallerUser b \<Rightarrow> Inr (u_id (bs_user b)) | _ \<Rightarrow> Inl ApiForbidden)) (\<lambda>user.
     iam_call (create_organization (en_gen E) (en_account_number E) user slug name)))))"

definition join_organization_route :: "'n api_env \<Rightarrow> http_request \<Rightarrow> str \<Rightarrow> account_row handler" where
  "join_organization_route E rq code =
     bindA (reading (\<lambda>_. fail_if (rq_authorization rq \<noteq> None) ApiForbidden)) (\<lambda>_.
     bindA (reading (authenticated_mutation E rq)) (\<lambda>b.
     bindA (reading (\<lambda>_. fail_if (code = [] \<or> str_len code > 256)
              (ApiBadRequest ''The invitation is invalid or no longer available.''))) (\<lambda>_.
     store_call (\<lambda>s. bindE (join_organization_with_invitation (en_gen E) (en_now E) (u_id (bs_user b)) (token_hash E code) (db_iam s) (db_creds s))
       (\<lambda>(account, db, cr). Inr (account, (set_iam db s)\<lparr>db_creds := cr\<rparr>))))))"

subsection \<open>Requests on an account\<close>

datatype api_request =
    CreateRole str json int
  | UpdateRoleTrust uuid json
  | DeleteRole uuid
  | RevokeRoleSession uuid uuid
  | AssumeRole assume_input
  | SetBoundary uuid "uuid option"
  | CreateGroup str
  | DeleteGroup uuid
  | ChangeGroupMember uuid uuid bool
  | ChangeGroupPolicy uuid uuid bool
  | CreateServiceAccount str
  | SetServiceAccountEnabled uuid bool
  | CreatePolicy str json
  | CreateBinding uuid uuid
  | DeleteBinding uuid
  | CreateApiKey uuid str "int option"
  | RevokeApiKey uuid uuid
  | CreatePermissionSet str json int
  | UpdatePermissionSet uuid json int
  | DeletePermissionSet uuid
  | CreateCenterGroup str
  | DeleteCenterGroup uuid
  | ChangeCenterMember uuid uuid bool
  | CreateAssignment uuid uuid str uuid
  | RevokeAssignment uuid
  | StartCenterSession uuid bool
  | RenameAccount str
  | RenameCloudAccount uuid str
  | RenameCloudUnit uuid str
  | CreateServiceControlPolicy str json
  | ChangeServiceControlAttachment uuid str uuid bool
  | CreateUnit uuid str
  | CreateMemberAccount uuid str str
  | MoveAccount uuid uuid

definition discard :: "'a handler \<Rightarrow> unit handler" where
  "discard m = bindA m (\<lambda>_. returnA ())"

fun handle_request :: "'n api_env \<Rightarrow> http_request \<Rightarrow> uuid \<Rightarrow> api_request \<Rightarrow> unit handler" where
  "handle_request E rq account (CreateRole name trust d) = discard (create_iam_role_route E rq account name trust d)"
| "handle_request E rq account (UpdateRoleTrust prin trust) = update_iam_role_trust_route E rq account prin trust"
| "handle_request E rq account (DeleteRole prin) = delete_iam_role_route E rq account prin"
| "handle_request E rq account (RevokeRoleSession prin i) = revoke_iam_role_session_route E rq account prin i"
| "handle_request E rq account (AssumeRole input) = discard (assume_iam_role_route E rq account input)"
| "handle_request E rq account (SetBoundary prin policy) = change_permissions_boundary_route E rq account prin policy"
| "handle_request E rq account (CreateGroup name) = discard (create_iam_group_route E rq account name)"
| "handle_request E rq account (DeleteGroup gid) = delete_iam_group_route E rq account gid"
| "handle_request E rq account (ChangeGroupMember gid prin add) = change_iam_group_member_route E rq account gid prin add"
| "handle_request E rq account (ChangeGroupPolicy gid policy attach) = change_iam_group_policy_route E rq account gid policy attach"
| "handle_request E rq account (CreateServiceAccount name) = discard (create_service_account_route E rq account name)"
| "handle_request E rq account (SetServiceAccountEnabled prin enabled) = set_service_account_enabled_route E rq account prin enabled"
| "handle_request E rq account (CreatePolicy name v) = discard (create_policy_route E rq account name v)"
| "handle_request E rq account (CreateBinding prin policy) = discard (create_binding_route E rq account prin policy)"
| "handle_request E rq account (DeleteBinding bid) = delete_iam_binding_route E rq account bid"
| "handle_request E rq account (CreateApiKey prin name d) = discard (create_api_key_route E rq account prin name d)"
| "handle_request E rq account (RevokeApiKey prin kid) = revoke_iam_api_key_route E rq account prin kid"
| "handle_request E rq account (CreatePermissionSet name v d) = discard (create_permission_set_route E rq account name v d)"
| "handle_request E rq account (UpdatePermissionSet ps v d) = update_permission_set_route E rq account ps v d"
| "handle_request E rq account (DeletePermissionSet ps) = delete_permission_set_route E rq account ps"
| "handle_request E rq account (CreateCenterGroup name) = discard (create_center_group_route E rq account name)"
| "handle_request E rq account (DeleteCenterGroup gid) = delete_center_group_route E rq account gid"
| "handle_request E rq account (ChangeCenterMember gid user add) = group_user_route E rq account gid user add"
| "handle_request E rq account (CreateAssignment ps target ty subject) = discard (create_assignment_route E rq account ps target ty subject)"
| "handle_request E rq account (RevokeAssignment aid) = revoke_assignment_route E rq account aid"
| "handle_request E rq account (StartCenterSession aid to_console) = discard (start_identity_center_session_route E rq account aid to_console)"
| "handle_request E rq account (RenameAccount name) = discard (rename_account_route E rq account name)"
| "handle_request E rq account (RenameCloudAccount member name) = rename_cloud_account_route E rq account member name"
| "handle_request E rq account (RenameCloudUnit unit name) = rename_cloud_unit_route E rq account unit name"
| "handle_request E rq account (CreateServiceControlPolicy name v) = discard (create_service_control_policy_route E rq account name v)"
| "handle_request E rq account (ChangeServiceControlAttachment policy ty target attach) =
     modify_service_control_policy_attachment_route E rq account policy ty target attach"
| "handle_request E rq account (CreateUnit parent name) = discard (create_cloud_organizational_unit_route E rq account parent name)"
| "handle_request E rq account (CreateMemberAccount parent name slug) = discard (create_cloud_member_account_route E rq account parent name slug)"
| "handle_request E rq account (MoveAccount member parent) = move_cloud_member_account_route E rq account member parent"

text \<open>The action and the resource each request is authorized for.\<close>

fun request_action :: "api_request \<Rightarrow> str" where
  "request_action (CreateRole _ _ _) = lit ''iam:CreateRole''"
| "request_action (UpdateRoleTrust _ _) = lit ''iam:UpdateAssumeRolePolicy''"
| "request_action (DeleteRole _) = lit ''iam:DeleteRole''"
| "request_action (RevokeRoleSession _ _) = lit ''iam:RevokeRoleSession''"
| "request_action (AssumeRole _) = lit ''sts:AssumeRole''"
| "request_action (SetBoundary _ policy) =
     (if policy \<noteq> None then lit ''iam:PutPermissionsBoundary'' else lit ''iam:DeletePermissionsBoundary'')"
| "request_action (CreateGroup _) = lit ''iam:CreateGroup''"
| "request_action (DeleteGroup _) = lit ''iam:DeleteGroup''"
| "request_action (ChangeGroupMember _ _ add) = (if add then lit ''iam:AddUserToGroup'' else lit ''iam:RemoveUserFromGroup'')"
| "request_action (ChangeGroupPolicy _ _ attach) = (if attach then lit ''iam:AttachGroupPolicy'' else lit ''iam:DetachGroupPolicy'')"
| "request_action (CreateServiceAccount _) = lit ''iam:CreatePrincipal''"
| "request_action (SetServiceAccountEnabled _ _) = lit ''iam:UpdatePrincipal''"
| "request_action (CreatePolicy _ _) = lit ''iam:CreatePolicy''"
| "request_action (CreateBinding _ _) = lit ''iam:CreateBinding''"
| "request_action (DeleteBinding _) = lit ''iam:DeleteBinding''"
| "request_action (CreateApiKey _ _ _) = lit ''iam:CreateApiKey''"
| "request_action (RevokeApiKey _ _) = lit ''iam:RevokeApiKey''"
| "request_action (CreatePermissionSet _ _ _) = lit ''sso:CreatePermissionSet''"
| "request_action (UpdatePermissionSet _ _ _) = lit ''sso:UpdatePermissionSet''"
| "request_action (DeletePermissionSet _) = lit ''sso:DeletePermissionSet''"
| "request_action (CreateCenterGroup _) = lit ''identitystore:CreateGroup''"
| "request_action (DeleteCenterGroup _) = lit ''identitystore:DeleteGroup''"
| "request_action (ChangeCenterMember _ _ add) =
     (if add then lit ''identitystore:CreateGroupMembership'' else lit ''identitystore:DeleteGroupMembership'')"
| "request_action (CreateAssignment _ _ _ _) = lit ''sso:CreateAccountAssignment''"
| "request_action (RevokeAssignment _) = lit ''sso:DeleteAccountAssignment''"
| "request_action (StartCenterSession _ _) = lit ''sso:StartAccountSession''"
| "request_action (RenameAccount _) = lit ''account:PutAccountName''"
| "request_action (RenameCloudAccount _ _) = lit ''account:PutAccountName''"
| "request_action (RenameCloudUnit _ _) = lit ''organizations:UpdateOrganizationalUnit''"
| "request_action (CreateServiceControlPolicy _ _) = lit ''organizations:CreatePolicy''"
| "request_action (ChangeServiceControlAttachment _ _ _ attach) =
     (if attach then lit ''organizations:AttachPolicy'' else lit ''organizations:DetachPolicy'')"
| "request_action (CreateUnit _ _) = lit ''organizations:CreateOrganizationalUnit''"
| "request_action (CreateMemberAccount _ _ _) = lit ''organizations:CreateAccount''"
| "request_action (MoveAccount _ _) = lit ''organizations:MoveAccount''"

fun request_path :: "api_request \<Rightarrow> str" where
  "request_path (CreateRole _ _ _) = lit ''iam/role/*''"
| "request_path (UpdateRoleTrust prin _) = iam_path ''iam/role/'' prin"
| "request_path (DeleteRole prin) = iam_path ''iam/role/'' prin"
| "request_path (RevokeRoleSession prin _) = iam_path ''iam/role/'' prin"
| "request_path (SetBoundary prin _) = iam_path ''iam/principal/'' prin"
| "request_path (CreateGroup _) = lit ''iam/group/*''"
| "request_path (DeleteGroup gid) = iam_path ''iam/group/'' gid"
| "request_path (ChangeGroupMember gid _ _) = iam_path ''iam/group/'' gid"
| "request_path (ChangeGroupPolicy gid _ _) = iam_path ''iam/group/'' gid"
| "request_path (CreateServiceAccount _) = lit ''iam/principal/*''"
| "request_path (SetServiceAccountEnabled prin _) = iam_path ''iam/principal/'' prin"
| "request_path (CreatePolicy _ _) = lit ''iam/policy/*''"
| "request_path (CreateBinding _ _) = lit ''iam/binding/*''"
| "request_path (DeleteBinding bid) = iam_path ''iam/binding/'' bid"
| "request_path (CreateApiKey _ _ _) = lit ''iam/api-key/*''"
| "request_path (RevokeApiKey _ kid) = iam_path ''iam/api-key/'' kid"
| "request_path (CreatePermissionSet name _ _) = lit ''identity-center/permission-set/'' @ name"
| "request_path (UpdatePermissionSet ps _ _) = iam_path ''identity-center/permission-set/'' ps"
| "request_path (DeletePermissionSet ps) = iam_path ''identity-center/permission-set/'' ps"
| "request_path (CreateCenterGroup _) = lit ''identity-center/group/*''"
| "request_path (DeleteCenterGroup gid) = iam_path ''identity-center/group/'' gid"
| "request_path (ChangeCenterMember gid user _) = iam_path ''identity-center/group/'' gid @ iam_path ''/user/'' user"
| "request_path (CreateAssignment ps target _ subject) =
     iam_path ''identity-center/account/'' target @ iam_path ''/permission-set/'' ps @ iam_path ''/subject/'' subject"
| "request_path (RevokeAssignment aid) = iam_path ''identity-center/assignment/'' aid"
| "request_path (StartCenterSession aid _) = iam_path ''identity-center/self/assignment/'' aid"
| "request_path (RenameAccount _) = lit ''account/*''"
| "request_path (RenameCloudAccount member _) = iam_path ''organization/accounts/'' member"
| "request_path (RenameCloudUnit unit _) = iam_path ''organization/units/'' unit"
| "request_path _ = lit ''organization/*''"

definition request_resource :: "uuid \<Rightarrow> api_request \<Rightarrow> str" where
  "request_resource account c =
     (case c of AssumeRole input \<Rightarrow> ai_role_arn input | _ \<Rightarrow> organization_resource account (request_path c))"

text \<open>Starting a session with one's own assignment needs no policy that allows it.\<close>

fun self_service :: "api_request \<Rightarrow> bool" where
  "self_service (StartCenterSession _ _) = True"
| "self_service _ = False"

subsection \<open>Every change is authorized\<close>

text \<open>The state without its audit log.\<close>

definition quiet :: "api_state \<Rightarrow> api_state" where
  "quiet s = s\<lparr>db_store := (db_store s)\<lparr>audit_events := []\<rparr>\<rparr>"

definition guarded :: "bool \<Rightarrow> 'a handler \<Rightarrow> api_state \<Rightarrow> bool" where
  "guarded G m s \<longleftrightarrow> (\<forall>r s'. m s = (r, s') \<longrightarrow> quiet s' \<noteq> quiet s \<longrightarrow> G)"

lemma guarded_read: "(\<And>x. f s = Inr x \<Longrightarrow> guarded G (k x) s) \<Longrightarrow> guarded G (bindA (reading f) k) s"
  unfolding guarded_def bindA_def reading_def by (auto split: sum.splits)

lemma guarded_authorized:
  assumes "\<And>cx events. authorize_actor_with_implicit_allow (en_chrono E) (db_iam s) (actor_of c) account action resource i (en_now E)
      (audit_events (db_store s)) = (Inr cx, events) \<Longrightarrow> G"
  shows "guarded G (bindA (authorize_actor_with_implicit E c account action resource i) k) s"
  unfolding guarded_def bindA_def authorize_actor_with_implicit_def
  using assms by (auto simp: quiet_def split: prod.splits sum.splits)

lemma guarded_assoc: "guarded G (bindA m (\<lambda>x. bindA (f x) k)) s \<Longrightarrow> guarded G (bindA (bindA m f) k) s"
  unfolding guarded_def bindA_def by (auto split: prod.splits sum.splits)

lemma bindA_returnA: "bindA (returnA x) k = k x"
  unfolding bindA_def returnA_def by simp

lemma guarded_return: "guarded G (k x) s \<Longrightarrow> guarded G (bindA (returnA x) k) s"
  by (simp add: bindA_returnA)

lemma guarded_prod: "(\<And>a b. p = (a, b) \<Longrightarrow> guarded G (f a b) s) \<Longrightarrow> guarded G (case p of (a, b) \<Rightarrow> f a b) s"
  by (cases p) simp

lemma guarded_bind_prod:
  "(\<And>a b. p = (a, b) \<Longrightarrow> guarded G (bindA (f a b) k) s) \<Longrightarrow> guarded G (bindA (case p of (a, b) \<Rightarrow> f a b) k) s"
  by (cases p) simp

lemma guarded_discard: "guarded G m s \<Longrightarrow> guarded G (discard m) s"
  unfolding guarded_def discard_def bindA_def returnA_def by (auto split: prod.splits sum.splits)

lemma guarded_option:
  "(p = None \<Longrightarrow> guarded G (bindA m k) s) \<Longrightarrow> (\<And>x. p = Some x \<Longrightarrow> guarded G (bindA (f x) k) s)
    \<Longrightarrow> guarded G (bindA (case p of None \<Rightarrow> m | Some x \<Rightarrow> f x) k) s"
  by (cases p) simp_all

lemmas handler_rules = guarded_read guarded_authorized guarded_assoc guarded_return guarded_prod guarded_bind_prod
  guarded_discard guarded_option

definition permitted :: "'n api_env \<Rightarrow> api_state \<Rightarrow> caller \<Rightarrow> uuid \<Rightarrow> str \<Rightarrow> str \<Rightarrow> bool \<Rightarrow> bool" where
  "permitted E s c account action resource implicit \<longleftrightarrow>
     (\<exists>cx events. authorize_actor_with_implicit_allow (en_chrono E) (db_iam s) (actor_of c) account action resource implicit
        (en_now E) (audit_events (db_store s)) = (Inr cx, events))"

definition mediated :: "'n api_env \<Rightarrow> http_request \<Rightarrow> api_state \<Rightarrow> uuid \<Rightarrow> str \<Rightarrow> str \<Rightarrow> bool \<Rightarrow> bool" where
  "mediated E rq s account action resource implicit \<longleftrightarrow>
     (\<exists>c. authenticated_actor_mutation E rq s = Inr c \<and> permitted E s c account action resource implicit)"

lemma mediatedI:
  "authenticated_actor_mutation E rq s = Inr c \<Longrightarrow>
   authorize_actor_with_implicit_allow (en_chrono E) (db_iam s) (actor_of c) account action resource implicit (en_now E)
     (audit_events (db_store s)) = (Inr cx, events) \<Longrightarrow> mediated E rq s account action resource implicit"
  unfolding mediated_def permitted_def by blast

lemma request_guarded:
  "guarded (mediated E rq s account (request_action q) (request_resource account q) (self_service q)) (handle_request E rq account q) s"
  unfolding request_resource_def
  by (cases q; simp only: handle_request.simps request_action.simps request_path.simps self_service.simps api_request.case route_defs
      create_iam_role_route_def update_iam_role_trust_route_def delete_iam_role_route_def revoke_iam_role_session_route_def
      assume_iam_role_route_def change_permissions_boundary_route_def create_iam_group_route_def delete_iam_group_route_def
      change_iam_group_member_route_def change_iam_group_policy_route_def create_service_account_route_def
      set_service_account_enabled_route_def create_policy_route_def create_binding_route_def delete_iam_binding_route_def
      create_api_key_route_def revoke_iam_api_key_route_def create_permission_set_route_def update_permission_set_route_def
      delete_permission_set_route_def create_center_group_route_def delete_center_group_route_def group_user_route_def
      create_assignment_route_def revoke_assignment_route_def start_identity_center_session_route_def rename_account_route_def
      rename_cloud_account_route_def rename_cloud_unit_route_def create_service_control_policy_route_def
      modify_service_control_policy_attachment_route_def create_cloud_organizational_unit_route_def
      create_cloud_member_account_route_def move_cloud_member_account_route_def require_management_at_def require_human_def;
      intro handler_rules; auto intro: mediatedI)

text \<open>C1: Complete mediation of the requests on an account: roles, role sessions, boundaries, groups, service accounts, policies,
  bindings, API keys, the identity center and the cloud organization. Whatever such a request changes besides the audit log, its
  caller was authenticated with a live credential and authorized for the action and the resource of the request in that account,
  and a credential that is bound to an account is bound to this one.\<close>

theorem changes_are_authorized:
  assumes "handle_request E rq account q s = (r, s')" "quiet s' \<noteq> quiet s"
  shows "\<exists>c. authenticated_actor_mutation E rq s = Inr c \<and> caller_holds E rq s c
    \<and> permitted E s c account (request_action q) (request_resource account q) (self_service q)
    \<and> actor_organization (actor_of c) \<in> {None, Some account}"
proof -
  obtain c where c: "authenticated_actor_mutation E rq s = Inr c"
    "permitted E s c account (request_action q) (request_resource account q) (self_service q)"
    using request_guarded assms unfolding guarded_def mediated_def by blast
  then have "\<exists>r. actor_context (db_iam s) account (actor_of c) = Inr r"
    unfolding permitted_def authorize_actor_with_implicit_allow_def
    by (cases "actor_context (db_iam s) account (actor_of c)") auto
  then have "actor_organization (actor_of c) \<in> {None, Some account}"
    by (cases "actor_of c") (auto split: if_splits)
  then show ?thesis using c authenticated_actor_mutation_holds [OF c(1)] by blast
qed

subsection \<open>Example\<close>

lemma demo_creates:
  "isl (fst (handle_request demo_env demo_console_request 3 (CreateServiceAccount (lit ''ci'')) (demo_console no_role_tables))) = False
   \<and> length (principals (db_iam (snd (handle_request demo_env demo_console_request 3 (CreateServiceAccount (lit ''ci''))
       (demo_console no_role_tables))))) = 3"
  by code_simp

theorem changes_are_authorized_witness:
  "\<exists>c. authenticated_actor_mutation demo_env demo_console_request (demo_console no_role_tables) = Inr c
     \<and> permitted demo_env (demo_console no_role_tables) c 3 (lit ''iam:CreatePrincipal'')
         (organization_resource 3 (lit ''iam/principal/*'')) False"
proof -
  let ?q = "CreateServiceAccount (lit ''ci'')" and ?s = "demo_console no_role_tables"
  obtain r s' where run: "handle_request demo_env demo_console_request 3 ?q ?s = (r, s')" by fastforce
  have "length (principals (db_iam ?s)) = 2" by code_simp
  then have "db_iam s' \<noteq> db_iam ?s" using demo_creates run by auto
  moreover have "db_iam (quiet x) = db_iam x" for x by (simp add: quiet_def)
  ultimately have "quiet s' \<noteq> quiet ?s" by metis
  from changes_are_authorized [OF run this] show ?thesis by (auto simp: request_resource_def)
qed

end
