(* ===== verification/Flow_Credentials.thy ===== *)
theory Flow_Credentials
  imports Quota_Admin
begin

section \<open>Developer credentials and access contexts of a Flow service\<close>

text \<open>
  The operations of \<open>src/crates/heterocloud-store/src/lib.rs\<close> on the developer credentials of a
  realtime (Flow) service and on the short-lived access contexts minted with them. A context that
  is revoked is announced to the provider through the outbox. Uniqueness of credential prefixes
  and context identifiers is modelled, the other table constraints are not.
\<close>

definition MAX_FLOW_ACCESS_CONTEXT_RECORDS_PER_SERVICE :: nat where
  "MAX_FLOW_ACCESS_CONTEXT_RECORDS_PER_SERVICE = 100"

definition MAX_FLOW_DEVELOPER_CREDENTIAL_LIST_SIZE :: int where
  "MAX_FLOW_DEVELOPER_CREDENTIAL_LIST_SIZE = 100"

definition flow_service :: "store \<Rightarrow> uuid \<Rightarrow> service_row option" where
  "flow_service db sid = find (\<lambda>s. s_id s = sid \<and> s_provider s = Flow) (services db)"

definition credential_active :: "datetime \<Rightarrow> developer_credential \<Rightarrow> bool" where
  "credential_active now c \<longleftrightarrow> dc_revoked_at c = None \<and> dc_expires_at c > now"

definition context_active :: "datetime \<Rightarrow> access_context \<Rightarrow> bool" where
  "context_active now c \<longleftrightarrow> fc_revoked_at c = None \<and> fc_expires_at c > now"

definition update_credential ::
    "uuid \<Rightarrow> (developer_credential \<Rightarrow> developer_credential) \<Rightarrow> store \<Rightarrow> store" where
  "update_credential cid f db =
     db\<lparr>developer_credentials := map (\<lambda>c. if dc_id c = cid then f c else c) (developer_credentials db)\<rparr>"

subsection \<open>Credentials\<close>

record new_credential =
  nc_organization_id :: uuid
  nc_service_instance_id :: uuid
  nc_created_by :: uuid
  nc_name :: str
  nc_prefix :: str
  nc_secret_hash :: "nat list"
  nc_permissions :: "str list"
  nc_expires_at :: datetime
  nc_created_at :: datetime

definition credential_limit ::
    "store \<Rightarrow> uuid \<Rightarrow> uuid \<Rightarrow> resource_quota_limits \<Rightarrow> store_error + u32" where
  "credential_limit db organization sid quota =
     (case find (\<lambda>s. s_id s = sid \<and> s_organization_id s = organization \<and> s_provider s = Flow)
             (services db) of
        None \<Rightarrow> Inl NotFound
      | Some s \<Rightarrow>
          (case s_quota_user_id s of
             None \<Rightarrow> Inr (max_developer_credentials_per_service (q_flow quota))
           | Some user \<Rightarrow>
               bindE (member_quota_in_transaction db organization user quota) (\<lambda>member.
               Inr (min (max_developer_credentials_per_service (q_flow member))
                        (max_developer_credentials_per_service (q_flow quota))))))"

definition active_credentials :: "datetime \<Rightarrow> uuid \<Rightarrow> store \<Rightarrow> nat" where
  "active_credentials now sid db =
     length (filter (\<lambda>c. dc_service_instance_id c = sid \<and> credential_active now c)
       (developer_credentials db))"

definition create_flow_developer_credential ::
    "uuid \<Rightarrow> datetime \<Rightarrow> new_credential \<Rightarrow> store \<Rightarrow> store_error + developer_credential \<times> store" where
  "create_flow_developer_credential cid now input db =
     bindE (fail_if (\<not> successively (<) (nc_permissions input)) Conflict) (\<lambda>_.
     bindE (resource_quota_in_transaction db (nc_organization_id input)) (\<lambda>quota.
     bindE (credential_limit db (nc_organization_id input) (nc_service_instance_id input) quota) (\<lambda>limit.
     bindE (fail_if (active_credentials now (nc_service_instance_id input) db \<ge> unat limit)
              (RequestRejected ''Flow developer credential limit exceeded: limit is {} per service'')) (\<lambda>_.
     bindE (fail_if (\<not> list_ex (\<lambda>p. p_id p = nc_created_by input
                         \<and> p_organization_id p = nc_organization_id input \<and> p_enabled p)
                       (principals (iam db))) NotFound) (\<lambda>_.
     bindE (fail_if (list_ex (\<lambda>c. dc_prefix c = nc_prefix input) (developer_credentials db))
              SqlUniqueViolation) (\<lambda>_.
     (let c = \<lparr>dc_id = cid, dc_organization_id = nc_organization_id input,
               dc_service_instance_id = nc_service_instance_id input,
               dc_created_by = nc_created_by input, dc_name = nc_name input,
               dc_prefix = nc_prefix input, dc_secret_hash = nc_secret_hash input,
               dc_permissions = nc_permissions input, dc_expires_at = nc_expires_at input,
               dc_last_used_at = None, dc_revoked_at = None, dc_created_at = nc_created_at input\<rparr> in
     Inr (c, db\<lparr>developer_credentials := developer_credentials db @ [c]\<rparr>))))))))"

definition list_flow_developer_credentials ::
    "uuid \<Rightarrow> uuid \<Rightarrow> int \<Rightarrow> store \<Rightarrow> developer_credential list" where
  "list_flow_developer_credentials organization sid limit db =
     (if \<not> list_ex (\<lambda>s. s_id s = sid \<and> s_organization_id s = organization \<and> s_provider s = Flow) (services db)
      then []
      else
        take (nat (max 1 (min MAX_FLOW_DEVELOPER_CREDENTIAL_LIST_SIZE limit)))
          (rev (sort_key (\<lambda>c. (dc_created_at c, dc_id c))
            (filter (\<lambda>c. dc_organization_id c = organization \<and> dc_service_instance_id c = sid)
              (developer_credentials db)))))"

subsection \<open>Revocation of contexts\<close>

definition revocation_event ::
    "uuid \<Rightarrow> datetime \<Rightarrow> access_context \<Rightarrow> uuid \<Rightarrow> uuid \<Rightarrow> service_row \<Rightarrow> uuid \<Rightarrow> outbox_row" where
  "revocation_event eid now c organization sid s prin =
     \<lparr>ob_id = eid, ob_topic = TopicRevocation, ob_aggregate_id = fc_context_id c,
      ob_payload = RevocationPayload
        \<lparr>rv_context_id = fc_context_id c, rv_service_instance_id = sid,
         rv_organization_id = organization, rv_project_id = s_project_id s, rv_principal_id = prin,
         rv_provider = Flow, rv_generation = s_generation s, rv_expires_at = timestamp (fc_expires_at c)\<rparr>,
      ob_attempts = 0, ob_available_at = now, ob_locked_at = None, ob_delivered_at = None,
      ob_created_at = now\<rparr>"

definition revoke_contexts :: "datetime \<Rightarrow> uuid list \<Rightarrow> store \<Rightarrow> nat \<times> store" where
  "revoke_contexts now ids db =
     (let hit = (\<lambda>c. fc_context_id c \<in> set ids \<and> fc_revoked_at c = None) in
      (length (filter hit (access_contexts db)),
       db\<lparr>access_contexts :=
         map (\<lambda>c. if hit c then c\<lparr>fc_revoked_at := Some now\<rparr> else c) (access_contexts db)\<rparr>))"

definition cascade_flow_developer_credential_contexts ::
    "(nat \<Rightarrow> uuid) \<Rightarrow> datetime \<Rightarrow> developer_credential \<Rightarrow> service_row \<Rightarrow> uuid \<Rightarrow> store \<Rightarrow>
     store_error + nat \<times> store" where
  "cascade_flow_developer_credential_contexts gen now c s prin db =
     (let contexts = sort_key fc_context_id (filter (\<lambda>x. fc_credential_id x = Some (dc_id c)
            \<and> fc_organization_id x = dc_organization_id c
            \<and> fc_service_instance_id x = dc_service_instance_id c \<and> context_active now x)
            (access_contexts db)) in
      if contexts = [] then Inr (0, db)
      else
        (let (updated, db1) = revoke_contexts now (map fc_context_id contexts) db in
         bindE (fail_if (updated \<noteq> length contexts)
                  (Invariant ''developer credential context cascade lost a locked row'')) (\<lambda>_.
         Inr (length contexts,
              fold (\<lambda>(i, x). enqueue (revocation_event (gen i) now x (dc_organization_id c)
                (dc_service_instance_id c) s prin)) (enumerate 0 contexts) db1))))"

definition credential_in_scope ::
    "store \<Rightarrow> uuid \<Rightarrow> uuid \<Rightarrow> uuid \<Rightarrow> (developer_credential \<times> service_row) option" where
  "credential_in_scope db organization sid cid =
     (case find (\<lambda>c. dc_id c = cid \<and> dc_organization_id c = organization
                    \<and> dc_service_instance_id c = sid) (developer_credentials db) of
        None \<Rightarrow> None
      | Some c \<Rightarrow> map_option (Pair c) (flow_service db sid))"

definition revoke_flow_developer_credential ::
    "(nat \<Rightarrow> uuid) \<Rightarrow> datetime \<Rightarrow> uuid \<Rightarrow> uuid \<Rightarrow> uuid \<Rightarrow> uuid \<Rightarrow> store \<Rightarrow>
     store_error + (bool \<times> nat) \<times> store" where
  "revoke_flow_developer_credential gen now organization sid cid prin db =
     (case credential_in_scope db organization sid cid of
        None \<Rightarrow> Inr ((False, 0), db)
      | Some (c, s) \<Rightarrow>
          (let db1 = (if dc_revoked_at c = None
                      then update_credential cid (\<lambda>c. c\<lparr>dc_revoked_at := Some now\<rparr>) db else db) in
          bindE (cascade_flow_developer_credential_contexts gen now c s prin db1) (\<lambda>(n, db2).
          Inr ((dc_revoked_at c = None, n), db2))))"

definition rotate_flow_developer_credential ::
    "(nat \<Rightarrow> uuid) \<Rightarrow> datetime \<Rightarrow> uuid \<Rightarrow> uuid \<Rightarrow> uuid \<Rightarrow> str \<Rightarrow> nat list \<Rightarrow> uuid \<Rightarrow> store \<Rightarrow>
     store_error + (developer_credential \<times> nat) \<times> store" where
  "rotate_flow_developer_credential gen now organization sid cid pre secret_hash prin db =
     (case credential_in_scope db organization sid cid of
        None \<Rightarrow> Inl Conflict
      | Some (c, s) \<Rightarrow>
          bindE (fail_if (\<not> credential_active now c) Conflict) (\<lambda>_.
          bindE (fail_if (list_ex (\<lambda>x. dc_id x \<noteq> cid \<and> dc_prefix x = pre) (developer_credentials db))
                   SqlUniqueViolation) (\<lambda>_.
          (let f = (\<lambda>c. c\<lparr>dc_prefix := pre, dc_secret_hash := secret_hash, dc_last_used_at := None\<rparr>) in
          bindE (cascade_flow_developer_credential_contexts gen now c s prin (update_credential cid f db))
            (\<lambda>(n, db1).
          Inr ((f c, n), db1))))))"

subsection \<open>Contexts\<close>

text \<open>The newest contexts of a service are kept, and the others as long as they are active.\<close>

definition newest_contexts :: "uuid \<Rightarrow> store \<Rightarrow> access_context list" where
  "newest_contexts sid db =
     rev (sort_key (\<lambda>c. (fc_issued_at c, fc_context_id c))
       (filter (\<lambda>c. fc_service_instance_id c = sid) (access_contexts db)))"

definition prune_flow_access_context_history :: "datetime \<Rightarrow> uuid \<Rightarrow> store \<Rightarrow> store" where
  "prune_flow_access_context_history now sid db =
     (let old = fc_context_id ` set (drop MAX_FLOW_ACCESS_CONTEXT_RECORDS_PER_SERVICE
                                       (newest_contexts sid db)) in
      db\<lparr>access_contexts := filter (\<lambda>c. \<not> (fc_service_instance_id c = sid \<and> fc_context_id c \<in> old
            \<and> (fc_revoked_at c \<noteq> None \<or> fc_expires_at c \<le> now))) (access_contexts db)\<rparr>)"

definition insert_context :: "access_context \<Rightarrow> store \<Rightarrow> store_error + store" where
  "insert_context c db =
     (if list_ex (\<lambda>x. fc_context_id x = fc_context_id c) (access_contexts db) then Inl SqlUniqueViolation
      else Inr (db\<lparr>access_contexts := access_contexts db @ [c]\<rparr>))"

definition record_flow_access_context ::
    "datetime \<Rightarrow> access_context \<Rightarrow> store \<Rightarrow> store_error + store" where
  "record_flow_access_context now input db =
     (let c = input\<lparr>fc_revoked_at := None\<rparr> in
      bindE (fail_if (\<not> list_ex (\<lambda>s. s_id s = fc_service_instance_id c
                         \<and> s_organization_id s = fc_organization_id c \<and> s_project_id s = fc_project_id c
                         \<and> s_provider s = Flow \<and> s_state s = Ready) (services db)) Conflict) (\<lambda>_.
      bindE (insert_context c db) (\<lambda>db1.
      Inr (prune_flow_access_context_history now (fc_service_instance_id c) db1))))"

definition credential_by_secret ::
    "datetime \<Rightarrow> str \<Rightarrow> nat list \<Rightarrow> store \<Rightarrow> (developer_credential \<times> service_row) option" where
  "credential_by_secret now pre secret_hash db =
     (case find (\<lambda>c. dc_prefix c = pre \<and> dc_secret_hash c = secret_hash \<and> credential_active now c)
             (developer_credentials db) of
        None \<Rightarrow> None
      | Some c \<Rightarrow> map_option (Pair c) (flow_service db (dc_service_instance_id c)))"

datatype mint_outcome =
    Issued uuid uuid uuid uuid service_spec
  | InvalidCredential
  | PermissionDenied
  | ServiceInstanceNotReady

definition service_resource :: "uuid \<Rightarrow> uuid \<Rightarrow> str" where
  "service_resource organization sid =
     lit ''hc:org:'' @ uuid_string organization @ lit '':realtime/service/'' @ uuid_string sid"

definition audit_credential_use :: "str \<Rightarrow> developer_credential \<Rightarrow> store \<Rightarrow> store" where
  "audit_credential_use action c db =
     db\<lparr>audit_events := audit_events db @
       [\<lparr>audit_organization_id = Some (dc_organization_id c), audit_principal_id = Some (dc_created_by c),
         audit_user_id = None, audit_action = action,
         audit_resource = service_resource (dc_organization_id c) (dc_service_instance_id c),
         audit_decision = ''allow'', audit_reason = ''developer_credential_scope''\<rparr>]\<rparr>"

definition mint_flow_access_context_with_developer_credential ::
    "datetime \<Rightarrow> str \<Rightarrow> nat list \<Rightarrow> uuid \<Rightarrow> uuid \<Rightarrow> str list \<Rightarrow> datetime \<Rightarrow> datetime \<Rightarrow> store \<Rightarrow>
     store_error + mint_outcome \<times> store" where
  "mint_flow_access_context_with_developer_credential now pre secret_hash context_id prin permissions
     issued_at expires_at db =
     (case credential_by_secret now pre secret_hash db of
        None \<Rightarrow> Inr (InvalidCredential, db)
      | Some (c, s) \<Rightarrow>
          if s_state s \<noteq> Ready then Inr (ServiceInstanceNotReady, db)
          else if \<not> list_all (\<lambda>p. p \<in> set (dc_permissions c)) permissions then Inr (PermissionDenied, db)
          else
            bindE (insert_context
              \<lparr>fc_context_id = context_id, fc_organization_id = dc_organization_id c,
               fc_project_id = s_project_id s, fc_service_instance_id = dc_service_instance_id c,
               fc_credential_id = Some (dc_id c), fc_principal_id = prin, fc_permissions = permissions,
               fc_issued_at = issued_at, fc_expires_at = expires_at, fc_revoked_at = None\<rparr> db) (\<lambda>db1.
            Inr (Issued (dc_id c) (dc_organization_id c) (s_project_id s) (dc_service_instance_id c) (s_spec s),
                 audit_credential_use (lit ''realtime:MintAccessCredential'') c
                   (update_credential (dc_id c) (\<lambda>c. c\<lparr>dc_last_used_at := Some now\<rparr>)
                     (prune_flow_access_context_history now (dc_service_instance_id c) db1)))))"

definition list_flow_access_contexts_for_developer_credential ::
    "datetime \<Rightarrow> str \<Rightarrow> nat list \<Rightarrow> int \<Rightarrow> store \<Rightarrow> access_context list option \<times> store" where
  "list_flow_access_contexts_for_developer_credential now pre secret_hash limit db =
     (case credential_by_secret now pre secret_hash db of
        None \<Rightarrow> (None, db)
      | Some (c, _) \<Rightarrow>
          (Some (take (nat (max 1 (min (int MAX_FLOW_ACCESS_CONTEXT_RECORDS_PER_SERVICE) limit)))
             (rev (sort_key (\<lambda>x. (fc_issued_at x, fc_context_id x))
               (filter (\<lambda>x. fc_credential_id x = Some (dc_id c)) (access_contexts db))))),
           update_credential (dc_id c) (\<lambda>c. c\<lparr>dc_last_used_at := Some now\<rparr>) db))"

definition revoke_flow_access_context_with_developer_credential ::
    "uuid \<Rightarrow> datetime \<Rightarrow> str \<Rightarrow> nat list \<Rightarrow> uuid \<Rightarrow> store \<Rightarrow> bool option \<times> store" where
  "revoke_flow_access_context_with_developer_credential eid now pre secret_hash context_id db =
     (case credential_by_secret now pre secret_hash db of
        None \<Rightarrow> (None, db)
      | Some (c, s) \<Rightarrow>
          (let found = find (\<lambda>x. fc_context_id x = context_id \<and> fc_credential_id x = Some (dc_id c)
                   \<and> fc_organization_id x = dc_organization_id c
                   \<and> fc_service_instance_id x = dc_service_instance_id c) (access_contexts db);
               (changed, db1) =
                 (case found of
                    None \<Rightarrow> (False, db)
                  | Some x \<Rightarrow>
                      if fc_revoked_at x \<noteq> None then (False, db)
                      else (True, enqueue (revocation_event eid now x (dc_organization_id c)
                              (dc_service_instance_id c) s (dc_created_by c))
                              (snd (revoke_contexts now [context_id] db)))) in
           (Some changed,
            audit_credential_use (lit ''realtime:RevokeAccessContext'') c
              (update_credential (dc_id c) (\<lambda>c. c\<lparr>dc_last_used_at := Some now\<rparr>) db1))))"

definition revoke_flow_access_context ::
    "uuid \<Rightarrow> datetime \<Rightarrow> uuid \<Rightarrow> uuid \<Rightarrow> uuid \<Rightarrow> uuid \<Rightarrow> store \<Rightarrow> bool \<times> store" where
  "revoke_flow_access_context eid now organization sid context_id prin db =
     (case find (\<lambda>x. fc_context_id x = context_id \<and> fc_organization_id x = organization
                    \<and> fc_service_instance_id x = sid) (access_contexts db) of
        None \<Rightarrow> (False, db)
      | Some x \<Rightarrow>
          (case flow_service db sid of
             None \<Rightarrow> (False, db)
           | Some s \<Rightarrow>
               if fc_revoked_at x \<noteq> None then (False, db)
               else (True, enqueue (revocation_event eid now x organization sid s prin)
                       (snd (revoke_contexts now [context_id] db)))))"

subsection \<open>What the operations guarantee\<close>

definition flow_inv :: "store \<Rightarrow> bool" where
  "flow_inv db \<longleftrightarrow>
     distinct (map dc_id (developer_credentials db)) \<and> distinct (map dc_prefix (developer_credentials db))
     \<and> distinct (map fc_context_id (access_contexts db))"

definition minted_with :: "developer_credential \<Rightarrow> access_context \<Rightarrow> bool" where
  "minted_with c x \<longleftrightarrow>
     fc_credential_id x = Some (dc_id c) \<and> fc_organization_id x = dc_organization_id c
     \<and> fc_service_instance_id x = dc_service_instance_id c"

lemma revoke_contexts_exact:
  assumes "distinct (map fc_context_id (access_contexts db))"
    "\<And>x. P x \<Longrightarrow> fc_revoked_at x = None"
  shows "revoke_contexts now (map fc_context_id (filter P (access_contexts db))) db =
    (length (filter P (access_contexts db)),
     db\<lparr>access_contexts := map (\<lambda>x. if P x then x\<lparr>fc_revoked_at := Some now\<rparr> else x) (access_contexts db)\<rparr>)"
proof -
  let ?hit = "\<lambda>x. fc_context_id x \<in> set (map fc_context_id (filter P (access_contexts db))) \<and> fc_revoked_at x = None"
  have hit: "?hit x \<longleftrightarrow> P x" if x: "x \<in> set (access_contexts db)" for x
  proof
    assume "?hit x"
    then obtain y where "y \<in> set (access_contexts db)" "P y" "fc_context_id y = fc_context_id x" by auto
    with assms(1) x have "y = x" by (metis distinct_map inj_onD)
    with \<open>P y\<close> show "P x" by simp
  next
    assume "P x"
    then show "?hit x" using x assms(2) by auto
  qed
  then have "filter ?hit (access_contexts db) = filter P (access_contexts db)"
    by (intro filter_cong) auto
  moreover have "map (\<lambda>x. if ?hit x then x\<lparr>fc_revoked_at := Some now\<rparr> else x) (access_contexts db)
    = map (\<lambda>x. if P x then x\<lparr>fc_revoked_at := Some now\<rparr> else x) (access_contexts db)"
    using hit by (intro map_cong) auto
  ultimately show ?thesis by (simp add: revoke_contexts_def Let_def)
qed

lemma revoke_contexts_set: "set ids = set ids' \<Longrightarrow> revoke_contexts now ids db = revoke_contexts now ids' db"
  by (simp add: revoke_contexts_def)

definition cascaded :: "datetime \<Rightarrow> developer_credential \<Rightarrow> store \<Rightarrow> access_context list" where
  "cascaded now c db =
     sort_key fc_context_id (filter (\<lambda>x. minted_with c x \<and> context_active now x) (access_contexts db))"

lemma cascade_eq:
  assumes "distinct (map fc_context_id (access_contexts db))"
  shows "cascade_flow_developer_credential_contexts gen now c s prin db =
    Inr (length (cascaded now c db),
      db\<lparr>access_contexts := map (\<lambda>x. if minted_with c x \<and> context_active now x
             then x\<lparr>fc_revoked_at := Some now\<rparr> else x) (access_contexts db),
         outbox := outbox db @ map (\<lambda>(i, x). revocation_event (gen i) now x (dc_organization_id c)
             (dc_service_instance_id c) s prin) (enumerate 0 (cascaded now c db))\<rparr>)"
proof -
  let ?P = "\<lambda>x. minted_with c x \<and> context_active now x"
  have P: "(\<lambda>x. fc_credential_id x = Some (dc_id c) \<and> fc_organization_id x = dc_organization_id c
      \<and> fc_service_instance_id x = dc_service_instance_id c \<and> context_active now x) = ?P"
    by (auto simp: minted_with_def fun_eq_iff)
  show ?thesis
  proof (cases "filter ?P (access_contexts db) = []")
    case True
    then have "map (\<lambda>x. if ?P x then x\<lparr>fc_revoked_at := Some now\<rparr> else x) (access_contexts db) = access_contexts db"
      by (intro map_idI) (auto simp: filter_empty_conv)
    with True show ?thesis
      by (simp add: cascade_flow_developer_credential_contexts_def P cascaded_def Let_def)
  next
    case False
    have "revoke_contexts now (map fc_context_id (cascaded now c db)) db =
      revoke_contexts now (map fc_context_id (filter ?P (access_contexts db))) db"
      by (rule revoke_contexts_set) (simp add: cascaded_def)
    also have "\<dots> = (length (filter ?P (access_contexts db)),
      db\<lparr>access_contexts := map (\<lambda>x. if ?P x then x\<lparr>fc_revoked_at := Some now\<rparr> else x) (access_contexts db)\<rparr>)"
      by (rule revoke_contexts_exact [OF assms]) (simp add: context_active_def)
    finally have rc: "revoke_contexts now (map fc_context_id (cascaded now c db)) db =
      (length (cascaded now c db),
       db\<lparr>access_contexts := map (\<lambda>x. if ?P x then x\<lparr>fc_revoked_at := Some now\<rparr> else x) (access_contexts db)\<rparr>)"
      by (simp add: cascaded_def)
    from False have "length (cascaded now c db) \<noteq> 0" by (simp add: cascaded_def)
    then have ne: "cascaded now c db \<noteq> []" by auto
    show ?thesis
      unfolding cascade_flow_developer_credential_contexts_def P cascaded_def [symmetric] Let_def
      by (simp add: ne rc fold_enqueue)
  qed
qed

text \<open>Lookups of a credential.\<close>

lemma scope_Some:
  "credential_in_scope db a sid cid = Some (c, s) \<Longrightarrow>
   c \<in> set (developer_credentials db) \<and> dc_id c = cid \<and> dc_organization_id c = a \<and> dc_service_instance_id c = sid
   \<and> s \<in> set (services db) \<and> s_id s = sid \<and> s_provider s = Flow"
  by (auto simp: credential_in_scope_def flow_service_def dest!: find_eq_Some split: option.splits)

lemma by_secret_Some:
  "credential_by_secret now pre h db = Some (c, s) \<Longrightarrow>
   c \<in> set (developer_credentials db) \<and> dc_prefix c = pre \<and> dc_secret_hash c = h \<and> credential_active now c
   \<and> s \<in> set (services db) \<and> s_id s = dc_service_instance_id c \<and> s_provider s = Flow"
  by (auto simp: credential_by_secret_def flow_service_def dest!: find_eq_Some split: option.splits)

lemma same_credential:
  "flow_inv db \<Longrightarrow> c \<in> set (developer_credentials db) \<Longrightarrow> c' \<in> set (developer_credentials db) \<Longrightarrow>
   dc_id c = dc_id c' \<Longrightarrow> c = c'"
  unfolding flow_inv_def by (metis distinct_map inj_onD)

definition announced :: "access_context \<Rightarrow> store \<Rightarrow> bool" where
  "announced x db \<longleftrightarrow>
     (\<exists>e \<in> set (outbox db). ob_topic e = TopicRevocation \<and> ob_delivered_at e = None
        \<and> (case ob_payload e of
              RevocationPayload r \<Rightarrow> rv_context_id r = fc_context_id x \<and> ob_aggregate_id e = fc_context_id x
                \<and> rv_provider r = Flow \<and> rv_service_instance_id r = fc_service_instance_id x
                \<and> rv_expires_at r = timestamp (fc_expires_at x)
            | _ \<Rightarrow> False))"

lemma announced_cascade:
  assumes "x \<in> set (cascaded now c db)" "minted_with c x"
    "outbox db' = outbox db0 @ map (\<lambda>(i, x). revocation_event (gen i) now x (dc_organization_id c)
       (dc_service_instance_id c) s prin) (enumerate 0 (cascaded now c db))"
  shows "announced x db'"
proof -
  from assms(1) obtain i where "i < length (cascaded now c db)" "cascaded now c db ! i = x"
    by (auto simp: in_set_conv_nth)
  then have "(i, x) \<in> set (enumerate 0 (cascaded now c db))" by (auto simp: in_set_enumerate_eq)
  then have "revocation_event (gen i) now x (dc_organization_id c) (dc_service_instance_id c) s prin
    \<in> set (outbox db')" using assms(3) by force
  then show ?thesis
    unfolding announced_def by (rule bexI [rotated]) (use assms(2) in \<open>simp add: revocation_event_def minted_with_def\<close>)
qed

subsection \<open>An example\<close>

definition demo_credential :: developer_credential where
  "demo_credential = \<lparr>dc_id = 60, dc_organization_id = 2, dc_service_instance_id = 50, dc_created_by = 5,
     dc_name = lit ''ci'', dc_prefix = lit ''hcf_00'', dc_secret_hash = [1, 2],
     dc_permissions = [lit ''flow.room.join'', lit ''flow.room.read''], dc_expires_at = 1000,
     dc_last_used_at = None, dc_revoked_at = None, dc_created_at = 0\<rparr>"

definition demo_access :: access_context where
  "demo_access = \<lparr>fc_context_id = 70, fc_organization_id = 2, fc_project_id = 20,
     fc_service_instance_id = 50, fc_credential_id = Some 60, fc_principal_id = 80,
     fc_permissions = [lit ''flow.room.join''], fc_issued_at = 0, fc_expires_at = 200,
     fc_revoked_at = None\<rparr>"

definition demo_flow_store :: store where
  "demo_flow_store = demo_store\<lparr>services := [demo_flow_row], quota_owners := [(50, 2, Some 7)],
     developer_credentials := [demo_credential], access_contexts := [demo_access]\<rparr>"

lemma demo_flow_inv: "flow_inv demo_flow_store"
  by (simp add: flow_inv_def demo_flow_store_def)

lemma demo_flow_scope: "credential_in_scope demo_flow_store 2 50 60 = Some (demo_credential, demo_flow_row)"
  by code_simp

subsection \<open>Properties\<close>

text \<open>
  C11: Revoking a developer credential of a service always succeeds; afterwards no access context
  minted with it is active, every context that was active is announced to the provider by a pending
  outbox event with its expiry, and no secret resolves to the credential any more.
\<close>

theorem revoked_credential_is_dead:
  assumes "flow_inv db" "credential_in_scope db a sid cid = Some (c, s)"
  shows "\<exists>n db'. revoke_flow_developer_credential gen now a sid cid prin db
      = Inr ((dc_revoked_at c = None, n), db')
    \<and> (\<forall>x \<in> set (access_contexts db'). minted_with c x \<longrightarrow> \<not> context_active now x)
    \<and> (\<forall>x \<in> set (access_contexts db). minted_with c x \<and> context_active now x \<longrightarrow> announced x db')
    \<and> (\<forall>now' pre h c' s'. credential_by_secret now' pre h db' = Some (c', s') \<longrightarrow> dc_id c' \<noteq> cid)"
proof -
  note scope = scope_Some [OF assms(2)]
  define db1 where "db1 = (if dc_revoked_at c = None
    then update_credential cid (\<lambda>c. c\<lparr>dc_revoked_at := Some now\<rparr>) db else db)"
  have [simp]: "access_contexts db1 = access_contexts db" by (simp add: db1_def update_credential_def)
  have ids: "distinct (map fc_context_id (access_contexts db1))" using assms(1) by (simp add: flow_inv_def)
  obtain n db' where casc: "cascade_flow_developer_credential_contexts gen now c s prin db1 = Inr (n, db')"
    and ctx: "access_contexts db' = map (\<lambda>x. if minted_with c x \<and> context_active now x
      then x\<lparr>fc_revoked_at := Some now\<rparr> else x) (access_contexts db)"
    and out: "outbox db' = outbox db1 @ map (\<lambda>(i, x). revocation_event (gen i) now x (dc_organization_id c)
      (dc_service_instance_id c) s prin) (enumerate 0 (cascaded now c db1))"
    and creds: "developer_credentials db' = developer_credentials db1"
    using cascade_eq [OF ids, of gen now c s prin] by simp
  have "revoke_flow_developer_credential gen now a sid cid prin db = Inr ((dc_revoked_at c = None, n), db')"
    using assms(2) casc by (simp add: revoke_flow_developer_credential_def db1_def)
  moreover have "\<not> context_active now x" if "x \<in> set (access_contexts db')" "minted_with c x" for x
    using that by (auto simp: ctx context_active_def minted_with_def split: if_splits)
  moreover have "announced x db'" if "x \<in> set (access_contexts db)" "minted_with c x" "context_active now x" for x
    using that by (intro announced_cascade [OF _ that(2) out]) (simp add: cascaded_def)
  moreover have "dc_id c' \<noteq> cid" if found: "credential_by_secret now' pre h db' = Some (c', s')" for now' pre h c' s'
  proof
    assume "dc_id c' = cid"
    with by_secret_Some [OF found] creds have c': "c' \<in> set (developer_credentials db1)" "dc_revoked_at c' = None"
      by (auto simp: credential_active_def)
    show False
    proof (cases "dc_revoked_at c = None")
      case True
      then have "c' \<in> (\<lambda>d. if dc_id d = cid then d\<lparr>dc_revoked_at := Some now\<rparr> else d) ` set (developer_credentials db)"
        using c'(1) by (simp add: db1_def update_credential_def)
      then obtain d where "c' = (if dc_id d = cid then d\<lparr>dc_revoked_at := Some now\<rparr> else d)"
        by (rule imageE)
      with c'(2) \<open>dc_id c' = cid\<close> show False by (cases "dc_id d = cid") simp_all
    next
      case False
      then have "db1 = db" unfolding db1_def by (rule if_not_P)
      with c'(1) have "c' \<in> set (developer_credentials db)" by simp
      then have "c' = c" using scope same_credential [OF assms(1)] \<open>dc_id c' = cid\<close> by metis
      with False c'(2) show False by simp
    qed
  qed
  ultimately show ?thesis by blast
qed

theorem revoked_credential_is_dead_witness:
  "\<exists>n db'. revoke_flow_developer_credential (\<lambda>i. 90 + i) 10 2 50 60 5 demo_flow_store = Inr ((True, n), db')
     \<and> announced demo_access db'"
proof -
  have "demo_access \<in> set (access_contexts demo_flow_store)" "minted_with demo_credential demo_access"
    "context_active 10 demo_access" "dc_revoked_at demo_credential = None"
    by (simp_all add: demo_flow_store_def demo_access_def minted_with_def demo_credential_def context_active_def)
  with revoked_credential_is_dead [OF demo_flow_inv demo_flow_scope, of "\<lambda>i. 90 + i" 10 5]
  show ?thesis by metis
qed

text \<open>
  C16: An access context is minted only with a secret of an active credential, for a ready service
  and with permissions of the credential; it belongs to the credential, and the use is audited
  under the principal that created the credential. Every refusal leaves the store as it is.
\<close>

theorem minting_is_confined:
  "mint_flow_access_context_with_developer_credential now pre h cid prin perms issued expires db = Inr (out, db')
   \<Longrightarrow> (case out of
          Issued cred a project sid spec \<Rightarrow>
            (\<exists>c s. c \<in> set (developer_credentials db) \<and> dc_prefix c = pre \<and> dc_secret_hash c = h
              \<and> credential_active now c \<and> dc_id c = cred \<and> set perms \<subseteq> set (dc_permissions c)
              \<and> s \<in> set (services db) \<and> s_id s = sid \<and> s_provider s = Flow \<and> s_state s = Ready
              \<and> audit_principal_id (last (audit_events db')) = Some (dc_created_by c)
              \<and> audit_decision (last (audit_events db')) = ''allow''
              \<and> (expires > now \<longrightarrow> (\<exists>x \<in> set (access_contexts db'). fc_context_id x = cid
                   \<and> minted_with c x \<and> fc_permissions x = perms \<and> fc_revoked_at x = None)))
        | _ \<Rightarrow> db' = db)"
proof (cases "credential_by_secret now pre h db")
  case None
  assume "mint_flow_access_context_with_developer_credential now pre h cid prin perms issued expires db = Inr (out, db')"
  with None show ?thesis by (auto simp: mint_flow_access_context_with_developer_credential_def)
next
  case (Some cs)
  obtain c s where cs: "cs = (c, s)" by (cases cs)
  note found = by_secret_Some [OF Some [unfolded cs]]
  assume op: "mint_flow_access_context_with_developer_credential now pre h cid prin perms issued expires db = Inr (out, db')"
  show ?thesis
  proof (cases "s_state s = Ready \<and> set perms \<subseteq> set (dc_permissions c)")
    case False
    with op Some cs show ?thesis
      by (auto simp: mint_flow_access_context_with_developer_credential_def list_all_iff split: if_splits)
  next
    case True
    let ?x = "\<lparr>fc_context_id = cid, fc_organization_id = dc_organization_id c, fc_project_id = s_project_id s,
      fc_service_instance_id = dc_service_instance_id c, fc_credential_id = Some (dc_id c), fc_principal_id = prin,
      fc_permissions = perms, fc_issued_at = issued, fc_expires_at = expires, fc_revoked_at = None\<rparr>"
    from op Some cs True have out: "out = Issued (dc_id c) (dc_organization_id c) (s_project_id s)
        (dc_service_instance_id c) (s_spec s)"
      and db': "db' = audit_credential_use (lit ''realtime:MintAccessCredential'') c
        (update_credential (dc_id c) (\<lambda>c. c\<lparr>dc_last_used_at := Some now\<rparr>)
          (prune_flow_access_context_history now (dc_service_instance_id c)
            (db\<lparr>access_contexts := access_contexts db @ [?x]\<rparr>)))"
      by (auto simp: mint_flow_access_context_with_developer_credential_def list_all_iff insert_context_def
          bindE_Inr_iff split: if_splits)
    have "?x \<in> set (access_contexts db')" if "expires > now"
      unfolding db' using that
      by (simp add: audit_credential_use_def update_credential_def prune_flow_access_context_history_def Let_def)
    moreover have "minted_with c ?x" by (simp add: minted_with_def)
    ultimately have kept: "expires > now \<longrightarrow> (\<exists>x \<in> set (access_contexts db'). fc_context_id x = cid
      \<and> minted_with c x \<and> fc_permissions x = perms \<and> fc_revoked_at x = None)"
      by (intro impI bexI [of _ ?x]) simp_all
    have "last (audit_events db') = \<lparr>audit_organization_id = Some (dc_organization_id c),
      audit_principal_id = Some (dc_created_by c), audit_user_id = None,
      audit_action = lit ''realtime:MintAccessCredential'',
      audit_resource = service_resource (dc_organization_id c) (dc_service_instance_id c),
      audit_decision = ''allow'', audit_reason = ''developer_credential_scope''\<rparr>"
      unfolding db' by (simp add: audit_credential_use_def)
    with found True kept show ?thesis unfolding out mint_outcome.case
      by (intro exI [of _ c] exI [of _ s]) simp
  qed
qed
theorem minting_is_confined_witness:
  "\<exists>a. \<exists>db'. mint_flow_access_context_with_developer_credential 10 (lit ''hcf_00'') [1, 2] 71 81 [lit ''flow.room.read''] 10 100
       demo_flow_store = Inr (Issued 60 2 20 50 (FlowSpec demo_flow), db')
     \<and> audit_principal_id (last (audit_events db')) = Some a"
proof -
  obtain db' where db': "mint_flow_access_context_with_developer_credential 10 (lit ''hcf_00'') [1, 2] 71 81
      [lit ''flow.room.read''] 10 100 demo_flow_store = Inr (Issued 60 2 20 50 (FlowSpec demo_flow), db')"
    by (simp add: mint_flow_access_context_with_developer_credential_def credential_by_secret_def flow_service_def
        demo_flow_store_def demo_credential_def demo_flow_row_def credential_active_def insert_context_def
        demo_access_def)
  from minting_is_confined [OF db'] have "\<exists>a. audit_principal_id (last (audit_events db')) = Some a"
    by auto
  with db' show ?thesis by blast
qed

text \<open>
  C37: A created credential counts against the limit of its service, which is the smaller of the
  organization's and the quota owner's: the number of active credentials never ends above it. The
  secret handed out resolves to the credential.
\<close>

theorem created_credential_within_limit:
  assumes "create_flow_developer_credential cid now input db = Inr (c, db')" "nc_expires_at input > now"
  shows "(\<exists>quota limit. resource_quota_in_transaction db (nc_organization_id input) = Inr quota
      \<and> credential_limit db (nc_organization_id input) (nc_service_instance_id input) quota = Inr limit
      \<and> limit \<le> max_developer_credentials_per_service (q_flow quota)
      \<and> active_credentials now (nc_service_instance_id input) db' \<le> unat limit)
    \<and> map_option fst (credential_by_secret now (nc_prefix input) (nc_secret_hash input) db') = Some c"
proof -
  from assms(1) obtain quota limit where
    q: "resource_quota_in_transaction db (nc_organization_id input) = Inr quota"
    and l: "credential_limit db (nc_organization_id input) (nc_service_instance_id input) quota = Inr limit"
    and room: "active_credentials now (nc_service_instance_id input) db < unat limit"
    and fresh: "\<not> list_ex (\<lambda>c. dc_prefix c = nc_prefix input) (developer_credentials db)"
    and c: "c = \<lparr>dc_id = cid, dc_organization_id = nc_organization_id input,
               dc_service_instance_id = nc_service_instance_id input,
               dc_created_by = nc_created_by input, dc_name = nc_name input,
               dc_prefix = nc_prefix input, dc_secret_hash = nc_secret_hash input,
               dc_permissions = nc_permissions input, dc_expires_at = nc_expires_at input,
               dc_last_used_at = None, dc_revoked_at = None, dc_created_at = nc_created_at input\<rparr>"
    and db': "db' = db\<lparr>developer_credentials := developer_credentials db @ [c]\<rparr>"
    by (auto simp: create_flow_developer_credential_def bindE_Inr_iff fail_if_def not_le Let_def split: if_splits)
  have "limit \<le> max_developer_credentials_per_service (q_flow quota)"
    using l by (auto simp: credential_limit_def bindE_Inr_iff split: option.splits)
  moreover have "active_credentials now (nc_service_instance_id input) db' \<le> unat limit"
    using room by (simp add: active_credentials_def db')
  moreover have "flow_service db (nc_service_instance_id input) \<noteq> None"
    using l unfolding credential_limit_def flow_service_def
    by (auto simp: find_None_iff dest!: find_eq_Some split: option.splits)
  moreover have "find (\<lambda>c. dc_prefix c = nc_prefix input \<and> dc_secret_hash c = nc_secret_hash input
      \<and> credential_active now c) (developer_credentials db) = None"
    using fresh by (auto simp: find_None_iff list_ex_iff)
  ultimately show ?thesis
    using q l assms(2) by (auto simp: credential_by_secret_def db' find_appended c credential_active_def flow_service_def)
qed

definition demo_new_credential :: new_credential where
  "demo_new_credential = \<lparr>nc_organization_id = 2, nc_service_instance_id = 50, nc_created_by = 5,
     nc_name = lit ''deploy'', nc_prefix = lit ''hcf_01'', nc_secret_hash = [3, 4],
     nc_permissions = [lit ''flow.room.read''], nc_expires_at = 500, nc_created_at = 10\<rparr>"

theorem created_credential_within_limit_witness:
  "\<exists>c db'. create_flow_developer_credential 61 10 demo_new_credential demo_flow_store = Inr (c, db')
     \<and> map_option fst (credential_by_secret 10 (lit ''hcf_01'') [3, 4] db') = Some c"
proof -
  have "resource_quota_in_transaction demo_flow_store 2 = Inr default_resource_quota"
    by (simp add: default_quota_in_force demo_flow_store_def demo_store_def)
  moreover have "credential_limit demo_flow_store 2 50 default_resource_quota = Inr 100"
    by (simp add: credential_limit_def demo_flow_store_def demo_flow_row_def member_quota_in_transaction_def
        is_member_def demo_store_def demo_tables_def default_resource_quota_def)
  moreover have "active_credentials 10 50 demo_flow_store = 1"
    by (simp add: active_credentials_def demo_flow_store_def demo_credential_def credential_active_def)
  moreover have "\<not> list_ex (\<lambda>c. dc_prefix c = lit ''hcf_01'') (developer_credentials demo_flow_store)"
    "list_ex (\<lambda>p. p_id p = 5 \<and> p_organization_id p = 2 \<and> p_enabled p) (principals (iam demo_flow_store))"
    by code_simp+
  ultimately obtain c db' where
    ok: "create_flow_developer_credential 61 10 demo_new_credential demo_flow_store = Inr (c, db')"
    by (simp add: create_flow_developer_credential_def demo_new_credential_def Let_def)
  have "nc_expires_at demo_new_credential > 10" by (simp add: demo_new_credential_def)
  from created_credential_within_limit [OF ok this] ok show ?thesis by (simp add: demo_new_credential_def)
qed

lemma flow_service_update_credential [simp]:
  "flow_service (update_credential cid f db) sid = flow_service db sid"
  by (simp add: flow_service_def update_credential_def)

lemma update_credentialE:
  assumes "y \<in> set (developer_credentials (update_credential cid f db))"
  obtains (kept) "y \<in> set (developer_credentials db)" "dc_id y \<noteq> cid"
  | (changed) d where "d \<in> set (developer_credentials db)" "dc_id d = cid" "y = f d"
proof -
  from assms have "y \<in> (\<lambda>c. if dc_id c = cid then f c else c) ` set (developer_credentials db)"
    by (simp add: update_credential_def)
  then obtain d where d: "d \<in> set (developer_credentials db)" "y = (if dc_id d = cid then f d else d)"
    by (rule imageE)
  show thesis
  proof (cases "dc_id d = cid")
    case True
    with d that(2) show thesis by simp
  next
    case False
    with d that(1) show thesis by simp
  qed
qed

text \<open>The secret of a rotated credential.\<close>

lemma rotated_secret:
  assumes inv: "flow_inv db" and c: "c \<in> set (developer_credentials db)" "dc_id c = cid"
    and fresh: "\<forall>x \<in> set (developer_credentials db). dc_prefix x \<noteq> pre"
    and f: "f = (\<lambda>c. c\<lparr>dc_prefix := pre, dc_secret_hash := h, dc_last_used_at := None\<rparr>)"
  shows "credential_active now c \<Longrightarrow> find (\<lambda>c. dc_prefix c = pre \<and> dc_secret_hash c = h \<and> credential_active now c)
      (developer_credentials (update_credential cid f db)) = Some (f c)"
    and "y \<in> set (developer_credentials (update_credential cid f db)) \<Longrightarrow> dc_prefix y \<noteq> dc_prefix c"
proof -
  assume act: "credential_active now c"
  have ids: "distinct (map dc_id (developer_credentials (update_credential cid f db)))"
    using inv by (simp add: f update_credential_def flow_inv_def comp_def if_distrib cong: if_cong)
  have mem: "f c \<in> set (developer_credentials (update_credential cid f db))"
    using c by (force simp: update_credential_def)
  have "dc_id y = cid" if "y \<in> set (developer_credentials (update_credential cid f db))" "dc_prefix y = pre" for y
    using that(1) by (cases rule: update_credentialE) (use that(2) fresh in \<open>auto simp: f\<close>)
  then show "find (\<lambda>c. dc_prefix c = pre \<and> dc_secret_hash c = h \<and> credential_active now c)
      (developer_credentials (update_credential cid f db)) = Some (f c)"
    using act c by (intro find_unique [OF ids mem]) (auto simp: f credential_active_def)
next
  assume "y \<in> set (developer_credentials (update_credential cid f db))"
  then show "dc_prefix y \<noteq> dc_prefix c"
  proof (cases rule: update_credentialE)
    case kept
    then have "y \<noteq> c" using c by auto
    with kept(1) c(1) inv show ?thesis unfolding flow_inv_def by (metis distinct_map inj_onD)
  next
    case (changed d)
    then show ?thesis using bspec [OF fresh c(1)] by (simp add: f)
  qed
qed

text \<open>
  C38: Rotating an active credential under a new secret always succeeds: the new secret resolves to
  the credential, the former secret resolves to nothing at any time, and the contexts minted before
  are dead and announced.
\<close>

theorem rotation_replaces_secret:
  assumes "flow_inv db" "credential_in_scope db a sid cid = Some (c, s)" "credential_active now c"
    "\<not> list_ex (\<lambda>x. dc_prefix x = pre) (developer_credentials db)"
  shows "\<exists>c' n db'. rotate_flow_developer_credential gen now a sid cid pre h prin db = Inr ((c', n), db')
    \<and> map_option fst (credential_by_secret now pre h db') = Some c' \<and> dc_id c' = cid
    \<and> dc_permissions c' = dc_permissions c
    \<and> (\<forall>now'. credential_by_secret now' (dc_prefix c) (dc_secret_hash c) db' = None)
    \<and> (\<forall>x \<in> set (access_contexts db). minted_with c x \<and> context_active now x \<longrightarrow> announced x db')
    \<and> (\<forall>x \<in> set (access_contexts db'). minted_with c x \<longrightarrow> \<not> context_active now x)"
proof -
  note scope = scope_Some [OF assms(2)]
  let ?f = "\<lambda>c. c\<lparr>dc_prefix := pre, dc_secret_hash := h, dc_last_used_at := None\<rparr>"
  let ?db1 = "update_credential cid ?f db"
  have acc [simp]: "access_contexts ?db1 = access_contexts db" by (simp add: update_credential_def)
  have ids: "distinct (map fc_context_id (access_contexts ?db1))" using assms(1) by (simp add: flow_inv_def)
  obtain n db' where casc: "cascade_flow_developer_credential_contexts gen now c s prin ?db1 = Inr (n, db')"
    and ctx: "access_contexts db' = map (\<lambda>x. if minted_with c x \<and> context_active now x
      then x\<lparr>fc_revoked_at := Some now\<rparr> else x) (access_contexts db)"
    and out: "outbox db' = outbox ?db1 @ map (\<lambda>(i, x). revocation_event (gen i) now x (dc_organization_id c)
      (dc_service_instance_id c) s prin) (enumerate 0 (cascaded now c ?db1))"
    and creds: "developer_credentials db' = developer_credentials ?db1" and serv: "services db' = services db"
    using cascade_eq [OF ids, of gen now c s prin] by (simp add: update_credential_def)
  have ok: "rotate_flow_developer_credential gen now a sid cid pre h prin db = Inr ((?f c, n), db')"
    using assms(2-4) casc by (auto simp: rotate_flow_developer_credential_def fail_if_def list_ex_iff)
  have fresh: "\<forall>x \<in> set (developer_credentials db). dc_prefix x \<noteq> pre"
    using assms(4) by (auto simp: list_ex_iff)
  have c: "c \<in> set (developer_credentials db)" "dc_id c = cid" using scope by simp_all
  note rotated = rotated_secret [OF assms(1) c fresh refl, where h = h]
  have "flow_service db' sid \<noteq> None"
    using scope by (auto simp: flow_service_def find_None_iff serv)
  then have resolves: "map_option fst (credential_by_secret now pre h db') = Some (?f c)"
    using rotated(1) [OF assms(3)] scope by (auto simp: credential_by_secret_def creds)
  have "dc_prefix y \<noteq> dc_prefix c" if "y \<in> set (developer_credentials db')" for y
    using rotated(2) that by (simp add: creds)
  then have dead: "credential_by_secret now' (dc_prefix c) (dc_secret_hash c) db' = None" for now'
    by (auto simp: credential_by_secret_def dest!: find_eq_Some split: option.split)
  have ann: "announced x db'" if "x \<in> set (access_contexts db)" "minted_with c x" "context_active now x" for x
    using that by (intro announced_cascade [OF _ that(2) out]) (simp add: cascaded_def)
  have off: "\<not> context_active now x" if "x \<in> set (access_contexts db')" "minted_with c x" for x
    using that by (auto simp: ctx context_active_def minted_with_def split: if_splits)
  show ?thesis
    using ok resolves dead ann off scope by (intro exI [of _ "?f c"] exI [of _ n] exI [of _ db']) simp
qed

theorem rotation_replaces_secret_witness:
  "\<exists>c' n db'. rotate_flow_developer_credential (\<lambda>i. 90 + i) 10 2 50 60 (lit ''hcf_02'') [9] 5 demo_flow_store
       = Inr ((c', n), db') \<and> map_option fst (credential_by_secret 10 (lit ''hcf_02'') [9] db') = Some c'
     \<and> credential_by_secret 10 (lit ''hcf_00'') [1, 2] db' = None"
proof -
  have "credential_active 10 demo_credential"
    "\<not> list_ex (\<lambda>x. dc_prefix x = lit ''hcf_02'') (developer_credentials demo_flow_store)" by code_simp+
  from rotation_replaces_secret [OF demo_flow_inv demo_flow_scope this, of "\<lambda>i. 90 + i" "[9]" 5]
  show ?thesis by (fastforce simp: demo_credential_def)
qed

text \<open>
  Pruning the history of a service keeps every active context and every context of the other
  services, adds nothing, and leaves at most one hundred contexts of the service that are revoked or
  expired.
\<close>

theorem prune_bounds_history:
  assumes "distinct (map fc_context_id (access_contexts db))"
  shows "set (access_contexts (prune_flow_access_context_history now sid db)) \<subseteq> set (access_contexts db)
    \<and> (\<forall>x \<in> set (access_contexts db). context_active now x \<or> fc_service_instance_id x \<noteq> sid
          \<longrightarrow> x \<in> set (access_contexts (prune_flow_access_context_history now sid db)))
    \<and> length (filter (\<lambda>x. fc_service_instance_id x = sid \<and> \<not> context_active now x)
         (access_contexts (prune_flow_access_context_history now sid db)))
       \<le> MAX_FLOW_ACCESS_CONTEXT_RECORDS_PER_SERVICE"
proof -
  let ?n = MAX_FLOW_ACCESS_CONTEXT_RECORDS_PER_SERVICE
  let ?new = "newest_contexts sid db"
  let ?db = "prune_flow_access_context_history now sid db"
  let ?left = "filter (\<lambda>x. fc_service_instance_id x = sid \<and> \<not> context_active now x) (access_contexts ?db)"
  have pruned: "x \<in> set (access_contexts ?db) \<longleftrightarrow> x \<in> set (access_contexts db)
      \<and> \<not> (fc_service_instance_id x = sid \<and> fc_context_id x \<in> fc_context_id ` set (drop ?n ?new)
           \<and> \<not> context_active now x)" for x
    by (auto simp: prune_flow_access_context_history_def context_active_def Let_def not_less)
  have "set ?left \<subseteq> set (take ?n ?new)"
  proof
    fix x assume x: "x \<in> set ?left"
    then have "x \<in> set ?new" by (auto simp: newest_contexts_def pruned)
    then have "x \<in> set (take ?n ?new) \<union> set (drop ?n ?new)" by (metis append_take_drop_id set_append)
    with x show "x \<in> set (take ?n ?new)" by (auto simp: pruned)
  qed
  then have "card (set ?left) \<le> length (take ?n ?new)"
    by (meson List.finite_set card_length card_mono le_trans)
  then have "card (set ?left) \<le> ?n" by (rule le_trans) simp
  moreover have "distinct ?left"
    using assms by (simp add: prune_flow_access_context_history_def Let_def distinct_map)
  ultimately have "length ?left \<le> ?n" by (metis distinct_card)
  then show ?thesis by (auto simp: pruned)
qed

theorem prune_bounds_history_witness:
  "demo_access \<in> set (access_contexts (prune_flow_access_context_history 10 50 demo_flow_store))"
proof -
  have d: "distinct (map fc_context_id (access_contexts demo_flow_store))"
    and m: "demo_access \<in> set (access_contexts demo_flow_store)" "context_active 10 demo_access"
    by (simp_all add: demo_flow_store_def demo_access_def context_active_def)
  from prune_bounds_history [OF d, of 10 50] m show ?thesis by blast
qed

subsection \<open>The invariant of the tables\<close>

lemma flow_inv_update_credential:
  assumes "flow_inv db" "\<And>c. dc_id (f c) = dc_id c" "\<And>c. dc_prefix (f c) = dc_prefix c"
  shows "flow_inv (update_credential cid f db)"
  using assms by (simp add: flow_inv_def update_credential_def comp_def if_distrib cong: if_cong)

lemma flow_inv_contexts:
  assumes "flow_inv db" "developer_credentials db' = developer_credentials db"
    "distinct (map fc_context_id (access_contexts db'))"
  shows "flow_inv db'"
  using assms by (simp add: flow_inv_def)

lemma flow_inv_revoke_contexts [intro]:
  assumes "flow_inv db" shows "flow_inv (snd (revoke_contexts now ids db))"
  by (rule flow_inv_contexts [OF assms])
     (use assms in \<open>simp_all add: revoke_contexts_def Let_def flow_inv_def comp_def if_distrib cong: if_cong\<close>)

lemma flow_inv_enqueue [simp]: "flow_inv (enqueue e db) = flow_inv db"
  by (simp add: flow_inv_def enqueue_def)

lemma flow_inv_audit [simp]: "flow_inv (audit_credential_use a c db) = flow_inv db"
  by (simp add: flow_inv_def audit_credential_use_def)

lemma flow_inv_prune [intro]:
  assumes "flow_inv db" shows "flow_inv (prune_flow_access_context_history now sid db)"
  by (rule flow_inv_contexts [OF assms])
     (use assms in \<open>simp_all add: prune_flow_access_context_history_def Let_def flow_inv_def distinct_map_filter\<close>)

lemma flow_inv_insert:
  assumes "flow_inv db" "insert_context x db = Inr db'" shows "flow_inv db'"
proof -
  from assms(2) have fresh: "\<not> list_ex (\<lambda>y. fc_context_id y = fc_context_id x) (access_contexts db)"
    and db': "db' = db\<lparr>access_contexts := access_contexts db @ [x]\<rparr>"
    by (auto simp: insert_context_def split: if_splits)
  from fresh have "fc_context_id x \<notin> fc_context_id ` set (access_contexts db)" by (simp only: list_ex_key not_False_eq_True)
  with assms(1) show ?thesis by (simp add: flow_inv_def db')
qed

lemma flow_inv_cascade:
  assumes "flow_inv db" "cascade_flow_developer_credential_contexts gen now c s prin db = Inr (n, db')"
  shows "flow_inv db'"
proof -
  have "distinct (map fc_context_id (access_contexts db))" using assms(1) by (simp add: flow_inv_def)
  from cascade_eq [OF this, of gen now c s prin] assms show ?thesis
    by (auto simp: flow_inv_def comp_def if_distrib cong: if_cong)
qed

lemma create_credential_inv:
  assumes "flow_inv db" "create_flow_developer_credential cid now input db = Inr (c, db')"
    "cid \<notin> dc_id ` set (developer_credentials db)"
  shows "flow_inv db'"
proof -
  from assms(2) have fresh: "\<not> list_ex (\<lambda>y. dc_prefix y = dc_prefix c) (developer_credentials db)"
    and db': "db' = db\<lparr>developer_credentials := developer_credentials db @ [c]\<rparr>" and c: "dc_id c = cid"
    by (auto simp: create_flow_developer_credential_def bindE_Inr_iff fail_if_def Let_def split: if_splits)
  from fresh have "dc_prefix c \<notin> dc_prefix ` set (developer_credentials db)" by (simp only: list_ex_key not_False_eq_True)
  with assms(1,3) c show ?thesis by (simp add: flow_inv_def db')
qed

lemma revoke_credential_inv:
  assumes "flow_inv db" "revoke_flow_developer_credential gen now a sid cid prin db = Inr (r, db')"
  shows "flow_inv db'"
proof (cases "credential_in_scope db a sid cid")
  case None
  with assms show ?thesis by (simp add: revoke_flow_developer_credential_def)
next
  case (Some cs)
  obtain c s where cs: "cs = (c, s)" by (cases cs)
  have "flow_inv (update_credential cid (\<lambda>c. c\<lparr>dc_revoked_at := Some now\<rparr>) db)"
    by (rule flow_inv_update_credential [OF assms(1)]) simp_all
  with assms Some cs flow_inv_cascade show ?thesis
    by (auto simp: revoke_flow_developer_credential_def bindE_Inr_iff Let_def split: if_splits)
qed

lemma rotate_credential_inv:
  assumes "flow_inv db" "rotate_flow_developer_credential gen now a sid cid pre h prin db = Inr (r, db')"
  shows "flow_inv db'"
proof -
  let ?f = "\<lambda>c. c\<lparr>dc_prefix := pre, dc_secret_hash := h, dc_last_used_at := None\<rparr>"
  from assms(2) obtain c s n where scope: "credential_in_scope db a sid cid = Some (c, s)"
    and fresh: "\<not> list_ex (\<lambda>x. dc_id x \<noteq> cid \<and> dc_prefix x = pre) (developer_credentials db)"
    and casc: "cascade_flow_developer_credential_contexts gen now c s prin (update_credential cid ?f db) = Inr (n, db')"
    by (auto simp: rotate_flow_developer_credential_def bindE_Inr_iff fail_if_def split: option.splits if_splits)
  have "distinct (map dc_id (developer_credentials db))" "distinct (map dc_prefix (developer_credentials db))"
    using assms(1) by (simp_all add: flow_inv_def)
  then have "distinct (map (\<lambda>c. if dc_id c = cid then pre else dc_prefix c) (developer_credentials db))"
    by (rule distinct_rekey) (use fresh in \<open>simp add: list_ex_iff\<close>)
  then have "flow_inv (update_credential cid ?f db)"
    using assms(1) by (simp add: flow_inv_def update_credential_def comp_def if_distrib cong: if_cong)
  with casc show ?thesis by (rule flow_inv_cascade [rotated])
qed

lemma record_context_inv:
  assumes "flow_inv db" "record_flow_access_context now x db = Inr db'" shows "flow_inv db'"
  using assms flow_inv_insert
  by (auto simp: record_flow_access_context_def bindE_Inr_iff fail_if_def Let_def split: if_splits)

lemma mint_inv:
  assumes "flow_inv db"
    "mint_flow_access_context_with_developer_credential now pre h cid prin perms issued expires db = Inr (out, db')"
  shows "flow_inv db'"
  using assms flow_inv_insert
  by (auto simp: mint_flow_access_context_with_developer_credential_def bindE_Inr_iff Let_def
      intro!: flow_inv_update_credential flow_inv_prune split: if_splits option.splits prod.splits)

lemma revoke_context_inv:
  assumes "flow_inv db" shows "flow_inv (snd (revoke_flow_access_context eid now a sid cid prin db))"
  using assms by (auto simp: revoke_flow_access_context_def split: option.split)

lemma revoke_own_context_inv:
  assumes "flow_inv db"
  shows "flow_inv (snd (revoke_flow_access_context_with_developer_credential eid now pre h cid db))"
  using assms
  by (auto simp: revoke_flow_access_context_with_developer_credential_def Let_def
      intro!: flow_inv_update_credential split: option.split)

lemmas flow_inv_preserved = create_credential_inv revoke_credential_inv rotate_credential_inv
  record_context_inv mint_inv revoke_context_inv revoke_own_context_inv

end
