(* ===== verification/Provider_Protocol.thy ===== *)
theory Provider_Protocol
  imports Quota_Admin
begin

section \<open>The protocol between the control plane and a provider\<close>

text \<open>
  \<open>src/crates/heterocloud-provider/src/lib.rs\<close>: the signed context of a call, the bodies of a
  call; and the parts of \<open>src/crates/heterocloud-worker/src/main.rs\<close> that read an answer. The
  signature algorithm, the join of URLs and the JSON decoders are parameters; a body arrives as
  its chunks, after which the transfer may break.
\<close>

subsection \<open>Signing\<close>

definition PROVIDER_TOKEN_TTL_SECONDS :: i64 where
  "PROVIDER_TOKEN_TTL_SECONDS = 60"

definition PRINCIPAL_CONTEXT_REVOCATION_GRACE_SECONDS :: i64 where
  "PRINCIPAL_CONTEXT_REVOCATION_GRACE_SECONDS = 15"

record provider_context =
  pc_principal_id :: uuid
  pc_user_id :: "uuid option"
  pc_organization_id :: uuid
  pc_project_id :: uuid
  pc_service_instance_id :: uuid
  pc_action :: str
  pc_generation :: i64

record provider_claims =
  cl_issuer :: str
  cl_audience :: str
  cl_subject :: str
  cl_user_id :: "uuid option"
  cl_organization_id :: uuid
  cl_project_id :: uuid
  cl_service_instance_id :: uuid
  cl_action :: str
  cl_generation :: i64
  cl_jwt_id :: uuid
  cl_issued_at :: i64
  cl_not_before :: i64
  cl_expires_at :: i64

record provider_signer =
  sg_issuer :: str
  sg_audience :: str
  sg_key_id :: str
  sg_key :: "nat list"

record wire =
  jwt_encode :: "str \<Rightarrow> nat list \<Rightarrow> provider_claims \<Rightarrow> str option"
  url_join :: "str \<Rightarrow> str \<Rightarrow> str option"
  url_set_path :: "str \<Rightarrow> str \<Rightarrow> str"
  decode_operation :: "nat list \<Rightarrow> (uuid \<times> json) option"
  decode_envelope :: "nat list \<Rightarrow> (str \<times> str) option"
  decode_value :: "nat list \<Rightarrow> json option"

datatype worker_error =
    InvalidPayload
  | MissingInstance
  | ProviderJwt
  | ProviderStatus nat
  | StalePayload
  | StoreFailure store_error
  | UnsupportedTopic str
  | UnsupportedProvider str
  | JsonFailure
  | RequestFailure
  | UrlFailure

definition claims_of :: "provider_signer \<Rightarrow> uuid \<Rightarrow> datetime \<Rightarrow> provider_context \<Rightarrow> provider_claims" where
  "claims_of signer jti now cx =
     \<lparr>cl_issuer = sg_issuer signer, cl_audience = sg_audience signer,
      cl_subject = uuid_string (pc_principal_id cx), cl_user_id = pc_user_id cx,
      cl_organization_id = pc_organization_id cx, cl_project_id = pc_project_id cx,
      cl_service_instance_id = pc_service_instance_id cx, cl_action = pc_action cx,
      cl_generation = pc_generation cx, cl_jwt_id = jti, cl_issued_at = timestamp now,
      cl_not_before = timestamp now - 5,
      cl_expires_at = timestamp (now + seconds PROVIDER_TOKEN_TTL_SECONDS)\<rparr>"

definition sign ::
    "wire \<Rightarrow> provider_signer \<Rightarrow> uuid \<Rightarrow> datetime \<Rightarrow> provider_context \<Rightarrow>
     worker_error + str \<times> provider_claims" where
  "sign w signer jti now cx =
     (let claims = claims_of signer jti now cx in
      bindE (ok_or (jwt_encode w (sg_key_id signer) (sg_key signer) claims) ProviderJwt) (\<lambda>token.
      Inr (token, claims)))"

subsection \<open>Requests\<close>

record weekly_limits =
  wl_cpu_millicore_seconds :: u64
  wl_memory_mib_seconds :: u64
  wl_gpu_seconds :: u64

record flash_provider_policy =
  fp_limits :: weekly_limits
  fp_member :: "weekly_limits option"
  fp_cloud_organization :: "(uuid list \<times> weekly_limits) option"

datatype provider_spec =
    StoredSpec service_spec
  | SyouyuProviderSpec (ps_region: str) (ps_bucket_name: str) (ps_quota_bytes: u64) (ps_quota_objects: u64)

record reconcile_request =
  rr_generation :: i64
  rr_name :: str
  rr_spec :: provider_spec
  rr_policy :: "flash_provider_policy option"
  rr_quota_user_id :: "uuid option"
  rr_quota_only :: bool

datatype request_body = NoBody | ReconcileBody reconcile_request | RevocationBody i64

datatype http_method = PutMethod | DeleteMethod

record provider_request =
  rq_method :: http_method
  rq_url :: str
  rq_query :: "(str \<times> str) list"
  rq_claims :: provider_claims
  rq_token :: str
  rq_idempotency_key :: str
  rq_body :: request_body

record provider_target =
  tg_endpoint :: str
  tg_signer :: provider_signer

record provider_targets =
  tg_flow :: provider_target
  tg_flash :: provider_target
  tg_syouyu :: provider_target
  tg_vpc :: "provider_target option"

fun target :: "provider_targets \<Rightarrow> provider \<Rightarrow> worker_error + provider_target" where
  "target ts Flow = Inr (tg_flow ts)"
| "target ts Flash = Inr (tg_flash ts)"
| "target ts Syouyu = Inr (tg_syouyu ts)"
| "target ts Vpc = ok_or (tg_vpc ts) (UnsupportedProvider (lit ''vpc endpoint is not configured''))"
| "target ts (OtherProvider p) = Inl (UnsupportedProvider p)"

definition provider_reconcile_spec :: "provider \<Rightarrow> service_spec \<Rightarrow> worker_error + provider_spec" where
  "provider_reconcile_spec p spec =
     (if p \<noteq> Syouyu then Inr (StoredSpec spec)
      else
        bindE (map_err (\<lambda>_. JsonFailure) (syouyu_of spec)) (\<lambda>s.
        Inr (SyouyuProviderSpec (sy_region s) (bucket_name s) (quota_bytes s) (quota_objects s))))"

subsection \<open>Answers\<close>

record http_response =
  rs_status :: nat
  rs_content_type :: "str option"
  rs_chunks :: "nat list list"
  rs_broken :: bool

definition is_success :: "nat \<Rightarrow> bool" where
  "is_success status \<longleftrightarrow> 200 \<le> status \<and> status < 300"

definition MAX_PROVIDER_ERROR_BODY_BYTES :: nat where
  "MAX_PROVIDER_ERROR_BODY_BYTES = 8 * 1024"

definition MAX_PROVIDER_ERROR_MESSAGE_CHARS :: nat where
  "MAX_PROVIDER_ERROR_MESSAGE_CHARS = 1024"

definition permanent_reconcile_rejection :: "nat \<Rightarrow> bool" where
  "permanent_reconcile_rejection status \<longleftrightarrow> status \<in> {400, 409, 422}"

definition provider_reconcile_failed :: "json \<Rightarrow> bool" where
  "provider_reconcile_failed status \<longleftrightarrow>
     (case json_get (lit ''phase'') status of
        None \<Rightarrow> False
      | Some v \<Rightarrow> json_as_str v = Some (lit ''error''))"

definition is_json_content :: "str option \<Rightarrow> bool" where
  "is_json_content ct =
     (case ct of
        None \<Rightarrow> False
      | Some v \<Rightarrow>
          eq_ignore_ascii_case
            (trim (case split_once 59 v of None \<Rightarrow> v | Some (a, _) \<Rightarrow> a)) (lit ''application/json''))"

text \<open>The whole body, or nothing when it is longer than the bound.\<close>

primrec read_bounded :: "bool \<Rightarrow> nat list list \<Rightarrow> nat list \<Rightarrow> worker_error + nat list option" where
  "read_bounded broken [] body = (if broken then Inl RequestFailure else Inr (Some body))"
| "read_bounded broken (chunk # chunks) body =
     (if length chunk > MAX_PROVIDER_ERROR_BODY_BYTES - length body then Inr None
      else read_bounded broken chunks (body @ chunk))"

definition provider_delete_already_absent ::
    "wire \<Rightarrow> topic \<Rightarrow> http_response \<Rightarrow> worker_error + bool" where
  "provider_delete_already_absent w topic r =
     (if topic \<noteq> TopicDelete \<or> rs_status r \<noteq> 404 \<or> \<not> is_json_content (rs_content_type r)
      then Inr False
      else
        bindE (read_bounded (rs_broken r) (rs_chunks r) []) (\<lambda>body.
        Inr (case body of
               None \<Rightarrow> False
             | Some bytes \<Rightarrow>
                 (case decode_envelope w bytes of
                    None \<Rightarrow> False
                  | Some (code, message) \<Rightarrow> code = lit ''not_found'' \<and> trim message \<noteq> []))))"

primrec read_prefix :: "bool \<Rightarrow> nat list list \<Rightarrow> nat list \<Rightarrow> worker_error + nat list" where
  "read_prefix broken [] body =
     (if length body < MAX_PROVIDER_ERROR_BODY_BYTES \<and> broken then Inl RequestFailure else Inr body)"
| "read_prefix broken (chunk # chunks) body =
     (if length body < MAX_PROVIDER_ERROR_BODY_BYTES
      then read_prefix broken chunks (body @ take (MAX_PROVIDER_ERROR_BODY_BYTES - length body) chunk)
      else Inr body)"

definition bounded_provider_error_message :: "wire \<Rightarrow> http_response \<Rightarrow> worker_error + str option" where
  "bounded_provider_error_message w r =
     bindE (read_prefix (rs_broken r) (rs_chunks r) []) (\<lambda>body.
     Inr (case Option.bind (Option.bind (Option.bind (decode_value w body) (json_get (lit ''error'')))
                 (json_get (lit ''message''))) json_as_str of
            None \<Rightarrow> None
          | Some m \<Rightarrow>
              if trim m = [] then None
              else
                (let message = take MAX_PROVIDER_ERROR_MESSAGE_CHARS
                       (filter (\<lambda>c. \<not> is_control c) (trim m)) in
                 if message = [] then None else Some message)))"

text \<open>The body as an accepted operation.\<close>

definition read_operation :: "wire \<Rightarrow> http_response \<Rightarrow> worker_error + uuid \<times> json" where
  "read_operation w r =
     (if rs_broken r then Inl RequestFailure
      else ok_or (decode_operation w (concat (rs_chunks r))) RequestFailure)"

definition principal_context_revocation_expired :: "i64 \<Rightarrow> i64 \<Rightarrow> bool" where
  "principal_context_revocation_expired expires_at now \<longleftrightarrow>
     saturating_add_i64 expires_at PRINCIPAL_CONTEXT_REVOCATION_GRACE_SECONDS \<le> now"

subsection \<open>An example\<close>

text \<open>Encoders that always succeed, and one address and signer for every provider.\<close>

definition demo_wire :: wire where
  "demo_wire = \<lparr>jwt_encode = (\<lambda>_ _ _. Some (lit ''token'')), url_join = (\<lambda>base path. Some (base @ path)),
     url_set_path = (\<lambda>base path. base @ path), decode_operation = (\<lambda>_. Some (90, JObject [])),
     decode_envelope = (\<lambda>_. None), decode_value = (\<lambda>_. None)\<rparr>"

definition demo_target :: provider_target where
  "demo_target = \<lparr>tg_endpoint = lit ''http://vpc/'', tg_signer = \<lparr>sg_issuer = lit ''hc'', sg_audience = lit ''vpc'',
     sg_key_id = lit ''k'', sg_key = lit ''s''\<rparr>\<rparr>"

definition demo_targets :: provider_targets where
  "demo_targets = \<lparr>tg_flow = demo_target, tg_flash = demo_target, tg_syouyu = demo_target, tg_vpc = Some demo_target\<rparr>"

end
