(* ===== verification/Outbox_Worker.thy ===== *)
theory Outbox_Worker
  imports Provider_Protocol
begin

section \<open>The outbox and the provider worker\<close>

text \<open>
  The outbox operations of \<open>src/crates/heterocloud-store/src/lib.rs\<close> and the worker of
  \<open>src/crates/heterocloud-worker/src/main.rs\<close>. A delivery has two parts with the call of the
  provider between them: \<open>start_delivery\<close> reads the store and builds the request,
  \<open>finish_delivery\<close> records the answer. Other transactions run between the parts, so \<open>process_one\<close>
  takes the store each part sees.
\<close>

subsection \<open>Outbox\<close>

definition claimable :: "datetime \<Rightarrow> outbox_row \<Rightarrow> bool" where
  "claimable now e \<longleftrightarrow>
     ob_delivered_at e = None \<and> ob_available_at e \<le> now
     \<and> (case ob_locked_at e of None \<Rightarrow> True | Some t \<Rightarrow> t < now - seconds 120)"

definition earlier_event :: "outbox_row \<Rightarrow> outbox_row \<Rightarrow> outbox_row" where
  "earlier_event e e' =
     (if (ob_available_at e', ob_id e') < (ob_available_at e, ob_id e) then e' else e)"

definition next_event :: "datetime \<Rightarrow> outbox_row list \<Rightarrow> outbox_row option" where
  "next_event now rows =
     (case filter (claimable now) rows of
        [] \<Rightarrow> None
      | e # es \<Rightarrow> Some (foldl earlier_event e es))"

definition update_event :: "uuid \<Rightarrow> (outbox_row \<Rightarrow> outbox_row) \<Rightarrow> store \<Rightarrow> store" where
  "update_event eid f db = db\<lparr>outbox := map (\<lambda>e. if ob_id e = eid then f e else e) (outbox db)\<rparr>"

definition claim_outbox_event :: "datetime \<Rightarrow> store \<Rightarrow> outbox_row option \<times> store" where
  "claim_outbox_event now db =
     (case next_event now (outbox db) of
        None \<Rightarrow> (None, db)
      | Some e \<Rightarrow>
          (let f = (\<lambda>e. e\<lparr>ob_locked_at := Some now, ob_attempts := ob_attempts e + 1\<rparr>) in
           (Some (f e), update_event (ob_id e) f db)))"

definition mark_outbox_delivered :: "datetime \<Rightarrow> uuid \<Rightarrow> store \<Rightarrow> store" where
  "mark_outbox_delivered now eid db =
     update_event eid (\<lambda>e. e\<lparr>ob_delivered_at := Some now, ob_locked_at := None\<rparr>) db"

definition saturating_pow_i32 :: "int \<Rightarrow> nat \<Rightarrow> int" where
  "saturating_pow_i32 b n = min (b ^ n) (2 ^ 31 - 1)"

definition retry_delay :: "int \<Rightarrow> int" where
  "retry_delay attempts = min (saturating_pow_i32 2 (nat (max 1 (min 8 attempts)))) 300"

definition retry_outbox_event :: "datetime \<Rightarrow> uuid \<Rightarrow> int \<Rightarrow> store \<Rightarrow> store" where
  "retry_outbox_event now eid attempts db =
     update_event eid (\<lambda>e. if ob_delivered_at e = None
       then e\<lparr>ob_locked_at := None, ob_available_at := now + seconds (retry_delay attempts)\<rparr> else e) db"

subsection \<open>Before the call\<close>

fun topic_name :: "topic \<Rightarrow> str" where
  "topic_name TopicReconcile = lit ''service-instance.reconcile''"
| "topic_name TopicDelete = lit ''service-instance.delete''"
| "topic_name TopicFlashQuota = lit ''service-instance.flash-quota''"
| "topic_name TopicRevocation = lit ''principal-context.revoke''"
| "topic_name (TopicOther t) = t"

text \<open>A revocation payload has all the fields of a service payload.\<close>

definition decode_reconcile :: "outbox_payload \<Rightarrow> worker_error + service_event" where
  "decode_reconcile payload =
     (case payload of
        ServicePayload ev \<Rightarrow> Inr ev
      | RevocationPayload r \<Rightarrow>
          Inr (service_event_of (rv_service_instance_id r) (rv_organization_id r) (rv_project_id r)
                 (rv_principal_id r) (rv_provider r) (rv_generation r))
      | JsonPayload _ \<Rightarrow> Inl JsonFailure)"

definition decode_revocation :: "outbox_payload \<Rightarrow> worker_error + revocation_payload" where
  "decode_revocation payload =
     (case payload of RevocationPayload r \<Rightarrow> Inr r | _ \<Rightarrow> Inl JsonFailure)"

definition service_instance_matches_payload :: "service_row \<Rightarrow> service_event \<Rightarrow> bool" where
  "service_instance_matches_payload instance_row payload \<longleftrightarrow>
     s_generation instance_row = ev_generation payload
     \<and> s_organization_id instance_row = ev_organization_id payload
     \<and> s_project_id instance_row = ev_project_id payload
     \<and> s_provider instance_row = ev_provider payload"

definition active_principal_user :: "store \<Rightarrow> uuid \<Rightarrow> uuid option" where
  "active_principal_user db prin =
     (case find (\<lambda>p. p_id p = prin \<and> p_enabled p
              \<and> (case p_user_id p of None \<Rightarrow> False | Some u \<Rightarrow> user_is_active (iam db) u))
             (principals (iam db)) of
        None \<Rightarrow> None
      | Some p \<Rightarrow> p_user_id p)"

definition weekly_of :: "flash_quota_limits \<Rightarrow> weekly_limits" where
  "weekly_of l =
     \<lparr>wl_cpu_millicore_seconds = max_weekly_cpu_millicore_seconds l,
      wl_memory_mib_seconds = max_weekly_memory_mib_seconds l,
      wl_gpu_seconds = max_weekly_gpu_seconds l\<rparr>"

definition member_weekly_of :: "flash_quota_limits \<Rightarrow> flash_quota_limits \<Rightarrow> weekly_limits" where
  "member_weekly_of limits quota =
     \<lparr>wl_cpu_millicore_seconds =
        min (max_weekly_cpu_millicore_seconds limits) (max_weekly_cpu_millicore_seconds quota),
      wl_memory_mib_seconds =
        min (max_weekly_memory_mib_seconds limits) (max_weekly_memory_mib_seconds quota),
      wl_gpu_seconds = min (max_weekly_gpu_seconds limits) (max_weekly_gpu_seconds quota)\<rparr>"

definition flash_policy ::
    "store \<Rightarrow> service_event \<Rightarrow> uuid option \<Rightarrow> store_error + flash_provider_policy" where
  "flash_policy db payload quota_user =
     bindE (effective_resource_quota db (ev_organization_id payload)) (\<lambda>quota.
     bindE (case quota_user of
              None \<Rightarrow> Inr None
            | Some user \<Rightarrow>
                bindE (effective_member_quota db (ev_organization_id payload) user) (\<lambda>limits.
                Inr (Some (member_weekly_of (q_flash limits) (q_flash quota))))) (\<lambda>member.
     bindE (cloud_flash_weekly_quota db (ev_organization_id payload)) (\<lambda>cloud.
     Inr \<lparr>fp_limits = weekly_of (q_flash quota), fp_member = member,
          fp_cloud_organization =
            map_option (\<lambda>(ids, limits). (ids, weekly_of (q_flash limits))) cloud\<rparr>)))"

definition reconcile_body ::
    "store \<Rightarrow> topic \<Rightarrow> service_event \<Rightarrow> service_row \<Rightarrow> worker_error + reconcile_request" where
  "reconcile_body db topic payload instance_row =
     bindE (provider_reconcile_spec (ev_provider payload) (s_spec instance_row)) (\<lambda>spec.
     bindE (if ev_provider payload = Flash
            then map_err StoreFailure
                   (service_quota_user db (ev_organization_id payload) (ev_service_instance_id payload))
            else Inr None) (\<lambda>quota_user.
     bindE (if ev_provider payload = Flash
            then bindE (map_err StoreFailure (flash_policy db payload quota_user)) (\<lambda>p. Inr (Some p))
            else Inr None) (\<lambda>policy.
     Inr \<lparr>rr_generation = s_generation instance_row, rr_name = s_name instance_row, rr_spec = spec,
          rr_policy = policy, rr_quota_user_id = quota_user,
          rr_quota_only = (topic = TopicFlashQuota)\<rparr>)))"

definition start_revocation ::
    "wire \<Rightarrow> provider_targets \<Rightarrow> uuid \<Rightarrow> datetime \<Rightarrow> outbox_row \<Rightarrow> revocation_payload \<Rightarrow>
     worker_error + provider_request option" where
  "start_revocation w targets jti now e payload =
     (if rv_provider payload \<noteq> Flow \<or> rv_context_id payload \<noteq> ob_aggregate_id e
         \<or> rv_generation payload \<le> 0
      then Inl InvalidPayload
      else if principal_context_revocation_expired (rv_expires_at payload) (timestamp now)
      then Inr None
      else
        bindE (sign w (tg_signer (tg_flow targets)) jti now
          \<lparr>pc_principal_id = rv_principal_id payload, pc_user_id = None,
           pc_organization_id = rv_organization_id payload, pc_project_id = rv_project_id payload,
           pc_service_instance_id = rv_service_instance_id payload,
           pc_action = topic_name TopicRevocation, pc_generation = rv_generation payload\<rparr>) (\<lambda>(token, claims).
        Inr (Some
          \<lparr>rq_method = PutMethod,
           rq_url = url_set_path w (tg_endpoint (tg_flow targets))
             (lit ''/internal/v1/service-instances/'' @ uuid_string (rv_service_instance_id payload)
              @ lit ''/principal-contexts/'' @ uuid_string (rv_context_id payload) @ lit ''/revocation''),
           rq_query = [], rq_claims = claims, rq_token = token,
           rq_idempotency_key = uuid_string (ob_id e),
           rq_body = RevocationBody (rv_expires_at payload)\<rparr>)))"

definition start_service_call ::
    "wire \<Rightarrow> provider_target \<Rightarrow> uuid \<Rightarrow> datetime \<Rightarrow> store \<Rightarrow> topic \<Rightarrow> service_event \<Rightarrow> service_row \<Rightarrow>
     worker_error + provider_request" where
  "start_service_call w tgt jti now db topic payload instance_row =
     bindE (sign w (tg_signer tgt) jti now
       \<lparr>pc_principal_id = ev_principal_id payload,
        pc_user_id = (if ev_provider payload = Flash
                      then active_principal_user db (ev_principal_id payload) else None),
        pc_organization_id = ev_organization_id payload, pc_project_id = ev_project_id payload,
        pc_service_instance_id = ev_service_instance_id payload,
        pc_action = (if topic = TopicFlashQuota then topic_name TopicReconcile else topic_name topic),
        pc_generation = ev_generation payload\<rparr>) (\<lambda>(token, claims).
     bindE (ok_or (url_join w (tg_endpoint tgt)
              (lit ''internal/v1/service-instances/'' @ uuid_string (ev_service_instance_id payload)))
              UrlFailure) (\<lambda>url.
     bindE (if topic = TopicDelete then Inr NoBody
            else bindE (reconcile_body db topic payload instance_row) (\<lambda>b. Inr (ReconcileBody b))) (\<lambda>body.
     Inr \<lparr>rq_method = (if topic = TopicDelete then DeleteMethod else PutMethod), rq_url = url,
          rq_query = (if topic = TopicDelete
                      then [(lit ''generation'', int_to_string (s_generation instance_row))] else []),
          rq_claims = claims, rq_token = token,
          rq_idempotency_key = uuid_string (cl_jwt_id claims), rq_body = body\<rparr>)))"

definition start_delivery ::
    "wire \<Rightarrow> provider_targets \<Rightarrow> uuid \<Rightarrow> datetime \<Rightarrow> store \<Rightarrow> outbox_row \<Rightarrow>
     worker_error + provider_request option" where
  "start_delivery w targets jti now db e =
     (if ob_topic e = TopicRevocation
      then bindE (decode_revocation (ob_payload e)) (start_revocation w targets jti now e)
      else if ob_topic e \<notin> {TopicReconcile, TopicDelete, TopicFlashQuota}
      then Inl (UnsupportedTopic (topic_name (ob_topic e)))
      else
        bindE (decode_reconcile (ob_payload e)) (\<lambda>payload.
        if ev_service_instance_id payload \<noteq> ob_aggregate_id e then Inl InvalidPayload
        else if ob_topic e = TopicFlashQuota \<and> ev_provider payload \<noteq> Flash then Inl InvalidPayload
        else
          bindE (target targets (ev_provider payload)) (\<lambda>tgt.
          (case service_by_id db (ev_service_instance_id payload) of
             None \<Rightarrow> if ob_topic e = TopicDelete then Inr None else Inl MissingInstance
           | Some instance_row \<Rightarrow>
               if \<not> service_instance_matches_payload instance_row payload then Inl StalePayload
               else
                 bindE (start_service_call w tgt jti now db (ob_topic e) payload instance_row) (\<lambda>rq.
                 Inr (Some rq))))))"

subsection \<open>After the call\<close>

definition stale_unless :: "bool \<times> store \<Rightarrow> (worker_error + unit) \<times> store" where
  "stale_unless r = ((if fst r then Inr () else Inl StalePayload), snd r)"

definition rejection_status :: "str \<Rightarrow> nat \<Rightarrow> json" where
  "rejection_status message status =
     JObject [(lit ''message'', JString message), (lit ''phase'', JString (lit ''error'')),
              (lit ''provider_http_status'', JInt (int status))]"

definition rejection_message :: "str option \<Rightarrow> provider \<Rightarrow> nat \<Rightarrow> str" where
  "rejection_message m p status =
     (case m of
        Some message \<Rightarrow> message
      | None \<Rightarrow> (case p of Flow \<Rightarrow> lit ''flow'' | Flash \<Rightarrow> lit ''flash'' | Syouyu \<Rightarrow> lit ''syouyu''
                  | Vpc \<Rightarrow> lit ''vpc'' | OtherProvider t \<Rightarrow> t)
          @ lit '' provider rejected the requested configuration with HTTP '' @ nat_to_string status)"

definition finish_service_call ::
    "wire \<Rightarrow> outbox_row \<Rightarrow> service_event \<Rightarrow> http_response \<Rightarrow> store \<Rightarrow> (worker_error + unit) \<times> store" where
  "finish_service_call w e payload r db =
     (let sid = ev_service_instance_id payload; p = ev_provider payload; g = ev_generation payload in
      case provider_delete_already_absent w (ob_topic e) r of
        Inl err \<Rightarrow> (Inl err, db)
      | Inr already_absent \<Rightarrow>
          if ob_topic e = TopicDelete \<and> (is_success (rs_status r) \<or> already_absent) then
            (if already_absent then stale_unless (complete_delete_service_instance sid p g db)
             else
               (case read_operation w r of
                  Inl err \<Rightarrow> (Inl err, db)
                | Inr _ \<Rightarrow> stale_unless (complete_delete_service_instance sid p g db)))
          else if \<not> is_success (rs_status r) then
            (if ob_topic e = TopicReconcile \<and> permanent_reconcile_rejection (rs_status r) then
               (case bounded_provider_error_message w r of
                  Inl err \<Rightarrow> (Inl err, db)
                | Inr m \<Rightarrow>
                    stale_unless (mark_service_instance_error sid p g (uuid_string (ob_id e))
                      (rejection_status (rejection_message m p (rs_status r)) (rs_status r)) db))
             else (Inl (ProviderStatus (rs_status r)), db))
          else
            (case read_operation w r of
               Inl err \<Rightarrow> (Inl err, db)
             | Inr (operation_id, status) \<Rightarrow>
                 if ob_topic e = TopicFlashQuota then (Inr (), db)
                 else if provider_reconcile_failed status
                 then stale_unless (mark_service_instance_error sid p g (uuid_string operation_id) status db)
                 else stale_unless (mark_service_instance_ready sid p g (uuid_string operation_id) status db)))"

definition finish_delivery ::
    "wire \<Rightarrow> outbox_row \<Rightarrow> http_response option \<Rightarrow> store \<Rightarrow> (worker_error + unit) \<times> store" where
  "finish_delivery w e answer db =
     (case answer of
        None \<Rightarrow> (Inl RequestFailure, db)
      | Some r \<Rightarrow>
          if ob_topic e = TopicRevocation then
            ((if is_success (rs_status r) then Inr () else Inl (ProviderStatus (rs_status r))), db)
          else
            (case decode_reconcile (ob_payload e) of
               Inl err \<Rightarrow> (Inl err, db)
             | Inr payload \<Rightarrow> finish_service_call w e payload r db))"

definition settle :: "datetime \<Rightarrow> outbox_row \<Rightarrow> worker_error + unit \<Rightarrow> store \<Rightarrow> store" where
  "settle now e result db =
     (if result = Inr () \<or> result = Inl StalePayload then mark_outbox_delivered now (ob_id e) db
      else retry_outbox_event now (ob_id e) (ob_attempts e) db)"

text \<open>
  One round of the worker when nothing else runs; the provider answers the request, or the call
  fails.
\<close>

definition deliver ::
    "wire \<Rightarrow> provider_targets \<Rightarrow> (provider_request \<Rightarrow> http_response option) \<Rightarrow> uuid \<Rightarrow> datetime \<Rightarrow> store \<Rightarrow>
     outbox_row \<Rightarrow> (worker_error + unit) \<times> store" where
  "deliver w targets call jti now db e =
     (case start_delivery w targets jti now db e of
        Inl err \<Rightarrow> (Inl err, db)
      | Inr None \<Rightarrow> (Inr (), db)
      | Inr (Some rq) \<Rightarrow> finish_delivery w e (call rq) db)"

definition process_one ::
    "wire \<Rightarrow> provider_targets \<Rightarrow> (provider_request \<Rightarrow> http_response option) \<Rightarrow> uuid \<Rightarrow> datetime \<Rightarrow> store \<Rightarrow> store" where
  "process_one w targets call jti now db =
     (case claim_outbox_event now db of
        (None, db1) \<Rightarrow> db1
      | (Some e, db1) \<Rightarrow>
          (case deliver w targets call jti now db1 e of
             (result, db2) \<Rightarrow> settle now e result db2))"

subsection \<open>Laws of the queue\<close>

text \<open>
  A queue of leased events: claiming returns a due event of the least (time, identifier) and hides
  it from every other worker for two minutes, settling removes it or makes it due later.
\<close>

lemma earlier_event_in: "earlier_event e e' \<in> {e, e'}"
  by (simp add: earlier_event_def)

lemma foldl_earlier:
  "foldl earlier_event e es \<in> set (e # es)
   \<and> (\<forall>x \<in> set (e # es). (ob_available_at (foldl earlier_event e es), ob_id (foldl earlier_event e es))
        \<le> (ob_available_at x, ob_id x))"
proof (induction es arbitrary: e)
  case (Cons y es)
  let ?k = "\<lambda>x. (ob_available_at x, ob_id x)"
  from Cons [of "earlier_event e y"]
  have IH: "foldl earlier_event (earlier_event e y) es \<in> set (earlier_event e y # es)"
    "\<And>x. x \<in> set (earlier_event e y # es) \<Longrightarrow> ?k (foldl earlier_event (earlier_event e y) es) \<le> ?k x"
    by blast+
  have min: "?k (earlier_event e y) \<le> ?k e" "?k (earlier_event e y) \<le> ?k y"
    by (auto simp: earlier_event_def)
  show ?case
    using IH(1) earlier_event_in [of e y] order_trans [OF IH(2) min(1)] order_trans [OF IH(2) min(2)] IH(2)
    by auto
qed simp

lemma next_event_None: "next_event now rows = None \<longleftrightarrow> (\<forall>e \<in> set rows. \<not> claimable now e)"
  by (cases "filter (claimable now) rows")
    (simp_all add: next_event_def, auto simp: filter_empty_conv filter_eq_Cons_iff)

lemma next_event_Some:
  assumes "next_event now rows = Some e"
  shows "e \<in> set rows" "claimable now e"
    "e' \<in> set rows \<Longrightarrow> claimable now e' \<Longrightarrow> (ob_available_at e, ob_id e) \<le> (ob_available_at e', ob_id e')"
proof -
  from assms obtain x xs where f: "filter (claimable now) rows = x # xs" and e: "e = foldl earlier_event x xs"
    by (auto simp: next_event_def split: list.splits)
  have set: "set (x # xs) = {e \<in> set rows. claimable now e}" by (simp flip: f)
  show "e \<in> set rows" "claimable now e"
    using foldl_earlier [of x xs] set e by auto
  show "e' \<in> set rows \<Longrightarrow> claimable now e' \<Longrightarrow> (ob_available_at e, ob_id e) \<le> (ob_available_at e', ob_id e')"
    using foldl_earlier [of x xs] set e by auto
qed

lemma outbox_update_event [simp]:
  "outbox (update_event eid f db) = map (\<lambda>e. if ob_id e = eid then f e else e) (outbox db)"
  "services (update_event eid f db) = services db" "quota_owners (update_event eid f db) = quota_owners db"
  by (simp_all add: update_event_def)

lemma retry_delay_bounds: "2 \<le> retry_delay n" "retry_delay n \<le> 256"
proof -
  let ?k = "nat (max 1 (min 8 n))"
  have k: "1 \<le> ?k" "?k \<le> 8" by auto
  have "(2::int) ^ 1 \<le> 2 ^ ?k" "(2::int) ^ ?k \<le> 2 ^ 8" using k by (intro power_increasing; simp)+
  then show "2 \<le> retry_delay n" "retry_delay n \<le> 256"
    by (auto simp: retry_delay_def saturating_pow_i32_def)
qed

definition due :: "datetime \<Rightarrow> store \<Rightarrow> uuid set" where
  "due now db = ob_id ` {e \<in> set (outbox db). claimable now e}"

lemma claim_cases:
  obtains "claim_outbox_event now db = (None, db)" "due now db = {}"
  | e0 e where "e0 \<in> set (outbox db)" "claimable now e0" "e = e0\<lparr>ob_locked_at := Some now, ob_attempts := ob_attempts e0 + 1\<rparr>"
      "claim_outbox_event now db = (Some e, update_event (ob_id e0)
         (\<lambda>e. e\<lparr>ob_locked_at := Some now, ob_attempts := ob_attempts e + 1\<rparr>) db)"
proof (cases "next_event now (outbox db)")
  case None
  then have "\<forall>e \<in> set (outbox db). \<not> claimable now e" by (simp add: next_event_None)
  with None show thesis by (intro that(1)) (simp_all add: claim_outbox_event_def due_def)
next
  case (Some e0)
  then show thesis using next_event_Some [OF Some] by (intro that(2)) (auto simp: claim_outbox_event_def)
qed

lemma due_update_event:
  assumes "\<And>y. ob_id (f y) = ob_id y" "\<And>y. \<not> claimable now (f y)"
  shows "due now (update_event eid f db) = due now db - {eid}"
proof (intro set_eqI iffI)
  fix i assume "i \<in> due now (update_event eid f db)"
  then obtain y where y: "y \<in> set (outbox db)" "i = ob_id (if ob_id y = eid then f y else y)"
    "claimable now (if ob_id y = eid then f y else y)" by (auto simp: due_def)
  with assms(2) show "i \<in> due now db - {eid}" by (cases "ob_id y = eid") (auto simp: due_def)
next
  fix i assume "i \<in> due now db - {eid}"
  then obtain y where y: "y \<in> set (outbox db)" "i = ob_id y" "claimable now y" "ob_id y \<noteq> eid"
    by (auto simp: due_def)
  then have "y \<in> set (outbox (update_event eid f db))" by force
  with y show "i \<in> due now (update_event eid f db)" by (auto simp: due_def)
qed

lemma claim_leases:
  assumes "claim_outbox_event now db = (Some e, db')" "now' \<le> now + seconds 120"
  shows "due now' db' = due now' db - {ob_id e}"
proof (cases rule: claim_cases [of now db])
  case (2 e0 e1)
  with assms(1) have "ob_id e = ob_id e0" "db' = update_event (ob_id e0)
    (\<lambda>e. e\<lparr>ob_locked_at := Some now, ob_attempts := ob_attempts e + 1\<rparr>) db" by auto
  moreover have "\<not> claimable now' (y\<lparr>ob_locked_at := Some now, ob_attempts := n\<rparr>)" for y n
    using assms(2) by (simp add: claimable_def)
  ultimately show ?thesis by (simp add: due_update_event)
qed (use assms(1) in simp)

lemma claim_is_due:
  assumes "claim_outbox_event now db = (Some e, db')"
  shows "ob_id e \<in> due now db"
proof (cases rule: claim_cases [of now db])
  case (2 e0 e1)
  with assms have "ob_id e = ob_id e0" by auto
  with 2(1,2) show ?thesis unfolding due_def by (intro image_eqI [of _ _ e0]) simp_all
qed (use assms in simp)

lemma settle_settles: "due now (settle now e result db) = due now db - {ob_id e}"
proof -
  have later: "0 < seconds (retry_delay n)" for n
    using retry_delay_bounds(1) [of n] by (simp add: seconds_def)
  have "due now (retry_outbox_event now (ob_id e) n db) = due now db - {ob_id e}" for n
    unfolding retry_outbox_event_def by (rule due_update_event) (simp_all add: claimable_def later not_le)
  moreover have "due now (mark_outbox_delivered now (ob_id e) db) = due now db - {ob_id e}"
    unfolding mark_outbox_delivered_def by (rule due_update_event) (simp_all add: claimable_def)
  ultimately show ?thesis by (simp add: settle_def)
qed

lemma finish_frame:
  "outbox (snd (finish_delivery w e answer db)) = outbox db"
  "quota_owners (snd (finish_delivery w e answer db)) = quota_owners db"
proof -
  have d: "outbox (snd (complete_delete_service_instance sid p g db)) = outbox db \<and>
    quota_owners (snd (complete_delete_service_instance sid p g db)) = quota_owners db" for sid p g
    by (auto simp: complete_delete_service_instance_def Let_def revoke_workload_tokens_def)
  have m: "outbox (snd (mark_service_instance st sid p g op x db)) = outbox db \<and>
    quota_owners (snd (mark_service_instance st sid p g op x db)) = quota_owners db" for st sid p g op x
    by (simp add: mark_service_instance_def Let_def)
  show "outbox (snd (finish_delivery w e answer db)) = outbox db"
    "quota_owners (snd (finish_delivery w e answer db)) = quota_owners db"
    using d m
    by (auto simp: finish_delivery_def finish_service_call_def Let_def stale_unless_def
        mark_service_instance_ready_def mark_service_instance_error_def split: option.split sum.split)
qed

lemma deliver_frame: "outbox (snd (deliver w targets call jti now db e)) = outbox db"
  by (auto simp: deliver_def finish_frame split: sum.split option.split)

lemma due_outbox: "outbox db = outbox db' \<Longrightarrow> due now db = due now db'"
  by (simp add: due_def)

lemma finite_due [simp]: "finite (due now db)"
  by (simp add: due_def)

subsection \<open>A queue with leases\<close>

text \<open>
  What a worker relies on: a claim returns a due event and hides it for the time of the lease, a
  settled event is not due. Whatever a worker does with the events, as long as it leaves the queue
  alone, as many rounds as there are due events leave none.
\<close>

locale leased_queue =
  fixes due_in :: "int \<Rightarrow> 'q \<Rightarrow> 'k set" and claim :: "int \<Rightarrow> 'q \<Rightarrow> 'e option \<times> 'q" and key :: "'e \<Rightarrow> 'k"
    and settled :: "int \<Rightarrow> 'e \<Rightarrow> 'r \<Rightarrow> 'q \<Rightarrow> 'q" and lease :: int
  assumes due_finite: "finite (due_in t q)"
    and claim_none: "claim t q = (None, q') \<Longrightarrow> due_in t q = {} \<and> q' = q"
    and claim_due: "claim t q = (Some e, q') \<Longrightarrow> key e \<in> due_in t q"
    and claim_lease: "claim t q = (Some e, q') \<Longrightarrow> t' \<le> t + lease \<Longrightarrow> due_in t' q' = due_in t' q - {key e}"
    and settled_due: "due_in t (settled t e r q) = due_in t q - {key e}"
    and lease_positive: "0 \<le> lease"
begin

definition worker :: "int \<Rightarrow> ('q \<Rightarrow> 'q) \<Rightarrow> bool" where
  "worker t step \<longleftrightarrow>
     (\<exists>handle. (\<forall>q e. due_in t (snd (handle q e)) = due_in t q)
        \<and> (\<forall>q. step q = (case claim t q of
             (None, q1) \<Rightarrow> q1
           | (Some e, q1) \<Rightarrow> (case handle q1 e of (r, q2) \<Rightarrow> settled t e r q2))))"

lemma claimed_twice:
  assumes "claim t q = (Some e, q')" "t \<le> t'" "t' \<le> t + lease" "claim t' q' = (Some e', q'')"
  shows "key e' \<noteq> key e"
  using claim_due [OF assms(4)] claim_lease [OF assms(1,3)] by auto

lemma worker_round:
  assumes "worker t step"
  shows "due_in t (step q) = {} \<and> due_in t q = {} \<or> (\<exists>k \<in> due_in t q. due_in t (step q) = due_in t q - {k})"
proof -
  from assms obtain handle where h: "\<And>q e. due_in t (snd (handle q e)) = due_in t q"
    and s: "step q = (case claim t q of (None, q1) \<Rightarrow> q1
      | (Some e, q1) \<Rightarrow> (case handle q1 e of (r, q2) \<Rightarrow> settled t e r q2))"
    unfolding worker_def by blast
  show ?thesis
  proof (cases "claim t q")
    case (Pair found q1)
    show ?thesis
    proof (cases found)
      case None
      with Pair s claim_none [of t q q1] show ?thesis by simp
    next
      case (Some e)
      obtain r q2 where "handle q1 e = (r, q2)" by fastforce
      with h [of q1 e] s Pair Some have "due_in t (step q) = due_in t q1 - {key e}" by (simp add: settled_due)
      moreover have "due_in t q1 = due_in t q - {key e}"
        using claim_lease [of t q e q1 t] Pair Some lease_positive by simp
      ultimately show ?thesis using claim_due [of t q e q1] Pair Some by auto
    qed
  qed
qed

lemma rounds_drain:
  "list_all (worker t) steps \<Longrightarrow> card (due_in t q) \<le> length steps \<Longrightarrow> due_in t (fold (\<lambda>s. s) steps q) = {}"
proof (induction steps arbitrary: q)
  case Nil
  then show ?case using due_finite [of t q] by simp
next
  case (Cons step steps)
  from Cons.prems(1) have w: "worker t step" by simp
  have "card (due_in t (step q)) \<le> length steps"
    using worker_round [OF w, of q]
  proof (elim disjE conjE bexE)
    fix k assume "k \<in> due_in t q" "due_in t (step q) = due_in t q - {k}"
    with Cons.prems(2) due_finite [of t q] show ?thesis by (simp add: card_Diff_singleton)
  qed simp
  with Cons show ?case by simp
qed

end

interpretation outbox_queue: leased_queue due claim_outbox_event ob_id settle "seconds 120"
proof
  fix t t' :: datetime and q q' :: store and e :: outbox_row and r :: "worker_error + unit"
  show "finite (due t q)" by simp
  show "0 \<le> seconds 120" by (simp add: seconds_def)
  show "due t (settle t e r q) = due t q - {ob_id e}" by (rule settle_settles)
  show "claim_outbox_event t q = (None, q') \<Longrightarrow> due t q = {} \<and> q' = q"
    by (cases rule: claim_cases [of t q]) auto
  show "claim_outbox_event t q = (Some e, q') \<Longrightarrow> ob_id e \<in> due t q"
    by (rule claim_is_due)
  show "claim_outbox_event t q = (Some e, q') \<Longrightarrow> t' \<le> t + seconds 120 \<Longrightarrow> due t' q' = due t' q - {ob_id e}"
    by (rule claim_leases)
qed

lemma process_one_worker: "outbox_queue.worker now (process_one w targets call jti now)"
  unfolding outbox_queue.worker_def
  by (rule exI [of _ "deliver w targets call jti now"])
    (simp add: process_one_def due_outbox [OF deliver_frame])

text \<open>
  Rounds of the worker at different times, each with the provider it meets and the token identifier
  it draws.
\<close>

type_synonym round = "(provider_request \<Rightarrow> http_response option) \<times> uuid \<times> datetime"

definition run_rounds :: "wire \<Rightarrow> provider_targets \<Rightarrow> round list \<Rightarrow> store \<Rightarrow> store" where
  "run_rounds w targets rounds db = fold (\<lambda>(call, jti, now). process_one w targets call jti now) rounds db"

lemma run_rounds_simps [simp]:
  "run_rounds w targets [] db = db"
  "run_rounds w targets ((call, jti, now) # rounds) db = run_rounds w targets rounds (process_one w targets call jti now db)"
  by (simp_all add: run_rounds_def)

text \<open>
  What a round does to the table of events: the claimed row is delivered or put off, every other row
  stays.
\<close>

definition attempted :: "datetime \<Rightarrow> outbox_row \<Rightarrow> outbox_row \<Rightarrow> bool" where
  "attempted now e e' \<longleftrightarrow>
     ob_id e' = ob_id e \<and> ob_topic e' = ob_topic e \<and> ob_payload e' = ob_payload e \<and> ob_aggregate_id e' = ob_aggregate_id e
     \<and> ob_attempts e' = ob_attempts e + 1 \<and> ob_locked_at e' = None
     \<and> (ob_delivered_at e' = Some now
        \<or> ob_delivered_at e' = None \<and> now + seconds 2 \<le> ob_available_at e' \<and> ob_available_at e' \<le> now + seconds 256)"

definition settled_row :: "datetime \<Rightarrow> int \<Rightarrow> worker_error + unit \<Rightarrow> outbox_row \<Rightarrow> outbox_row" where
  "settled_row now attempts result e =
     (if result = Inr () \<or> result = Inl StalePayload then e\<lparr>ob_delivered_at := Some now, ob_locked_at := None\<rparr>
      else if ob_delivered_at e = None
      then e\<lparr>ob_locked_at := None, ob_available_at := now + seconds (retry_delay attempts)\<rparr> else e)"

lemma settle_rows: "settle now e result db = update_event (ob_id e) (settled_row now (ob_attempts e) result) db"
  by (auto simp: settle_def mark_outbox_delivered_def retry_outbox_event_def settled_row_def update_event_def)

lemma settled_attempted:
  assumes "ob_delivered_at e = None"
  shows "attempted now e (settled_row now n result (e\<lparr>ob_locked_at := Some now, ob_attempts := ob_attempts e + 1\<rparr>))"
  using assms retry_delay_bounds [of n] by (simp add: attempted_def settled_row_def seconds_def)

text \<open>One round, seen from the rows: nothing was claimable, or one claimable row was attempted.\<close>

lemma process_one_cases:
  assumes "distinct (map ob_id (outbox db))"
  obtains (idle) "claim_outbox_event now db = (None, db)" "due now db = {}" "process_one w targets call jti now db = db"
  | (attempt) e e' result where "e \<in> set (outbox db)" "claimable now e" "attempted now e e'"
      "fst (claim_outbox_event now db) = Some (e\<lparr>ob_locked_at := Some now, ob_attempts := ob_attempts e + 1\<rparr>)"
      "next_event now (outbox db) = Some e"
      "outbox (process_one w targets call jti now db) = map (\<lambda>y. if ob_id y = ob_id e then e' else y) (outbox db)"
      "result = fst (deliver w targets call jti now (snd (claim_outbox_event now db))
         (e\<lparr>ob_locked_at := Some now, ob_attempts := ob_attempts e + 1\<rparr>))"
      "ob_delivered_at e' = None \<longleftrightarrow> result \<noteq> Inr () \<and> result \<noteq> Inl StalePayload"
proof (cases "next_event now (outbox db)")
  case None
  then have "\<forall>e \<in> set (outbox db). \<not> claimable now e" by (simp add: next_event_None)
  with None show thesis by (intro idle) (auto simp: claim_outbox_event_def due_def process_one_def)
next
  case (Some e)
  let ?f = "\<lambda>e. e\<lparr>ob_locked_at := Some now, ob_attempts := ob_attempts e + 1\<rparr>"
  have c: "claim_outbox_event now db = (Some (?f e), update_event (ob_id e) ?f db)"
    using Some by (simp add: claim_outbox_event_def)
  obtain result db2 where d: "deliver w targets call jti now (update_event (ob_id e) ?f db) (?f e) = (result, db2)"
    by fastforce
  have o: "outbox db2 = outbox (update_event (ob_id e) ?f db)"
    using deliver_frame [of w targets call jti now "update_event (ob_id e) ?f db" "?f e"] d by simp
  let ?e' = "settled_row now (ob_attempts e + 1) result (?f e)"
  have e: "e \<in> set (outbox db)" "claimable now e" using next_event_Some [OF Some] by simp_all
  have un: "y = e" if "y \<in> set (outbox db)" "ob_id y = ob_id e" for y
    using assms e(1) that by (auto simp: distinct_map inj_on_def)
  have rows: "outbox (process_one w targets call jti now db) = map (\<lambda>y. if ob_id y = ob_id e then ?e' else y) (outbox db)"
    using un by (auto simp: process_one_def c d settle_rows o)
  have undelivered: "ob_delivered_at e = None" using e(2) by (simp add: claimable_def)
  show thesis
  proof (rule attempt [OF e _ _ Some rows])
    show "attempted now e ?e'" using settled_attempted [OF undelivered] .
    show "fst (claim_outbox_event now db) = Some (?f e)" by (simp add: c)
    show "result = fst (deliver w targets call jti now (snd (claim_outbox_event now db)) (?f e))" using c d by simp
    show "ob_delivered_at ?e' = None \<longleftrightarrow> result \<noteq> Inr () \<and> result \<noteq> Inl StalePayload"
      using undelivered by (auto simp: settled_row_def)
  qed
qed

lemma process_one_ids:
  assumes "distinct (map ob_id (outbox db))"
  shows "map ob_id (outbox (process_one w targets call jti now db)) = map ob_id (outbox db)"
  using assms by (cases rule: process_one_cases [of db now w targets call jti]) (auto simp: attempted_def)

text \<open>
  The rows that go before an event, whatever the time of the round.
\<close>

definition ahead :: "outbox_row \<Rightarrow> store \<Rightarrow> uuid set" where
  "ahead e db = ob_id ` {x \<in> set (outbox db). ob_delivered_at x = None
     \<and> (ob_available_at x, ob_id x) < (ob_available_at e, ob_id e)}"

lemma finite_ahead [simp]: "finite (ahead e db)"
  by (simp add: ahead_def)

lemma round_reaches:
  assumes ids: "distinct (map ob_id (outbox db))" and e: "e \<in> set (outbox db)" "ob_delivered_at e = None" "ob_locked_at e = None"
    and t: "ob_available_at e \<le> now"
  shows "(\<exists>e'. fst (claim_outbox_event now db) = Some e' \<and> ob_id e' = ob_id e)
     \<or> e \<in> set (outbox (process_one w targets call jti now db))
        \<and> card (ahead e (process_one w targets call jti now db)) < card (ahead e db)"
  using ids
proof (cases rule: process_one_cases [of db now w targets call jti])
  case idle
  have "ob_id e \<in> due now db" using e t by (auto simp: due_def claimable_def)
  with idle(2) show ?thesis by simp
next
  case (attempt x x' result)
  show ?thesis
  proof (cases "ob_id x = ob_id e")
    case False
    let ?db = "process_one w targets call jti now db"
    have "(ob_available_at x, ob_id x) \<le> (ob_available_at e, ob_id e)"
      using next_event_Some(3) [OF attempt(5) e(1)] e t by (simp add: claimable_def)
    with False have lt: "(ob_available_at x, ob_id x) < (ob_available_at e, ob_id e)" by auto
    have un: "y = x" if "y \<in> set (outbox db)" "ob_id y = ob_id x" for y
      using ids attempt(1) that by (auto simp: distinct_map inj_on_def)
    have behind: "\<not> (ob_delivered_at x' = None \<and> (ob_available_at x', ob_id x') < (ob_available_at e, ob_id e))"
      using attempt(3) t by (auto simp: attempted_def seconds_def)
    have sub: "ahead e ?db \<subseteq> ahead e db - {ob_id x}"
    proof
      fix i assume "i \<in> ahead e ?db"
      then obtain y where y: "y \<in> set (outbox ?db)" "i = ob_id y" "ob_delivered_at y = None"
        "(ob_available_at y, ob_id y) < (ob_available_at e, ob_id e)" by (auto simp: ahead_def)
      with attempt(6) behind have "y \<in> set (outbox db)" "ob_id y \<noteq> ob_id x" by (auto split: if_splits)
      with y show "i \<in> ahead e db - {ob_id x}" by (auto simp: ahead_def)
    qed
    have "ob_id x \<in> ahead e db" using attempt(1,2) lt by (auto simp: ahead_def claimable_def)
    with sub have "card (ahead e ?db) < card (ahead e db)" by (intro psubset_card_mono) auto
    moreover have "e \<in> set (outbox ?db)" using attempt(6) e(1) False by force
    ultimately show ?thesis by blast
  qed (use attempt(4) in simp)
qed

lemma rounds_reach:
  assumes "distinct (map ob_id (outbox db))" "e \<in> set (outbox db)" "ob_delivered_at e = None" "ob_locked_at e = None"
    and "\<And>r. r \<in> set rounds \<Longrightarrow> ob_available_at e \<le> snd (snd r)" and "card (ahead e db) < length rounds"
  shows "\<exists>k < length rounds. \<exists>e'. ob_id e' = ob_id e
    \<and> fst (claim_outbox_event (snd (snd (rounds ! k))) (run_rounds w targets (take k rounds) db)) = Some e'"
  using assms
proof (induction rounds arbitrary: db)
  case (Cons r rounds)
  obtain call jti now where r: "r = (call, jti, now)" by (cases r) auto
  have t: "ob_available_at e \<le> now" using Cons.prems(5) [of r] r by simp
  show ?case
  proof (cases "\<exists>e'. fst (claim_outbox_event now db) = Some e' \<and> ob_id e' = ob_id e")
    case True
    with r show ?thesis by (intro exI [of _ 0]) auto
  next
    case False
    let ?db = "process_one w targets call jti now db"
    from round_reaches [OF Cons.prems(1-4) t, of w targets call jti] False
    have "e \<in> set (outbox ?db)" "card (ahead e ?db) < card (ahead e db)" by blast+
    with Cons.IH [of ?db] Cons.prems obtain k e' where k: "k < length rounds" "ob_id e' = ob_id e"
      "fst (claim_outbox_event (snd (snd (rounds ! k))) (run_rounds w targets (take k rounds) ?db)) = Some e'"
      using process_one_ids [OF Cons.prems(1), of w targets call jti now] by auto
    then show ?thesis using r by (intro exI [of _ "Suc k"]) auto
  qed
qed simp

lemma finish_services:
  "service_by_id db sid = None \<Longrightarrow> service_by_id (snd (finish_delivery w e answer db)) sid = None"
proof -
  assume gone: "service_by_id db sid = None"
  have d: "service_by_id (snd (complete_delete_service_instance i p g db)) sid = None" for i p g
    using gone by (auto simp: complete_delete_service_instance_def Let_def revoke_workload_tokens_def
        service_by_id_def find_None_iff)
  have m: "service_by_id (snd (mark_service_instance st i p g op x db)) sid = None" for st i p g op x
    using gone by (auto simp: mark_service_instance_def Let_def service_by_id_def find_None_iff)
  show ?thesis
    using d m gone
    by (auto simp: finish_delivery_def finish_service_call_def Let_def stale_unless_def
        mark_service_instance_ready_def mark_service_instance_error_def split: option.split sum.split)
qed

lemma process_one_services:
  "service_by_id db sid = None \<Longrightarrow> service_by_id (process_one w targets call jti now db) sid = None"
proof -
  assume gone: "service_by_id db sid = None"
  have u: "service_by_id (update_event i f x) sid = service_by_id x sid" for i f x
    by (simp add: service_by_id_def)
  have "service_by_id (snd (claim_outbox_event now db)) sid = None"
    using gone by (auto simp: claim_outbox_event_def Let_def u split: option.split)
  moreover have "service_by_id (snd (deliver w targets call jti now x e)) sid = None"
    if "service_by_id x sid = None" for x e
    using that by (auto simp: deliver_def finish_services split: sum.split option.split)
  ultimately show ?thesis
    by (auto simp: process_one_def settle_rows u split: prod.split option.split) (metis prod.sel(2))+
qed

text \<open>An event that speaks of a service that is gone, and is not its deletion.\<close>

definition orphaned :: "store \<Rightarrow> outbox_row \<Rightarrow> bool" where
  "orphaned db e \<longleftrightarrow>
     e \<in> set (outbox db) \<and> ob_delivered_at e = None \<and> ob_topic e \<in> {TopicReconcile, TopicFlashQuota}
     \<and> (case ob_payload e of
          ServicePayload ev \<Rightarrow> service_by_id db (ev_service_instance_id ev) = None
        | _ \<Rightarrow> False)"

lemma orphan_not_sent:
  assumes "ob_topic e \<in> {TopicReconcile, TopicFlashQuota}" "ob_payload e = ServicePayload ev"
    "service_by_id db (ev_service_instance_id ev) = None"
  shows "fst (deliver w targets call jti now db e) \<noteq> Inr () \<and> fst (deliver w targets call jti now db e) \<noteq> Inl StalePayload"
proof -
  have "target targets p \<noteq> Inl StalePayload" for p
    by (induction targets p rule: target.induct) (simp_all add: ok_or_def split: option.split)
  with assms show ?thesis
    by (cases "target targets (ev_provider ev)") (auto simp: deliver_def start_delivery_def decode_reconcile_def)
qed

lemma orphan_round:
  assumes ids: "distinct (map ob_id (outbox db))" and e: "orphaned db e"
  shows "\<exists>e'. orphaned (process_one w targets call jti now db) e' \<and> ob_id e' = ob_id e \<and> ob_attempts e \<le> ob_attempts e'"
proof -
  from e obtain ev where ev: "e \<in> set (outbox db)" "ob_delivered_at e = None" "ob_topic e \<in> {TopicReconcile, TopicFlashQuota}"
    "ob_payload e = ServicePayload ev" "service_by_id db (ev_service_instance_id ev) = None"
    by (auto simp: orphaned_def split: outbox_payload.splits)
  let ?db = "process_one w targets call jti now db"
  have gone: "service_by_id ?db (ev_service_instance_id ev) = None" using ev(5) by (rule process_one_services)
  show ?thesis
    using ids
  proof (cases rule: process_one_cases [of db now w targets call jti])
    case idle
    with e show ?thesis by auto
  next
    case (attempt x x' result)
    show ?thesis
    proof (cases "ob_id x = ob_id e")
      case True
      with ids attempt(1) ev(1) have x: "x = e" by (auto simp: distinct_map inj_on_def)
      have "service_by_id (snd (claim_outbox_event now db)) (ev_service_instance_id ev) = None"
        using ev(5) by (auto simp: claim_outbox_event_def Let_def service_by_id_def split: option.split)
      with orphan_not_sent ev(3,4) attempt(7,8) x have "ob_delivered_at x' = None" by simp
      moreover have "x' \<in> set (outbox ?db)" using attempt(1,6) by (auto intro!: image_eqI [of _ _ x])
      ultimately show ?thesis
        using attempt(3) x ev gone by (intro exI [of _ x']) (auto simp: orphaned_def attempted_def)
    next
      case False
      with attempt(6) ev gone have "orphaned ?db e" by (force simp: orphaned_def)
      then show ?thesis by auto
    qed
  qed
qed

lemma orphan_rounds:
  assumes "distinct (map ob_id (outbox db))" "orphaned db e"
  shows "\<exists>e'. orphaned (run_rounds w targets rounds db) e' \<and> ob_id e' = ob_id e"
  using assms
proof (induction rounds arbitrary: db e)
  case (Cons r rounds)
  obtain call jti now where r: "r = (call, jti, now)" by (cases r) auto
  let ?db = "process_one w targets call jti now db"
  obtain e1 where "orphaned ?db e1" "ob_id e1 = ob_id e" using orphan_round [OF Cons.prems] by blast
  with Cons.IH [of ?db e1] process_one_ids [OF Cons.prems(1)] Cons.prems(1) r show ?case by simp
qed auto

text \<open>
  An event of the example store: the first reconciliation of a network whose row is gone.
\<close>

definition demo_pending :: outbox_row where
  "demo_pending = new_event 90 10 TopicReconcile (service_event_of 52 2 20 5 Vpc 1)"

definition demo_pending_store :: store where
  "demo_pending_store = demo_store\<lparr>outbox := [demo_pending\<lparr>ob_id := 91, ob_available_at := 9\<rparr>, demo_pending]\<rparr>"

subsection \<open>Properties\<close>



text \<open>
  C9: No event starves: an unlocked event is claimed once the worker has made more rounds, at any
  times after it became due and with whatever the providers answer, than there were undelivered
  events before it in the order of time and identifier.
\<close>

theorem event_is_reached:
  assumes "distinct (map ob_id (outbox db))" "e \<in> set (outbox db)" "ob_delivered_at e = None" "ob_locked_at e = None"
    and "list_all (\<lambda>(call, jti, now). ob_available_at e \<le> now) rounds" and "card (ahead e db) < length rounds"
  shows "\<exists>k < length rounds. \<exists>e'. ob_id e' = ob_id e
    \<and> fst (claim_outbox_event (snd (snd (rounds ! k))) (run_rounds w targets (take k rounds) db)) = Some e'"
proof (rule rounds_reach [OF assms(1-4) _ assms(6)])
  fix r assume "r \<in> set rounds"
  with assms(5) show "ob_available_at e \<le> snd (snd r)" by (fastforce simp: list_all_iff)
qed

theorem event_is_reached_witness:
  "\<exists>k < 2. \<exists>e'. ob_id e' = 90 \<and> fst (claim_outbox_event 10
     (run_rounds demo_wire demo_targets (take k [(\<lambda>_. None, 70, 10), (\<lambda>_. None, 71, 10)]) demo_pending_store)) = Some e'"
proof -
  let ?rounds = "[(\<lambda>_. None, 70, 10), (\<lambda>_. None, 71, 10)] :: round list"
  have "ahead demo_pending demo_pending_store \<subseteq> {91}"
    by (auto simp: ahead_def demo_pending_store_def demo_pending_def new_event_def)
  then have "card (ahead demo_pending demo_pending_store) < 2"
    using card_mono [of "{91}" "ahead demo_pending demo_pending_store"] by simp
  then have "\<exists>k < length ?rounds. \<exists>e'. ob_id e' = ob_id demo_pending
    \<and> fst (claim_outbox_event (snd (snd (?rounds ! k))) (run_rounds demo_wire demo_targets (take k ?rounds) demo_pending_store)) = Some e'"
    by (intro event_is_reached) (simp_all add: demo_pending_store_def demo_pending_def new_event_def)
  then obtain k e' where k: "k < 2" "ob_id e' = 90" "fst (claim_outbox_event (snd (snd (?rounds ! k)))
      (run_rounds demo_wire demo_targets (take k ?rounds) demo_pending_store)) = Some e'"
    by (auto simp: demo_pending_def new_event_def numeral_2_eq_2)
  then have "snd (snd (?rounds ! k)) = 10" by (auto simp: less_2_cases_iff)
  with k show ?thesis by auto
qed



end
