(* ===== verification/Service_Table.thy ===== *)
theory Service_Table
  imports Flow_Credentials Outbox_Worker
begin

section \<open>The life of a service\<close>

text \<open>
  What the operations of all components do to the services table, seen from one service: an abstract
  life cycle, the steps of the table that refine it, and what a step means for the outbox events
  that speak about the service. The identifiers in use are those of the quota owners: the row of the
  owner outlives the service.
\<close>

subsection \<open>Abstract life cycle\<close>

datatype phase =
    Unborn
  | Alive i64
  | Doomed i64
  | Gone

inductive life_step :: "(uuid \<Rightarrow> phase) \<Rightarrow> (uuid \<Rightarrow> phase) \<Rightarrow> bool" where
  born: "f sid = Unborn \<Longrightarrow> life_step f (f(sid := Alive 1))"
| replaced: "f sid = Alive g \<Longrightarrow> life_step f (f(sid := Alive (g + 1)))"
| doomed: "f sid = Alive g \<Longrightarrow> life_step f (f(sid := Doomed (g + 1)))"
| removed: "f sid = Doomed g \<Longrightarrow> life_step f (f(sid := Gone))"

fun later_phase :: "phase \<Rightarrow> phase \<Rightarrow> bool" where
  "later_phase Unborn _ = True"
| "later_phase (Alive g) (Alive h) = (g \<le> h)"
| "later_phase (Alive g) (Doomed h) = (g < h)"
| "later_phase (Alive g) Gone = True"
| "later_phase (Doomed g) (Doomed h) = (g = h)"
| "later_phase (Doomed g) Gone = True"
| "later_phase Gone Gone = True"
| "later_phase _ _ = False"

lemma later_phase_refl [simp]: "later_phase x x"
  by (cases x) simp_all

lemma later_phase_trans: "later_phase x y \<Longrightarrow> later_phase y z \<Longrightarrow> later_phase x z"
  by (cases x; cases y; cases z) simp_all

lemma life_step_later: "life_step f f' \<Longrightarrow> later_phase (f sid) (f' sid)"
  by (induction rule: life_step.induct) auto

subsection \<open>Steps of the table\<close>

definition used :: "store \<Rightarrow> uuid set" where
  "used db = fst ` set (quota_owners db)"

definition phase_of :: "store \<Rightarrow> uuid \<Rightarrow> phase" where
  "phase_of db sid =
     (case service_by_id db sid of
        Some r \<Rightarrow> if s_state r = Deleting then Doomed (s_generation r) else Alive (s_generation r)
      | None \<Rightarrow> if sid \<in> used db then Gone else Unborn)"

text \<open>Nothing of a row changes within a generation but the state, the status and the quota owner.\<close>

definition same_version :: "service_row \<Rightarrow> service_row \<Rightarrow> bool" where
  "same_version r r' \<longleftrightarrow>
     s_id r' = s_id r \<and> s_generation r' = s_generation r \<and> s_organization_id r' = s_organization_id r
     \<and> s_project_id r' = s_project_id r \<and> s_provider r' = s_provider r \<and> s_name r' = s_name r
     \<and> s_spec r' = s_spec r \<and> (s_state r' = Deleting \<longleftrightarrow> s_state r = Deleting)"

definition dead_row :: "uuid \<Rightarrow> i64 \<Rightarrow> provider \<Rightarrow> service_row \<Rightarrow> bool" where
  "dead_row sid g p r \<longleftrightarrow> s_id r = sid \<and> s_generation r = g \<and> s_provider r = p \<and> s_state r = Deleting"

inductive table_step :: "store \<Rightarrow> store \<Rightarrow> bool" where
  kept: "used db' = used db \<Longrightarrow> list_all2 same_version (services db) (services db') \<Longrightarrow> table_step db db'"
| insert: "s_id row \<notin> used db \<Longrightarrow> s_generation row = 1 \<Longrightarrow> s_state row \<noteq> Deleting \<Longrightarrow>
    services db' = services db @ [row] \<Longrightarrow> used db' = insert (s_id row) (used db) \<Longrightarrow> table_step db db'"
| replace: "replaces db e row db' \<Longrightarrow> used db' = used db \<Longrightarrow> table_step db db'"
| remove: "services db' = filter (\<lambda>r. \<not> dead_row sid g p r) (services db) \<Longrightarrow>
    r \<in> set (services db) \<Longrightarrow> dead_row sid g p r \<Longrightarrow> used db' = used db \<Longrightarrow> table_step db db'"

definition ids_ok :: "store \<Rightarrow> bool" where
  "ids_ok db \<longleftrightarrow> distinct (map s_id (services db)) \<and> s_id ` set (services db) \<subseteq> used db"

lemma same_version_refl [simp]: "same_version r r"
  by (simp add: same_version_def)

lemma unchanged_table_step:
  "services db' = services db \<Longrightarrow> quota_owners db' = quota_owners db \<Longrightarrow> table_step db db'"
  by (rule kept) (simp_all add: used_def list_all2_refl)

lemma service_by_id_iff:
  assumes "ids_ok db"
  shows "service_by_id db sid = Some r \<longleftrightarrow> r \<in> set (services db) \<and> s_id r = sid"
proof
  assume "service_by_id db sid = Some r"
  then show "r \<in> set (services db) \<and> s_id r = sid" unfolding service_by_id_def by (rule find_eq_Some)
next
  assume "r \<in> set (services db) \<and> s_id r = sid"
  then show "service_by_id db sid = Some r"
    using assms unfolding service_by_id_def ids_ok_def by (intro find_unique [of s_id]) auto
qed

lemma service_by_id_None: "service_by_id db sid = None \<longleftrightarrow> sid \<notin> s_id ` set (services db)"
  by (auto simp: service_by_id_def find_None_iff)

lemma list_all2_left: "list_all2 P xs ys \<Longrightarrow> x \<in> set xs \<Longrightarrow> \<exists>y \<in> set ys. P x y"
  by (induction rule: list_all2_induct) auto

lemma list_all2_right: "list_all2 P xs ys \<Longrightarrow> y \<in> set ys \<Longrightarrow> \<exists>x \<in> set xs. P x y"
  by (induction rule: list_all2_induct) auto

text \<open>Rows after a step come from a row of the same version, of the generation before, or are new.\<close>

lemma table_step_rows:
  assumes "table_step db db'" "r' \<in> set (services db')"
  shows "(\<exists>r \<in> set (services db). same_version r r')
    \<or> (\<exists>r \<in> set (services db). s_id r' = s_id r \<and> s_generation r' = s_generation r + 1)
    \<or> s_id r' \<notin> used db"
  using assms
proof (cases rule: table_step.cases)
  case kept
  then show ?thesis using assms(2) list_all2_right by metis
next
  case (replace e row)
  from replace(1) have "e \<in> set (services db)" "s_id row = s_id e" "s_generation row = s_generation e + 1"
    "services db' = map (\<lambda>x. if s_id x = s_id e then row else x) (services db)" by (simp_all add: replaces_def)
  moreover then have "r' = row \<or> r' \<in> set (services db)" using assms(2) by auto
  ultimately show ?thesis by (metis same_version_refl)
next
  case (insert row)
  then show ?thesis using assms(2) by (metis (no_types) Un_iff list.set(1) list.set(2) same_version_refl set_append singletonD)
next
  case (remove sid g p r)
  then have "r' \<in> set (services db)" using assms(2) by simp
  then show ?thesis using same_version_refl by blast
qed

lemma table_step_used: "table_step db db' \<Longrightarrow> used db \<subseteq> used db'"
  by (induction rule: table_step.induct) auto

lemma list_all2_ids: "list_all2 same_version xs ys \<Longrightarrow> map s_id ys = map s_id xs"
  by (induction rule: list_all2_induct) (simp_all add: same_version_def)

lemma table_step_ids:
  assumes "table_step db db'" "ids_ok db"
  shows "ids_ok db'"
  using assms(1)
proof (cases rule: table_step.cases)
  case kept
  from list_all2_ids [OF kept(2)] have "map s_id (services db') = map s_id (services db)" .
  moreover then have "s_id ` set (services db') = s_id ` set (services db)" by (metis image_set)
  ultimately show ?thesis using assms(2) kept(1) by (simp add: ids_ok_def)
next
  case (replace e row)
  then have "map s_id (services db') = map s_id (services db)" by (auto simp: replaces_def)
  moreover then have "s_id ` set (services db') = s_id ` set (services db)" by (metis image_set)
  ultimately show ?thesis using assms(2) replace(2) by (simp add: ids_ok_def)
next
  case (remove sid g p r)
  then show ?thesis using assms(2) by (auto simp: ids_ok_def distinct_map_filter)
qed (use assms(2) in \<open>auto simp: ids_ok_def\<close>)

subsection \<open>Refinement of the life cycle\<close>

lemma phase_of_row:
  "ids_ok db \<Longrightarrow> r \<in> set (services db) \<Longrightarrow>
   phase_of db (s_id r) = (if s_state r = Deleting then Doomed (s_generation r) else Alive (s_generation r))"
  using service_by_id_iff [of db "s_id r" r] by (simp add: phase_of_def)

lemma phase_of_none:
  "sid \<notin> s_id ` set (services db) \<Longrightarrow> phase_of db sid = (if sid \<in> used db then Gone else Unborn)"
  by (simp add: phase_of_def service_by_id_None [symmetric])

lemma phase_of_cong:
  assumes "ids_ok db" "ids_ok db'" "sid \<in> used db' \<longleftrightarrow> sid \<in> used db"
    "\<And>r. r \<in> set (services db) \<Longrightarrow> s_id r = sid \<Longrightarrow> \<exists>r' \<in> set (services db'). same_version r r'"
    "\<And>r'. r' \<in> set (services db') \<Longrightarrow> s_id r' = sid \<Longrightarrow> \<exists>r \<in> set (services db). same_version r r'"
  shows "phase_of db' sid = phase_of db sid"
proof (cases "\<exists>r \<in> set (services db). s_id r = sid")
  case True
  then obtain r where r: "r \<in> set (services db)" "s_id r = sid" by blast
  with assms(4) obtain r' where r': "r' \<in> set (services db')" "same_version r r'" by blast
  with phase_of_row [OF assms(1) r(1)] phase_of_row [OF assms(2) r'(1)] r(2) show ?thesis
    by (simp add: same_version_def)
next
  case False
  have "sid \<notin> s_id ` set (services db')"
  proof
    assume "sid \<in> s_id ` set (services db')"
    then obtain r' where r': "r' \<in> set (services db')" "s_id r' = sid" by blast
    from assms(5) [OF this] obtain r where "r \<in> set (services db)" "same_version r r'" by blast
    then have "s_id r = sid" using r'(2) by (simp add: same_version_def)
    with False \<open>r \<in> set (services db)\<close> show False by blast
  qed
  moreover have "sid \<notin> s_id ` set (services db)" using False by blast
  ultimately show ?thesis using assms(3) by (simp add: phase_of_none)
qed

lemma phase_of_same:
  assumes "ids_ok db" "ids_ok db'" "sid \<in> used db' \<longleftrightarrow> sid \<in> used db"
    "\<And>r. s_id r = sid \<Longrightarrow> r \<in> set (services db') \<longleftrightarrow> r \<in> set (services db)"
  shows "phase_of db' sid = phase_of db sid"
  using assms(4) same_version_refl by (intro phase_of_cong [OF assms(1-3)]) blast+

lemma kept_phase:
  assumes "list_all2 same_version (services db) (services db')" "used db' = used db" "ids_ok db" "ids_ok db'"
  shows "phase_of db' = phase_of db"
proof
  fix sid
  show "phase_of db' sid = phase_of db sid"
    using list_all2_left [OF assms(1)] list_all2_right [OF assms(1)] assms(2)
    by (intro phase_of_cong [OF assms(3,4)]) blast+
qed

lemma table_step_refines:
  assumes step: "table_step db db'" and ids: "ids_ok db"
  shows "phase_of db' = phase_of db \<or> life_step (phase_of db) (phase_of db')"
  using step
proof (cases rule: table_step.cases)
  case kept
  then show ?thesis using kept_phase [OF kept(2,1) ids table_step_ids [OF step ids]] by simp
next
  case (insert row)
  note ids' = table_step_ids [OF step ids]
  have fresh: "s_id row \<notin> s_id ` set (services db)" using ids insert(1) by (auto simp: ids_ok_def)
  have "phase_of db' = (phase_of db)(s_id row := Alive 1)"
  proof
    fix sid
    show "phase_of db' sid = ((phase_of db)(s_id row := Alive 1)) sid"
    proof (cases "sid = s_id row")
      case True
      then show ?thesis using phase_of_row [OF ids', of row] insert by simp
    next
      case False
      then have "phase_of db' sid = phase_of db sid"
        by (intro phase_of_same [OF ids ids']) (use insert in auto)
      with False show ?thesis by simp
    qed
  qed
  moreover have "phase_of db (s_id row) = Unborn" using fresh insert(1) by (simp add: phase_of_none)
  ultimately show ?thesis using life_step.born by simp
next
  case (replace e row)
  note ids' = table_step_ids [OF step ids]
  from replace(1) have r: "e \<in> set (services db)" "s_id row = s_id e" "s_generation row = s_generation e + 1"
    "s_state e \<noteq> Deleting" "services db' = map (\<lambda>x. if s_id x = s_id e then row else x) (services db)"
    by (simp_all add: replaces_def)
  then have row: "row \<in> set (services db')" by force
  have "phase_of db' = (phase_of db)(s_id e := phase_of db' (s_id e))"
  proof
    fix sid
    show "phase_of db' sid = ((phase_of db)(s_id e := phase_of db' (s_id e))) sid"
    proof (cases "sid = s_id e")
      case False
      then have "phase_of db' sid = phase_of db sid"
        by (intro phase_of_same [OF ids ids']) (use replace(2) r in auto)
      with False show ?thesis by simp
    qed simp
  qed
  then show ?thesis
    using phase_of_row [OF ids r(1)] phase_of_row [OF ids' row] r life_step.replaced life_step.doomed
    by (cases "s_state row = Deleting") (metis, metis)
next
  case (remove sid g p r)
  note ids' = table_step_ids [OF step ids]
  have r: "s_id r = sid" "s_state r = Deleting" using remove(3) by (simp_all add: dead_row_def)
  have gone: "sid \<notin> s_id ` set (services db')"
  proof
    assume "sid \<in> s_id ` set (services db')"
    then obtain x where x: "x \<in> set (services db)" "s_id x = sid" "\<not> dead_row sid g p x" using remove(1) by auto
    with r remove(2) ids have "x = r" by (metis distinct_map ids_ok_def inj_onD)
    with x remove(3) show False by simp
  qed
  have "sid \<in> used db'" using ids remove(2,4) r by (auto simp: ids_ok_def)
  then have "phase_of db' sid = Gone" using gone by (simp add: phase_of_none)
  moreover have "phase_of db' k = phase_of db k" if "k \<noteq> sid" for k
    by (rule phase_of_same [OF ids ids']) (use remove that in \<open>auto simp: dead_row_def\<close>)
  ultimately have "phase_of db' = (phase_of db)(sid := Gone)" by auto
  then show ?thesis using phase_of_row [OF ids remove(2)] r life_step.removed by metis
qed

subsection \<open>Events and requests about a service\<close>

definition speaks_of_service :: "outbox_row \<Rightarrow> bool" where
  "speaks_of_service e \<longleftrightarrow> ob_topic e \<in> {TopicReconcile, TopicDelete, TopicFlashQuota}"

definition speaks_rightly :: "service_event \<Rightarrow> topic \<Rightarrow> service_row \<Rightarrow> bool" where
  "speaks_rightly ev topic r \<longleftrightarrow>
     ev_generation ev \<le> s_generation r
     \<and> (ev_generation ev = s_generation r \<longrightarrow> (s_state r = Deleting \<longleftrightarrow> topic = TopicDelete))"

definition event_ok :: "store \<Rightarrow> outbox_row \<Rightarrow> bool" where
  "event_ok db e \<longleftrightarrow>
     (speaks_of_service e \<longrightarrow>
       (\<exists>ev. ob_payload e = ServicePayload ev \<and> ev_service_instance_id ev = ob_aggregate_id e
          \<and> ob_aggregate_id e \<in> used db
          \<and> (\<forall>r \<in> set (services db). s_id r = ob_aggregate_id e \<longrightarrow> speaks_rightly ev (ob_topic e) r)))"

lemma speaks_rightly_later:
  "speaks_rightly ev topic r \<Longrightarrow> same_version r r' \<Longrightarrow> speaks_rightly ev topic r'"
  "speaks_rightly ev topic r \<Longrightarrow> s_generation r' = s_generation r + 1 \<Longrightarrow> speaks_rightly ev topic r'"
  by (simp_all add: speaks_rightly_def same_version_def)

lemma event_ok_step:
  assumes step: "table_step db db'" and ok: "event_ok db e"
  shows "event_ok db' e"
  unfolding event_ok_def
proof
  assume "speaks_of_service e"
  with ok obtain ev where ev: "ob_payload e = ServicePayload ev" "ev_service_instance_id ev = ob_aggregate_id e"
    "ob_aggregate_id e \<in> used db"
    "\<And>r. r \<in> set (services db) \<Longrightarrow> s_id r = ob_aggregate_id e \<Longrightarrow> speaks_rightly ev (ob_topic e) r"
    unfolding event_ok_def by blast
  have "speaks_rightly ev (ob_topic e) r'" if r': "r' \<in> set (services db')" "s_id r' = ob_aggregate_id e" for r'
    using table_step_rows [OF step r'(1)]
  proof (elim disjE bexE conjE)
    fix r assume r: "r \<in> set (services db)" "same_version r r'"
    then have "s_id r = ob_aggregate_id e" using r'(2) by (simp add: same_version_def)
    with ev(4) r speaks_rightly_later(1) show ?thesis by blast
  next
    fix r assume "r \<in> set (services db)" "s_id r' = s_id r" "s_generation r' = s_generation r + 1"
    with ev(4) r'(2) speaks_rightly_later(2) show ?thesis by metis
  qed (use ev(3) r'(2) in simp)
  then show "\<exists>ev. ob_payload e = ServicePayload ev \<and> ev_service_instance_id ev = ob_aggregate_id e
      \<and> ob_aggregate_id e \<in> used db'
      \<and> (\<forall>r \<in> set (services db'). s_id r = ob_aggregate_id e \<longrightarrow> speaks_rightly ev (ob_topic e) r)"
    using ev table_step_used [OF step] by blast
qed

text \<open>A request carries a version of a service.\<close>

definition carries :: "provider_request \<Rightarrow> service_row \<Rightarrow> bool" where
  "carries rq r \<longleftrightarrow>
     cl_service_instance_id (rq_claims rq) = s_id r \<and> cl_generation (rq_claims rq) = s_generation r
     \<and> (case rq_body rq of
          ReconcileBody b \<Rightarrow> rr_generation b = s_generation r \<and> rr_name b = s_name r
            \<and> provider_reconcile_spec (s_provider r) (s_spec r) = Inr (rr_spec b)
        | _ \<Rightarrow> False)"

definition sent_ok :: "store \<Rightarrow> outbox_row \<Rightarrow> provider_request \<Rightarrow> bool" where
  "sent_ok db e rq \<longleftrightarrow>
     (speaks_of_service e \<or> ob_topic e = TopicRevocation)
     \<and> (\<forall>ev r. ob_topic e = TopicReconcile \<and> ob_payload e = ServicePayload ev \<and> r \<in> set (services db)
           \<and> s_id r = ob_aggregate_id e \<and> s_generation r = ev_generation ev \<longrightarrow> carries rq r)"

lemma carries_same_version: "carries rq r \<Longrightarrow> same_version r r' \<Longrightarrow> carries rq r'"
  by (simp add: carries_def same_version_def split: request_body.splits)

lemma sent_ok_step:
  assumes step: "table_step db db'" and event: "event_ok db e" and ok: "sent_ok db e rq"
  shows "sent_ok db' e rq"
proof -
  have "carries rq r'" if t: "ob_topic e = TopicReconcile" "ob_payload e = ServicePayload ev"
    and r': "r' \<in> set (services db')" "s_id r' = ob_aggregate_id e" "s_generation r' = ev_generation ev" for ev r'
    using table_step_rows [OF step r'(1)]
  proof (elim disjE bexE conjE)
    fix r assume r: "r \<in> set (services db)" "same_version r r'"
    then have "s_id r = ob_aggregate_id e" "s_generation r = ev_generation ev" using r' by (simp_all add: same_version_def)
    with ok t r have "carries rq r" unfolding sent_ok_def by blast
    then show ?thesis using r(2) by (rule carries_same_version)
  next
    fix r assume r: "r \<in> set (services db)" "s_id r' = s_id r" "s_generation r' = s_generation r + 1"
    from t have "speaks_of_service e" by (simp add: speaks_of_service_def)
    with event t r r' have "speaks_rightly ev (ob_topic e) r" unfolding event_ok_def by auto
    with r r' show ?thesis by (simp add: speaks_rightly_def)
  next
    assume "s_id r' \<notin> used db"
    moreover have "speaks_of_service e" using t by (simp add: speaks_of_service_def)
    then have "ob_aggregate_id e \<in> used db" using event unfolding event_ok_def by blast
    ultimately show ?thesis using r' by simp
  qed
  then show ?thesis using ok unfolding sent_ok_def by blast
qed

text \<open>A started delivery sends the version that the event speaks of.\<close>

lemma started_sent_ok:
  assumes ids: "ids_ok db" and start: "start_delivery w targets jti now db e = Inr (Some rq)"
  shows "sent_ok db e rq"
proof (cases "ob_topic e = TopicReconcile")
  case False
  with start show ?thesis
    by (auto simp: start_delivery_def sent_ok_def speaks_of_service_def split: if_splits)
next
  case True
  have "carries rq r" if ev: "ob_payload e = ServicePayload ev" and r: "r \<in> set (services db)"
    "s_id r = ob_aggregate_id e" "s_generation r = ev_generation ev" for ev r
  proof -
    from start True ev obtain tgt r0 where r0: "service_by_id db (ev_service_instance_id ev) = Some r0"
      and m: "service_instance_matches_payload r0 ev" and agg: "ev_service_instance_id ev = ob_aggregate_id e"
      and call: "start_service_call w tgt jti now db TopicReconcile ev r0 = Inr rq"
      by (auto simp: start_delivery_def decode_reconcile_def bindE_Inr_iff split: if_splits option.splits)
    from r0 r agg ids have "r0 = r" using service_by_id_iff by (metis option.inject)
    with call m r agg show ?thesis
      by (auto simp: start_service_call_def bindE_Inr_iff reconcile_body_def sign_def claims_of_def carries_def
          service_instance_matches_payload_def Let_def)
  qed
  then show ?thesis using True by (simp add: sent_ok_def speaks_of_service_def)
qed

subsection \<open>The operations take steps of the table\<close>

definition no_new_ready :: "store \<Rightarrow> store \<Rightarrow> bool" where
  "no_new_ready db db' \<longleftrightarrow>
     (\<forall>r' \<in> set (services db'). s_state r' = Ready \<longrightarrow>
        (\<exists>r \<in> set (services db). s_state r = Ready \<and> same_version r r' \<and> s_status r' = s_status r))"

definition command_ok :: "store \<Rightarrow> store \<Rightarrow> bool" where
  "command_ok db db' \<longleftrightarrow>
     table_step db db' \<and> no_new_ready db db'
     \<and> (\<forall>e \<in> set (outbox db'). e \<in> set (outbox db) \<or> event_ok db' e)"

lemma no_new_ready_old: "(\<And>r. r \<in> set (services db') \<Longrightarrow> s_state r = Ready \<Longrightarrow> r \<in> set (services db)) \<Longrightarrow> no_new_ready db db'"
  unfolding no_new_ready_def using same_version_refl by blast

lemma unchanged_command_ok:
  assumes "services db' = services db" "quota_owners db' = quota_owners db"
    "\<And>e. e \<in> set (outbox db') \<Longrightarrow> e \<in> set (outbox db) \<or> event_ok db' e"
  shows "command_ok db db'"
proof -
  have "no_new_ready db db'" by (rule no_new_ready_old) (simp add: assms(1))
  then show ?thesis using assms(3) unchanged_table_step [OF assms(1,2)] unfolding command_ok_def by blast
qed

lemma gpu_request_owners:
  "replace_gpu_request_if_flash p db sid a prin spec = Inr db' \<Longrightarrow> quota_owners db' = quota_owners db"
  by (auto simp: replace_gpu_request_if_flash_def replace_flash_gpu_service_request_def bindE_Inr_iff
      split: if_splits option.splits)

lemma owners_frame [simp]:
  "quota_owners (enqueue e db) = quota_owners db" "quota_owners (revoke_workload_tokens sid db) = quota_owners db"
  "quota_owners (update_service sid f db) = quota_owners db"
  by (simp_all add: enqueue_def revoke_workload_tokens_def update_service_def)

lemma create_owners:
  assumes "create_service_instance pf eid now a project prin p name spec sid quota_user db = Inr (row, db')"
    "service_by_id db sid = None"
  shows "sid \<notin> used db" "used db' = insert sid (used db)"
proof -
  from assms obtain row' prepared db1 db2 where ins: "insert_service db row' = Inr db1" "s_id row' = sid"
    and gpu: "replace_gpu_request_if_flash p db1 sid a prin prepared = Inr db2"
    and db': "quota_owners db' = quota_owners db2"
    by (auto simp: create_service_instance_def bindE_Inr_iff Let_def split: if_splits)
  from ins gpu_request_owners [OF gpu] db' show "sid \<notin> used db" "used db' = insert sid (used db)"
    by (auto simp: insert_service_def used_def split: if_splits)
qed

lemma update_owners:
  assumes "update_service_instance_checked pf eid now a sid p prin new_project name spec expected db = Inr (row, db')"
  shows "used db' = used db"
  using assms unfolding update_service_instance_checked_def
  by (auto simp: bindE_Inr_iff Let_def used_def dest!: gpu_request_owners split: if_splits option.splits)

lemma stop_owners:
  assumes "set_flash_service_stopped pf eid now a sid prin stop db = Inr (row, db')"
  shows "used db' = used db"
proof -
  have gpu: "replace_flash_gpu_service_request db1 sid a prin spec = Inr db2 \<Longrightarrow> quota_owners db2 = quota_owners db1"
    for db1 db2 spec using gpu_request_owners [of Flash] by (simp add: replace_gpu_request_if_flash_def)
  show ?thesis
    using assms unfolding set_flash_service_stopped_def
    by (auto simp: bindE_Inr_iff Let_def used_def dest!: gpu split: if_splits option.splits)
qed

lemma delete_owners:
  "begin_delete_service_instance eid now a sid p prin db = Inr (row, db') \<Longrightarrow> used db' = used db"
  by (auto simp: begin_delete_service_instance_def bindE_Inr_iff Let_def used_def split: if_splits option.splits)

lemma announced_event_ok:
  assumes "ids_ok db'" "row \<in> set (services db')" "s_state row = Deleting \<longleftrightarrow> topic = TopicDelete"
  shows "event_ok db' (new_event eid now topic (service_event_of (s_id row) (s_organization_id row)
    (s_project_id row) prin (s_provider row) (s_generation row)))"
proof -
  have "r = row" if "r \<in> set (services db')" "s_id r = s_id row" for r
    using that assms(1,2) by (metis distinct_map ids_ok_def inj_onD)
  moreover have "s_id row \<in> used db'" using assms(1,2) by (auto simp: ids_ok_def)
  ultimately show ?thesis
    using assms(3) by (auto simp: event_ok_def new_event_def service_event_of_def speaks_rightly_def)
qed

lemma replaced_command_ok:
  assumes ids: "ids_ok db" and rep: "replaces db e row db'" and ann: "announces db eid now topic prin row db'"
    and owners: "used db' = used db" and st: "s_state row \<noteq> Ready" "s_state row = Deleting \<longleftrightarrow> topic = TopicDelete"
  shows "command_ok db db'"
proof -
  have step: "table_step db db'" using rep owners by (rule table_step.replace)
  have rows: "services db' = map (\<lambda>x. if s_id x = s_id e then row else x) (services db)" "e \<in> set (services db)"
    using rep by (simp_all add: replaces_def)
  then have row: "row \<in> set (services db')" by force
  have "no_new_ready db db'" by (rule no_new_ready_old) (use rows st(1) in auto)
  moreover have "event_ok db' (new_event eid now topic (service_event_of (s_id row) (s_organization_id row)
      (s_project_id row) prin (s_provider row) (s_generation row)))"
    by (rule announced_event_ok [OF table_step_ids [OF step ids] row st(2)])
  ultimately show ?thesis using step ann by (auto simp: command_ok_def announces_def)
qed

lemma create_command_ok:
  assumes ids: "ids_ok db"
    and op: "create_service_instance pf eid now a project prin p name spec sid quota_user db = Inr (row, db')"
  shows "command_ok db db'"
  using op
proof (cases rule: create_cases)
  case created
  note owners = create_owners [OF op created(1)]
  have step: "table_step db db'" by (rule table_step.insert [of row]) (use created owners in simp_all)
  have row: "row \<in> set (services db')" using created by simp
  have "event_ok db' (new_event eid now TopicReconcile (service_event_of (s_id row) (s_organization_id row)
      (s_project_id row) prin (s_provider row) (s_generation row)))"
    by (rule announced_event_ok [OF table_step_ids [OF step ids] row]) (use created in simp)
  moreover have "no_new_ready db db'" by (rule no_new_ready_old) (use created in auto)
  ultimately show ?thesis using step created by (auto simp: command_ok_def)
qed (simp add: unchanged_command_ok)

lemma update_command_ok:
  assumes ids: "ids_ok db"
    and op: "update_service_instance_checked pf eid now a sid p prin new_project name spec expected db = Inr (row, db')"
  shows "command_ok db db'"
  using op
proof (cases rule: update_cases)
  case (1 e)
  show ?thesis by (rule replaced_command_ok [OF ids 1(1,2) update_owners [OF op]]) (use 1 in simp_all)
qed

lemma stop_command_ok:
  assumes ids: "ids_ok db" and op: "set_flash_service_stopped pf eid now a sid prin stop db = Inr (row, db')"
  shows "command_ok db db'"
  using op
proof (cases rule: stop_cases)
  case (changed e)
  show ?thesis by (rule replaced_command_ok [OF ids changed(1,2) stop_owners [OF op]]) (use changed in simp_all)
qed (simp add: unchanged_command_ok)

lemma delete_command_ok:
  assumes ids: "ids_ok db" and op: "begin_delete_service_instance eid now a sid p prin db = Inr (row, db')"
  shows "command_ok db db'"
  using op
proof (cases rule: delete_cases)
  case (changed e)
  show ?thesis by (rule replaced_command_ok [OF ids changed(1,2) delete_owners [OF op]]) (use changed in simp_all)
qed (simp add: unchanged_command_ok)

subsection \<open>Quotas and credentials\<close>

lemma event_ok_cong:
  "services db' = services db \<Longrightarrow> quota_owners db' = quota_owners db \<Longrightarrow> event_ok db' e \<longleftrightarrow> event_ok db e"
  by (simp add: event_ok_def used_def)

lemma ids_ok_cong: "services db' = services db \<Longrightarrow> quota_owners db' = quota_owners db \<Longrightarrow> ids_ok db' \<longleftrightarrow> ids_ok db"
  by (simp add: ids_ok_def used_def)

lemma quota_event_ok:
  assumes "ids_ok db" "row \<in> set (flash_quota_rows db a)"
  shows "event_ok db (flash_quota_event eid now row)"
proof -
  from assms(2) obtain s where s: "s \<in> set (services db)" "live Flash s" "fst row = s"
    by (auto simp: flash_quota_rows_def)
  then have "flash_quota_event eid now row = new_event eid now TopicFlashQuota (service_event_of (s_id s)
      (s_organization_id s) (s_project_id s) (snd row) (s_provider s) (s_generation s))"
    by (simp add: flash_quota_event_def live_def)
  with announced_event_ok [OF assms(1) s(1), of TopicFlashQuota] s(2) show ?thesis by (simp add: live_def)
qed

lemma enqueue_tx_events:
  assumes "ids_ok db" "e \<in> set (outbox (snd (enqueue_flash_quota_reconcile_tx gen now a db)))"
  shows "e \<in> set (outbox db) \<or> event_ok db e"
proof -
  from assms(2) consider "e \<in> set (outbox db)"
    | i row where "(i, row) \<in> set (enumerate 0 (flash_quota_rows db a))" "e = flash_quota_event (gen i) now row"
    by (auto simp: enqueue_tx_eq)
  then show ?thesis
  proof cases
    case 2
    then have "row \<in> set (flash_quota_rows db a)" by (metis image_eqI map_snd_enumerate set_map snd_conv)
    with 2 quota_event_ok [OF assms(1)] show ?thesis by simp
  qed simp
qed

lemma enqueue_tx_frame:
  "services (snd (enqueue_flash_quota_reconcile_tx gen now a db)) = services db"
  "quota_owners (snd (enqueue_flash_quota_reconcile_tx gen now a db)) = quota_owners db"
  "developer_credentials (snd (enqueue_flash_quota_reconcile_tx gen now a db)) = developer_credentials db"
  "access_contexts (snd (enqueue_flash_quota_reconcile_tx gen now a db)) = access_contexts db"
  by (simp_all add: enqueue_tx_eq)

lemma enqueue_accounts_tables:
  "services (enqueue_accounts_flash_quotas gen now as db) = services db"
  "quota_owners (enqueue_accounts_flash_quotas gen now as db) = quota_owners db"
  "developer_credentials (enqueue_accounts_flash_quotas gen now as db) = developer_credentials db"
  "access_contexts (enqueue_accounts_flash_quotas gen now as db) = access_contexts db"
  using enqueue_accounts_frame [of gen now as db] by auto

lemma enqueue_accounts_events:
  assumes "ids_ok db" "e \<in> set (outbox (enqueue_accounts_flash_quotas gen now as db))"
  shows "e \<in> set (outbox db) \<or> event_ok db e"
  using assms
proof (induction as arbitrary: gen db)
  case (Cons a as)
  let ?db = "snd (enqueue_flash_quota_reconcile_tx gen now (Some a) db)"
  have "ids_ok ?db" using ids_ok_cong [OF enqueue_tx_frame(1,2)] Cons.prems(1) by blast
  then have "e \<in> set (outbox ?db) \<or> event_ok ?db e"
    by (rule Cons.IH) (use Cons.prems(2) in \<open>simp add: split_beta Let_def\<close>)
  then show ?case
    using enqueue_tx_events [OF Cons.prems(1)] event_ok_cong [OF enqueue_tx_frame(1,2)] by blast
qed simp

lemma enqueue_tx_command_ok:
  assumes "ids_ok db" "services db1 = services db" "quota_owners db1 = quota_owners db" "outbox db1 = outbox db"
  shows "command_ok db (snd (enqueue_flash_quota_reconcile_tx gen now a db1))"
proof (rule unchanged_command_ok)
  fix e assume e: "e \<in> set (outbox (snd (enqueue_flash_quota_reconcile_tx gen now a db1)))"
  have "ids_ok db1" using assms ids_ok_cong by blast
  from enqueue_tx_events [OF this e] show "e \<in> set (outbox db)
      \<or> event_ok (snd (enqueue_flash_quota_reconcile_tx gen now a db1)) e"
    using assms(4) event_ok_cong [OF enqueue_tx_frame(1,2)] by auto
qed (simp_all add: enqueue_tx_frame assms)

lemma enqueue_organization_command_ok:
  assumes "ids_ok db" "services db1 = services db" "quota_owners db1 = quota_owners db" "outbox db1 = outbox db"
  shows "command_ok db (enqueue_organization_flash_quotas_tx gen now a db1)"
proof -
  obtain as where as: "enqueue_organization_flash_quotas_tx gen now a db1 = enqueue_accounts_flash_quotas gen now as db1"
    by (simp add: enqueue_organization_flash_quotas_tx_def Let_def)
  have ids: "ids_ok db1" using assms ids_ok_cong by blast
  show ?thesis unfolding as
  proof (rule unchanged_command_ok)
    fix e assume "e \<in> set (outbox (enqueue_accounts_flash_quotas gen now as db1))"
    from enqueue_accounts_events [OF ids this] show "e \<in> set (outbox db)
        \<or> event_ok (enqueue_accounts_flash_quotas gen now as db1) e"
      using assms(4) event_ok_cong [OF enqueue_accounts_tables(1,2)] by auto
  qed (simp_all add: enqueue_accounts_tables assms)
qed

text \<open>Revocations are about contexts, not about the service.\<close>

lemma revocation_event_ok [simp]: "event_ok db (revocation_event eid now x a sid s prin)"
  by (simp add: event_ok_def speaks_of_service_def revocation_event_def)

definition flow_change :: "store \<Rightarrow> store \<Rightarrow> bool" where
  "flow_change db db' \<longleftrightarrow>
     services db' = services db \<and> quota_owners db' = quota_owners db
     \<and> (\<forall>e \<in> set (outbox db'). e \<in> set (outbox db) \<or> ob_topic e = TopicRevocation)"

lemma flow_change_command_ok:
  assumes "flow_change db db'"
  shows "command_ok db db'"
proof (rule unchanged_command_ok)
  fix e assume "e \<in> set (outbox db')"
  with assms show "e \<in> set (outbox db) \<or> event_ok db' e"
    by (auto simp: flow_change_def event_ok_def speaks_of_service_def)
qed (use assms in \<open>simp_all add: flow_change_def\<close>)

lemma flow_change_refl [simp]: "flow_change db db"
  by (simp add: flow_change_def)

lemma flow_change_trans: "flow_change db db1 \<Longrightarrow> flow_change db1 db2 \<Longrightarrow> flow_change db db2"
  by (auto simp: flow_change_def)

lemma flow_change_basic:
  "flow_change db (update_credential cid f db)"
  "flow_change db (audit_credential_use a c db)"
  "flow_change db (snd (revoke_contexts now ids db))"
  "flow_change db (prune_flow_access_context_history now sid db)"
  "flow_change db (enqueue (revocation_event eid now x a' sid' s prin) db)"
  by (simp_all add: flow_change_def update_credential_def audit_credential_use_def revoke_contexts_def Let_def
      prune_flow_access_context_history_def enqueue_def revocation_event_def)

lemma flow_change_insert: "insert_context x db = Inr db' \<Longrightarrow> flow_change db db'"
  by (auto simp: insert_context_def flow_change_def split: if_splits)

lemma flow_change_cascade:
  assumes "flow_inv db" "cascade_flow_developer_credential_contexts gen now c s prin db = Inr (n, db')"
  shows "flow_change db db'"
proof -
  have "distinct (map fc_context_id (access_contexts db))" using assms(1) by (simp add: flow_inv_def)
  from cascade_eq [OF this, of gen now c s prin] assms(2) show ?thesis
    by (auto simp: flow_change_def revocation_event_def)
qed

lemmas flow_changes = flow_change_basic flow_change_insert flow_change_cascade

lemma create_credential_change:
  "create_flow_developer_credential cid now input db = Inr (c, db') \<Longrightarrow> flow_change db db'"
  by (auto simp: create_flow_developer_credential_def bindE_Inr_iff Let_def flow_change_def)

lemma revoke_credential_change:
  assumes "flow_inv db" "revoke_flow_developer_credential gen now a sid cid prin db = Inr (r, db')"
  shows "flow_change db db'"
proof (cases "credential_in_scope db a sid cid")
  case None
  with assms show ?thesis by (simp add: revoke_flow_developer_credential_def)
next
  case (Some cs)
  obtain c s where cs: "cs = (c, s)" by (cases cs)
  let ?db = "if dc_revoked_at c = None then update_credential cid (\<lambda>c. c\<lparr>dc_revoked_at := Some now\<rparr>) db else db"
  from assms Some cs obtain n where n: "cascade_flow_developer_credential_contexts gen now c s prin ?db = Inr (n, db')"
    by (auto simp: revoke_flow_developer_credential_def bindE_Inr_iff Let_def)
  have "flow_inv ?db" using assms(1) by (simp add: flow_inv_update_credential)
  note casc = flow_change_cascade [OF this n]
  have "flow_change db ?db" by (simp add: flow_change_basic)
  then show ?thesis using casc by (rule flow_change_trans)
qed

lemma rotate_credential_change:
  assumes "flow_inv db" "rotate_flow_developer_credential gen now a sid cid pre h prin db = Inr (r, db')"
  shows "flow_change db db'"
proof -
  let ?f = "\<lambda>c. c\<lparr>dc_prefix := pre, dc_secret_hash := h, dc_last_used_at := None\<rparr>"
  from assms(2) obtain c s n where
    n: "cascade_flow_developer_credential_contexts gen now c s prin (update_credential cid ?f db) = Inr (n, db')"
    by (auto simp: rotate_flow_developer_credential_def bindE_Inr_iff split: option.splits)
  have "distinct (map fc_context_id (access_contexts (update_credential cid ?f db)))"
    using assms(1) by (simp add: update_credential_def flow_inv_def)
  from cascade_eq [OF this, of gen now c s prin] n show ?thesis
    by (auto simp: flow_change_def revocation_event_def update_credential_def)
qed

lemma record_context_change: "record_flow_access_context now x db = Inr db' \<Longrightarrow> flow_change db db'"
  by (auto simp: record_flow_access_context_def bindE_Inr_iff Let_def
      intro: flow_change_trans [OF flow_change_insert flow_change_basic(4)])

lemma mint_change:
  assumes "mint_flow_access_context_with_developer_credential now pre h cid prin perms issued expires db = Inr (out, db')"
  shows "flow_change db db'"
proof -
  from assms consider "db' = db" | x c db1 sid where "insert_context x db = Inr db1"
    "db' = audit_credential_use (lit ''realtime:MintAccessCredential'') c
       (update_credential (dc_id c) (\<lambda>c. c\<lparr>dc_last_used_at := Some now\<rparr>)
         (prune_flow_access_context_history now sid db1))"
    by (auto simp: mint_flow_access_context_with_developer_credential_def bindE_Inr_iff split: option.splits if_splits)
  then show ?thesis
  proof cases
    case 2
    have "flow_change db1 db'" unfolding 2(2)
      by (simp add: flow_change_def update_credential_def audit_credential_use_def Let_def
          prune_flow_access_context_history_def)
    with flow_change_insert [OF 2(1)] show ?thesis by (rule flow_change_trans)
  qed simp
qed

lemma revoke_context_change: "flow_change db (snd (revoke_flow_access_context eid now a sid cid prin db))"
  by (auto simp: revoke_flow_access_context_def split: option.split
      intro: flow_change_trans [OF flow_change_basic(3) flow_change_basic(5)])

lemma list_contexts_change:
  "flow_change db (snd (list_flow_access_contexts_for_developer_credential now pre h limit db))"
  by (auto simp: list_flow_access_contexts_for_developer_credential_def flow_change_basic split: option.split)

lemma revoke_own_context_change:
  "flow_change db (snd (revoke_flow_access_context_with_developer_credential eid now pre h cid db))"
  by (auto simp: revoke_flow_access_context_with_developer_credential_def Let_def flow_change_def
      update_credential_def audit_credential_use_def revoke_contexts_def enqueue_def revocation_event_def
      split: option.split)

subsection \<open>Assignment to a member\<close>

lemma assign_cases:
  assumes "assign_quota_resource gen now a rid user service_account db = Inr db'"
  obtains (account) "services db' = services db" "quota_owners db' = quota_owners db" "outbox db' = outbox db"
      "developer_credentials db' = developer_credentials db" "access_contexts db' = access_contexts db"
  | (service) r db1 where "r \<in> set (services db)" "s_id r = rid" "s_state r \<noteq> Deleting"
      "services db1 = map (\<lambda>x. if s_id x = rid \<and> s_organization_id x = a \<and> s_quota_user_id x = None
         \<and> s_state x \<noteq> Deleting \<and> metered (s_provider x) then x\<lparr>s_quota_user_id := Some user\<rparr> else x) (services db)"
      "used db1 = used db" "outbox db1 = outbox db"
      "developer_credentials db1 = developer_credentials db" "access_contexts db1 = access_contexts db"
      "s_quota_user_id r = None" "s_organization_id r = a" "metered (s_provider r)"
      "db' = snd (enqueue_flash_quota_reconcile_tx gen now (Some a) db1)"
proof (cases service_account)
  case True
  with assms show thesis by (intro account) (auto simp: assign_quota_resource_def bindE_Inr_iff Let_def)
next
  case False
  let ?free = "\<lambda>r. s_id r = rid \<and> s_organization_id r = a \<and> s_quota_user_id r = None
    \<and> s_state r \<noteq> Deleting \<and> metered (s_provider r)"
  let ?db1 = "db\<lparr>services := map (\<lambda>r. if ?free r then r\<lparr>s_quota_user_id := Some user\<rparr> else r) (services db),
    quota_owners := map (\<lambda>(s, o', u). if s = rid \<and> o' = a \<and> u = None then (s, o', Some user) else (s, o', u))
      (quota_owners db)\<rparr>"
  from assms False have one: "length (filter ?free (services db)) = 1"
    and db': "db' = snd (enqueue_flash_quota_reconcile_tx gen now (Some a) ?db1)"
    by (simp_all add: assign_quota_resource_def bindE_Inr_iff Let_def)
  from one have "filter ?free (services db) \<noteq> []" by auto
  then obtain r where "r \<in> set (services db)" "?free r" by (auto simp: filter_empty_conv)
  moreover have "used ?db1 = used db" by (force simp: used_def image_iff)
  ultimately show thesis by (intro service [of r ?db1]) (simp_all add: db')
qed

lemma assign_command_ok:
  assumes ids: "ids_ok db" and op: "assign_quota_resource gen now a rid user sa db = Inr db'"
  shows "command_ok db db'"
  using op
proof (cases rule: assign_cases)
  case account
  show ?thesis by (rule unchanged_command_ok) (use account in simp_all)
next
  case (service r db1)
  have all: "list_all2 same_version (services db) (services db1)"
    unfolding service(4) by (simp add: list_all2_map2 list_all2_same same_version_def)
  have step: "table_step db db'"
    by (rule table_step.kept) (use service all in \<open>simp_all add: enqueue_tx_frame used_def\<close>)
  have "ids_ok db'" by (rule table_step_ids [OF step ids])
  then have ids1: "ids_ok db1" using service ids_ok_cong [OF enqueue_tx_frame(1,2)] by simp
  have "no_new_ready db db'"
    unfolding no_new_ready_def service(12) enqueue_tx_frame service(4)
    by (auto simp: same_version_def)
  moreover have "e \<in> set (outbox db) \<or> event_ok db' e" if "e \<in> set (outbox db')" for e
    using enqueue_tx_events [OF ids1, of e gen now "Some a"] that service event_ok_cong [OF enqueue_tx_frame(1,2)]
    by simp
  ultimately show ?thesis using step by (simp add: command_ok_def)
qed

lemma assign_inv:
  assumes inv: "store_inv pf db" and op: "assign_quota_resource gen now a rid user sa db = Inr db'"
  shows "store_inv pf db'"
  using op
proof (cases rule: assign_cases)
  case account
  then show ?thesis using inv store_inv_cong by blast
next
  case (service r db1)
  let ?row = "r\<lparr>s_quota_user_id := Some user\<rparr>"
  have "services db1 = map (\<lambda>x. if s_id x = rid then ?row else x) (services db)"
    unfolding service(4)
  proof (rule map_cong [OF refl])
    fix x assume x: "x \<in> set (services db)"
    show "(if s_id x = rid \<and> s_organization_id x = a \<and> s_quota_user_id x = None \<and> s_state x \<noteq> Deleting
        \<and> metered (s_provider x) then x\<lparr>s_quota_user_id := Some user\<rparr> else x) = (if s_id x = rid then ?row else x)"
      using same_id_same_row [OF inv x service(1)] service by (cases "s_id x = rid") simp_all
  qed
  then have put: "puts ?row db db1"
    by (intro puts_update [OF store_invD(1) [OF inv] service(1,2)]) (use service in simp_all)
  have "admissible pf db ?row"
    by (rule kept_admissible [OF inv service(1)])
      (use store_invD(2) [OF inv service(1)] service in \<open>simp_all add: same_spec_def row_ok_def\<close>)
  with store_inv_puts [OF inv put] have "store_inv pf db1" by blast
  then show ?thesis unfolding service(12) store_inv_cong [OF enqueue_tx_frame(1)] .
qed

end
