(* ===== verification/Control_Plane.thy ===== *)
theory Control_Plane
  imports Service_Table
begin

section \<open>The control plane at work\<close>

text \<open>
  All components together: calls of the API, provider workers and the passage of time interleave
  on one database. A transaction is one step; a worker claims an event, reads what it sends, waits
  for the answer of the provider, writes the result and settles the event, and anything may happen
  between two of these steps, the end of the worker included.
\<close>

subsection \<open>Commands\<close>

datatype command =
    CreateService uuid uuid uuid provider str service_spec uuid "uuid option option"
  | ReplaceService uuid uuid provider uuid "uuid option" str service_spec "i64 option"
  | StopService uuid uuid uuid bool
  | DeleteService uuid uuid provider uuid
  | SetQuotaDefaults resource_quota_limits
  | SetAccountQuota uuid resource_quota_limits
  | ClearAccountQuota uuid
  | EnableWeeklyQuotas
  | SetMemberQuota uuid uuid "resource_quota_limits option"
  | AssignResource uuid uuid uuid bool
  | CreateCredential new_credential
  | RevokeCredential uuid uuid uuid uuid
  | RotateCredential uuid uuid uuid str "nat list" uuid
  | RecordContext access_context
  | MintContext str "nat list" uuid uuid "str list" datetime datetime
  | ListContexts str "nat list" int
  | RevokeOwnContext str "nat list" uuid
  | RevokeContext uuid uuid uuid uuid

text \<open>A transaction that fails is rolled back.\<close>

definition committed :: "store \<Rightarrow> store_error + 'a \<times> store \<Rightarrow> store" where
  "committed db r = (case r of Inl _ \<Rightarrow> db | Inr (_, db') \<Rightarrow> db')"

definition committed_unit :: "store \<Rightarrow> store_error + store \<Rightarrow> store" where
  "committed_unit db r = (case r of Inl _ \<Rightarrow> db | Inr db' \<Rightarrow> db')"

fun run_command :: "('n::linorder) platform \<Rightarrow> (nat \<Rightarrow> uuid) \<Rightarrow> datetime \<Rightarrow> command \<Rightarrow> store \<Rightarrow> store" where
  "run_command pf gen now (CreateService a project prin p name spec sid quota_user) db =
     committed db (create_service_instance pf (gen 0) now a project prin p name spec sid quota_user db)"
| "run_command pf gen now (ReplaceService a sid p prin project name spec expected) db =
     committed db (update_service_instance_checked pf (gen 0) now a sid p prin project name spec expected db)"
| "run_command pf gen now (StopService a sid prin stop) db =
     committed db (set_flash_service_stopped pf (gen 0) now a sid prin stop db)"
| "run_command pf gen now (DeleteService a sid p prin) db =
     committed db (begin_delete_service_instance (gen 0) now a sid p prin db)"
| "run_command pf gen now (SetQuotaDefaults limits) db =
     committed db (update_resource_quota_defaults gen now limits db)"
| "run_command pf gen now (SetAccountQuota a limits) db =
     committed db (set_organization_resource_quota gen now a limits db)"
| "run_command pf gen now (ClearAccountQuota a) db =
     committed db (clear_organization_resource_quota gen now a db)"
| "run_command pf gen now EnableWeeklyQuotas db =
     snd (enable_organization_flash_weekly_quotas gen now db)"
| "run_command pf gen now (SetMemberQuota a user limits) db =
     committed db (set_member_resource_quota gen now a user limits db)"
| "run_command pf gen now (AssignResource a rid user service_account) db =
     committed_unit db (assign_quota_resource gen now a rid user service_account db)"
| "run_command pf gen now (CreateCredential input) db =
     committed db (create_flow_developer_credential (gen 0) now input db)"
| "run_command pf gen now (RevokeCredential a sid cid prin) db =
     committed db (revoke_flow_developer_credential gen now a sid cid prin db)"
| "run_command pf gen now (RotateCredential a sid cid pre h prin) db =
     committed db (rotate_flow_developer_credential gen now a sid cid pre h prin db)"
| "run_command pf gen now (RecordContext x) db =
     committed_unit db (record_flow_access_context now x db)"
| "run_command pf gen now (MintContext pre h cid prin perms issued expires) db =
     committed db (mint_flow_access_context_with_developer_credential now pre h cid prin perms issued expires db)"
| "run_command pf gen now (ListContexts pre h limit) db =
     snd (list_flow_access_contexts_for_developer_credential now pre h limit db)"
| "run_command pf gen now (RevokeOwnContext pre h cid) db =
     snd (revoke_flow_access_context_with_developer_credential (gen 0) now pre h cid db)"
| "run_command pf gen now (RevokeContext a sid cid prin) db =
     snd (revoke_flow_access_context (gen 0) now a sid cid prin db)"

lemma committedI: "Q db \<Longrightarrow> (\<And>x db'. r = Inr (x, db') \<Longrightarrow> Q db') \<Longrightarrow> Q (committed db r)"
  by (auto simp: committed_def split: sum.split)

lemma committed_unitI: "Q db \<Longrightarrow> (\<And>db'. r = Inr db' \<Longrightarrow> Q db') \<Longrightarrow> Q (committed_unit db r)"
  by (auto simp: committed_unit_def split: sum.split)

lemma quota_defaults_case:
  assumes "update_resource_quota_defaults gen now limits db = Inr (x, db')"
  shows "db' = snd (enqueue_flash_quota_reconcile_tx gen now None (db\<lparr>quota_defaults := limits\<rparr>))"
  using assms by (auto simp: update_resource_quota_defaults_def bindE_Inr_iff)

lemma account_quota_case:
  assumes "set_organization_resource_quota gen now a limits db = Inr (x, db')"
  shows "db' = enqueue_organization_flash_quotas_tx gen now a
    (db\<lparr>account_quotas := AList.update a limits (account_quotas db)\<rparr>)"
  using assms by (auto simp: set_organization_resource_quota_def bindE_Inr_iff)

lemma clear_quota_case:
  assumes "clear_organization_resource_quota gen now a db = Inr (x, db')"
  shows "db' = enqueue_organization_flash_quotas_tx gen now a
    (db\<lparr>account_quotas := AList.delete a (account_quotas db)\<rparr>)"
  using assms by (auto simp: clear_organization_resource_quota_def bindE_Inr_iff Let_def)

lemma member_quota_case:
  assumes "set_member_resource_quota gen now a u limits db = Inr (x, db')"
  shows "db' = snd (enqueue_flash_quota_reconcile_tx gen now (Some a) (member_quotas_after (a, u) limits db))"
  by (rule set_member_cases [OF assms])

lemma member_quotas_after_frame [simp]:
  "services (member_quotas_after k l db) = services db" "quota_owners (member_quotas_after k l db) = quota_owners db"
  "outbox (member_quotas_after k l db) = outbox db"
  "developer_credentials (member_quotas_after k l db) = developer_credentials db"
  "access_contexts (member_quotas_after k l db) = access_contexts db"
  by (simp_all add: member_quotas_after_def)

lemmas quota_cases = quota_defaults_case account_quota_case clear_quota_case member_quota_case

lemma command_ok_refl [simp]: "command_ok db db"
  by (rule unchanged_command_ok) simp_all

lemma run_command_ok:
  assumes ids: "ids_ok db" and flow: "flow_inv db"
  shows "command_ok db (run_command pf gen now c db)"
proof -
  note committed = committedI [where Q = "command_ok db"] committed_unitI [where Q = "command_ok db"]
  note tx = enqueue_tx_command_ok [OF ids] enqueue_organization_command_ok [OF ids]
  show ?thesis
  proof (cases c)
    case CreateService
    then show ?thesis by (simp add: committed create_command_ok [OF ids])
  next
    case ReplaceService
    then show ?thesis by (simp add: committed update_command_ok [OF ids])
  next
    case StopService
    then show ?thesis by (simp add: committed stop_command_ok [OF ids])
  next
    case DeleteService
    then show ?thesis by (simp add: committed delete_command_ok [OF ids])
  next
    case AssignResource
    then show ?thesis by (simp add: committed assign_command_ok [OF ids])
  next
    case CreateCredential
    then show ?thesis by (simp add: committed flow_change_command_ok [OF create_credential_change])
  next
    case RevokeCredential
    then show ?thesis by (simp add: committed flow_change_command_ok [OF revoke_credential_change [OF flow]])
  next
    case RotateCredential
    then show ?thesis by (simp add: committed flow_change_command_ok [OF rotate_credential_change [OF flow]])
  next
    case RecordContext
    then show ?thesis by (simp add: committed flow_change_command_ok [OF record_context_change])
  next
    case MintContext
    then show ?thesis by (simp add: committed flow_change_command_ok [OF mint_change])
  next
    case SetQuotaDefaults
    then show ?thesis by (auto intro!: committed tx dest!: quota_cases)
  next
    case SetAccountQuota
    then show ?thesis by (auto intro!: committed tx dest!: quota_cases)
  next
    case ClearAccountQuota
    then show ?thesis by (auto intro!: committed tx dest!: quota_cases)
  next
    case SetMemberQuota
    then show ?thesis by (auto intro!: committed tx dest!: quota_cases)
  next
    case EnableWeeklyQuotas
    then show ?thesis by (simp add: enable_organization_flash_weekly_quotas_def tx)
  next
    case ListContexts
    then show ?thesis by (simp add: flow_change_command_ok [OF list_contexts_change])
  next
    case RevokeOwnContext
    then show ?thesis by (simp add: flow_change_command_ok [OF revoke_own_context_change])
  next
    case RevokeContext
    then show ?thesis by (simp add: flow_change_command_ok [OF revoke_context_change])
  qed
qed

subsection \<open>Commands keep the tables consistent\<close>

lemma run_store_inv:
  assumes inv: "store_inv pf db" and flow: "flow_inv db"
  shows "store_inv pf (run_command pf gen now c db)"
proof -
  note committed = committedI [where Q = "store_inv pf"] committed_unitI [where Q = "store_inv pf"]
  have same: "services db' = services db \<Longrightarrow> store_inv pf db'" for db'
    using inv store_inv_cong by blast
  have change: "flow_change db db' \<Longrightarrow> store_inv pf db'" for db'
    by (rule same) (simp add: flow_change_def)
  have org: "services (enqueue_organization_flash_quotas_tx gen now a db1) = services db1" for a db1
    by (simp add: enqueue_organization_flash_quotas_tx_def enqueue_accounts_tables Let_def)
  note frames = enqueue_tx_frame org
  show ?thesis
  proof (cases c)
    case CreateService
    then show ?thesis by (simp add: committed inv create_inv [OF inv])
  next
    case ReplaceService
    then show ?thesis by (simp add: committed inv update_inv [OF inv])
  next
    case StopService
    then show ?thesis by (simp add: committed inv stop_inv [OF inv])
  next
    case DeleteService
    then show ?thesis by (simp add: committed inv begin_delete_inv [OF inv])
  next
    case AssignResource
    then show ?thesis by (simp add: committed inv assign_inv [OF inv])
  next
    case CreateCredential
    then show ?thesis by (simp add: committed inv change [OF create_credential_change])
  next
    case RevokeCredential
    then show ?thesis by (simp add: committed inv change [OF revoke_credential_change [OF flow]])
  next
    case RotateCredential
    then show ?thesis by (simp add: committed inv change [OF rotate_credential_change [OF flow]])
  next
    case RecordContext
    then show ?thesis by (simp add: committed inv change [OF record_context_change])
  next
    case MintContext
    then show ?thesis by (simp add: committed inv change [OF mint_change])
  next
    case SetQuotaDefaults
    then show ?thesis by (auto intro!: committed intro: inv same dest!: quota_cases simp: frames)
  next
    case SetAccountQuota
    then show ?thesis by (auto intro!: committed intro: inv same dest!: quota_cases simp: frames)
  next
    case ClearAccountQuota
    then show ?thesis by (auto intro!: committed intro: inv same dest!: quota_cases simp: frames)
  next
    case SetMemberQuota
    then show ?thesis by (auto intro!: committed intro: inv same dest!: quota_cases simp: frames)
  next
    case EnableWeeklyQuotas
    then show ?thesis by (simp add: enable_organization_flash_weekly_quotas_def same frames)
  next
    case ListContexts
    then show ?thesis by (simp add: change [OF list_contexts_change])
  next
    case RevokeOwnContext
    then show ?thesis by (simp add: change [OF revoke_own_context_change])
  next
    case RevokeContext
    then show ?thesis by (simp add: change [OF revoke_context_change])
  qed
qed

lemma flow_inv_cong:
  "developer_credentials db' = developer_credentials db \<Longrightarrow> access_contexts db' = access_contexts db \<Longrightarrow>
   flow_inv db' \<longleftrightarrow> flow_inv db"
  by (simp add: flow_inv_def)

lemma gpu_request_flow:
  "replace_gpu_request_if_flash p db sid a prin spec = Inr db' \<Longrightarrow>
   developer_credentials db' = developer_credentials db \<and> access_contexts db' = access_contexts db"
  by (auto simp: replace_gpu_request_if_flash_def replace_flash_gpu_service_request_def bindE_Inr_iff
      split: if_splits option.splits)

lemma service_frames [simp]:
  "developer_credentials (enqueue e db) = developer_credentials db" "access_contexts (enqueue e db) = access_contexts db"
  "developer_credentials (revoke_workload_tokens sid db) = developer_credentials db"
  "access_contexts (revoke_workload_tokens sid db) = access_contexts db"
  "developer_credentials (update_service sid f db) = developer_credentials db"
  "access_contexts (update_service sid f db) = access_contexts db"
  by (simp_all add: enqueue_def revoke_workload_tokens_def update_service_def)

lemma create_flow:
  assumes "create_service_instance pf eid now a project prin p name spec sid quota_user db = Inr (row, db')"
  shows "developer_credentials db' = developer_credentials db \<and> access_contexts db' = access_contexts db"
proof (cases "service_by_id db sid")
  case None
  from assms None obtain row' prepared db1 db2 where ins: "insert_service db row' = Inr db1"
    and gpu: "replace_gpu_request_if_flash p db1 sid a prin prepared = Inr db2"
    and db': "developer_credentials db' = developer_credentials db2" "access_contexts db' = access_contexts db2"
    by (auto simp: create_service_instance_def bindE_Inr_iff Let_def split: if_splits)
  from ins gpu_request_flow [OF gpu] db' show ?thesis by (auto simp: insert_service_def split: if_splits)
qed (use assms in \<open>auto simp: create_service_instance_def split: if_splits\<close>)

lemma update_flow:
  assumes "update_service_instance_checked pf eid now a sid p prin new_project name spec expected db = Inr (row, db')"
  shows "developer_credentials db' = developer_credentials db \<and> access_contexts db' = access_contexts db"
  using assms unfolding update_service_instance_checked_def
  by (auto simp: bindE_Inr_iff Let_def dest!: gpu_request_flow split: if_splits option.splits)

lemma stop_flow:
  assumes "set_flash_service_stopped pf eid now a sid prin stop db = Inr (row, db')"
  shows "developer_credentials db' = developer_credentials db \<and> access_contexts db' = access_contexts db"
proof -
  have gpu: "replace_flash_gpu_service_request db1 sid a prin spec = Inr db2 \<Longrightarrow>
    developer_credentials db2 = developer_credentials db1 \<and> access_contexts db2 = access_contexts db1"
    for db1 db2 spec using gpu_request_flow [of Flash] by (simp add: replace_gpu_request_if_flash_def)
  show ?thesis
    using assms unfolding set_flash_service_stopped_def
    by (auto simp: bindE_Inr_iff Let_def dest!: gpu split: if_splits option.splits)
qed

lemma delete_flow:
  "begin_delete_service_instance eid now a sid p prin db = Inr (row, db') \<Longrightarrow>
   developer_credentials db' = developer_credentials db \<and> access_contexts db' = access_contexts db"
  by (auto simp: begin_delete_service_instance_def bindE_Inr_iff Let_def split: if_splits option.splits)

lemma assign_flow:
  assumes "assign_quota_resource gen now a rid user sa db = Inr db'"
  shows "developer_credentials db' = developer_credentials db \<and> access_contexts db' = access_contexts db"
  using assms by (cases rule: assign_cases) (simp_all add: enqueue_tx_frame)

lemma run_flow_inv:
  assumes flow: "flow_inv db" and fresh: "gen 0 \<notin> dc_id ` set (developer_credentials db)"
  shows "flow_inv (run_command pf gen now c db)"
proof -
  note committed = committedI [where Q = flow_inv] committed_unitI [where Q = flow_inv]
  have same: "developer_credentials db' = developer_credentials db \<and> access_contexts db' = access_contexts db \<Longrightarrow>
    flow_inv db'" for db' using flow flow_inv_cong by blast
  have org: "developer_credentials (enqueue_organization_flash_quotas_tx gen now a db1) = developer_credentials db1"
    "access_contexts (enqueue_organization_flash_quotas_tx gen now a db1) = access_contexts db1" for a db1
    by (simp_all add: enqueue_organization_flash_quotas_tx_def enqueue_accounts_tables Let_def)
  note frames = enqueue_tx_frame org
  show ?thesis
  proof (cases c)
    case CreateService
    then show ?thesis by (simp add: committed flow same [OF create_flow])
  next
    case ReplaceService
    then show ?thesis by (simp add: committed flow same [OF update_flow])
  next
    case StopService
    then show ?thesis by (simp add: committed flow same [OF stop_flow])
  next
    case DeleteService
    then show ?thesis by (simp add: committed flow same [OF delete_flow])
  next
    case AssignResource
    then show ?thesis by (simp add: committed flow same [OF assign_flow])
  next
    case CreateCredential
    then show ?thesis by (simp add: committed flow create_credential_inv [OF flow _ fresh])
  next
    case RevokeCredential
    then show ?thesis by (simp add: committed flow revoke_credential_inv [OF flow])
  next
    case RotateCredential
    then show ?thesis by (simp add: committed flow rotate_credential_inv [OF flow])
  next
    case RecordContext
    then show ?thesis by (simp add: committed flow record_context_inv [OF flow])
  next
    case MintContext
    then show ?thesis by (simp add: committed flow mint_inv [OF flow])
  next
    case SetQuotaDefaults
    then show ?thesis by (auto intro!: committed intro: flow same dest!: quota_cases simp: frames)
  next
    case SetAccountQuota
    then show ?thesis by (auto intro!: committed intro: flow same dest!: quota_cases simp: frames)
  next
    case ClearAccountQuota
    then show ?thesis by (auto intro!: committed intro: flow same dest!: quota_cases simp: frames)
  next
    case SetMemberQuota
    then show ?thesis by (auto intro!: committed intro: flow same dest!: quota_cases simp: frames)
  next
    case EnableWeeklyQuotas
    then show ?thesis by (simp add: enable_organization_flash_weekly_quotas_def same frames)
  next
    case (ListContexts pre h limit)
    then show ?thesis
      by (auto simp: list_flow_access_contexts_for_developer_credential_def flow flow_inv_update_credential
          split: option.split)
  next
    case RevokeOwnContext
    then show ?thesis by (simp add: revoke_own_context_inv [OF flow])
  next
    case RevokeContext
    then show ?thesis by (simp add: revoke_context_inv [OF flow])
  qed
qed

subsection \<open>What a worker writes\<close>

lemma finish_cases:
  assumes fin: "finish_delivery w e answer db = (result, db')"
    and ev: "speaks_of_service e \<longrightarrow> ob_payload e = ServicePayload ev"
    and topic: "speaks_of_service e \<or> ob_topic e = TopicRevocation"
  obtains (same) "db' = db"
  | (deleted) "db' = snd (complete_delete_service_instance (ev_service_instance_id ev) (ev_provider ev) (ev_generation ev) db)"
  | (failed) op status where "ob_topic e = TopicReconcile"
      "db' = snd (mark_service_instance Failed (ev_service_instance_id ev) (ev_provider ev) (ev_generation ev) op status db)"
  | (ready) r op status where "ob_topic e = TopicReconcile" "answer = Some r" "is_success (rs_status r)"
      "read_operation w r = Inr (op, status)" "\<not> provider_reconcile_failed status"
      "db' = snd (mark_service_instance Ready (ev_service_instance_id ev) (ev_provider ev) (ev_generation ev)
         (uuid_string op) status db)"
proof (cases "answer = None \<or> ob_topic e = TopicRevocation")
  case True
  with fin show thesis by (intro same) (auto simp: finish_delivery_def split: option.splits)
next
  case False
  then obtain r where r: "answer = Some r" and t: "speaks_of_service e" using topic by (cases answer) auto
  with fin ev False have fin: "finish_service_call w e ev r db = (result, db')"
    by (simp add: finish_delivery_def decode_reconcile_def)
  then show thesis
    using same deleted failed ready [OF _ r] t
    by (auto simp: finish_service_call_def Let_def stale_unless_def mark_service_instance_error_def
        mark_service_instance_ready_def speaks_of_service_def split: sum.splits if_splits)
qed

lemma mark_table_step:
  assumes "\<And>r. r \<in> set (services db) \<Longrightarrow> s_id r = sid \<Longrightarrow> s_generation r = g \<Longrightarrow> s_state r \<noteq> Deleting"
    "st \<noteq> Deleting"
  shows "table_step db (snd (mark_service_instance st sid p g op status db))"
proof (rule table_step.kept)
  show "used (snd (mark_service_instance st sid p g op status db)) = used db"
    by (simp add: used_def mark_service_instance_def Let_def)
  show "list_all2 same_version (services db) (services (snd (mark_service_instance st sid p g op status db)))"
    unfolding services_mark using assms by (simp add: list_all2_map2 list_all2_same same_version_def)
qed

lemma complete_delete_step: "table_step db (snd (complete_delete_service_instance sid p g db))"
proof (cases rule: complete_delete_cases [of sid p g db])
  case 1
  then show ?thesis by (simp add: unchanged_table_step)
next
  case 2
  then obtain r where r: "r \<in> set (services db)" "dead_row sid g p r" by (auto simp: dead_row_def)
  have "used (snd (complete_delete_service_instance sid p g db)) = used db"
    by (simp add: used_def complete_delete_service_instance_def Let_def)
  with 2(2) show ?thesis by (intro table_step.remove [OF _ r]) (simp_all add: dead_row_def)
qed

lemma complete_delete_flow:
  "flow_inv db \<Longrightarrow> flow_inv (snd (complete_delete_service_instance sid p g db))"
  by (auto simp: complete_delete_service_instance_def Let_def flow_inv_def revoke_workload_tokens_def distinct_map_filter)

lemma mark_flow: "flow_inv (snd (mark_service_instance st sid p g op status db)) \<longleftrightarrow> flow_inv db"
  by (rule flow_inv_cong) (simp_all add: mark_service_instance_def Let_def)

text \<open>A live row is only reported about by a reconcile event of its generation.\<close>

lemma event_ok_live:
  assumes "event_ok db e" "ob_topic e = TopicReconcile" "ob_payload e = ServicePayload ev"
    "r \<in> set (services db)" "s_id r = ev_service_instance_id ev" "s_generation r = ev_generation ev"
  shows "s_state r \<noteq> Deleting" "s_id r = ob_aggregate_id e"
proof -
  have "speaks_of_service e" using assms(2) by (simp add: speaks_of_service_def)
  then have agg: "ev_service_instance_id ev = ob_aggregate_id e"
    and "\<forall>r \<in> set (services db). s_id r = ob_aggregate_id e \<longrightarrow> speaks_rightly ev (ob_topic e) r"
    using assms(1,3) by (auto simp: event_ok_def)
  with assms(4,5) have "speaks_rightly ev (ob_topic e) r" by auto
  with assms(2,6) show "s_state r \<noteq> Deleting" by (auto simp: speaks_rightly_def)
  show "s_id r = ob_aggregate_id e" using agg assms(5) by simp
qed

definition accepted_by :: "wire \<Rightarrow> provider_request \<Rightarrow> http_response \<Rightarrow> service_row \<Rightarrow> bool" where
  "accepted_by w rq answer r \<longleftrightarrow>
     carries rq r \<and> is_success (rs_status answer)
     \<and> (\<exists>op status. read_operation w answer = Inr (op, status) \<and> \<not> provider_reconcile_failed status
          \<and> s_status r = operation_status (uuid_string op) status)"

lemma accepted_by_same_version:
  "accepted_by w rq a r \<Longrightarrow> same_version r r' \<Longrightarrow> s_status r' = s_status r \<Longrightarrow> accepted_by w rq a r'"
  using carries_same_version by (auto simp: accepted_by_def)

lemma finish_ok:
  assumes inv: "store_inv pf db" "flow_inv db" and event: "event_ok db e" and sent: "sent_ok db e rq"
    and fin: "finish_delivery w e answer db = (result, db')"
  shows "table_step db db' \<and> store_inv pf db' \<and> flow_inv db'
    \<and> (\<forall>r' \<in> set (services db'). s_state r' = Ready \<longrightarrow>
         (\<exists>r \<in> set (services db). s_state r = Ready \<and> same_version r r' \<and> s_status r' = s_status r)
         \<or> (\<exists>a. answer = Some a \<and> accepted_by w rq a r'))"
proof -
  obtain ev where ev: "speaks_of_service e \<longrightarrow> ob_payload e = ServicePayload ev"
    using event by (auto simp: event_ok_def)
  have topic: "speaks_of_service e \<or> ob_topic e = TopicRevocation" using sent by (simp add: sent_ok_def)
  have old: "\<exists>r \<in> set (services db). s_state r = Ready \<and> same_version r r' \<and> s_status r' = s_status r"
    if "r' \<in> set (services db)" "s_state r' = Ready" for r' using that same_version_refl by blast
  from fin ev topic show ?thesis
  proof (cases rule: finish_cases)
    case same
    then show ?thesis using inv old by (simp add: unchanged_table_step)
  next
    case deleted
    have "set (services db') \<subseteq> set (services db)"
      unfolding deleted by (cases rule: complete_delete_cases [of "ev_service_instance_id ev" "ev_provider ev" "ev_generation ev" db]) auto
    then show ?thesis
      using inv old complete_delete_step complete_delete_inv complete_delete_flow unfolding deleted by blast
  next
    case (failed op status)
    have p: "ob_payload e = ServicePayload ev" using ev failed(1) by (simp add: speaks_of_service_def)
    note live = event_ok_live(1) [OF event failed(1) p]
    have "s_state r' = Ready \<Longrightarrow> r' \<in> set (services db)" if "r' \<in> set (services db')" for r'
      using that unfolding failed(2) services_mark by (auto split: if_splits)
    moreover have "table_step db db'" unfolding failed(2) by (rule mark_table_step) (simp_all add: live)
    moreover have "store_inv pf db'" unfolding failed(2) by (rule mark_inv [OF inv(1)]) (simp_all add: live)
    moreover have "flow_inv db'" unfolding failed(2) mark_flow by (rule inv(2))
    ultimately show ?thesis using old by blast
  next
    case (ready a op status)
    have p: "ob_payload e = ServicePayload ev" using ev ready(1) by (simp add: speaks_of_service_def)
    note live = event_ok_live [OF event ready(1) p]
    have "(r' \<in> set (services db)) \<or> accepted_by w rq a r'"
      if r': "r' \<in> set (services db')" for r'
    proof -
      let ?hit = "\<lambda>x. s_id x = ev_service_instance_id ev \<and> s_generation x = ev_generation ev \<and> s_provider x = ev_provider ev"
      from r' obtain x where x: "x \<in> set (services db)" "r' = (if ?hit x
        then x\<lparr>s_state := Ready, s_status := operation_status (uuid_string op) status\<rparr> else x)"
        unfolding ready(6) services_mark by auto
      show ?thesis
      proof (cases "?hit x")
        case True
        with x have "carries rq x" using sent p ready(1) live(2) unfolding sent_ok_def by blast
        moreover have r'eq: "r' = x\<lparr>s_state := Ready, s_status := operation_status (uuid_string op) status\<rparr>"
          using x(2) True by simp
        moreover have "same_version x r'" using live(1) [OF x(1)] True by (simp add: r'eq same_version_def)
        ultimately have "carries rq r'" using carries_same_version by blast
        moreover have "s_status r' = operation_status (uuid_string op) status" by (simp add: r'eq)
        ultimately show ?thesis using ready(3-5) unfolding accepted_by_def by blast
      next
        case False
        with x show ?thesis by simp
      qed
    qed
    moreover have "table_step db db'" unfolding ready(6) by (rule mark_table_step) (simp_all add: live)
    moreover have "store_inv pf db'" unfolding ready(6) by (rule mark_inv [OF inv(1)]) (simp_all add: live)
    moreover have "flow_inv db'" unfolding ready(6) mark_flow by (rule inv(2))
    ultimately show ?thesis using old ready(2) by blast
  qed
qed

subsection \<open>Steps of the plane\<close>

datatype stage =
    Claimed
  | Sent provider_request
  | Answered "worker_error + unit"

record plane =
  p_db :: store
  p_now :: datetime
  p_work :: "(outbox_row \<times> stage) list"
  p_calls :: "(provider_request \<times> http_response) list"

text \<open>
  A work item is an event in the hands of a worker. The identifiers a command hands out are new.
  \<open>start\<close> covers the reads of \<open>deliver\<close> up to the HTTP call, \<open>answer\<close> and \<open>lost\<close> what follows it.
\<close>

inductive plane_step :: "('n::linorder) platform \<Rightarrow> wire \<Rightarrow> provider_targets \<Rightarrow> plane \<Rightarrow> plane \<Rightarrow> bool"
  for pf w targets where
  tick: "p_now s \<le> t \<Longrightarrow> plane_step pf w targets s (s\<lparr>p_now := t\<rparr>)"
| command: "gen 0 \<notin> dc_id ` set (developer_credentials (p_db s)) \<Longrightarrow>
    plane_step pf w targets s (s\<lparr>p_db := run_command pf gen (p_now s) c (p_db s)\<rparr>)"
| claim: "claim_outbox_event (p_now s) (p_db s) = (Some e, db) \<Longrightarrow>
    plane_step pf w targets s (s\<lparr>p_db := db, p_work := (e, Claimed) # p_work s\<rparr>)"
| start: "p_work s = xs @ (e, Claimed) # ys \<Longrightarrow>
    start_delivery w targets jti (p_now s) (p_db s) e = Inr (Some rq) \<Longrightarrow>
    plane_step pf w targets s (s\<lparr>p_work := xs @ (e, Sent rq) # ys\<rparr>)"
| nothing_to_send: "p_work s = xs @ (e, Claimed) # ys \<Longrightarrow>
    start_delivery w targets jti (p_now s) (p_db s) e = Inr None \<Longrightarrow>
    plane_step pf w targets s (s\<lparr>p_work := xs @ (e, Answered (Inr ())) # ys\<rparr>)"
| refuse: "p_work s = xs @ (e, Claimed) # ys \<Longrightarrow>
    start_delivery w targets jti (p_now s) (p_db s) e = Inl err \<Longrightarrow>
    plane_step pf w targets s (s\<lparr>p_work := xs @ (e, Answered (Inl err)) # ys\<rparr>)"
| answer: "p_work s = xs @ (e, Sent rq) # ys \<Longrightarrow> finish_delivery w e (Some r) (p_db s) = (result, db) \<Longrightarrow>
    plane_step pf w targets s (s\<lparr>p_db := db, p_work := xs @ (e, Answered result) # ys, p_calls := (rq, r) # p_calls s\<rparr>)"
| lost: "p_work s = xs @ (e, Sent rq) # ys \<Longrightarrow> finish_delivery w e None (p_db s) = (result, db) \<Longrightarrow>
    plane_step pf w targets s (s\<lparr>p_db := db, p_work := xs @ (e, Answered result) # ys\<rparr>)"
| settle: "p_work s = xs @ (e, Answered result) # ys \<Longrightarrow>
    plane_step pf w targets s (s\<lparr>p_db := settle (p_now s) e result (p_db s), p_work := xs @ ys\<rparr>)"
| crash: "p_work s = xs @ x # ys \<Longrightarrow> plane_step pf w targets s (s\<lparr>p_work := xs @ ys\<rparr>)"

definition fresh_plane :: "plane \<Rightarrow> bool" where
  "fresh_plane s \<longleftrightarrow>
     services (p_db s) = [] \<and> quota_owners (p_db s) = [] \<and> outbox (p_db s) = []
     \<and> developer_credentials (p_db s) = [] \<and> access_contexts (p_db s) = [] \<and> p_work s = [] \<and> p_calls s = []"

definition ready_ok :: "wire \<Rightarrow> plane \<Rightarrow> bool" where
  "ready_ok w s \<longleftrightarrow>
     (\<forall>r \<in> set (services (p_db s)). s_state r = Ready \<longrightarrow>
        (\<exists>(rq, a) \<in> set (p_calls s). accepted_by w rq a r))"

fun item_ok :: "store \<Rightarrow> outbox_row \<times> stage \<Rightarrow> bool" where
  "item_ok db (e, Sent rq) \<longleftrightarrow> event_ok db e \<and> sent_ok db e rq"
| "item_ok db (e, _) \<longleftrightarrow> event_ok db e"

definition work_ok :: "plane \<Rightarrow> bool" where
  "work_ok s \<longleftrightarrow> (\<forall>x \<in> set (p_work s). item_ok (p_db s) x)"

definition plane_inv :: "('n::linorder) platform \<Rightarrow> wire \<Rightarrow> plane \<Rightarrow> bool" where
  "plane_inv pf w s \<longleftrightarrow>
     store_inv pf (p_db s) \<and> flow_inv (p_db s) \<and> ids_ok (p_db s)
     \<and> (\<forall>e \<in> set (outbox (p_db s)). event_ok (p_db s) e) \<and> work_ok s \<and> ready_ok w s"

lemma empty_store_inv: "services db = [] \<Longrightarrow> store_inv pf db"
  by (simp add: store_inv_def within_def account_rows_def ports_ok_def buckets_ok_def attachments_ok_def names_ok_def)

lemma fresh_plane_inv: "fresh_plane s \<Longrightarrow> plane_inv pf w s"
  by (simp add: fresh_plane_def plane_inv_def empty_store_inv flow_inv_def ids_ok_def work_ok_def ready_ok_def)

lemma item_ok_step: "table_step db db' \<Longrightarrow> item_ok db x \<Longrightarrow> item_ok db' x"
  by (induction db x rule: item_ok.induct) (auto intro: event_ok_step sent_ok_step)

lemma update_event_ok:
  assumes "\<And>e. ob_topic (f e) = ob_topic e" "\<And>e. ob_payload (f e) = ob_payload e" "\<And>e. ob_aggregate_id (f e) = ob_aggregate_id e"
    "\<forall>e \<in> set (outbox db). event_ok db e"
  shows "\<forall>e \<in> set (outbox (update_event eid f db)). event_ok (update_event eid f db) e"
proof -
  have "event_ok (update_event eid f db) e \<longleftrightarrow> event_ok db e" for e by (rule event_ok_cong) simp_all
  moreover have "event_ok db (f e) \<longleftrightarrow> event_ok db e" for e using assms(1-3) by (simp add: event_ok_def speaks_of_service_def)
  ultimately show ?thesis using assms(4) by auto
qed

lemma plane_inv_step:
  assumes inv: "plane_inv pf w s" and step: "table_step (p_db s) (p_db s')"
    and tables: "store_inv pf (p_db s')" "flow_inv (p_db s')"
    and events: "\<forall>e \<in> set (outbox (p_db s')). e \<in> set (outbox (p_db s)) \<or> event_ok (p_db s') e"
    and ready: "ready_ok w s'"
    and work: "\<And>x. x \<in> set (p_work s') \<Longrightarrow> x \<in> set (p_work s) \<or> item_ok (p_db s') x"
  shows "plane_inv pf w s'"
proof -
  have "work_ok s" "ids_ok (p_db s)" "\<forall>e \<in> set (outbox (p_db s)). event_ok (p_db s) e"
    using inv by (simp_all add: plane_inv_def)
  then have "work_ok s'" "\<forall>e \<in> set (outbox (p_db s')). event_ok (p_db s') e" "ids_ok (p_db s')"
    using work item_ok_step [OF step] events event_ok_step [OF step] table_step_ids [OF step]
    unfolding work_ok_def by blast+
  then show ?thesis using tables ready by (simp add: plane_inv_def)
qed

lemma ready_ok_kept:
  assumes "ready_ok w s" "no_new_ready (p_db s) (p_db s')" "set (p_calls s) \<subseteq> set (p_calls s')"
  shows "ready_ok w s'"
  unfolding ready_ok_def
proof (intro ballI impI)
  fix r' assume "r' \<in> set (services (p_db s'))" "s_state r' = Ready"
  with assms(2) obtain r where r: "r \<in> set (services (p_db s))" "s_state r = Ready" "same_version r r'" "s_status r' = s_status r"
    unfolding no_new_ready_def by blast
  with assms(1) obtain rq a where "(rq, a) \<in> set (p_calls s)" "accepted_by w rq a r" unfolding ready_ok_def by blast
  with r assms(3) accepted_by_same_version show "\<exists>(rq, a) \<in> set (p_calls s'). accepted_by w rq a r'" by blast
qed

lemma plane_inv_events:
  assumes inv: "plane_inv pf w s" and db: "p_db s' = update_event eid f (p_db s)" and calls: "p_calls s' = p_calls s"
    and f: "\<And>e. ob_topic (f e) = ob_topic e" "\<And>e. ob_payload (f e) = ob_payload e" "\<And>e. ob_aggregate_id (f e) = ob_aggregate_id e"
    and work: "\<And>x. x \<in> set (p_work s') \<Longrightarrow> x \<in> set (p_work s) \<or> item_ok (p_db s') x"
  shows "plane_inv pf w s'"
proof (rule plane_inv_step [OF inv])
  show step: "table_step (p_db s) (p_db s')" unfolding db by (rule unchanged_table_step) simp_all
  show "store_inv pf (p_db s')" "flow_inv (p_db s')"
    using inv store_inv_cong [of "p_db s'" "p_db s" pf] flow_inv_cong [of "p_db s'" "p_db s"]
    by (simp_all add: plane_inv_def db update_event_def)
  show "\<forall>e \<in> set (outbox (p_db s')). e \<in> set (outbox (p_db s)) \<or> event_ok (p_db s') e"
    unfolding db using update_event_ok [of f, OF f] inv unfolding plane_inv_def by blast
  show "ready_ok w s'"
    using inv by (simp add: plane_inv_def ready_ok_def db calls)
qed (rule work)

lemma claimed_event:
  assumes "claim_outbox_event now db = (Some e, db')"
  obtains e0 where "e0 \<in> set (outbox db)" "ob_topic e = ob_topic e0" "ob_payload e = ob_payload e0"
    "ob_aggregate_id e = ob_aggregate_id e0"
    "db' = update_event (ob_id e0) (\<lambda>e. e\<lparr>ob_locked_at := Some now, ob_attempts := ob_attempts e + 1\<rparr>) db"
  using assms by (cases rule: claim_cases [of now db]) auto

lemma settle_update:
  obtains f where "settle now e result db = update_event (ob_id e) f db"
    "\<forall>e. ob_topic (f e) = ob_topic e \<and> ob_payload (f e) = ob_payload e \<and> ob_aggregate_id (f e) = ob_aggregate_id e"
proof (cases "result = Inr () \<or> result = Inl StalePayload")
  case True
  then show thesis
    by (intro that [of "\<lambda>e. e\<lparr>ob_delivered_at := Some now, ob_locked_at := None\<rparr>"])
       (auto simp: settle_def mark_outbox_delivered_def)
next
  case False
  then show thesis
    by (intro that [of "\<lambda>x. if ob_delivered_at x = None
          then x\<lparr>ob_locked_at := None, ob_available_at := now + seconds (retry_delay (ob_attempts e))\<rparr> else x"])
       (auto simp: settle_def retry_outbox_event_def)
qed

lemma plane_step_inv:
  assumes inv: "plane_inv pf w s" and step: "plane_step pf w targets s s'"
  shows "plane_inv pf w s' \<and> table_step (p_db s) (p_db s')"
  using step
proof (cases rule: plane_step.cases)
  case (tick t)
  then show ?thesis using inv by (simp add: plane_inv_def work_ok_def ready_ok_def unchanged_table_step)
next
  case (command gen c)
  let ?db = "run_command pf gen (p_now s) c (p_db s)"
  have i: "store_inv pf (p_db s)" "flow_inv (p_db s)" "ids_ok (p_db s)" "ready_ok w s" using inv by (simp_all add: plane_inv_def)
  have ok: "command_ok (p_db s) ?db" by (rule run_command_ok [OF i(3,2)])
  then have "ready_ok w s'" by (intro ready_ok_kept [OF i(4)]) (simp_all add: command command_ok_def)
  moreover have "store_inv pf ?db" by (rule run_store_inv [OF i(1,2)])
  moreover have "flow_inv ?db" by (rule run_flow_inv [OF i(2)]) (rule command(2))
  ultimately have "plane_inv pf w s'"
    using ok by (intro plane_inv_step [OF inv]) (simp_all add: command(1) command_ok_def)
  then show ?thesis using ok by (simp add: command command_ok_def)
next
  case (claim e db)
  from claim(2) obtain e0 where e0: "e0 \<in> set (outbox (p_db s))" "ob_topic e = ob_topic e0" "ob_payload e = ob_payload e0"
    "ob_aggregate_id e = ob_aggregate_id e0" and db: "db = update_event (ob_id e0)
       (\<lambda>e. e\<lparr>ob_locked_at := Some (p_now s), ob_attempts := ob_attempts e + 1\<rparr>) (p_db s)"
    by (rule claimed_event)
  have "event_ok (p_db s) e0" using inv e0(1) by (simp add: plane_inv_def)
  then have "event_ok (p_db s) e" using e0 by (simp add: event_ok_def speaks_of_service_def)
  then have "event_ok db e" using event_ok_cong [of db "p_db s"] db by simp
  have pdb: "p_db s' = update_event (ob_id e0)
       (\<lambda>e. e\<lparr>ob_locked_at := Some (p_now s), ob_attempts := ob_attempts e + 1\<rparr>) (p_db s)"
    by (simp add: claim(1) db)
  have "plane_inv pf w s'"
    by (rule plane_inv_events [OF inv pdb]) (use \<open>event_ok db e\<close> in \<open>auto simp: claim(1)\<close>)
  then show ?thesis by (simp add: claim db unchanged_table_step)
next
  case (start xs e ys jti rq)
  have "sent_ok (p_db s) e rq" using inv started_sent_ok [OF _ start(3)] by (simp add: plane_inv_def)
  moreover have "event_ok (p_db s) e" using inv start(2) by (simp add: plane_inv_def work_ok_def)
  ultimately have "work_ok s'" using inv start by (auto simp: plane_inv_def work_ok_def)
  then show ?thesis using inv start by (simp add: plane_inv_def ready_ok_def unchanged_table_step)
next
  case (nothing_to_send xs e ys jti)
  then have "work_ok s'" using inv by (auto simp: plane_inv_def work_ok_def)
  then show ?thesis using inv nothing_to_send by (simp add: plane_inv_def ready_ok_def unchanged_table_step)
next
  case (refuse xs e ys jti err)
  then have "work_ok s'" using inv by (auto simp: plane_inv_def work_ok_def)
  then show ?thesis using inv refuse by (simp add: plane_inv_def ready_ok_def unchanged_table_step)
next
  case (answer xs e rq ys r result db)
  have i: "store_inv pf (p_db s)" "flow_inv (p_db s)" "event_ok (p_db s) e" "sent_ok (p_db s) e rq" "ready_ok w s"
    using inv answer(2) by (simp_all add: plane_inv_def work_ok_def)
  note fin = finish_ok [OF i(1-4) answer(3)]
  have "ready_ok w s'"
    unfolding ready_ok_def
  proof (intro ballI impI)
    fix r' assume "r' \<in> set (services (p_db s'))" "s_state r' = Ready"
    with fin consider x where "x \<in> set (services (p_db s))" "s_state x = Ready" "same_version x r'" "s_status r' = s_status x"
      | "accepted_by w rq r r'" by (auto simp: answer(1))
    then show "\<exists>(rq, a) \<in> set (p_calls s'). accepted_by w rq a r'"
    proof cases
      case 1
      then show ?thesis using i(5) accepted_by_same_version unfolding ready_ok_def answer(1) by fastforce
    next
      case 2
      then show ?thesis by (auto simp: answer(1))
    qed
  qed
  moreover have "outbox db = outbox (p_db s)" using finish_frame(1) [of w e "Some r" "p_db s"] answer(3) by simp
  moreover have "event_ok db e" using fin i(3) event_ok_step by blast
  ultimately have "plane_inv pf w s'"
    using fin by (intro plane_inv_step [OF inv]) (auto simp: answer(1,2))
  then show ?thesis using fin by (simp add: answer(1))
next
  case (lost xs e rq ys result db)
  then have "db = p_db s" by (simp add: finish_delivery_def)
  moreover then have "work_ok s'" using inv lost by (auto simp: plane_inv_def work_ok_def)
  ultimately show ?thesis using inv lost by (simp add: plane_inv_def ready_ok_def unchanged_table_step)
next
  case (settle xs e result ys)
  obtain f where f: "Outbox_Worker.settle (p_now s) e result (p_db s) = update_event (ob_id e) f (p_db s)"
    "\<forall>e. ob_topic (f e) = ob_topic e \<and> ob_payload (f e) = ob_payload e \<and> ob_aggregate_id (f e) = ob_aggregate_id e"
    by (rule settle_update)
  then have "p_db s' = update_event (ob_id e) f (p_db s)" by (simp add: settle(1))
  then have "plane_inv pf w s'"
    by (rule plane_inv_events [OF inv]) (use f(2) in \<open>auto simp: settle\<close>)
  then show ?thesis by (simp add: settle f(1) unchanged_table_step)
next
  case (crash xs x ys)
  then have "work_ok s'" using inv by (auto simp: plane_inv_def work_ok_def)
  then show ?thesis using inv crash by (simp add: plane_inv_def ready_ok_def unchanged_table_step)
qed

subsection \<open>Simulation\<close>

text \<open>
  A step relation with an invariant whose steps are steps of an abstract relation, or invisible to
  it: what every abstract step respects is respected by every run.
\<close>

locale simulation =
  fixes start_state :: "'c \<Rightarrow> bool" and concrete :: "'c \<Rightarrow> 'c \<Rightarrow> bool" and good :: "'c \<Rightarrow> bool"
    and view :: "'c \<Rightarrow> 'a" and abstract_step :: "'a \<Rightarrow> 'a \<Rightarrow> bool"
  assumes start_good: "start_state s \<Longrightarrow> good s"
    and step_good: "good s \<Longrightarrow> concrete s s' \<Longrightarrow> good s'"
    and step_simulated: "good s \<Longrightarrow> concrete s s' \<Longrightarrow> view s' = view s \<or> abstract_step (view s) (view s')"
begin

lemma run_good: "concrete\<^sup>*\<^sup>* s s' \<Longrightarrow> good s \<Longrightarrow> good s'"
  by (induction rule: rtranclp_induct) (auto intro: step_good)

lemma reachable_good: "start_state s \<Longrightarrow> concrete\<^sup>*\<^sup>* s s' \<Longrightarrow> good s'"
  using run_good start_good by blast

lemma run_simulated: "concrete\<^sup>*\<^sup>* s s' \<Longrightarrow> good s \<Longrightarrow> abstract_step\<^sup>*\<^sup>* (view s) (view s')"
proof (induction rule: rtranclp_induct)
  case (step t u)
  then have "good t" by (auto intro: run_good)
  with step step_simulated [of t u] show ?case by (auto intro: rtranclp.rtrancl_into_rtrancl)
qed simp

lemma run_respects:
  assumes "concrete\<^sup>*\<^sup>* s s'" "good s"
    and "\<And>x. R x x" "\<And>x y z. R x y \<Longrightarrow> R y z \<Longrightarrow> R x z"
    and "\<And>a b. abstract_step a b \<Longrightarrow> R (f a) (f b)"
  shows "R (f (view s)) (f (view s'))"
  using run_simulated [OF assms(1,2)]
  by (induction rule: rtranclp_induct) (auto intro: assms(3,5) assms(4))

end

interpretation plane_life: simulation fresh_plane "plane_step pf w targets" "plane_inv pf w"
  "\<lambda>s. phase_of (p_db s)" life_step for pf :: "('n::linorder) platform" and w targets
proof
  fix s s'
  show "fresh_plane s \<Longrightarrow> plane_inv pf w s" by (rule fresh_plane_inv)
  assume good: "plane_inv pf w s" and step: "plane_step pf w targets s s'"
  show "plane_inv pf w s'" using plane_step_inv [OF good step] by simp
  have "ids_ok (p_db s)" using good by (simp add: plane_inv_def)
  with plane_step_inv [OF good step] show "phase_of (p_db s') = phase_of (p_db s)
      \<or> life_step (phase_of (p_db s)) (phase_of (p_db s'))" by (intro table_step_refines) simp_all
qed

subsection \<open>An example\<close>

definition demo_create :: command where
  "demo_create = CreateService 2 20 5 Vpc (lit ''net'') (VpcSpec demo_vpc) 52 None"

definition demo_plane :: "store \<Rightarrow> (outbox_row \<times> stage) list \<Rightarrow> (provider_request \<times> http_response) list \<Rightarrow> plane" where
  "demo_plane db work calls = \<lparr>p_db = db, p_now = 10, p_work = work, p_calls = calls\<rparr>"

definition demo_vpc_row :: service_row where
  "demo_vpc_row = \<lparr>s_id = 52, s_organization_id = 2, s_project_id = 20, s_provider = Vpc, s_name = lit ''net'',
     s_generation = 1, s_state = Provisioning, s_spec = VpcSpec demo_vpc, s_status = JObject [],
     s_quota_user_id = Some 7\<rparr>"

definition demo_event :: outbox_row where
  "demo_event = new_event 90 10 TopicReconcile (service_event_of 52 2 20 5 Vpc 1)"

definition demo_db1 :: store where
  "demo_db1 = demo_store\<lparr>services := [demo_vpc_row], quota_owners := [(52, 2, Some 7)], outbox := [demo_event]\<rparr>"

lemma demo_vpc_prepared: "prepare_vpc_spec demo_store 2 20 52 (VpcSpec demo_vpc) True = Inr (VpcSpec demo_vpc)"
proof -
  have "validate_vpc demo_vpc = Inr ()" by code_simp
  then show ?thesis
    by (simp add: prepare_vpc_spec_def demo_store_def demo_vpc_def rule_peer_attached_def)
qed

lemma demo_created: "run_command demo_platform (\<lambda>i. 90 + i) 10 demo_create demo_store = demo_db1"
proof -
  have "service_by_id demo_store 52 = None" "quota_principal demo_store 2 5 = Inr (Some 7)"
    "check_quota_owner demo_store 2 Vpc (Some 7) = Inr ()"
    by (simp_all add: service_by_id_def quota_principal_def check_quota_owner_def is_member_def metered_def
        demo_store_def demo_tables_def)
  moreover have "validate_owner_allocation demo_store 2 (Some 7) None Vpc spec False = Inr ()" for spec
    by (simp add: validate_owner_allocation_def validate_member_allocation_def metered_def default_quota_in_force
        demo_store_def)
  moreover have "insert_service demo_store demo_vpc_row
    = Inr (demo_store\<lparr>services := [demo_vpc_row], quota_owners := [(52, 2, Some 7)]\<rparr>)"
    by (simp add: insert_service_def unique_name_violation_def demo_vpc_row_def demo_store_def)
  moreover have "outbox demo_store = []" by (simp add: demo_store_def)
  ultimately show ?thesis
    by (simp add: demo_create_def create_service_instance_def demo_vpc_prepared prepare_spec_def Let_def
        validate_cloud_organization_allocation_def metered_def replace_gpu_request_if_flash_def committed_def
        demo_vpc_row_def [symmetric] demo_db1_def demo_event_def enqueue_def)
qed

definition demo_claimed :: outbox_row where
  "demo_claimed = demo_event\<lparr>ob_locked_at := Some 10, ob_attempts := 1\<rparr>"

definition demo_db2 :: store where
  "demo_db2 = demo_db1\<lparr>outbox := [demo_claimed]\<rparr>"

definition demo_response :: http_response where
  "demo_response = \<lparr>rs_status = 200, rs_content_type = None, rs_chunks = [], rs_broken = False\<rparr>"

definition demo_ready_row :: service_row where
  "demo_ready_row = demo_vpc_row\<lparr>s_state := Ready, s_status := operation_status (uuid_string 90) (JObject [])\<rparr>"

definition demo_db3 :: store where
  "demo_db3 = demo_db2\<lparr>services := [demo_ready_row]\<rparr>"

lemma demo_claim: "claim_outbox_event 10 demo_db1 = (Some demo_claimed, demo_db2)"
  by (simp add: claim_outbox_event_def next_event_def claimable_def demo_db1_def demo_event_def new_event_def
      demo_claimed_def demo_db2_def update_event_def)

lemma demo_start: "\<exists>rq. start_delivery demo_wire demo_targets 91 10 demo_db2 demo_claimed = Inr (Some rq)"
  by (simp add: start_delivery_def demo_claimed_def demo_event_def new_event_def decode_reconcile_def
      service_event_of_def demo_targets_def service_by_id_def demo_db2_def demo_db1_def demo_vpc_row_def
      service_instance_matches_payload_def start_service_call_def sign_def demo_wire_def reconcile_body_def
      provider_reconcile_spec_def)

lemma demo_finish: "finish_delivery demo_wire demo_claimed (Some demo_response) demo_db2 = (Inr (), demo_db3)"
  by (simp add: finish_delivery_def demo_claimed_def demo_event_def new_event_def decode_reconcile_def
      service_event_of_def finish_service_call_def provider_delete_already_absent_def demo_response_def is_success_def
      read_operation_def demo_wire_def provider_reconcile_failed_def stale_unless_def mark_service_instance_ready_def
      mark_service_instance_def demo_db2_def demo_db1_def demo_vpc_row_def demo_db3_def demo_ready_row_def)

abbreviation demo_step :: "plane \<Rightarrow> plane \<Rightarrow> bool" where
  "demo_step \<equiv> plane_step demo_platform demo_wire demo_targets"

abbreviation demo_start_plane :: plane where
  "demo_start_plane \<equiv> demo_plane demo_store [] []"

lemma demo_fresh: "fresh_plane demo_start_plane"
  by (simp add: fresh_plane_def demo_plane_def demo_store_def)

lemma demo_step_create: "demo_step demo_start_plane (demo_plane demo_db1 [] [])"
  using plane_step.command [where gen = "\<lambda>i. 90 + i" and s = demo_start_plane and c = demo_create
      and pf = demo_platform and w = demo_wire and targets = demo_targets]
  by (simp add: demo_plane_def demo_created) (simp add: demo_store_def)

lemma demo_run: "\<exists>rq. demo_step\<^sup>*\<^sup>* (demo_plane demo_db1 [] [])
  (demo_plane demo_db3 [(demo_claimed, Answered (Inr ()))] [(rq, demo_response)])"
proof -
  obtain rq where rq: "start_delivery demo_wire demo_targets 91 10 demo_db2 demo_claimed = Inr (Some rq)"
    using demo_start by blast
  have "demo_step (demo_plane demo_db1 [] []) (demo_plane demo_db2 [(demo_claimed, Claimed)] [])"
    using plane_step.claim [of "demo_plane demo_db1 [] []" demo_claimed demo_db2] demo_claim by (simp add: demo_plane_def)
  moreover have "demo_step (demo_plane demo_db2 [(demo_claimed, Claimed)] []) (demo_plane demo_db2 [(demo_claimed, Sent rq)] [])"
    using plane_step.start [of "demo_plane demo_db2 [(demo_claimed, Claimed)] []" "[]" demo_claimed "[]"] rq
    by (simp add: demo_plane_def)
  moreover have "demo_step (demo_plane demo_db2 [(demo_claimed, Sent rq)] [])
      (demo_plane demo_db3 [(demo_claimed, Answered (Inr ()))] [(rq, demo_response)])"
    using plane_step.answer [of "demo_plane demo_db2 [(demo_claimed, Sent rq)] []" "[]" demo_claimed rq "[]"] demo_finish
    by (simp add: demo_plane_def)
  ultimately show ?thesis by (meson converse_rtranclp_into_rtranclp rtranclp.rtrancl_refl)
qed

subsection \<open>Properties\<close>

text \<open>
  C3: In every state that calls of the API, workers, crashes and time can reach from an empty
  database, the service table satisfies its invariant (typed and valid specifications, usage below
  the ceilings of the platform, unique ports, bucket names and private names, attachments to networks
  that host them), credentials and contexts have unique keys, and every service has a quota owner.
\<close>

theorem plane_keeps_tables:
  assumes "fresh_plane s0" "(plane_step pf w targets)\<^sup>*\<^sup>* s0 s"
  shows "store_inv pf (p_db s) \<and> flow_inv (p_db s) \<and> ids_ok (p_db s)"
  using plane_life.reachable_good [OF assms] by (simp add: plane_inv_def)

theorem plane_keeps_tables_witness: "store_inv demo_platform demo_db3"
proof -
  obtain rq where "demo_step\<^sup>*\<^sup>* demo_start_plane
      (demo_plane demo_db3 [(demo_claimed, Answered (Inr ()))] [(rq, demo_response)])"
    using demo_run demo_step_create by (meson converse_rtranclp_into_rtranclp)
  from plane_keeps_tables [OF demo_fresh this] show ?thesis by (simp add: demo_plane_def)
qed

text \<open>
  C8: Seen from the services, every run of the control plane is a run of the abstract life cycle:
  a service is born at generation one, each replacement or deletion request raises its generation by
  one, only a doomed service is removed, and an identifier whose service is gone is never used again.
\<close>

theorem plane_refines_life_cycle:
  assumes "fresh_plane s0" "(plane_step pf w targets)\<^sup>*\<^sup>* s0 s" "(plane_step pf w targets)\<^sup>*\<^sup>* s s'"
  shows "life_step\<^sup>*\<^sup>* (phase_of (p_db s)) (phase_of (p_db s'))"
  by (rule plane_life.run_simulated [OF assms(3) plane_life.reachable_good [OF assms(1,2)]])

theorem plane_refines_life_cycle_witness:
  "life_step\<^sup>*\<^sup>* (phase_of demo_store) (phase_of demo_db1) \<and> phase_of demo_store 52 = Unborn \<and> phase_of demo_db1 52 = Alive 1"
proof -
  have "phase_of demo_store 52 = Unborn" "phase_of demo_db1 52 = Alive 1"
    by (simp_all add: phase_of_def service_by_id_def used_def demo_store_def demo_db1_def demo_vpc_row_def)
  moreover have "demo_step\<^sup>*\<^sup>* demo_start_plane (demo_plane demo_db1 [] [])" using demo_step_create by blast
  from plane_refines_life_cycle [OF demo_fresh rtranclp.rtrancl_refl this]
  have "life_step\<^sup>*\<^sup>* (phase_of demo_store) (phase_of demo_db1)" by (simp add: demo_plane_def)
  ultimately show ?thesis by simp
qed

text \<open>
  C4: A service never gets younger: in every run its generation never decreases, once its deletion
  has been requested it is only ever removed, and a removed service does not come back, whatever
  late answers and retried events the workers still hold.
\<close>

theorem deletion_is_final:
  assumes "fresh_plane s0" "(plane_step pf w targets)\<^sup>*\<^sup>* s0 s" "(plane_step pf w targets)\<^sup>*\<^sup>* s s'"
  shows "later_phase (phase_of (p_db s) sid) (phase_of (p_db s') sid)"
  by (rule plane_life.run_respects [where f = "\<lambda>f. f sid", OF assms(3) plane_life.reachable_good [OF assms(1,2)]])
     (auto intro: later_phase_trans life_step_later)

theorem deletion_is_final_witness:
  "later_phase (phase_of demo_db1 52) (phase_of demo_db3 52) \<and> phase_of demo_db3 52 = Alive 1"
proof -
  obtain rq where run: "demo_step\<^sup>*\<^sup>* (demo_plane demo_db1 [] [])
      (demo_plane demo_db3 [(demo_claimed, Answered (Inr ()))] [(rq, demo_response)])" using demo_run by blast
  have "demo_step\<^sup>*\<^sup>* demo_start_plane (demo_plane demo_db1 [] [])" using demo_step_create by blast
  from deletion_is_final [OF demo_fresh this run, of 52] show ?thesis
    by (simp add: demo_plane_def phase_of_def service_by_id_def demo_db3_def demo_ready_row_def demo_vpc_row_def)
qed



lemma flash_disk_kept:
  assumes "validate_flash_disk_update old status new = Inr ()" "persistent_storage_gib new = Some g"
  shows "retained_bytes old status \<le> u64_of g * GIB"
  using assms by (simp add: validate_flash_disk_update_def Let_def fail_if_def split: if_splits)

definition demo_updated_row :: service_row where
  "demo_updated_row = demo_vpc_row\<lparr>s_name := lit ''lan'', s_generation := 2, s_state := Updating\<rparr>"

lemma demo_updated: "\<exists>db'. update_service_instance_checked demo_platform 92 11 2 52 Vpc 5 None (lit ''lan'')
    (VpcSpec demo_vpc) (Some 1) demo_db1 = Inr (demo_updated_row, db')"
proof -
  have v: "validate_vpc demo_vpc = Inr ()" by code_simp
  have s: "service_owned demo_db1 52 2 Vpc = Some demo_vpc_row"
    by (simp add: service_owned_def demo_db1_def demo_vpc_row_def)
  have "validate_owner_allocation demo_db1 2 (Some 7) (Some 52) Vpc spec b = Inr ()" for spec b
    by (simp add: validate_owner_allocation_def validate_member_allocation_def metered_def default_quota_in_force
        demo_store_def demo_db1_def)
  moreover have "prepare_vpc_spec demo_db1 2 20 52 (VpcSpec demo_vpc) b = Inr (VpcSpec demo_vpc)" for b
    using v by (simp add: prepare_vpc_spec_def demo_db1_def demo_store_def demo_vpc_row_def attached_to_def)
       (simp add: demo_vpc_def rule_peer_attached_def)
  ultimately show ?thesis
    using s by (simp add: update_service_instance_checked_def demo_vpc_row_def prepare_spec_def Let_def
        validate_cloud_organization_allocation_def metered_def checked_add_i64_def unique_name_violation_def
        replace_gpu_request_if_flash_def demo_updated_row_def fail_if_def demo_db1_def demo_store_def)
qed



end
