(* ===== verification/Spec2Isabelle.thy ===== *)
theory Spec2Isabelle
  imports Organization_Routes Control_Plane
begin

text \<open>
  A verification library for HeteroCloud, a multi-tenant control plane written in Rust
  (\<open>src/crates/\<close>).

  \<^bold>\<open>The program.\<close> The API server (\<open>heterocloud-api\<close>) finds the caller behind a request, asks IAM
  (\<open>heterocloud-iam\<close>, policies of \<open>heterocloud-domain\<close>) whether the caller may do it, validates the
  input and calls the store (\<open>heterocloud-store\<close>, PostgreSQL). A change of a service is written with
  an outbox event; the worker (\<open>heterocloud-worker\<close>) claims events, calls the provider of the service
  with a signed request (\<open>heterocloud-provider\<close>) and records the answer.

  \<^bold>\<open>Conventions\<close> (\<open>HC_Prelude\<close>, \<open>Std_Net\<close>). A string is the list of its code points, a UUID a number,
  an instant a number of microseconds. A fallible function returns \<open>Inl\<close> of its error or \<open>Inr\<close> of its
  result, with one constructor for each variant of the source's error. A table is the list of its rows, and a
  transaction is a function from the tables to an error or to a result with the new tables, so an error
  rolls back. Identifiers and times that the code draws are arguments. Unsigned quantities that are
  summed or compared against limits are words of their width. Libraries outside the repository
  (\<open>serde_json\<close>, \<open>chrono\<close>, \<open>url\<close>, \<open>ipnet\<close>, cryptography, HTTP) are parameters.

  \<^bold>\<open>Authorization.\<close>
  \<^item> \<open>Wildcard\<close>: \<open>pattern_matches\<close>, a loop with a backtrack point, against the meaning of a pattern. It
    terminates within the product of the lengths, is sound, and is complete on values in which no star
    occurs before the end; where a star of the value meets one of the pattern it misses matches.
  \<^item> \<open>Policy_Domain\<close>, \<open>Role_Trust\<close>: the policy and trust grammars, their validation, and who may assume a role.
  \<^item> \<open>IAM\<close>: the evaluation of policies, which refines the decision kernel of \<open>src/lean/HeteroCloud/IAM.lean\<close>. The
    restricting layers share the contract \<open>restricting_layer\<close>, proved closed under composition.
  \<^item> \<open>Access_Control\<close>: \<open>authorization_context\<close>, \<open>service_control_levels\<close> and
    \<open>authorize_actor_with_implicit_allow\<close>. A request passes exactly when every layer permits it, each
    decision is audited, and a credential bound to an account is refused elsewhere.

  \<^bold>\<open>Identities.\<close>
  \<^item> \<open>Cloud_Organizations\<close>: accounts, the tree of units, service control policies and the triggers of
    migration 0026; from an empty database every account always has its levels.
  \<^item> \<open>Sign_In\<close>: sessions, invitations, identities of an OpenID provider and the device flow, over the
    histories of their calls: a token goes back to an approval, an invitation admits one person.
  \<^item> \<open>Role_Sessions\<close>, \<open>Identity_Center\<close>: roles and role sessions, API keys, workload tokens, groups, and the
    permission sets, assignments and sessions of the identity center, with the references
    between their tables; access that has ended never comes back.

  \<^bold>\<open>Requests.\<close>
  \<^item> \<open>Authentication\<close>: \<open>heterocloud-auth\<close> and \<open>authenticated_actor_mutation\<close> and its relatives of \<open>routes.rs\<close>. An accepted
    caller holds a live credential, and a browser that acts as a role never falls back to its user.
  \<^item> \<open>IAM_Routes\<close>, \<open>Organization_Routes\<close>: the handlers of IAM, accounts, cloud organizations and the
    identity center as functions of the state behind the API. Whatever such a request changes was
    authorized, and a role is assumed only when its trust policy permits the caller.

  \<^bold>\<open>Services.\<close>
  \<^item> \<open>Quota_Limits\<close>, \<open>Vpc_Spec\<close>, \<open>Flash_Spec\<close>: the specifications of services, networks and quotas and
    what their validation guarantees.
  \<^item> \<open>Store_State\<close>, \<open>Allocation\<close>, \<open>Lifecycle\<close>: the tables of services, the admission of a specification and the
    operations on a service; \<open>Store_Invariants\<close> and \<open>Service_Invariant\<close> show the invariant they keep.
  \<^item> \<open>Quota_Admin\<close>, \<open>Flow_Credentials\<close>: the quotas of the platform, accounts and members; developer
    credentials and the access contexts minted with them.
  \<^item> \<open>Provider_Protocol\<close>, \<open>Outbox_Worker\<close>: the calls of a provider and the outbox with its leases
    (contract \<open>leased_queue\<close>). A lease is exclusive, a due event is reached, and the event of a removed service is retried for ever.
  \<^item> \<open>Service_Table\<close>, \<open>Control_Plane\<close>: calls of the API, workers, crashes and time interleaved as one step
    relation, which simulates (contract \<open>simulation\<close>) an abstract life cycle: a ready
    service is one whose present specification its provider accepted, and deletion is final.

  \<^bold>\<open>Bounds.\<close> No definition uses fuel: every loop of the source that is modelled is a terminating recursion, and
  the matcher carries a bound on the number of its iterations. Numeric limits are the constants of the source.

  \<^bold>\<open>What is simplified.\<close> Each transaction is atomic and isolated, as the advisory locks and row locks of the
  store make it for the rows concerned; failures of the database itself are left out. One request
  reads the clock once. Of a table's constraints those a definition names are modelled. The texts of the
  errors of other crates are not expanded in messages that quote them. Audit events do not have the
  request identifier, the source address and the metadata. Columns that are only displayed, such as
  the time of the last use, are not kept, and listings, which select and sort rows, have no definitions.

  \<^bold>\<open>Not modelled.\<close> The handlers of sign-in and of services, projects and quotas in \<open>routes.rs\<close> (the store
  operations they call are), since they join those operations with cookies, redirects and
  the HTTP answers of providers; the clients of providers, the registry and the secret manager, the
  verification of OpenID and of cluster tokens, and the SSH gateway, which are input and output
  with systems outside the repository; the background tasks, domains, backups and SSH keys of running containers,
  which have tables of their own; metrics, start-up and reading of configuration files; the command line client and the web
  console, clients of the same HTTP interface; charts and scripts.
\<close>

end
